(* ===== verification/Lsck_Prelude.thy ===== *)
theory Lsck_Prelude
  imports Main "HOL-Library.Word" "HOL-Library.Char_ord" "HOL-Library.Monad_Syntax"
begin

text \<open>
  Shared vocabulary of the development: the machine types of the 32-bit DJGPP target, the
  character classes of the C locale, C memory operations with their bounds written out, and the
  generic lemmas the component theories use.

  Conventions. A C string is the list of its characters before the terminating nul. An operation
  that may read or write outside an object, or through a null or freed pointer, returns an
  \<open>option\<close>: \<open>None\<close> stands for undefined behaviour, and \<open>Some\<close> for a normal return
  (error returns included).
\<close>

unbundle bit_operations_syntax

named_theorems ctype_simps \<open>definitions of the character classes\<close>
named_theorems mem_simps \<open>definitions of the bounded memory operations\<close>

type_synonym u8 = "8 word"
type_synonym u16 = "16 word"
type_synonym u32 = "32 word"

declare Option.bind_cong [fundef_cong]

section \<open>Characters\<close>

abbreviation chr_code :: "char \<Rightarrow> nat" where
  "chr_code c \<equiv> of_char c"

definition isascii :: "char \<Rightarrow> bool" where
  [ctype_simps]: "isascii c \<longleftrightarrow> chr_code c < 128"

definition isdigit :: "char \<Rightarrow> bool" where
  [ctype_simps]: "isdigit c \<longleftrightarrow> 48 \<le> chr_code c \<and> chr_code c \<le> 57"

definition islower :: "char \<Rightarrow> bool" where
  [ctype_simps]: "islower c \<longleftrightarrow> 97 \<le> chr_code c \<and> chr_code c \<le> 122"

definition isupper :: "char \<Rightarrow> bool" where
  [ctype_simps]: "isupper c \<longleftrightarrow> 65 \<le> chr_code c \<and> chr_code c \<le> 90"

definition isxdigit :: "char \<Rightarrow> bool" where
  [ctype_simps]: "isxdigit c \<longleftrightarrow> isdigit c \<or> (65 \<le> chr_code c \<and> chr_code c \<le> 70)
     \<or> (97 \<le> chr_code c \<and> chr_code c \<le> 102)"

definition isspace :: "char \<Rightarrow> bool" where
  [ctype_simps]: "isspace c \<longleftrightarrow> chr_code c = 32 \<or> (9 \<le> chr_code c \<and> chr_code c \<le> 13)"

definition toupper :: "char \<Rightarrow> char" where
  [ctype_simps]: "toupper c = (if islower c then char_of (chr_code c - 32) else c)"

definition tolower :: "char \<Rightarrow> char" where
  [ctype_simps]: "tolower c = (if isupper c then char_of (chr_code c + 32) else c)"

lemma chr_code_less_256 [simp]: "chr_code c < 256"
  using of_char_mod_256 [of c, where 'a = nat] by (metis mod_less_divisor zero_less_numeral)

section \<open>Decimal output (the d conversion of sprintf)\<close>

definition digit_char :: "nat \<Rightarrow> char" where
  "digit_char d = char_of (48 + d)"

fun dec_string :: "nat \<Rightarrow> string" where
  "dec_string n = (if n < 10 then [digit_char n] else dec_string (n div 10) @ [digit_char (n mod 10)])"

declare dec_string.simps [simp del]

lemma chr_code_digit_char: "d < 10 \<Longrightarrow> chr_code (digit_char d) = 48 + d"
  by (simp add: digit_char_def)

lemma isdigit_digit_char [simp]: "d < 10 \<Longrightarrow> isdigit (digit_char d)"
  by (simp add: isdigit_def chr_code_digit_char)

lemma isascii_digit_char [simp]: "d < 10 \<Longrightarrow> isascii (digit_char d)"
  by (simp add: isascii_def chr_code_digit_char)

lemma dec_string_not_Nil [simp]: "dec_string n \<noteq> []"
  by (subst dec_string.simps) simp

lemma dec_string_digits: "c \<in> set (dec_string n) \<Longrightarrow> isascii c \<and> isdigit c"
proof (induction n arbitrary: c rule: dec_string.induct)
  case (1 n)
  then show ?case
    by (cases "n < 10") (auto simp: dec_string.simps [of n])
qed

lemma dec_string_length_bounds:
  "n < 10 \<Longrightarrow> length (dec_string n) = 1"
  "10 \<le> n \<Longrightarrow> n < 100 \<Longrightarrow> length (dec_string n) = 2"
  "100 \<le> n \<Longrightarrow> n < 1000 \<Longrightarrow> length (dec_string n) = 3"
  by (simp_all add: dec_string.simps [of n] dec_string.simps [of "n div 10"]
      dec_string.simps [of "n div 100"] div_mult2_eq [symmetric] div_less_iff_less_mult
      not_less less_eq_div_iff_mult_less_eq)

text \<open>The first digit is a zero only for zero itself.\<close>

lemma dec_string_hd: "0 < n \<Longrightarrow> hd (dec_string n) \<noteq> CHR ''0''"
proof (induction n rule: dec_string.induct)
  case (1 n)
  show ?case
  proof (cases "n < 10")
    case True
    then have "chr_code (digit_char n) \<noteq> chr_code (CHR ''0'')"
      using 1 by (simp add: chr_code_digit_char)
    then show ?thesis using True by (auto simp: dec_string.simps [of n])
  next
    case False
    with 1 show ?thesis by (simp add: dec_string.simps [of n])
  qed
qed

section \<open>Memory\<close>

text \<open>Reading one element; outside the object the read is undefined.\<close>

definition rd :: "'a list \<Rightarrow> nat \<Rightarrow> 'a option" where
  [mem_simps]: "rd xs i = (if i < length xs then Some (xs ! i) else None)"

text \<open>Writing a block of elements at an offset; outside the object the write is undefined.\<close>

definition wr :: "'a list \<Rightarrow> nat \<Rightarrow> 'a list \<Rightarrow> 'a list option" where
  [mem_simps]: "wr xs i ys = (if i + length ys \<le> length xs
     then Some (take i xs @ ys @ drop (i + length ys) xs) else None)"

text \<open>\<open>memcpy (dst, src, n)\<close> with \<open>n\<close> bytes read from the start of \<open>src\<close>.\<close>

definition memcpy :: "'a list \<Rightarrow> 'a list \<Rightarrow> nat \<Rightarrow> 'a list option" where
  [mem_simps]: "memcpy dst src n = (if n \<le> length dst \<and> n \<le> length src
     then Some (take n src @ drop n dst) else None)"

text \<open>\<open>bzero (dst, n)\<close>.\<close>

definition bzero :: "u8 list \<Rightarrow> nat \<Rightarrow> u8 list option" where
  [mem_simps]: "bzero dst n = (if n \<le> length dst then Some (replicate n 0 @ drop n dst) else None)"

lemma rd_Some [simp]: "i < length xs \<Longrightarrow> rd xs i = Some (xs ! i)"
  by (simp add: rd_def)

lemma rd_out [simp]: "length xs \<le> i \<Longrightarrow> rd xs i = None"
  by (simp add: rd_def)

lemma rd_eq_None [simp]: "rd xs i = None \<longleftrightarrow> length xs \<le> i"
  by (simp add: rd_def)

lemma wr_length: "wr xs i ys = Some zs \<Longrightarrow> length zs = length xs"
  by (auto simp: wr_def split: if_splits)

lemma wr_eq_None [simp]: "wr xs i ys = None \<longleftrightarrow> length xs < i + length ys"
  by (auto simp: wr_def)

lemma memcpy_length: "memcpy dst src n = Some r \<Longrightarrow> length r = length dst"
  by (auto simp: memcpy_def split: if_splits)

lemma bzero_length: "bzero dst n = Some r \<Longrightarrow> length r = length dst"
  by (auto simp: bzero_def split: if_splits)

lemma wr_take: "wr xs i ys = Some zs \<Longrightarrow> take i zs = take i xs"
  by (auto simp: wr_def split: if_splits)

lemma wr_take_full: "wr xs i ys = Some zs \<Longrightarrow> take (i + length ys) zs = take i xs @ ys"
  by (auto simp: wr_def split: if_splits)

section \<open>Lists\<close>

lemma takeWhile_all: "\<forall>x \<in> set xs. P x \<Longrightarrow> takeWhile P xs = xs"
  by (induction xs) auto

lemma nth_take_drop_eq: "i < n \<Longrightarrow> j + i < length xs \<Longrightarrow> take n (drop j xs) ! i = xs ! (j + i)"
  by simp

end
