(* ===== verification/Inet_Addr.thy ===== *)
theory Inet_Addr
  imports Lsck_Prelude
begin

text \<open>
  The Internet address routines of \<open>src/inet\<close>: \<open>inet_aton\<close>, \<open>inet_addr\<close>
  (i_addr.c), \<open>inet_network\<close> (i_net.c), \<open>inet_ntoa\<close> (i_ntoa.c), \<open>inet_ntop\<close>
  (i_ntop.c), \<open>inet_pton\<close> (i_pton.c), \<open>inet_lnaof\<close>, \<open>inet_netof\<close>,
  \<open>inet_makeaddr\<close> and the NSAP conversions (i_nsap.c).

  \<open>u_long\<close> is 32 bits wide and its arithmetic wraps. An \<open>in_addr\<close> is the 32-bit
  word stored in memory; the target is little endian, so byte \<open>i\<close> of the object is
  bits \<open>8i .. 8i+7\<close> and \<open>htonl\<close> reverses the four bytes. The character classes are
  those of the C locale; a character above 127 belongs to none of them.
\<close>

section \<open>Byte order\<close>

definition byte_at :: "u32 \<Rightarrow> nat \<Rightarrow> u32" where
  "byte_at w i = drop_bit (8 * i) w AND 0xff"

definition htonl :: "u32 \<Rightarrow> u32" where
  "htonl w = push_bit 24 (byte_at w 0) OR push_bit 16 (byte_at w 1)
     OR push_bit 8 (byte_at w 2) OR byte_at w 3"

abbreviation ntohl :: "u32 \<Rightarrow> u32" where
  "ntohl \<equiv> htonl"

definition INADDR_NONE :: u32 where
  "INADDR_NONE = 0xffffffff"

section \<open>inet_aton and inet_addr\<close>

text \<open>The base of a number: 0x is hexadecimal, 0 octal, anything else decimal.\<close>

definition number_base :: "string \<Rightarrow> u32 \<times> string" where
  "number_base cp = (case cp of
       c # cs \<Rightarrow>
         if c = CHR ''0'' then
           (case cs of
              x # ds \<Rightarrow> if x = CHR ''x'' \<or> x = CHR ''X'' then (16, ds) else (8, cs)
            | [] \<Rightarrow> (8, []))
         else (10, cp)
     | [] \<Rightarrow> (10, []))"

definition hex_letter :: "char \<Rightarrow> u32" where
  "hex_letter c = of_nat (chr_code c + 10 - (if islower c then chr_code (CHR ''a'') else chr_code (CHR ''A'')))"

text \<open>The loop that collects one number; it stops at the first character that is not a digit.\<close>

fun aton_digits :: "u32 \<Rightarrow> u32 \<Rightarrow> string \<Rightarrow> u32 \<times> string" where
  "aton_digits base val [] = (val, [])"
| "aton_digits base val (c # cs) =
     (if isascii c \<and> isdigit c then
        aton_digits base (val * base + of_nat (chr_code c - 48)) cs
      else if base = 16 \<and> isascii c \<and> isxdigit c then
        aton_digits base (push_bit 4 val + hex_letter c) cs
      else (val, c # cs))"

text \<open>
  The outer loop. The result is \<open>None\<close> where the C code returns 0, and otherwise the
  stored parts, the last number and the rest of the text.
\<close>

function aton_parts :: "u32 list \<Rightarrow> string \<Rightarrow> (u32 list \<times> u32 \<times> string) option" where
  "aton_parts parts cp =
     (let (base, cp1) = number_base cp;
          (val, cp2) = aton_digits base 0 cp1
      in case cp2 of
           c # cs \<Rightarrow>
             if c = CHR ''.'' then
               if length parts \<ge> 3 \<or> val > 0xff then None
               else aton_parts (parts @ [val]) cs
             else Some (parts, val, cp2)
         | [] \<Rightarrow> Some (parts, val, []))"
  by pat_completeness auto
termination
  by (relation "measure (\<lambda>(parts, cp). 3 - length parts)") auto

declare aton_parts.simps [simp del]

definition aton_address :: "u32 list \<Rightarrow> u32 \<Rightarrow> u32 option" where
  "aton_address parts val = (case parts of
       [] \<Rightarrow> Some val
     | [a] \<Rightarrow> if val > 0xffffff then None else Some (val OR push_bit 24 a)
     | [a, b] \<Rightarrow> if val > 0xffff then None
                else Some (val OR (push_bit 24 a OR push_bit 16 b))
     | [a, b, c] \<Rightarrow> if val > 0xff then None
                else Some (val OR (push_bit 24 a OR push_bit 16 b OR push_bit 8 c))
     | _ \<Rightarrow> Some val)"

text \<open>
  \<open>inet_aton\<close>: \<open>None\<close> is the return value 0, \<open>Some a\<close> is the return value 1 with
  \<open>a\<close> stored in \<open>s_addr\<close>.
\<close>

definition inet_aton :: "string \<Rightarrow> u32 option" where
  "inet_aton cp = (case aton_parts [] cp of
       None \<Rightarrow> None
     | Some (parts, val, rest) \<Rightarrow>
         if rest \<noteq> [] \<and> (\<not> isascii (hd rest) \<or> \<not> isspace (hd rest)) then None
         else map_option htonl (aton_address parts val))"

definition inet_addr :: "string \<Rightarrow> u32" where
  "inet_addr cp = (case inet_aton cp of Some a \<Rightarrow> a | None \<Rightarrow> INADDR_NONE)"

section \<open>inet_network\<close>

fun network_digits :: "u32 \<Rightarrow> u32 \<Rightarrow> string \<Rightarrow> u32 \<times> string" where
  "network_digits base val [] = (val, [])"
| "network_digits base val (c # cs) =
     (if isdigit c then network_digits base (val * base + of_nat (chr_code c - 48)) cs
      else if base = 16 \<and> isxdigit c then
        network_digits base (push_bit 4 val + hex_letter c) cs
      else (val, c # cs))"

definition pack_parts :: "u32 list \<Rightarrow> u32" where
  "pack_parts ps = foldl (\<lambda>val p. push_bit 8 val OR (p AND 0xff)) 0 ps"

text \<open>
  \<open>parts\<close> has room for four words. The number after the fourth dot is stored before the
  count is tested, so a text with four dots writes behind the array: \<open>None\<close>.
\<close>

function inet_network_from :: "u32 list \<Rightarrow> string \<Rightarrow> u32 option" where
  "inet_network_from parts cp =
     (let (base, cp1) = number_base cp;
          (val, cp2) = network_digits base 0 cp1
      in if cp2 \<noteq> [] \<and> hd cp2 = CHR ''.'' then
           if length parts \<ge> 4 then Some INADDR_NONE
           else inet_network_from (parts @ [val]) (tl cp2)
         else if cp2 \<noteq> [] \<and> \<not> isspace (hd cp2) then Some INADDR_NONE
         else if length parts \<ge> 4 then None
         else if length (parts @ [val]) > 4 then Some INADDR_NONE
         else Some (pack_parts (parts @ [val])))"
  by pat_completeness auto
termination
  by (relation "measure (\<lambda>(parts, cp). 4 - length parts)") auto

declare inet_network_from.simps [simp del]

definition inet_network :: "string \<Rightarrow> u32 option" where
  "inet_network cp = inet_network_from [] cp"

section \<open>Text output\<close>

definition ntoa_byte :: "u32 \<Rightarrow> nat \<Rightarrow> string" where
  "ntoa_byte a i = dec_string (unat (byte_at a i))"

definition inet_ntoa :: "u32 \<Rightarrow> string" where
  "inet_ntoa a = ntoa_byte a 0 @ ''.'' @ ntoa_byte a 1 @ ''.'' @ ntoa_byte a 2 @ ''.'' @ ntoa_byte a 3"

datatype ntop_result = NtopFault | NtopNoSpace | NtopNoFamily | NtopText string

definition AF_INET :: int where
  "AF_INET = 2"

definition INET_ADDRSTRLEN :: nat where
  "INET_ADDRSTRLEN = 16"

text \<open>
  \<open>inet_ntop\<close>: the three error returns set \<open>errno\<close> to \<open>EFAULT\<close>, \<open>ENOSPC\<close>
  and \<open>EAFNOSUPPORT\<close>; \<open>have_dst\<close> is \<open>dst != NULL\<close>.
\<close>

definition inet_ntop :: "int \<Rightarrow> u32 \<Rightarrow> bool \<Rightarrow> nat \<Rightarrow> ntop_result" where
  "inet_ntop af src have_dst dsize =
     (if \<not> have_dst then NtopFault
      else if af = AF_INET then
        (if dsize < INET_ADDRSTRLEN then NtopNoSpace
         else NtopText (ntoa_byte src 0 @ ''.'' @ ntoa_byte src 1 @ ''.'' @ ntoa_byte src 2
                @ ''.'' @ ntoa_byte src 3))
      else NtopNoFamily)"

text \<open>\<open>inet_pton\<close>: the return value, the stored address and whether \<open>errno\<close> is set to
  \<open>EAFNOSUPPORT\<close>.\<close>

definition inet_pton :: "int \<Rightarrow> string \<Rightarrow> int \<times> u32 option \<times> bool" where
  "inet_pton af src =
     (if af = AF_INET then
        (case inet_aton src of Some a \<Rightarrow> (1, Some a, False) | None \<Rightarrow> (0, None, False))
      else (-1, None, True))"

section \<open>Classful network and host parts\<close>

definition IN_CLASSA :: "u32 \<Rightarrow> bool" where
  "IN_CLASSA a \<longleftrightarrow> a AND 0x80000000 = 0"

definition IN_CLASSB :: "u32 \<Rightarrow> bool" where
  "IN_CLASSB a \<longleftrightarrow> a AND 0xc0000000 = 0x80000000"

definition inet_lnaof :: "u32 \<Rightarrow> u32" where
  "inet_lnaof ina = (let i = ntohl ina in
     if IN_CLASSA i then i AND 0x00ffffff
     else if IN_CLASSB i then i AND 0x0000ffff
     else i AND 0x000000ff)"

definition inet_netof :: "u32 \<Rightarrow> u32" where
  "inet_netof ina = (let i = ntohl ina in
     if IN_CLASSA i then drop_bit 24 (i AND 0xff000000)
     else if IN_CLASSB i then drop_bit 16 (i AND 0xffff0000)
     else drop_bit 8 (i AND 0xffffff00))"

definition inet_makeaddr :: "u32 \<Rightarrow> u32 \<Rightarrow> u32" where
  "inet_makeaddr net host =
     htonl (if net < 128 then push_bit 24 net OR (host AND 0x00ffffff)
       else if net < 65536 then push_bit 16 net OR (host AND 0x0000ffff)
       else if net < 16777216 then push_bit 8 net OR (host AND 0x000000ff)
       else net OR host)"

section \<open>NSAP addresses\<close>

definition xtob :: "char \<Rightarrow> u8" where
  "xtob c = of_nat (chr_code c - (if isdigit c then chr_code (CHR ''0'') else chr_code (CHR ''7'')))"

text \<open>
  \<open>inet_nsap_addr\<close>: the returned length and the bytes stored through \<open>binary\<close>.
  \<open>maxlen\<close> is compared as an unsigned number.
\<close>

fun nsap_addr_loop :: "u32 \<Rightarrow> u8 list \<Rightarrow> string \<Rightarrow> nat \<times> u8 list" where
  "nsap_addr_loop maxlen bin [] = (length bin, bin)"
| "nsap_addr_loop maxlen bin (c # cs) =
     (if \<not> of_nat (length bin) < maxlen then (length bin, bin)
      else if c = CHR ''.'' \<or> c = CHR ''+'' \<or> c = CHR ''/'' then nsap_addr_loop maxlen bin cs
      else if \<not> isascii c then (0, bin)
      else let c1 = (if islower c then toupper c else c)
        in if isxdigit c1 then
          (case cs of
             [] \<Rightarrow> (0, bin)
           | d # ds \<Rightarrow>
               let d1 = toupper d
               in if isxdigit d1 then
                    nsap_addr_loop maxlen (bin @ [push_bit 4 (xtob c1) OR xtob d1]) ds
                  else (0, bin))
        else (0, bin))"

definition inet_nsap_addr :: "string \<Rightarrow> u32 \<Rightarrow> nat \<times> u8 list" where
  "inet_nsap_addr ascii maxlen = nsap_addr_loop maxlen [] ascii"

definition nib_char :: "nat \<Rightarrow> char" where
  "nib_char nib = char_of (nib + (if nib < 10 then chr_code (CHR ''0'') else chr_code (CHR ''7'')))"

text \<open>The output loop from index \<open>i\<close>; reading past the bytes of \<open>binary\<close> is undefined.\<close>

function nsap_ntoa_loop :: "nat \<Rightarrow> nat \<Rightarrow> u8 list \<Rightarrow> string option" where
  "nsap_ntoa_loop i binlen binary =
     (if i < binlen then do {
        b \<leftarrow> rd binary i;
        rest \<leftarrow> nsap_ntoa_loop (Suc i) binlen binary;
        Some ([nib_char (unat (drop_bit 4 b)), nib_char (unat (b AND 0x0f))]
          @ (if i mod 2 = 0 \<and> i + 1 < binlen then ''.'' else []) @ rest)
      } else Some [])"
  by pat_completeness auto
termination
  by (relation "measure (\<lambda>(i, binlen, binary). binlen - i)") auto

declare nsap_ntoa_loop.simps [simp del]

definition inet_nsap_ntoa :: "int \<Rightarrow> u8 list \<Rightarrow> string option" where
  "inet_nsap_ntoa binlen binary =
     nsap_ntoa_loop 0 (nat (if binlen > 255 then 255 else binlen)) binary"


section \<open>Facts about the conversions\<close>


lemma mask_ff: "(0xff :: u32) = mask 8" by (simp add: mask_eq_exp_minus_1)

lemma bit_byte_at [bit_simps]: "bit (byte_at w i) n \<longleftrightarrow> n < 8 \<and> bit w (8 * i + n)"
  by (auto simp add: byte_at_def mask_ff bit_simps) 

lemma bit_htonl [bit_simps]:
  "bit (htonl w) n \<longleftrightarrow> n < 32 \<and> bit w (8 * (3 - n div 8) + n mod 8)"
proof (cases "n < 32")
  case True
  define m where "m = n mod 8"
  have m: "m < 8" by (simp add: m_def)
  have n: "n = 8 * (n div 8) + m" by (simp add: m_def)
  from True have "n div 8 < 4" by simp
  then consider "n div 8 = 0" | "n div 8 = 1" | "n div 8 = 2" | "n div 8 = 3" by linarith
  then consider "n = m" | "n = 8 + m" | "n = 16 + m" | "n = 24 + m"
    by cases (use n in simp_all)
  moreover have "(8 + m) div 8 = 1" "(16 + m) div 8 = 2" "(24 + m) div 8 = 3"
      "(8 + m) mod 8 = m" "(16 + m) mod 8 = m" "(24 + m) mod 8 = m"
    using m by presburger+
  ultimately show ?thesis
    by cases (use m in \<open>simp_all add: htonl_def bit_simps\<close>)
next
  case False
  then show ?thesis by (simp add: bit_simps impossible_bit)
qed

lemma htonl_htonl [simp]: "htonl (htonl w) = w"
proof (rule bit_word_eqI)
  fix n assume "n < LENGTH(32)"
  then have "n < 32" by simp
  moreover have "8 * (3 - n div 8) + n mod 8 < 32" by simp
  moreover have "(8 * (3 - n div 8) + n mod 8) div 8 = 3 - n div 8" by simp
  ultimately show "bit (htonl (htonl w)) n = bit w n"
    by (auto simp add: bit_simps)
qed

lemma byte_at_less: "unat (byte_at w i) < 256"
proof -
  have "byte_at w i = take_bit 8 (drop_bit (8 * i) w)"
    by (simp add: byte_at_def mask_ff take_bit_eq_mask)
  then show ?thesis using take_bit_nat_less_exp [of 8 "unat (drop_bit (8 * i) w)"] by (simp add: unsigned_take_bit_eq)
qed

lemma join_bytes:
  "byte_at w 3 OR (push_bit 24 (byte_at w 0) OR push_bit 16 (byte_at w 1) OR push_bit 8 (byte_at w 2)) = htonl w"
  by (simp add: htonl_def ac_simps)

lemma aton_digits_append:
  "list_all (\<lambda>c. isascii c \<and> isdigit c) ds \<Longrightarrow>
   aton_digits 10 v (ds @ cs) = aton_digits 10 (foldl (\<lambda>a c. a * 10 + of_nat (chr_code c - 48)) v ds) cs"
  by (induction ds arbitrary: v) auto

lemma foldl_dec_string:
  "foldl (\<lambda>a c. a * 10 + of_nat (chr_code c - 48)) (0::u32) (dec_string n) = of_nat n"
proof (induction n rule: dec_string.induct)
  case (1 n)
  show ?case
  proof (cases "n < 10")
    case True
    then show ?thesis by (simp add: dec_string.simps [of n] chr_code_digit_char)
  next
    case False
    have "(of_nat (n div 10) * 10 + of_nat (n mod 10) :: u32) = of_nat (n div 10 * 10 + n mod 10)"
      by (simp only: of_nat_add of_nat_mult of_nat_numeral)
    then show ?thesis using False 1 
      by (simp add: dec_string.simps [of n] chr_code_digit_char)
  qed
qed

lemma aton_digits_stop: "rest = [] \<or> hd rest = CHR ''.'' \<Longrightarrow> aton_digits 10 v rest = (v, rest)"
  by (cases rest) (auto simp: ctype_simps)

lemma aton_digits_8_0: "rest = [] \<or> hd rest = CHR ''.'' \<Longrightarrow> aton_digits 8 v rest = (v, rest)"
  by (cases rest) (auto simp: ctype_simps)

lemma number_base_dec: 
  "0 < n \<Longrightarrow> number_base (dec_string n @ rest) = (10, dec_string n @ rest)"
  using dec_string_hd [of n] by (cases "dec_string n") (auto simp: number_base_def)

lemma dec_string_0: "dec_string 0 = ''0''"
  by code_simp

lemma scan_dec:
  assumes "rest = [] \<or> hd rest = CHR ''.''"
  shows "(let (base, cp1) = number_base (dec_string n @ rest) in aton_digits base 0 cp1) = (of_nat n, rest)"
proof (cases "n = 0")
  case True
  have "number_base (''0'' @ rest) = (8, rest)"
    using assms by (cases rest) (auto simp: number_base_def)
  then show ?thesis using True assms by (simp add: dec_string_0 aton_digits_8_0)
next
  case False
  have "list_all (\<lambda>c. isascii c \<and> isdigit c) (dec_string n)"
    by (auto simp: list_all_iff dest: dec_string_digits)
  then have "aton_digits 10 0 (dec_string n @ rest) = (of_nat n, rest)"
    using assms by (simp add: aton_digits_append foldl_dec_string aton_digits_stop)
  with False show ?thesis by (simp add: number_base_dec)
qed

lemma aton_parts_dec:
  assumes "length parts < 3" "n < 256"
  shows "aton_parts parts (dec_string n @ ''.'' @ rest) = aton_parts (parts @ [of_nat n]) rest"
proof -
  have "\<not> (of_nat n :: u32) > 0xff" using assms(2) by (simp add: word_less_nat_alt unat_of_nat)
  with assms(1) scan_dec [of "''.'' @ rest" n] show ?thesis
    by (subst aton_parts.simps) (auto split: prod.splits)
qed

lemma aton_parts_last:
  "aton_parts parts (dec_string n) = Some (parts, of_nat n, [])"
  using scan_dec [of "[]" n] by (subst aton_parts.simps) (auto split: prod.splits)

lemma of_nat_byte_at: "of_nat (unat (byte_at w i)) = byte_at w i"
  by simp


lemma mask_consts:
  "(0xff000000 :: u32) = NOT (mask 24)" "(0xffff0000 :: u32) = NOT (mask 16)"
  "(0xffffff00 :: u32) = NOT (mask 8)" "(0x00ffffff :: u32) = mask 24" "(0x0000ffff :: u32) = mask 16"
  "(0x000000ff :: u32) = mask 8"
  by (simp_all add: mask_eq_exp_minus_1)

lemma split_join:
  fixes i :: u32
  shows "push_bit k (drop_bit k (i AND NOT (mask k))) OR (i AND mask k) = i"
  by (rule bit_word_eqI) (auto simp: bit_simps)

lemma bit_exp_le:
  fixes w :: u32
  assumes "bit w n" shows "2 ^ n \<le> unat w"
proof -
  from assms have "bit (unat w) n" by (simp add: bit_unsigned_iff)
  then have "odd (unat w div 2 ^ n)" by (simp add: bit_iff_odd)
  then have "unat w div 2 ^ n \<noteq> 0" by (metis even_zero)
  then show ?thesis by (simp add: div_eq_0_iff not_less)
qed

lemma net_less:
  fixes i :: u32
  assumes "\<And>n. m \<le> n \<Longrightarrow> k + n < 32 \<Longrightarrow> \<not> bit i (k + n)"
  shows "unat (drop_bit k (i AND NOT (mask k))) < 2 ^ m"
proof -
  have "drop_bit k (i AND NOT (mask k)) = take_bit m (drop_bit k i)"
    by (rule bit_word_eqI) (use assms in \<open>auto simp: bit_simps not_le not_less dest: bit_imp_le_length\<close>, meson not_le)
  then show ?thesis
    using take_bit_nat_less_exp [of m "unat (drop_bit k i)"] by (simp add: unsigned_take_bit_eq)
qed

lemma net_ge:
  fixes i :: u32
  assumes "bit i (k + m)" shows "2 ^ m \<le> unat (drop_bit k (i AND NOT (mask k)))"
  by (rule bit_exp_le) (use assms in \<open>auto simp: bit_simps dest: bit_imp_le_length\<close>)

lemma and_bit31: "i AND 0x80000000 = (0::u32) \<longleftrightarrow> \<not> bit i 31"
proof -
  have "(0x80000000::u32) = push_bit 31 1" by simp
  then show ?thesis by (simp only: and_exp_eq_0_iff_not_bit push_bit_of_1) 
qed


lemma classA_iff: "IN_CLASSA i \<longleftrightarrow> \<not> bit i 31"
  by (simp add: IN_CLASSA_def and_bit31)

lemma classB_D: 
  assumes "IN_CLASSB i" shows "bit i 31" "\<not> bit i 30"
proof -
  have "bit (i AND 0xc0000000) 31 = bit (0x80000000 :: u32) 31" "bit (i AND 0xc0000000) 30 = bit (0x80000000 :: u32) 30"
    using assms by (simp_all add: IN_CLASSB_def)
  then show "bit i 31" "\<not> bit i 30" by (simp_all add: bit_and_iff)
qed

lemma makeaddr_cases:
  "unat net < 2 ^ 7 \<Longrightarrow> inet_makeaddr net host = htonl (push_bit 24 net OR (host AND mask 24))"
  "2 ^ 15 \<le> unat net \<Longrightarrow> unat net < 2 ^ 16 \<Longrightarrow>
     inet_makeaddr net host = htonl (push_bit 16 net OR (host AND mask 16))"
  "2 ^ 23 \<le> unat net \<Longrightarrow> unat net < 2 ^ 24 \<Longrightarrow>
     inet_makeaddr net host = htonl (push_bit 8 net OR (host AND mask 8))"
  by (simp_all add: inet_makeaddr_def word_less_nat_alt mask_eq_exp_minus_1)

lemma and_mask_idem: "(i AND mask k) AND mask k = (i AND mask k :: u32)"
  by (rule bit_word_eqI) (auto simp: bit_simps)


lemma nib_char_facts:
  assumes "k < 16"
  shows "chr_code (nib_char k) = k + (if k < 10 then 48 else 55)"
  using assms by (simp add: nib_char_def)

lemma nib_char_classes:
  assumes "k < 16"
  shows "isascii (nib_char k)" "isxdigit (nib_char k)" "\<not> islower (nib_char k)"
    "toupper (nib_char k) = nib_char k" "xtob (nib_char k) = of_nat k"
    "nib_char k \<noteq> CHR ''.''" "nib_char k \<noteq> CHR ''+''" "nib_char k \<noteq> CHR ''/''"
  using assms nib_char_facts [OF assms]
  by (auto simp: ctype_simps xtob_def split: if_splits)

lemma nibbles_join:
  "push_bit 4 (of_nat (unat (drop_bit 4 b))) OR of_nat (unat (b AND 0x0f)) = (b :: u8)"
proof -
  have "push_bit 4 (drop_bit 4 b) OR (b AND mask 4) = b"
    by (rule bit_word_eqI) (auto simp: bit_simps)
  then show ?thesis by (simp add: mask_eq_exp_minus_1)
qed

lemma nibble_less: "unat (drop_bit 4 (b :: u8)) < 16" "unat (b AND 0x0f :: u8) < 16"
proof -
  have "unat b < 2 ^ LENGTH(8)" by (rule unsigned_less)
  then show "unat (drop_bit 4 b) < 16" by (simp add: drop_bit_eq_div unat_div)
  have "unat (b AND 0x0f) \<le> unat (0x0f :: u8)" by (rule word_le_nat_alt [THEN iffD1]) (rule word_and_le1)
  then show "unat (b AND 0x0f) < 16" by simp
qed

lemma nsap_addr_byte:
  assumes "of_nat (length bin) < maxlen"
  shows "nsap_addr_loop maxlen bin
     (nib_char (unat (drop_bit 4 b)) # nib_char (unat (b AND 0x0f)) # rest) = nsap_addr_loop maxlen (bin @ [b]) rest"
  using assms nibbles_join [of b] by (simp add: nib_char_classes nibble_less)

lemma nsap_round:
  assumes "length bs = n" "n \<le> unat maxlen" "n \<le> 255" "i \<le> n"
  shows "\<exists>t. nsap_ntoa_loop i n bs = Some t \<and> nsap_addr_loop maxlen (take i bs) t = (n, bs)
     \<and> length t \<le> 3 * (n - i)"
  using assms
proof (induction i n bs rule: nsap_ntoa_loop.induct)
  case (1 i n bs)
  show ?case
  proof (cases "i < n")
    case False
    with 1 show ?thesis by (subst nsap_ntoa_loop.simps) simp
  next
    case True
    with 1 obtain t where t: "nsap_ntoa_loop (Suc i) n bs = Some t"
      "nsap_addr_loop maxlen (take (Suc i) bs) t = (n, bs)" "length t \<le> 3 * (n - Suc i)"
      by (metis Suc_leI rd_Some)
    have len: "length (take i bs) = i" and i: "i < length bs" "i < 2 ^ 32" using True 1 by auto
    then have lt: "of_nat (length (take i bs)) < maxlen"
      using True 1 by (simp add: word_less_nat_alt unat_of_nat)
    have dot: "nsap_addr_loop maxlen (take (Suc i) bs) (''.'' @ t) = (n, bs)" if "Suc i < n"
    proof -
      have "of_nat (length (take (Suc i) bs)) < maxlen"
        using that 1 by (simp add: word_less_nat_alt unat_of_nat min_def del: of_nat_Suc)
      then show ?thesis using t(2) by simp
    qed
    show ?thesis
      using True i t dot nsap_addr_byte [OF lt, of "bs ! i"]
      by (auto simp: nsap_ntoa_loop.simps [of i n bs] take_Suc_conv_app_nth)
  qed
qed


lemma network_digits_eq: "list_all isascii cs \<Longrightarrow> network_digits base v cs = aton_digits base v cs"
  by (induction base v cs rule: aton_digits.induct) auto

lemma number_base_list_all: "list_all P cs \<Longrightarrow> list_all P (snd (number_base cs))"
  by (auto simp: number_base_def split: list.splits)

lemma scan_dec_network:
  assumes "rest = [] \<or> hd rest = CHR ''.''" "list_all isascii rest"
  shows "(let (base, cp1) = number_base (dec_string n @ rest) in network_digits base 0 cp1) = (of_nat n, rest)"
proof -
  have "list_all isascii (dec_string n @ rest)"
    using assms(2) by (auto simp: list_all_iff dest: dec_string_digits)
  then have "list_all isascii (snd (number_base (dec_string n @ rest)))"
    by (rule number_base_list_all)
  then show ?thesis
    using scan_dec [OF assms(1), of n] by (auto simp: network_digits_eq split: prod.splits)
qed

lemma network_dec:
  assumes "length parts < 4" "list_all isascii rest"
  shows "inet_network_from parts (dec_string n @ ''.'' @ rest) = inet_network_from (parts @ [of_nat n]) rest"
proof -
  have "list_all isascii (''.'' @ rest)" using assms(2) by (simp add: ctype_simps)
  from scan_dec_network [OF _ this, of n] assms(1) show ?thesis
    by (subst inet_network_from.simps) (auto split: prod.splits)
qed

lemma network_last:
  "inet_network_from parts (dec_string n) =
     (if length parts \<ge> 4 then None else Some (pack_parts (parts @ [of_nat n])))"
  using scan_dec_network [of "[]" n] by (subst inet_network_from.simps) (auto split: prod.splits)

lemma isascii_dec: "list_all isascii (dec_string n)"
  by (auto simp: list_all_iff dest: dec_string_digits)

lemma isascii_dot: "isascii CHR ''.''" by (simp add: ctype_simps)



lemma aton_parts_bounds:
  "aton_parts parts cp = Some (ps, v, rest) \<Longrightarrow> length parts \<le> 3 \<Longrightarrow> \<forall>p \<in> set parts. p \<le> 0xff \<Longrightarrow>
   length ps \<le> 3 \<and> (\<forall>p \<in> set ps. p \<le> 0xff)"
proof (induction parts cp rule: aton_parts.induct)
  case (1 parts cp)
  obtain base cp1 where nb: "number_base cp = (base, cp1)" by (cases "number_base cp")
  obtain val cp2 where ad: "aton_digits base 0 cp1 = (val, cp2)" by (cases "aton_digits base 0 cp1")
  from 1(2) 1(1) [OF nb [symmetric] refl ad [symmetric] refl] 1(3,4) nb ad show ?case
    by (subst (asm) aton_parts.simps) (auto split: list.splits if_splits simp: not_less)
qed

lemma ntoa_byte_length: "length (ntoa_byte a i) \<le> 3"
proof -
  let ?n = "unat (byte_at a i)"
  have "?n < 256" by (rule byte_at_less)
  then consider "?n < 10" | "10 \<le> ?n" "?n < 100" | "100 \<le> ?n" "?n < 1000" by linarith
  then show ?thesis
    by cases (simp_all add: ntoa_byte_def dec_string_length_bounds)
qed

lemma inet_aton_ntoa_fact: "inet_aton (inet_ntoa a) = Some a"
proof -
  have "aton_parts [] (inet_ntoa a) = Some ([byte_at a 0, byte_at a 1, byte_at a 2], byte_at a 3, [])"
    by (simp add: inet_ntoa_def ntoa_byte_def aton_parts_dec [simplified] aton_parts_last byte_at_less)
  moreover have "\<not> byte_at a 3 > 0xff"
    using byte_at_less [of a 3] by (simp add: word_less_nat_alt)
  ultimately show ?thesis
    by (simp add: inet_aton_def aton_address_def join_bytes [simplified])
qed

lemma inet_ntoa_length: "length (inet_ntoa a) \<le> 15"
  using ntoa_byte_length [of a 0] ntoa_byte_length [of a 1] ntoa_byte_length [of a 2] ntoa_byte_length [of a 3]
  by (simp add: inet_ntoa_def)

section \<open>Properties\<close>

text \<open>C36: \<open>inet_aton\<close> inverts \<open>inet_ntoa\<close>: the dotted text of any address is accepted and gives back the address, in network byte order.\<close>

theorem inet_aton_inet_ntoa: "inet_aton (inet_ntoa a) = Some a"
  by (rule inet_aton_ntoa_fact)

text \<open>An address is rebuilt by \<open>inet_makeaddr\<close> from its network number \<open>inet_netof\<close> and its host part \<open>inet_lnaof\<close>, in every address class.\<close>

theorem makeaddr_netof_lnaof: "inet_makeaddr (inet_netof a) (inet_lnaof a) = a"
proof -
  let ?i = "ntohl a"
  let ?join = "\<lambda>k. push_bit k (drop_bit k (?i AND NOT (mask k))) OR ((?i AND mask k) AND mask k)"
  have join: "htonl (?join k) = a" for k
    by (simp only: split_join and_mask_idem htonl_htonl)
  consider "IN_CLASSA ?i" | "\<not> IN_CLASSA ?i" "IN_CLASSB ?i" | "\<not> IN_CLASSA ?i" "\<not> IN_CLASSB ?i" by blast
  then show ?thesis
  proof cases
    case 1
    have "\<not> bit ?i (24 + n)" if "7 \<le> n" "24 + n < 32" for n
    proof -
      from that have "n = 7" by simp
      then show ?thesis using 1 by (simp add: classA_iff)
    qed
    then have "unat (drop_bit 24 (?i AND NOT (mask 24))) < 2 ^ 7" by (rule net_less)
    then show ?thesis
      using 1 by (simp only: inet_netof_def inet_lnaof_def Let_def if_True mask_consts makeaddr_cases join)
  next
    case 2
    have "2 ^ 15 \<le> unat (drop_bit 16 (?i AND NOT (mask 16)))"
      by (rule net_ge) (use classB_D [OF 2(2)] in simp)
    moreover have "unat (drop_bit 16 (?i AND NOT (mask 16))) < 2 ^ 16"
      by (rule net_less) simp
    ultimately show ?thesis using 2
      by (simp only: inet_netof_def inet_lnaof_def Let_def if_True if_False mask_consts makeaddr_cases join)
  next
    case 3
    have "2 ^ 23 \<le> unat (drop_bit 8 (?i AND NOT (mask 8)))"
      by (rule net_ge) (use 3 in \<open>simp add: classA_iff\<close>)
    moreover have "unat (drop_bit 8 (?i AND NOT (mask 8))) < 2 ^ 24"
      by (rule net_less) simp
    ultimately show ?thesis using 3
      by (simp only: inet_netof_def inet_lnaof_def Let_def if_True if_False mask_consts makeaddr_cases join)
  qed
qed

text \<open>\<open>inet_nsap_addr\<close> inverts \<open>inet_nsap_ntoa\<close> for every address of at most 255 bytes that fits \<open>maxlen\<close>; the output routine reads nothing outside the address.\<close>

theorem nsap_roundtrip:
  assumes "length bs \<le> 255" "length bs \<le> unat maxlen"
  shows "\<exists>t. inet_nsap_ntoa (int (length bs)) bs = Some t \<and> inet_nsap_addr t maxlen = (length bs, bs)"
  using nsap_round [of bs "length bs" maxlen 0] assms by (auto simp: inet_nsap_ntoa_def inet_nsap_addr_def)

text \<open>\<open>inet_network\<close> of the dotted text of an address is that address in host byte order.\<close>

theorem network_ntoa: "inet_network (inet_ntoa a) = Some (ntohl a)"
proof -
  have "inet_network (inet_ntoa a)
      = Some (pack_parts [byte_at a 0, byte_at a 1, byte_at a 2, byte_at a 3])"
    by (simp add: inet_network_def inet_ntoa_def ntoa_byte_def network_dec [simplified] network_last isascii_dec isascii_dot)
  moreover have "pack_parts [byte_at a 0, byte_at a 1, byte_at a 2, byte_at a 3] = htonl a"
    unfolding pack_parts_def by (rule bit_word_eqI) (auto simp: bit_simps htonl_def mask_ff)
  ultimately show ?thesis by simp
qed

text \<open>A text of five decimal numbers makes \<open>inet_network\<close> store a fifth word behind its array of four, before the count is tested.\<close>

theorem network_five:
  "inet_network (dec_string a @ ''.'' @ dec_string b @ ''.'' @ dec_string c @ ''.'' @ dec_string d
     @ ''.'' @ dec_string e) = None"
  by (simp add: inet_network_def network_dec [simplified] network_last isascii_dec isascii_dot)

theorem nsap_roundtrip_witness:
  "\<exists>t. inet_nsap_ntoa (int (length [0x47, 0x00, 0x05 :: u8])) [0x47, 0x00, 0x05] = Some t
     \<and> inet_nsap_addr t 20 = (length [0x47, 0x00, 0x05 :: u8], [0x47, 0x00, 0x05])"
  by (rule nsap_roundtrip) simp_all

text \<open>\<open>inet_ntop\<close> never writes more than \<open>INET_ADDRSTRLEN\<close> bytes, terminator
  included, and what it writes is read back by \<open>inet_pton\<close>.\<close>

theorem ntop_fits_and_pton:
  "case inet_ntop af a have_dst n of
     NtopText t \<Rightarrow> length t + 1 \<le> INET_ADDRSTRLEN \<and> length t + 1 \<le> n \<and> inet_pton af t = (1, Some a, False)
   | _ \<Rightarrow> True"
proof (cases "have_dst \<and> af = AF_INET \<and> INET_ADDRSTRLEN \<le> n")
  case True
  have "length (inet_ntoa a) + 1 \<le> INET_ADDRSTRLEN"
    using inet_ntoa_length [of a] by (simp add: INET_ADDRSTRLEN_def)
  moreover have "inet_pton AF_INET (inet_ntoa a) = (1, Some a, False)"
    by (simp add: inet_pton_def inet_aton_ntoa_fact)
  ultimately show ?thesis using True by (simp add: inet_ntop_def inet_ntoa_def)
next
  case False
  then show ?thesis by (auto simp: inet_ntop_def split: ntop_result.splits)
qed

end
