(* ===== verification/Res_Comp.thy ===== *)
theory Res_Comp
  imports Lsck_Prelude
begin

text \<open>
  Domain names in DNS messages: \<open>src/inet/r_comp.c\<close>. A message is a list of bytes
  \<open>mem\<close> that starts at \<open>msg\<close>; pointers into it are offsets. \<open>mem\<close> holds every
  byte of the object the message lies in and \<open>eom\<close> is the offset \<open>eomorig - msg\<close>, so a read at
  or behind \<open>eom\<close> is defined as long as the object goes on there. A text name is the list of its
  bytes before the nul. \<open>None\<close> is an access outside the object (or, for the search of
  \<open>dn_comp\<close> in a message with a pointer cycle, no return).
\<close>

section \<open>dn_expand\<close>

abbreviation DOT :: u8 where "DOT \<equiv> 0x2e"
abbreviation BACKSLASH :: u8 where "BACKSLASH \<equiv> 0x5c"
abbreviation INDIR_MASK :: u8 where "INDIR_MASK \<equiv> 0xc0"

definition space_byte :: "u8 \<Rightarrow> bool" where
  "space_byte b \<longleftrightarrow> b = 0x20 \<or> (0x09 \<le> b \<and> b \<le> 0x0d)"

datatype dn_result = DnFail | DnOk nat "u8 list"

text \<open>
  \<open>*dn++ = c\<close>: \<open>out\<close> is what lies between \<open>exp_dn\<close> and \<open>dn\<close>, \<open>dlen\<close> is the size of the
  buffer. A store at \<open>exp_dn + length\<close> or behind it is undefined; that none is made has to follow from
  the comparisons with \<open>eom\<close>, which are separate.
\<close>

definition put_byte :: "int \<Rightarrow> u8 list \<Rightarrow> u8 \<Rightarrow> u8 list option" where
  "put_byte dlen out c = (if int (length out) < dlen then Some (out @ [c]) else None)"

text \<open>
  The copy loop of one label: \<open>n\<close> bytes are left. The inner \<open>None\<close> is the return of -1.
\<close>

fun expand_label :: "u8 list \<Rightarrow> nat \<Rightarrow> int \<Rightarrow> nat \<Rightarrow> nat \<Rightarrow> u8 list \<Rightarrow> (nat \<times> u8 list) option option" where
  "expand_label mem eom dlen 0 cp out = Some (Some (cp, out))"
| "expand_label mem eom dlen (Suc n) cp out = do {
     c \<leftarrow> rd mem cp;
     if (c = DOT \<or> c = BACKSLASH) \<and> int (length out) + int n + 2 \<ge> dlen then Some None
     else do {
       out1 \<leftarrow> (if c = DOT \<or> c = BACKSLASH then put_byte dlen out BACKSLASH else Some out);
       out2 \<leftarrow> put_byte dlen out1 c;
       if cp + 1 \<ge> eom then Some None else expand_label mem eom dlen n (cp + 1) out2
     }
   }"

lemma expand_label_step:
  assumes "expand_label mem eom dlen (Suc n) cp out = Some (Some r)"
  obtains c where "rd mem cp = Some c" "\<not> ((c = DOT \<or> c = BACKSLASH) \<and> int (length out) + int n + 2 \<ge> dlen)"
    "cp + 1 < eom" "int (length out) < dlen"
    "expand_label mem eom dlen n (cp + 1)
       (out @ (if c = DOT \<or> c = BACKSLASH then [BACKSLASH] else []) @ [c]) = Some (Some r)"
  using assms by (auto simp: bind_eq_Some_conv put_byte_def split: if_splits)

lemma expand_label_cp:
  "expand_label mem eom dlen n cp out = Some (Some (cp', out')) \<Longrightarrow> cp' = cp + n \<and> (0 < n \<longrightarrow> cp' < eom)"
proof (induction n arbitrary: cp out)
  case 0
  then show ?case by simp
next
  case (Suc n)
  from Suc.prems obtain out2 where r: "expand_label mem eom dlen n (cp + 1) out2 = Some (Some (cp', out'))"
    and lt: "cp + 1 < eom"
    by (rule expand_label_step)
  from Suc.IH [OF r] r lt show ?case by (cases n) auto
qed

text \<open>\<open>if (dn != exp_dn) *dn++ = '.'\<close>; \<open>add_dot\<close> is the text it leaves.\<close>

definition put_dot :: "int \<Rightarrow> u8 list \<Rightarrow> u8 list option" where
  "put_dot dlen out = (if out \<noteq> [] then put_byte dlen out DOT else Some out)"

definition add_dot :: "u8 list \<Rightarrow> u8 list" where
  "add_dot out = (if out \<noteq> [] then out @ [DOT] else out)"

lemma put_dot_eq: "\<not> (out \<noteq> [] \<and> int (length out) \<ge> dlen) \<Longrightarrow> put_dot dlen out = Some (add_dot out)"
  by (auto simp: put_dot_def add_dot_def put_byte_def)

text \<open>
  The main loop. \<open>len\<close> is -1 until the first indirection; \<open>checked\<close> counts the bytes
  looked at. The result is \<open>cp\<close> behind the terminating byte, \<open>len\<close> and the text, or
  \<open>None\<close> for the return of -1.
\<close>

function expand_loop :: "u8 list \<Rightarrow> nat \<Rightarrow> int \<Rightarrow> nat \<Rightarrow> nat \<Rightarrow> u8 list \<Rightarrow> int \<Rightarrow> nat
    \<Rightarrow> (nat \<times> int \<times> u8 list) option option" where
  "expand_loop mem eom dlen cdn cp out len checked = do {
     n \<leftarrow> rd mem cp;
     if n = 0 then Some (Some (cp + 1, len, out))
     else if n AND INDIR_MASK = 0 then
       if out \<noteq> [] \<and> int (length out) \<ge> dlen then Some None
       else do {
         out0 \<leftarrow> put_dot dlen out;
         if int (length out0) + int (unat n) \<ge> dlen then Some None
         else do {
           r \<leftarrow> expand_label mem eom dlen (unat n) (cp + 1) out0;
           (case r of
              None \<Rightarrow> Some None
            | Some (cp1, out1) \<Rightarrow> expand_loop mem eom dlen cdn cp1 out1 len (checked + unat n + 1))
         }
       }
     else if n AND INDIR_MASK = INDIR_MASK then do {
       b \<leftarrow> rd mem (cp + 1);
       let cp1 = push_bit 8 (unat (n AND 0x3f)) OR unat b;
       if cp1 \<ge> eom then Some None
       else if checked + 2 \<ge> eom then Some None
       else expand_loop mem eom dlen cdn cp1 out
              (if len < 0 then int cp + 1 - int cdn + 1 else len) (checked + 2)
     }
     else Some None
   }"
  by pat_completeness auto
termination
proof (relation "measures [\<lambda>(mem, eom, dlen, cdn, cp, out, len, checked). eom - checked,
     \<lambda>(mem, eom, dlen, cdn, cp, out, len, checked). eom - cp]", goal_cases)
  case 1
  show ?case by simp
next
  case (2 mem eom dlen cdn cp out len checked n out0 r p cp1 out1)
  then have "cp1 = cp + 1 + unat n \<and> cp1 < eom"
    using expand_label_cp [of mem eom dlen "unat n" "cp + 1" out0 cp1 out1]
    by (auto simp: unat_gt_0)
  then show ?case by auto
next
  case 3
  then show ?case by auto
qed

declare expand_loop.simps [simp del]

text \<open>The step with the dot known to be stored inside, and the induction that goes with it.\<close>

lemma expand_loop_step:
  "expand_loop mem eom dlen cdn cp out len checked = do {
     n \<leftarrow> rd mem cp;
     if n = 0 then Some (Some (cp + 1, len, out))
     else if n AND INDIR_MASK = 0 then
       if out \<noteq> [] \<and> int (length out) \<ge> dlen then Some None
       else if int (length (add_dot out)) + int (unat n) \<ge> dlen then Some None
       else do {
         r \<leftarrow> expand_label mem eom dlen (unat n) (cp + 1) (add_dot out);
         (case r of
            None \<Rightarrow> Some None
          | Some (cp1, out1) \<Rightarrow> expand_loop mem eom dlen cdn cp1 out1 len (checked + unat n + 1))
       }
     else if n AND INDIR_MASK = INDIR_MASK then do {
       b \<leftarrow> rd mem (cp + 1);
       let cp1 = push_bit 8 (unat (n AND 0x3f)) OR unat b;
       if cp1 \<ge> eom then Some None
       else if checked + 2 \<ge> eom then Some None
       else expand_loop mem eom dlen cdn cp1 out
              (if len < 0 then int cp + 1 - int cdn + 1 else len) (checked + 2)
     }
     else Some None
   }"
  by (subst expand_loop.simps) (auto simp: put_dot_eq intro!: bind_option_cong)

lemma expand_loop_induct:
  assumes "\<And>mem eom dlen cdn cp out len checked.
    (\<And>n r p cp1 out1. rd mem cp = Some n \<Longrightarrow> n \<noteq> 0 \<Longrightarrow> n AND INDIR_MASK = 0 \<Longrightarrow>
       \<not> (out \<noteq> [] \<and> int (length out) \<ge> dlen) \<Longrightarrow> \<not> int (length (add_dot out)) + int (unat n) \<ge> dlen \<Longrightarrow>
       expand_label mem eom dlen (unat n) (cp + 1) (add_dot out) = Some r \<Longrightarrow> r = Some p \<Longrightarrow> (cp1, out1) = p \<Longrightarrow>
       P mem eom dlen cdn cp1 out1 len (checked + unat n + 1)) \<Longrightarrow>
    (\<And>n b cp1. rd mem cp = Some n \<Longrightarrow> n \<noteq> 0 \<Longrightarrow> n AND INDIR_MASK \<noteq> 0 \<Longrightarrow> n AND INDIR_MASK = INDIR_MASK \<Longrightarrow>
       rd mem (cp + 1) = Some b \<Longrightarrow> cp1 = push_bit 8 (unat (n AND 0x3f)) OR unat b \<Longrightarrow>
       \<not> cp1 \<ge> eom \<Longrightarrow> \<not> checked + 2 \<ge> eom \<Longrightarrow>
       P mem eom dlen cdn cp1 out (if len < 0 then int cp + 1 - int cdn + 1 else len) (checked + 2)) \<Longrightarrow>
    P mem eom dlen cdn cp out len checked"
  shows "P mem eom dlen cdn cp out len checked"
proof (induction mem eom dlen cdn cp out len checked rule: expand_loop.induct)
  case (1 mem eom dlen cdn cp out len checked)
  show ?case
  proof (rule assms, goal_cases)
    case (1 n r p cp1 out1)
    from "1.IH"(1) [OF 1(1-4) put_dot_eq [OF 1(4)] 1(5-8)] show ?case .
  next
    case (2 n b cp1)
    from "1.IH"(2) [OF 2] show ?case .
  qed
qed

text \<open>
  \<open>dn_expand (msg, eomorig, comp_dn, exp_dn, length)\<close>: \<open>DnOk len name\<close> is the return of
  \<open>len\<close> with \<open>name\<close> and a nul stored at \<open>exp_dn\<close>, \<open>DnFail\<close> the return of -1.
\<close>

definition dn_expand :: "u8 list \<Rightarrow> nat \<Rightarrow> nat \<Rightarrow> int \<Rightarrow> dn_result option" where
  "dn_expand mem eom cdn dlen = do {
     r \<leftarrow> expand_loop mem eom dlen cdn cdn [] (-1) 0;
     (case r of
        None \<Rightarrow> Some DnFail
      | Some (cp, len, out) \<Rightarrow> do {
          stored \<leftarrow> put_byte dlen out 0;
          if list_ex space_byte (takeWhile (\<lambda>b. b \<noteq> 0) stored) then Some DnFail
          else Some (DnOk (if len < 0 then cp - cdn else nat len) out)
        })
   }"

section \<open>dn_skipname\<close>

text \<open>The return value; -1 is \<open>None\<close> inside.\<close>

function skipname_loop :: "u8 list \<Rightarrow> nat \<Rightarrow> nat \<Rightarrow> nat option option" where
  "skipname_loop mem eom cp =
     (if cp < eom then do {
        n \<leftarrow> rd mem cp;
        if n = 0 then Some (Some (cp + 1))
        else if n AND INDIR_MASK = 0 then skipname_loop mem eom (cp + 1 + unat n)
        else if n AND INDIR_MASK = INDIR_MASK then Some (Some (cp + 1 + 1))
        else Some None
      } else Some (Some cp))"
  by pat_completeness auto
termination by (relation "measure (\<lambda>(mem, eom, cp). eom - cp)") auto

declare skipname_loop.simps [simp del]

definition dn_skipname :: "u8 list \<Rightarrow> nat \<Rightarrow> nat \<Rightarrow> int option" where
  "dn_skipname mem cdn eom = do {
     r \<leftarrow> skipname_loop mem eom cdn;
     Some (case r of None \<Rightarrow> -1 | Some cp \<Rightarrow> if cp > eom then -1 else int cp - int cdn)
   }"

section \<open>dn_comp\<close>

definition mklower :: "u8 \<Rightarrow> u8" where
  "mklower ch = (if 0x41 \<le> ch \<and> ch \<le> 0x5a then ch + 0x20 else ch)"

datatype dn_match = Found | Next | Illegal

text \<open>
  The comparison of one label of \<open>exp_dn\<close> with \<open>n\<close> bytes of the message. \<open>Some None\<close> is
  the jump to \<open>next\<close>. Moving past the nul of \<open>exp_dn\<close> is undefined.
\<close>

fun match_label :: "u8 list \<Rightarrow> u8 list \<Rightarrow> nat \<Rightarrow> nat \<Rightarrow> (u8 list \<times> nat) option option" where
  "match_label mem dn 0 cp = Some (Some (dn, cp))"
| "match_label mem dn (Suc n) cp =
     (if dn \<noteq> [] \<and> hd dn = DOT then Some None
      else (let dn1 = (if dn \<noteq> [] \<and> hd dn = BACKSLASH then tl dn else dn) in do {
        c \<leftarrow> rd mem cp;
        (case dn1 of
           [] \<Rightarrow> if mklower 0 \<noteq> mklower c then Some None else None
         | d # ds \<Rightarrow> if mklower d \<noteq> mklower c then Some None else match_label mem ds n (cp + 1))
      }))"

partial_function (option) match_name :: "u8 list \<Rightarrow> nat \<Rightarrow> u8 list \<Rightarrow> nat \<Rightarrow> dn_match option" where
  "match_name mem msg dn cp = do {
     n \<leftarrow> rd mem cp;
     if n = 0 then Some (if dn = [] then Found else Next)
     else if n AND INDIR_MASK = 0 then do {
       r \<leftarrow> match_label mem dn (unat n) (cp + 1);
       (case r of
          None \<Rightarrow> Some Next
        | Some (dn1, cp1) \<Rightarrow>
            (case dn1 of
               [] \<Rightarrow> do { b \<leftarrow> rd mem cp1; Some (if b = 0 then Found else Next) }
             | d # ds \<Rightarrow> if d = DOT then match_name mem msg ds cp1 else Some Next))
     }
     else if n AND INDIR_MASK = INDIR_MASK then do {
       b \<leftarrow> rd mem (cp + 1);
       match_name mem msg dn (msg + (push_bit 8 (unat (n AND 0x3f)) OR unat b))
     }
     else Some Illegal
   }"

text \<open>\<open>dn_find\<close>: the names to search are the offsets \<open>ptrs\<close>; \<open>None\<close> inside is -1.\<close>

fun dn_find :: "u8 list \<Rightarrow> nat \<Rightarrow> u8 list \<Rightarrow> nat list \<Rightarrow> nat option option" where
  "dn_find mem msg exp_dn [] = Some None"
| "dn_find mem msg exp_dn (sp # ptrs) = do {
     m \<leftarrow> match_name mem msg exp_dn sp;
     (case m of
        Found \<Rightarrow> Some (Some (sp - msg))
      | Next \<Rightarrow> dn_find mem msg exp_dn ptrs
      | Illegal \<Rightarrow> Some None)
   }"

text \<open>
  The copy of one label from the text \<open>s\<close> to \<open>cp\<close>. The result is the message and either
  \<open>cp\<close> with the text behind the dot (empty at the nul), or \<open>None\<close> for the return of -1.
\<close>

function comp_label :: "u8 list \<Rightarrow> nat \<Rightarrow> nat \<Rightarrow> u8 list \<Rightarrow> (u8 list \<times> (nat \<times> u8 list) option) option" where
  "comp_label mem eob cp s =
     (case s of
        [] \<Rightarrow> Some (mem, Some (cp, []))
      | c # rest \<Rightarrow>
          if c = DOT then Some (mem, Some (cp, rest))
          else if c = BACKSLASH \<and> rest = [] then Some (mem, Some (cp, []))
          else if cp \<ge> eob then Some (mem, None)
          else if c = BACKSLASH then do {
            mem1 \<leftarrow> wr mem cp [hd rest]; comp_label mem1 eob (cp + 1) (tl rest) }
          else do { mem1 \<leftarrow> wr mem cp [c]; comp_label mem1 eob (cp + 1) rest })"
  by pat_completeness auto
termination by (relation "measure (\<lambda>(mem, eob, cp, s). length s)") auto

declare comp_label.simps [simp del]

lemma comp_label_rest_le:
  "comp_label mem eob cp s = Some (mem1, Some (cp1, s1)) \<Longrightarrow> length s1 \<le> length s - 1"
proof (induction mem eob cp s rule: comp_label.induct)
  case (1 mem eob cp s)
  show ?case
  proof (cases s)
    case Nil
    with 1(3) show ?thesis by (simp add: comp_label.simps)
  next
    case (Cons c rest)
    note step = 1(3) [unfolded comp_label.simps [of mem eob cp s], unfolded Cons list.case]
    show ?thesis
      using step 1(1,2) [OF Cons] Cons
      by (cases rest) (fastforce simp: bind_eq_Some_conv split: if_splits)+
  qed
qed

lemma comp_label_rest:
  "comp_label mem eob cp s = Some (mem1, Some (cp1, s1)) \<Longrightarrow> s \<noteq> [] \<Longrightarrow> length s1 < length s"
  using comp_label_rest_le [of mem eob cp s mem1 cp1 s1] by (cases s) auto

text \<open>The end of the list of pointers: the first null at or behind \<open>i\<close>.\<close>

function ptr_end :: "nat option list \<Rightarrow> nat \<Rightarrow> nat option" where
  "ptr_end arr i = do { p \<leftarrow> rd arr i; if p = None then Some i else ptr_end arr (i + 1) }"
  by pat_completeness auto
termination
  by (relation "measure (\<lambda>(arr, i). length arr - i)") (auto simp: rd_def split: if_splits)

declare ptr_end.simps [simp del]

definition reset_ptrs :: "nat option \<Rightarrow> nat \<Rightarrow> nat option list \<Rightarrow> nat option list" where
  "reset_ptrs msg lpp arr = (if msg \<noteq> None then arr[lpp := None] else arr)"

text \<open>The return behind the loop: the final nul byte.\<close>

definition comp_finish :: "nat option \<Rightarrow> nat \<Rightarrow> nat \<Rightarrow> nat \<Rightarrow> u8 list \<Rightarrow> nat option list \<Rightarrow> nat
    \<Rightarrow> (u8 list \<times> nat option list \<times> int) option" where
  "comp_finish msg lpp eob cdn mem arr cp =
     (if cp \<ge> eob then Some (mem, reset_ptrs msg lpp arr, -1)
      else do { mem1 \<leftarrow> wr mem cp [0]; Some (mem1, arr, int (cp + 1) - int cdn) })"

text \<open>
  The loop over the labels; \<open>s\<close> is the text from \<open>dn - 1\<close> on, \<open>lastp\<close> the index
  \<open>lastdnptr\<close> in the array \<open>arr\<close>.
\<close>

function comp_loop :: "nat option \<Rightarrow> nat \<Rightarrow> nat option \<Rightarrow> nat \<Rightarrow> nat \<Rightarrow> u8 list \<Rightarrow> nat option list \<Rightarrow> nat
    \<Rightarrow> nat \<Rightarrow> u8 list \<Rightarrow> (u8 list \<times> nat option list \<times> int) option" where
  "comp_loop msg lpp lastp eob cdn mem arr cpp cp s =
     (if s = [] then comp_finish msg lpp eob cdn mem arr cp
      else do {
        l \<leftarrow> (case msg of None \<Rightarrow> Some None
               | Some m \<Rightarrow> dn_find mem m s (map the (take (lpp - 1) (drop 1 arr))));
        (case l of
           Some off \<Rightarrow>
             if cp + 1 \<ge> eob then Some (mem, arr, -1)
             else do {
               mem1 \<leftarrow> wr mem cp [of_nat (off div 256) OR INDIR_MASK, of_nat (off mod 256)];
               Some (mem1, arr, int (cp + 2) - int cdn)
             }
         | None \<Rightarrow> do {
             (arr1, cpp1) \<leftarrow>
               (case lastp of
                  Some e \<Rightarrow> if msg \<noteq> None \<and> int cpp < int e - 1
                    then do { a \<leftarrow> wr arr cpp [Some cp, None]; Some (a, cpp + 1) }
                    else Some (arr, cpp)
                | None \<Rightarrow> Some (arr, cpp));
             r \<leftarrow> comp_label mem eob (cp + 1) s;
             (case r of
                (mem1, None) \<Rightarrow> Some (mem1, reset_ptrs msg lpp arr1, -1)
              | (mem1, Some (cp1, s1)) \<Rightarrow>
                  if cp1 - cp - 1 = 0 \<and> s1 = [] then comp_finish msg lpp eob cdn mem1 arr1 (cp1 - 1)
                  else if cp1 - cp - 1 = 0 \<or> cp1 - cp - 1 > 63 then Some (mem1, reset_ptrs msg lpp arr1, -1)
                  else do {
                    mem2 \<leftarrow> wr mem1 cp [of_nat (cp1 - cp - 1)];
                    comp_loop msg lpp lastp eob cdn mem2 arr1 cpp1 cp1 s1
                  })
           })
      })"
  by pat_completeness auto
termination
  by (relation "measure (\<lambda>(msg, lpp, lastp, eob, cdn, mem, arr, cpp, cp, s). length s)")
    (auto dest: comp_label_rest)

declare comp_loop.simps [simp del]

text \<open>
  \<open>dn_comp (exp_dn, comp_dn, length, dnptrs, lastdnptr)\<close>: the message, the array of pointers and
  the return value. \<open>lastp\<close> is \<open>None\<close> where \<open>lastdnptr\<close> is null.
\<close>

definition dn_comp :: "u8 list \<Rightarrow> u8 list \<Rightarrow> nat \<Rightarrow> int \<Rightarrow> nat option list option \<Rightarrow> nat option
    \<Rightarrow> (u8 list \<times> nat option list \<times> int) option" where
  "dn_comp exp_dn mem cdn clen dnptrs lastp =
     (let eob = nat (int cdn + clen) in
      case dnptrs of
        None \<Rightarrow> comp_loop None 0 lastp eob cdn mem [] 0 cdn exp_dn
      | Some arr \<Rightarrow> do {
          msg \<leftarrow> rd arr 0;
          (case msg of
             None \<Rightarrow> comp_loop None 0 lastp eob cdn mem arr 0 cdn exp_dn
           | Some m \<Rightarrow> do {
               lpp \<leftarrow> ptr_end arr 1;
               comp_loop (Some m) lpp lastp eob cdn mem arr lpp cdn exp_dn
             })
        })"

section \<open>Short and long fields\<close>

definition getshort :: "u8 list \<Rightarrow> nat \<Rightarrow> u16 option" where
  "getshort mem cp = do {
     a \<leftarrow> rd mem cp; b \<leftarrow> rd mem (cp + 1);
     Some (push_bit 8 (ucast a) OR ucast b)
   }"

definition getlong :: "u8 list \<Rightarrow> nat \<Rightarrow> u32 option" where
  "getlong mem cp = do {
     a \<leftarrow> rd mem cp; b \<leftarrow> rd mem (cp + 1); c \<leftarrow> rd mem (cp + 2); d \<leftarrow> rd mem (cp + 3);
     Some (push_bit 24 (ucast a) OR push_bit 16 (ucast b) OR push_bit 8 (ucast c) OR ucast d)
   }"

definition putshort :: "u16 \<Rightarrow> u8 list \<Rightarrow> nat \<Rightarrow> u8 list option" where
  "putshort v mem cp = wr mem cp [ucast (drop_bit 8 v), ucast v]"

definition putlong :: "u32 \<Rightarrow> u8 list \<Rightarrow> nat \<Rightarrow> u8 list option" where
  "putlong v mem cp =
     wr mem cp [ucast (drop_bit 24 v), ucast (drop_bit 16 v), ucast (drop_bit 8 v), ucast v]"

section \<open>Expansion: bounds and definedness\<close>

lemma expand_label_length:
  "expand_label mem eom dlen n cp out = Some (Some (cp', out')) \<Longrightarrow> int (length out) + int n < dlen
   \<Longrightarrow> int (length out') < dlen"
proof (induction n arbitrary: cp out)
  case 0
  then show ?case by simp
next
  case (Suc n)
  from Suc.prems obtain c where r: "expand_label mem eom dlen n (cp + 1)
      (out @ (if c = DOT \<or> c = BACKSLASH then [BACKSLASH] else []) @ [c]) = Some (Some (cp', out'))"
    and "\<not> ((c = DOT \<or> c = BACKSLASH) \<and> int (length out) + int n + 2 \<ge> dlen)"
    by (elim expand_label_step) blast
  with Suc.prems show ?case by (intro Suc.IH [OF r]) auto
qed

text \<open>The comparisons with \<open>eom\<close> keep every store of a label inside: \<open>dn + n < eom\<close> holds before each byte.\<close>

lemma expand_label_defined:
  "cp < length mem \<or> n = 0 \<Longrightarrow> eom \<le> length mem \<Longrightarrow> int (length out) + int n < dlen
   \<Longrightarrow> \<exists>r. expand_label mem eom dlen n cp out = Some r"
proof (induction n arbitrary: cp out)
  case (Suc n)
  then show ?case by (cases "cp + 1 < eom") (auto simp: put_byte_def)
qed simp

definition expand_post :: "nat \<Rightarrow> int \<Rightarrow> nat \<Rightarrow> (nat \<times> int \<times> u8 list) option \<Rightarrow> bool" where
  "expand_post eom dlen cdn r = (case r of None \<Rightarrow> True
     | Some (cp, len, out) \<Rightarrow> int (length out) < dlen \<and>
         (if len < 0 then cdn < cp \<and> cp \<le> eom else int cdn + len \<le> int eom + 1))"

lemma expand_loop_post:
  assumes "expand_loop mem eom dlen cdn cp out len checked = Some r"
    and "cp < eom" "int (length out) < dlen"
    and "if len < 0 then cdn \<le> cp else int cdn + len \<le> int eom + 1"
  shows "expand_post eom dlen cdn r"
  using assms
proof (induction mem eom dlen cdn cp out len checked rule: expand_loop_induct)
  case (1 mem eom dlen cdn cp out len checked)
  from 1(3) obtain n where n: "rd mem cp = Some n" by (auto simp: expand_loop_step [of mem] bind_eq_Some_conv)
  note step = 1(3) [unfolded expand_loop_step [of mem eom dlen cdn cp out len checked] n bind.bind_lunit]
  consider "n = 0" | "n \<noteq> 0" "n AND INDIR_MASK = 0" | "n \<noteq> 0" "n AND INDIR_MASK = INDIR_MASK"
    | "n \<noteq> 0" "n AND INDIR_MASK \<noteq> 0" "n AND INDIR_MASK \<noteq> INDIR_MASK" by blast
  then show ?case
  proof cases
    case 1
    with step "1.prems" show ?thesis by (auto simp: expand_post_def split: if_splits)
  next
    case 2
    show ?thesis
    proof (cases "(out \<noteq> [] \<and> int (length out) \<ge> dlen) \<or> int (length (add_dot out)) + int (unat n) \<ge> dlen")
      case True
      with step 2 show ?thesis by (auto simp: expand_post_def split: if_splits)
    next
      case False
      with step 2 obtain l where l: "expand_label mem eom dlen (unat n) (cp + 1) (add_dot out) = Some l"
        by (auto simp: bind_eq_Some_conv split: if_splits)
      show ?thesis
      proof (cases l)
        case None
        with step 2 False l show ?thesis by (auto simp: expand_post_def split: if_splits)
      next
        case (Some p)
        obtain cp1 out1 where p: "p = (cp1, out1)" by (cases p)
        have "int (length out1) < dlen"
          using expand_label_length l Some p False by auto
        moreover have "cp1 = cp + 1 + unat n \<and> cp1 < eom"
          using expand_label_cp l Some p 2 by (force simp: unat_gt_0)
        moreover have "expand_loop mem eom dlen cdn cp1 out1 len (checked + unat n + 1) = Some r"
          using step 2 False l Some p by (auto split: if_splits)
        ultimately show ?thesis
          using "1.IH"(1) [OF n 2(1,2) _ _ l Some p [symmetric]] False "1.prems" by (auto split: if_splits)
      qed
    qed
  next
    case 3
    then have "n AND INDIR_MASK \<noteq> 0" by auto
    with step 3 obtain b where b: "rd mem (cp + 1) = Some b"
      by (auto simp: bind_eq_Some_conv)
    show ?thesis
      using step 3 b "1.IH"(2) [OF n 3(1) _ 3(2) b refl] "1.prems"
      by (auto simp: expand_post_def Let_def split: if_splits)
  next
    case 4
    with step show ?thesis by (auto simp: expand_post_def)
  qed
qed

lemma expand_loop_defined:
  assumes "cp < eom" "eom < length mem"
  shows "\<exists>r. expand_loop mem eom dlen cdn cp out len checked = Some r"
  using assms
proof (induction mem eom dlen cdn cp out len checked rule: expand_loop_induct)
  case (1 mem eom dlen cdn cp out len checked)
  define n where "n = mem ! cp"
  have n: "rd mem cp = Some n" and b: "rd mem (cp + 1) = Some (mem ! (cp + 1))"
    using "1.prems" by (simp_all add: n_def)
  show ?case
  proof (cases "(out \<noteq> [] \<and> int (length out) \<ge> dlen) \<or> int (length (add_dot out)) + int (unat n) \<ge> dlen")
    case True
    then show ?thesis
      unfolding expand_loop_step [of mem eom dlen cdn cp out len checked] n bind.bind_lunit b Let_def
      using "1.IH"(2) [OF n _ _ _ b refl] "1.prems" by auto
  next
    case False
    with "1.prems" obtain l where l: "expand_label mem eom dlen (unat n) (cp + 1) (add_dot out) = Some l"
      using expand_label_defined [of "cp + 1" mem "unat n" eom "add_dot out" dlen] by auto
    show ?thesis
      unfolding expand_loop_step [of mem eom dlen cdn cp out len checked] n bind.bind_lunit l b Let_def
      using "1.IH"(1) [OF n _ _ _ _ l] "1.IH"(2) [OF n _ _ _ b refl] "1.prems" expand_label_cp [of mem eom dlen "unat n" "cp + 1" "add_dot out"] l
      by (auto split: option.splits simp: unat_gt_0)
  qed
qed

lemma takeWhile_nul: "takeWhile (\<lambda>b. b \<noteq> (0 :: u8)) (out @ [0]) = takeWhile (\<lambda>b. b \<noteq> 0) out"
  by (induction out) simp_all

lemma dn_expand_OkE:
  assumes "dn_expand mem eom cdn dlen = Some (DnOk len name)"
  obtains cp l where "expand_loop mem eom dlen cdn cdn [] (-1) 0 = Some (Some (cp, l, name))"
    "len = (if l < 0 then cp - cdn else nat l)" "int (length name) < dlen"
    "\<not> list_ex space_byte (takeWhile (\<lambda>b. b \<noteq> 0) name)"
proof -
  from assms obtain t where t: "expand_loop mem eom dlen cdn cdn [] (-1) 0 = Some (Some t)"
    unfolding dn_expand_def
    by (cases "expand_loop mem eom dlen cdn cdn [] (-1) 0") (simp, rename_tac r, case_tac r, simp_all)
  obtain cp l out where t': "t = (cp, l, out)" by (cases t)
  show thesis
    by (rule that [of cp l]) (use assms t t' in \<open>auto simp: dn_expand_def put_byte_def takeWhile_nul split: if_splits\<close>)
qed

section \<open>Skipping agrees with expansion\<close>

lemma expand_loop_len:
  "expand_loop mem eom dlen cdn cp out len checked = Some (Some (cp', len', out')) \<Longrightarrow> 0 \<le> len \<Longrightarrow> len' = len"
proof (induction mem eom dlen cdn cp out len checked rule: expand_loop_induct)
  case (1 mem eom dlen cdn cp out len checked)
  from 1(3) obtain n where n: "rd mem cp = Some n" by (auto simp: expand_loop_step [of mem] bind_eq_Some_conv)
  note step = 1(3) [unfolded expand_loop_step [of mem eom dlen cdn cp out len checked] n bind.bind_lunit]
  show ?case
  proof (cases "n \<noteq> 0 \<and> n AND INDIR_MASK = 0")
    case True
    with step obtain l where l: "expand_label mem eom dlen (unat n) (cp + 1) (add_dot out) = Some l"
      by (auto simp: bind_eq_Some_conv split: if_splits)
    show ?thesis
      using step True l "1.IH"(1) [OF n _ _ _ _ l] "1.prems"
      by (cases l) (auto split: if_splits)
  next
    case False
    show ?thesis
    proof (cases "n \<noteq> 0 \<and> n AND INDIR_MASK = INDIR_MASK")
      case True
      with False step obtain b where b: "rd mem (cp + 1) = Some b" by (auto simp: bind_eq_Some_conv)
      show ?thesis using step False True b "1.IH"(2) [OF n _ _ _ b refl] "1.prems"
        by (auto simp: Let_def split: if_splits)
    next
      case F2: False
      with False step show ?thesis by (auto split: if_splits)
    qed
  qed
qed

lemma expand_loop_skip:
  "expand_loop mem eom dlen cdn cp out len checked = Some (Some (cp', len', out')) \<Longrightarrow> len = -1 \<Longrightarrow>
   cp < eom \<Longrightarrow> cdn \<le> cp \<Longrightarrow>
   skipname_loop mem eom cp = Some (Some (if len' < 0 then cp' else nat (int cdn + len')))"
proof (induction mem eom dlen cdn cp out len checked rule: expand_loop_induct)
  case (1 mem eom dlen cdn cp out len checked)
  from 1(3) obtain n where n: "rd mem cp = Some n" by (auto simp: expand_loop_step [of mem] bind_eq_Some_conv)
  note step = 1(3) [unfolded expand_loop_step [of mem eom dlen cdn cp out len checked] n bind.bind_lunit]
  have skip: "skipname_loop mem eom cp = (if n = 0 then Some (Some (cp + 1))
        else if n AND INDIR_MASK = 0 then skipname_loop mem eom (cp + 1 + unat n)
        else if n AND INDIR_MASK = INDIR_MASK then Some (Some (cp + 1 + 1))
        else Some None)"
    using "1.prems"(3) by (subst skipname_loop.simps) (simp add: n)
  show ?case
  proof (cases "n \<noteq> 0 \<and> n AND INDIR_MASK = 0")
    case True
    with step obtain l where l: "expand_label mem eom dlen (unat n) (cp + 1) (add_dot out) = Some l"
      by (auto simp: bind_eq_Some_conv split: if_splits)
    with step True obtain cp1 out1 where p: "l = Some (cp1, out1)"
      and rec: "expand_loop mem eom dlen cdn cp1 out1 len (checked + unat n + 1) = Some (Some (cp', len', out'))"
      and g: "\<not> (out \<noteq> [] \<and> int (length out) \<ge> dlen)" "\<not> int (length (add_dot out)) + int (unat n) \<ge> dlen"
      by (cases l) (auto split: if_splits)
    have cp1: "cp1 = cp + 1 + unat n \<and> cp1 < eom"
      using expand_label_cp l p True by (force simp: unat_gt_0)
    with "1.IH"(1) [OF n _ _ g l p refl rec] True "1.prems" skip show ?thesis by simp
  next
    case False
    show ?thesis
    proof (cases "n \<noteq> 0 \<and> n AND INDIR_MASK = INDIR_MASK")
      case True
      with False step obtain b where b: "rd mem (cp + 1) = Some b" by (auto simp: bind_eq_Some_conv)
      define q where "q = push_bit 8 (unat (n AND 0x3f)) OR unat b"
      have rec: "expand_loop mem eom dlen cdn q out (int cp + 1 - int cdn + 1) (checked + 2) = Some (Some (cp', len', out'))"
        using step False True b "1.prems"(2) by (simp add: Let_def q_def split: if_splits)
      have "len' = int cp + 1 - int cdn + 1"
        using expand_loop_len [OF rec] "1.prems"(4) by simp
      with skip True False "1.prems"(4) show ?thesis by auto
    next
      case F2: False
      with False step skip show ?thesis using "1.prems" by (auto split: if_splits)
    qed
  qed
qed

section \<open>Text form and wire form of a name\<close>

text \<open>
  A name is a list of labels. \<open>text_name\<close> is its text with dots and backslashes escaped,
  \<open>wire_name\<close> its uncompressed encoding in a message.
\<close>

definition escape :: "u8 list \<Rightarrow> u8 list" where
  "escape l = concat (map (\<lambda>b. if b = DOT \<or> b = BACKSLASH then [BACKSLASH, b] else [b]) l)"

fun text_name :: "u8 list list \<Rightarrow> u8 list" where
  "text_name [] = []"
| "text_name [l] = escape l"
| "text_name (l # ls) = escape l @ [DOT] @ text_name ls"

definition wire_name :: "u8 list list \<Rightarrow> u8 list" where
  "wire_name ls = concat (map (\<lambda>l. of_nat (length l) # l) ls) @ [0]"

definition valid_label :: "u8 list \<Rightarrow> bool" where
  "valid_label l \<longleftrightarrow> l \<noteq> [] \<and> length l \<le> 63 \<and> list_all (\<lambda>b. b \<noteq> 0 \<and> \<not> space_byte b) l"

lemma escape_simps [simp]:
  "escape [] = []"
  "escape (b # l) = (if b = DOT \<or> b = BACKSLASH then [BACKSLASH, b] else [b]) @ escape l"
  by (simp_all add: escape_def)

lemma text_name_Cons:
  "text_name (l # ls) = escape l @ (if ls = [] then [] else [DOT] @ text_name ls)"
  by (cases ls) simp_all

lemma wire_name_Cons: "wire_name (l # ls) = of_nat (length l) # l @ wire_name ls"
  by (simp add: wire_name_def)

lemma wire_name_pos: "wire_name ls \<noteq> []" by (simp add: wire_name_def)

lemma wr_Some: "i + length ys \<le> length xs \<Longrightarrow> wr xs i ys = Some (take i xs @ ys @ drop (i + length ys) xs)"
  by (simp add: wr_def)

lemma wr_append:
  "wr xs i (ys @ zs) = Option.bind (wr xs i ys) (\<lambda>m. wr m (i + length ys) zs)"
proof (cases "i + length ys + length zs \<le> length xs")
  case True
  then show ?thesis by (simp add: wr_def ac_simps)
next
  case False
  then show ?thesis by (auto simp: wr_def)
qed

lemma wr_before:
  "Option.bind (wr xs (i + length ys) zs) (\<lambda>m. wr m i ys) = wr xs i (ys @ zs)"
proof (cases "i + length ys + length zs \<le> length xs")
  case True
  then show ?thesis by (simp add: wr_def ac_simps)
next
  case False
  then show ?thesis by (auto simp: wr_def)
qed

lemma comp_label_escape:
  assumes "rest = [] \<or> hd rest = DOT" "cp + length l \<le> eob" "eob \<le> length mem"
  shows "comp_label mem eob cp (escape l @ rest)
    = Option.bind (wr mem cp l) (\<lambda>m. Some (m, Some (cp + length l, tl rest)))"
  using assms
proof (induction l arbitrary: mem cp)
  case Nil
  then show ?case by (cases rest) (simp_all add: comp_label.simps wr_def)
next
  case (Cons b l)
  obtain m where m: "wr mem cp [b] = Some m" "length m = length mem"
    using Cons.prems by (auto simp: wr_def)
  have "comp_label mem eob cp (escape (b # l) @ rest) = comp_label m eob (cp + 1) (escape l @ rest)"
    using Cons.prems m by (subst comp_label.simps) auto
  also have "\<dots> = Option.bind (wr m (cp + 1) l) (\<lambda>m. Some (m, Some (cp + 1 + length l, tl rest)))"
    using Cons.prems m by (intro Cons.IH) auto
  also have "\<dots> = Option.bind (wr mem cp (b # l)) (\<lambda>m. Some (m, Some (cp + length (b # l), tl rest)))"
    using wr_append [of mem cp "[b]" l] m by simp
  finally show ?case .
qed

lemma valid_label_len: "valid_label l \<Longrightarrow> unat (of_nat (length l) :: u8) = length l"
  by (simp add: valid_label_def unat_of_nat)

lemma escape_Nil_iff [simp]: "escape l = [] \<longleftrightarrow> l = []"
  by (cases l) auto

lemma text_name_Nil_iff: "list_all valid_label ls \<Longrightarrow> text_name ls = [] \<longleftrightarrow> ls = []"
  by (cases ls) (auto simp: text_name_Cons valid_label_def)

lemma comp_loop_text:
  assumes "list_all valid_label ls" "cp + length (wire_name ls) \<le> eob" "eob \<le> length mem"
  shows "comp_loop None lpp lastp eob cdn mem arr cpp cp (text_name ls)
    = Option.bind (wr mem cp (wire_name ls)) (\<lambda>m. Some (m, arr, int (cp + length (wire_name ls)) - int cdn))"
  using assms
proof (induction ls arbitrary: mem cp)
  case Nil
  then show ?case by (simp add: comp_loop.simps comp_finish_def wire_name_def wr_def)
next
  case (Cons l ls)
  have v: "valid_label l" "list_all valid_label ls" using Cons.prems by simp_all
  then have ne: "l \<noteq> []" "length l \<le> 63" by (simp_all add: valid_label_def)
  let ?rest = "if ls = [] then [] else [DOT] @ text_name ls"
  have bound: "cp + 1 + length l + length (wire_name ls) \<le> eob"
    using Cons.prems by (simp add: wire_name_Cons)
  then obtain m1 where m1: "wr mem (cp + 1) l = Some m1" using Cons.prems by (auto simp: wr_def)
  then have l1: "length m1 = length mem" by (rule wr_length)
  obtain m2 where m2: "wr m1 cp [of_nat (length l)] = Some m2"
    using bound Cons.prems l1 by (auto simp: wr_def)
  then have l2: "length m2 = length mem" using l1 wr_length by metis
  have lab: "comp_label mem eob (cp + 1) (escape l @ ?rest) = Some (m1, Some (cp + 1 + length l, tl ?rest))"
    using comp_label_escape [of ?rest "cp + 1" l eob mem] bound Cons.prems m1 by simp
  have "comp_loop None lpp lastp eob cdn mem arr cpp cp (text_name (l # ls))
     = comp_loop None lpp lastp eob cdn m2 arr cpp (cp + 1 + length l) (tl ?rest)"
    using ne m2 lab unfolding text_name_Cons
    by (subst comp_loop.simps) (auto split: option.splits)
  also have "tl ?rest = text_name ls" by simp
  also have "comp_loop None lpp lastp eob cdn m2 arr cpp (cp + 1 + length l) (text_name ls)
     = Option.bind (wr m2 (cp + 1 + length l) (wire_name ls))
        (\<lambda>m. Some (m, arr, int (cp + 1 + length l + length (wire_name ls)) - int cdn))"
    by (rule Cons.IH) (use v bound Cons.prems l2 in simp_all)
  also have "wr m2 (cp + 1 + length l) (wire_name ls) = wr mem cp (wire_name (l # ls))"
  proof -
    have "wr mem cp ([of_nat (length l)] @ l) = Some m2"
      using wr_before [of mem cp "[of_nat (length l)]" l] m1 m2 by simp
    then show ?thesis
      using wr_append [of mem cp "[of_nat (length l)] @ l" "wire_name ls"] by (simp add: wire_name_Cons)
  qed
  finally show ?case by (simp add: wire_name_Cons ac_simps)
qed

lemma dn_comp_writes_wire_name:
  assumes "list_all valid_label ls" "int (length (wire_name ls)) \<le> clen" "int cdn + clen \<le> int (length mem)"
  shows "dn_comp (text_name ls) mem cdn clen None lastp
    = Option.bind (wr mem cdn (wire_name ls)) (\<lambda>m. Some (m, [], int (length (wire_name ls))))"
  using comp_loop_text [OF assms(1), of cdn "nat (int cdn + clen)" mem 0 lastp cdn "[]" 0] assms(2,3)
  by (simp add: dn_comp_def)

lemma expand_label_escape:
  assumes "take (length l) (drop cp mem) = l" "cp + length l < eom" "eom \<le> length mem"
    "int (length out) + int (length (escape l)) < dlen"
  shows "expand_label mem eom dlen (length l) cp out = Some (Some (cp + length l, out @ escape l))"
  using assms
proof (induction l arbitrary: cp out)
  case Nil
  then show ?case by simp
next
  case (Cons b l)
  have cp: "cp < length mem" using Cons.prems by simp
  then have d: "drop cp mem = mem ! cp # drop (cp + 1) mem" by (simp add: Cons_nth_drop_Suc)
  with Cons.prems(1) have b: "mem ! cp = b" and l: "take (length l) (drop (cp + 1) mem) = l" by simp_all
  have "length l \<le> length (escape l)" by (induction l) auto
  then show ?case
    using Cons.IH [OF l, of "out @ (if b = DOT \<or> b = BACKSLASH then [BACKSLASH] else []) @ [b]"] Cons.prems cp b
    by (auto simp: put_byte_def split: if_splits)
qed

lemma expand_loop_wire:
  assumes "list_all valid_label ls" "take (length (wire_name ls)) (drop cp mem) = wire_name ls"
    "cp + length (wire_name ls) \<le> eom" "eom \<le> length mem"
    "int (length (if ls = [] then out else add_dot out @ text_name ls)) < dlen"
  shows "expand_loop mem eom dlen cdn cp out ln k
    = Some (Some (cp + length (wire_name ls), ln, if ls = [] then out else add_dot out @ text_name ls))"
  using assms
proof (induction ls arbitrary: cp out k)
  case Nil
  then have cp: "cp < length mem" by (simp add: wire_name_def)
  then have "drop cp mem = mem ! cp # drop (cp + 1) mem" by (simp add: Cons_nth_drop_Suc)
  with Nil.prems(2) have "mem ! cp = 0" by (simp add: wire_name_def)
  with cp show ?case by (simp add: expand_loop_step wire_name_def)
next
  case (Cons l ls)
  let ?n = "of_nat (length l) :: u8"
  have v: "valid_label l" "list_all valid_label ls" using Cons.prems by simp_all
  then have ne: "l \<noteq> []" "length l \<le> 63" by (simp_all add: valid_label_def)
  have len: "unat ?n = length l" by (rule valid_label_len [OF v(1)])
  have n0: "?n \<noteq> 0" using len ne by (metis length_0_conv unat_0)
  have mask: "?n AND INDIR_MASK = 0"
  proof -
    have "?n = take_bit 6 ?n"
    proof -
      have "take_bit 6 (unat ?n) = unat ?n"
        using ne by (simp only: len take_bit_nat_eq_self_iff) simp
      then show ?thesis by (metis unsigned_take_bit_eq word_unat_eq_iff)
    qed
    moreover have "take_bit 6 ?n AND INDIR_MASK = 0"
    proof -
      have ind: "INDIR_MASK = NOT (mask 6)" by (simp add: mask_eq_exp_minus_1)
      show ?thesis by (simp only: take_bit_eq_mask ind) (rule bit_word_eqI, auto simp: bit_simps)
    qed
    ultimately show ?thesis by simp
  qed
  have cp: "cp < length mem" and eom: "cp + 1 + length l + length (wire_name ls) \<le> eom"
    using Cons.prems by (simp_all add: wire_name_Cons)
  have d: "drop cp mem = mem ! cp # drop (cp + 1) mem" using cp by (simp add: Cons_nth_drop_Suc)
  with Cons.prems(2) have n: "mem ! cp = ?n"
    and t: "take (length l + length (wire_name ls)) (drop (cp + 1) mem) = l @ wire_name ls"
    by (simp_all add: wire_name_Cons)
  from arg_cong [OF t, of "take (length l)"] have tl: "take (length l) (drop (cp + 1) mem) = l" by (simp add: min_def)
  from arg_cong [OF t, of "drop (length l)"]
  have tr: "take (length (wire_name ls)) (drop (cp + 1 + length l) mem) = wire_name ls"
    by (simp add: drop_take add.commute)
  let ?out = "add_dot out"
  have fit: "int (length ?out) + int (length (escape l)) < dlen"
    using Cons.prems(5) by (simp add: text_name_Cons split: if_splits)
  have le: "length l \<le> length (escape l)" by (induction l) auto
  have lab: "expand_label mem eom dlen (length l) (cp + 1) ?out = Some (Some (cp + 1 + length l, ?out @ escape l))"
    by (rule expand_label_escape [OF tl]) (use eom Cons.prems fit wire_name_pos [of ls] in \<open>auto simp: Suc_le_eq neq_Nil_conv\<close>)
  have out: "\<not> (out \<noteq> [] \<and> int (length out) \<ge> dlen)" "\<not> int (length ?out) + int (length l) \<ge> dlen"
    using fit le by (auto simp: add_dot_def split: if_splits)
  have "expand_loop mem eom dlen cdn cp out ln k
     = expand_loop mem eom dlen cdn (cp + 1 + length l) (?out @ escape l) ln (k + length l + 1)"
    using cp n n0 mask out lab len by (subst expand_loop_step) (simp only: rd_Some bind.bind_lunit if_False if_True option.case prod.case len simp_thms)
  also have "\<dots> = Some (Some (cp + 1 + length l + length (wire_name ls), ln,
      if ls = [] then ?out @ escape l else add_dot (?out @ escape l) @ text_name ls))"
    by (rule Cons.IH) (use v tr eom Cons.prems(4,5) ne in \<open>auto simp: text_name_Cons add_dot_def\<close>)
  finally show ?case using ne by (auto simp: wire_name_Cons text_name_Cons add_dot_def)
qed

lemma text_name_clean:
  "list_all valid_label ls \<Longrightarrow> list_all (\<lambda>b. b \<noteq> 0 \<and> \<not> space_byte b) (text_name ls)"
proof (induction ls)
  case (Cons l ls)
  have "list_all (\<lambda>b. b \<noteq> 0 \<and> \<not> space_byte b) l \<Longrightarrow> list_all (\<lambda>b. b \<noteq> 0 \<and> \<not> space_byte b) (escape l)" for l
    by (induction l) (auto simp: space_byte_def)
  with Cons show ?case by (simp add: text_name_Cons valid_label_def space_byte_def)
qed simp

lemma dn_expand_wire_name:
  assumes "list_all valid_label ls" "take (length (wire_name ls)) (drop cdn mem) = wire_name ls"
    "cdn + length (wire_name ls) \<le> eom" "eom \<le> length mem" "int (length (text_name ls)) < dlen"
  shows "dn_expand mem eom cdn dlen = Some (DnOk (length (wire_name ls)) (text_name ls))"
proof -
  have "takeWhile (\<lambda>b. b \<noteq> 0) (text_name ls) = text_name ls"
    using text_name_clean [OF assms(1)] by (auto simp: list_all_iff)
  then have "\<not> list_ex space_byte (takeWhile (\<lambda>b. b \<noteq> 0) (text_name ls))"
    using text_name_clean [OF assms(1)] by (auto simp: list_all_iff list_ex_iff dest: set_takeWhileD)
  moreover have "expand_loop mem eom dlen cdn cdn [] (-1) 0 = Some (Some (cdn + length (wire_name ls), -1, text_name ls))"
    using expand_loop_wire [OF assms(1-4), of "[]" dlen cdn "-1" 0] assms(5) by (cases ls) (auto simp: add_dot_def)
  ultimately show ?thesis using assms(5) by (simp add: dn_expand_def put_byte_def takeWhile_nul)
qed

section \<open>Writes of dn_comp\<close>

definition same_outside :: "nat \<Rightarrow> nat \<Rightarrow> 'a list \<Rightarrow> 'a list \<Rightarrow> bool" where
  "same_outside lo hi mem m \<longleftrightarrow>
     length m = length mem \<and> take lo m = take lo mem \<and> drop hi m = drop hi mem"

lemma same_outside_refl [simp]: "same_outside lo hi mem mem"
  by (simp add: same_outside_def)

lemma same_outside_trans:
  assumes "same_outside lo hi mem m1" "same_outside lo1 hi m1 m2" "lo \<le> lo1"
  shows "same_outside lo hi mem m2"
proof -
  have "take lo m2 = take lo (take lo1 m2)" using assms(3) by (simp add: min_def)
  also have "\<dots> = take lo m1" using assms(2,3) by (simp add: same_outside_def min_def)
  finally show ?thesis using assms(1,2) by (simp add: same_outside_def)
qed

lemma same_outside_wr:
  assumes "wr mem i ys = Some m" "lo \<le> i" "i + length ys \<le> hi"
  shows "same_outside lo hi mem m"
proof -
  have m: "m = take i mem @ ys @ drop (i + length ys) mem" and l: "i + length ys \<le> length mem"
    using assms(1) by (auto simp: wr_def split: if_splits)
  have e: "min (length mem) i = i" using l by simp
  have "drop hi m = drop (hi - i) (ys @ drop (i + length ys) mem)"
    using l assms(3) by (simp add: m e)
  also have "\<dots> = drop hi mem" using assms(3) by simp
  finally have "drop hi m = drop hi mem" .
  moreover have "take lo m = take lo mem" using assms(2) l by (simp add: m e min_def)
  ultimately show ?thesis using wr_length [OF assms(1)] by (simp add: same_outside_def)
qed

lemma comp_label_safe:
  "eob \<le> length mem \<Longrightarrow> \<exists>m r. comp_label mem eob cp s = Some (m, r) \<and> same_outside cp eob mem m \<and>
     (case r of None \<Rightarrow> True | Some (cp', s') \<Rightarrow> cp' = cp \<or> cp < cp' \<and> cp' \<le> eob)"
proof (induction mem eob cp s rule: comp_label.induct)
  case (1 mem eob cp s)
  show ?case
  proof (cases s)
    case Nil
    then show ?thesis by (simp add: comp_label.simps)
  next
    case (Cons c rest)
    consider "c = DOT \<or> c = BACKSLASH \<and> rest = [] \<or> cp \<ge> eob"
      | "c \<noteq> DOT" "\<not> (c = BACKSLASH \<and> rest = [])" "cp < eob" by force
    then show ?thesis
    proof cases
      case 1
      with Cons show ?thesis by (subst comp_label.simps) auto
    next
      case 2
      define b where "b = (if c = BACKSLASH then hd rest else c)"
      define t where "t = (if c = BACKSLASH then tl rest else rest)"
      obtain m1 where m1: "wr mem cp [b] = Some m1" using 2 "1.prems" by (auto simp: wr_def)
      have l1: "eob \<le> length m1" using wr_length [OF m1] "1.prems" by simp
      have step: "comp_label mem eob cp s = comp_label m1 eob (cp + 1) t"
        using Cons 2 m1 by (subst comp_label.simps) (auto simp: b_def t_def)
      have "\<exists>m r. comp_label m1 eob (cp + 1) t = Some (m, r) \<and> same_outside (cp + 1) eob m1 m \<and>
         (case r of None \<Rightarrow> True | Some (cp', s') \<Rightarrow> cp' = cp + 1 \<or> cp + 1 < cp' \<and> cp' \<le> eob)"
        using "1.IH"(1) [OF Cons, of m1] "1.IH"(2) [OF Cons, of m1] 2 m1 l1
        by (cases "c = BACKSLASH") (auto simp: b_def t_def)
      moreover have m1_out: "same_outside cp eob mem m1" by (rule same_outside_wr [OF m1]) (use 2 in auto)
      ultimately obtain m r where "comp_label mem eob cp s = Some (m, r)" and so: "same_outside (cp + 1) eob m1 m"
        and r: "case r of None \<Rightarrow> True | Some (cp', s') \<Rightarrow> cp' = cp + 1 \<or> cp + 1 < cp' \<and> cp' \<le> eob"
        using step by auto
      moreover have "same_outside cp eob mem m"
        by (rule same_outside_trans [OF m1_out so]) simp
      moreover have "case r of None \<Rightarrow> True | Some (cp', s') \<Rightarrow> cp' = cp \<or> cp < cp' \<and> cp' \<le> eob"
        using r 2(3) by (auto split: option.splits)
      ultimately show ?thesis by blast
    qed
  qed
qed

lemma comp_finish_safe':
  assumes "eob \<le> length mem"
  shows "\<exists>m a r. comp_finish msg lpp eob cdn mem arr cp = Some (m, a, r) \<and> same_outside cp eob mem m"
proof (cases "cp \<ge> eob")
  case True
  then show ?thesis by (simp add: comp_finish_def)
next
  case False
  then obtain m where m: "wr mem cp [0] = Some m" using assms by (auto simp: wr_def)
  with False same_outside_wr [OF m, of cp eob] show ?thesis by (simp add: comp_finish_def)
qed

lemma comp_loop_safe:
  assumes "eob \<le> length mem"
  shows "\<exists>m a r. comp_loop None lpp None eob cdn mem arr cpp cp s = Some (m, a, r) \<and> same_outside cp eob mem m"
  using assms
proof (induction "length s" arbitrary: mem cp s rule: less_induct)
  case less
  show ?case
  proof (cases "s = []")
    case True
    then show ?thesis using comp_finish_safe' [OF less.prems] by (simp add: comp_loop.simps)
  next
    case False
    obtain m1 r where lab: "comp_label mem eob (cp + 1) s = Some (m1, r)" "same_outside (cp + 1) eob mem m1"
      "case r of None \<Rightarrow> True | Some (cp', s') \<Rightarrow> cp' = cp + 1 \<or> cp + 1 < cp' \<and> cp' \<le> eob"
      using comp_label_safe [OF less.prems] by blast
    have so1: "same_outside cp eob mem m1"
      by (rule same_outside_trans [OF same_outside_refl lab(2)]) simp
    have len1: "eob \<le> length m1" using lab(2) less.prems by (simp add: same_outside_def)
    note step = comp_loop.simps [of None lpp None eob cdn mem arr cpp cp s]
    show ?thesis
    proof (cases r)
      case None
      then show ?thesis using step False lab so1 by simp
    next
      case (Some p)
      obtain cp1 s1 where p: "p = (cp1, s1)" by (cases p)
      consider (fin) "cp1 - cp - 1 = 0" "s1 = []" | (bad) "cp1 - cp - 1 = 0 \<and> s1 \<noteq> [] \<or> cp1 - cp - 1 > 63"
        | (rec) "0 < cp1 - cp - 1" "cp1 - cp - 1 \<le> 63" by linarith
      then show ?thesis
      proof cases
        case fin
        have "cp1 \<ge> Suc cp" using lab(3) Some p by auto
        with fin have "cp1 = Suc cp" by simp
        then have "comp_loop None lpp None eob cdn mem arr cpp cp s = comp_finish None lpp eob cdn m1 arr cp"
          using step False lab Some p fin by simp
        moreover obtain m a r where "comp_finish None lpp eob cdn m1 arr cp = Some (m, a, r)" "same_outside cp eob m1 m"
          using comp_finish_safe' [OF len1] by blast
        ultimately show ?thesis using so1 by (auto intro: same_outside_trans)
      next
        case bad
        then show ?thesis using step False lab Some p so1 by auto
      next
        case rec
        with lab Some p have b: "cp + 1 < cp1" "cp1 \<le> eob" by auto
        obtain m2 where m2: "wr m1 cp [of_nat (cp1 - cp - 1)] = Some m2"
          using b len1 by (auto simp: wr_def)
        have so2: "same_outside cp eob m1 m2" by (rule same_outside_wr [OF m2]) (use b in auto)
        have "length s1 < length s" using comp_label_rest lab(1) Some p False by blast
        moreover have "eob \<le> length m2" using so2 len1 by (simp add: same_outside_def)
        ultimately obtain m a r where fin: "comp_loop None lpp None eob cdn m2 arr cpp cp1 s1 = Some (m, a, r)"
          "same_outside cp1 eob m2 m" using less.hyps by blast
        have "comp_loop None lpp None eob cdn mem arr cpp cp s = Some (m, a, r)"
          using step False lab Some p rec m2 fin by simp
        moreover have "same_outside cp eob mem m"
          using so1 so2 fin(2) b by (meson order_refl same_outside_trans le_add1 less_imp_le_nat order_trans)
        ultimately show ?thesis by blast
      qed
    qed
  qed
qed

lemma putshort_getshort_fact: "putshort v mem cp = Some m \<Longrightarrow> getshort m cp = Some v"
proof -
  assume "putshort v mem cp = Some m"
  then have "m = take cp mem @ [ucast (drop_bit 8 v), ucast v] @ drop (cp + 2) mem" "cp + 2 \<le> length mem"
    by (auto simp: putshort_def wr_def split: if_splits)
  then have "rd m cp = Some (ucast (drop_bit 8 v))" "rd m (cp + 1) = Some (ucast v)"
    by (simp_all add: nth_append min_def)
  moreover have "push_bit 8 (ucast (ucast (drop_bit 8 v) :: u8)) OR ucast (ucast v :: u8) = v"
    by (rule bit_word_eqI) (auto simp: bit_simps)
  ultimately show ?thesis by (simp add: getshort_def)
qed

lemma putlong_getlong_fact: "putlong v mem cp = Some m \<Longrightarrow> getlong m cp = Some v"
proof -
  assume "putlong v mem cp = Some m"
  then have m: "m = take cp mem @ [ucast (drop_bit 24 v), ucast (drop_bit 16 v), ucast (drop_bit 8 v), ucast v]
     @ drop (cp + 4) mem" and l: "cp + 4 \<le> length mem"
    by (auto simp: putlong_def wr_def eval_nat_numeral split: if_splits)
  then have "rd m cp = Some (ucast (drop_bit 24 v))" "rd m (cp + 1) = Some (ucast (drop_bit 16 v))"
    "rd m (cp + 2) = Some (ucast (drop_bit 8 v))" "rd m (cp + 3) = Some (ucast v)"
    by (simp_all add: nth_append min_def)
  moreover have "push_bit 24 (ucast (ucast (drop_bit 24 v) :: u8)) OR push_bit 16 (ucast (ucast (drop_bit 16 v) :: u8))
     OR push_bit 8 (ucast (ucast (drop_bit 8 v) :: u8)) OR ucast (ucast v :: u8) = v"
  proof (rule bit_word_eqI)
    fix n assume "n < LENGTH(32)"
    consider "n < 8" | "8 \<le> n" "n < 16" | "16 \<le> n" "n < 24" | "24 \<le> n" by linarith
    then show "bit (push_bit 24 (ucast (ucast (drop_bit 24 v) :: u8)) OR push_bit 16 (ucast (ucast (drop_bit 16 v) :: u8))
        OR push_bit 8 (ucast (ucast (drop_bit 8 v) :: u8)) OR ucast (ucast v :: u8) :: u32) n = bit v n"
      using \<open>n < LENGTH(32)\<close> by cases (simp_all add: bit_simps, linarith+)
  qed
  ultimately show ?thesis by (simp add: getlong_def)
qed

section \<open>Properties\<close>

text \<open>C2: \<open>dn_comp\<close> and \<open>dn_expand\<close> are inverse: the text of any name of valid labels, dots and
  backslashes in the labels included, is compressed (without earlier names) to its wire form, the
  return value is the length of that form, and expanding the result gives the text and the same length.\<close>

theorem dn_comp_expand:
  assumes "list_all valid_label ls" "int (length (wire_name ls)) \<le> clen" "int cdn + clen \<le> int (length mem)"
  shows "\<exists>m. dn_comp (text_name ls) mem cdn clen None None = Some (m, [], int (length (wire_name ls))) \<and>
     dn_expand m (cdn + length (wire_name ls)) cdn (int (length (text_name ls)) + 1)
       = Some (DnOk (length (wire_name ls)) (text_name ls))"
proof -
  obtain m where m: "wr mem cdn (wire_name ls) = Some m" using assms by (auto simp: wr_def)
  have "m = take cdn mem @ wire_name ls @ drop (cdn + length (wire_name ls)) mem" "cdn \<le> length mem"
    using m by (auto simp: wr_def split: if_splits)
  then have "take (length (wire_name ls)) (drop cdn m) = wire_name ls" by (simp add: min_def)
  moreover have "cdn + length (wire_name ls) \<le> length m" using wr_length [OF m] assms by linarith
  ultimately have "dn_expand m (cdn + length (wire_name ls)) cdn (int (length (text_name ls)) + 1)
       = Some (DnOk (length (wire_name ls)) (text_name ls))"
    by (intro dn_expand_wire_name [OF assms(1)]) simp_all
  then show ?thesis using dn_comp_writes_wire_name [OF assms, of None] m by simp
qed

theorem dn_comp_expand_witness:
  "\<exists>m. dn_comp (text_name [[0x61, 0x2e], [0x62]]) (replicate 12 0xff) 2 10 None None
       = Some (m, [], int (length (wire_name [[0x61, 0x2e], [0x62]])))
     \<and> dn_expand m (2 + length (wire_name [[0x61, 0x2e], [0x62]])) 2
         (int (length (text_name [[0x61, 0x2e], [0x62]])) + 1)
       = Some (DnOk (length (wire_name [[0x61, 0x2e], [0x62]])) (text_name [[0x61, 0x2e], [0x62]]))"
  by (rule dn_comp_expand) (simp_all add: valid_label_def space_byte_def wire_name_def)

text \<open>C26: called without lists of earlier names (\<open>dnptrs\<close> and \<open>lastdnptr\<close> null), \<open>dn_comp\<close> always
  returns and stores nothing outside the \<open>length\<close> bytes at \<open>comp_dn\<close>, for every text, valid or not,
  and every length. (With such a list the search \<open>dn_find\<close> follows the pointers of the message, in a cycle
  without end.)\<close>

theorem dn_comp_safe:
  assumes "0 \<le> clen" "int cdn + clen \<le> int (length mem)"
  shows "\<exists>m a r. dn_comp exp_dn mem cdn clen None None = Some (m, a, r) \<and>
     same_outside cdn (nat (int cdn + clen)) mem m"
  using comp_loop_safe [of "nat (int cdn + clen)" mem 0 cdn "[]" 0 cdn exp_dn] assms
  by (simp add: dn_comp_def nat_le_iff)

theorem dn_comp_safe_witness:
  "\<exists>m a r. dn_comp [0x61, 0x2e, 0x62] (replicate 6 0xff) 1 3 None None = Some (m, a, r)
     \<and> same_outside 1 4 (replicate 6 0xff) m"
  using dn_comp_safe [of 3 1 "replicate 6 0xff" "[0x61, 0x2e, 0x62]"] by simp

text \<open>C27: \<open>dn_expand\<close> on any message, pointer cycles included, that starts before the end of the message
  and behind which the object goes on for at least one byte (\<open>eom < length mem\<close>), with a buffer of at
  least one byte: it returns, every read is inside the object and every store, of the paths that end in -1 too,
  is inside the \<open>length\<close> bytes of the buffer (each store of the model at or behind them is \<open>None\<close>). A
  result with its nul fits the buffer, and the encoding it reports ends at most one byte behind the message.\<close>

theorem dn_expand_defined:
  assumes "cdn < eom" "eom < length mem" "0 < dlen"
  shows "\<exists>r. dn_expand mem eom cdn dlen = Some r \<and>
    (case r of DnFail \<Rightarrow> True | DnOk len name \<Rightarrow> int (length name) + 1 \<le> dlen \<and> cdn + len \<le> eom + 1)"
proof -
  obtain r where r: "expand_loop mem eom dlen cdn cdn [] (-1) 0 = Some r"
    using expand_loop_defined assms(1,2) by blast
  with assms have "expand_post eom dlen cdn r" by (intro expand_loop_post [OF r]) auto
  with r show ?thesis by (cases r) (auto simp: dn_expand_def expand_post_def put_byte_def)
qed

theorem dn_expand_defined_witness:
  "\<exists>r. dn_expand [2, 0x61, 0x2e, 0xc0, 0x00, 0x00] 5 0 4 = Some r \<and>
    (case r of DnFail \<Rightarrow> True | DnOk len name \<Rightarrow> int (length name) + 1 \<le> 4 \<and> 0 + len \<le> 5 + 1)"
  using dn_expand_defined [of 0 5 "[2, 0x61, 0x2e, 0xc0, 0x00, 0x00]" 4] by simp

text \<open>That byte is needed: a message that ends in the first byte of a pointer is read one byte past its end.\<close>

theorem dn_expand_over_read: "dn_expand [0xc0] 1 0 256 = None"
  by (simp add: dn_expand_def expand_loop_step)

text \<open>\<open>dn_skipname\<close> skips exactly the bytes \<open>dn_expand\<close> reports for the same name.\<close>

theorem skipname_agrees:
  assumes "dn_expand mem eom cdn dlen = Some (DnOk len name)" "cdn < eom" "cdn + len \<le> eom"
  shows "dn_skipname mem cdn eom = Some (int len)"
  using assms(1)
proof (rule dn_expand_OkE)
  fix cp l
  assume r: "expand_loop mem eom dlen cdn cdn [] (-1) 0 = Some (Some (cp, l, name))"
    and len: "len = (if l < 0 then cp - cdn else nat l)" and dl: "int (length name) < dlen"
  have "expand_post eom dlen cdn (Some (cp, l, name))"
    by (rule expand_loop_post [OF r]) (use assms(2) dl in simp_all)
  with expand_loop_skip [OF r refl assms(2) order_refl] len assms(3) show ?thesis
    by (auto simp: dn_skipname_def expand_post_def split: if_splits)
qed

theorem skipname_agrees_witness: "dn_skipname [1, 0x61, 0, 0] 0 3 = Some (int 3)"
  by (rule skipname_agrees [of _ _ _ 16 _ "[0x61]"])
    (simp_all add: dn_expand_def expand_loop.simps put_dot_def put_byte_def space_byte_def)

text \<open>What \<open>__putshort\<close> and \<open>__putlong\<close> store is what \<open>_getshort\<close> and \<open>_getlong\<close> read back.\<close>

theorem put_get:
  "(putshort v mem cp = Some m \<longrightarrow> getshort m cp = Some v) \<and> (putlong w mem cp = Some m \<longrightarrow> getlong m cp = Some w)"
  by (blast intro: putshort_getshort_fact putlong_getlong_fact)

theorem put_get_witness:
  "\<exists>m n. putshort 0x1234 [0, 0, 0, 0] 1 = Some m \<and> getshort m 1 = Some 0x1234
     \<and> putlong 0x12345678 [0, 0, 0, 0] 0 = Some n \<and> getlong n 0 = Some 0x12345678"
  using put_get [of "0x1234" "[0, 0, 0, 0]" 1 _ "0x12345678"] put_get [of _ "[0, 0, 0, 0]" 0 _ "0x12345678"]
  by (simp add: putshort_def putlong_def wr_def)

end
