(* ===== verification/Ini_File.thy ===== *)
theory Ini_File
  imports Lsck_Prelude
begin

text \<open>
  The configuration file: \<open>src/ini.c\<close> reads one entry of a file in the format of Windows .INI
  files, \<open>src/config.c\<close> finds the file. The contents of a file is the text \<open>fgets\<close> reads;
  the files and the environment of the process are parameters.
\<close>

section \<open>Reading lines\<close>

definition NUL :: char where "NUL = CHR 0x00"
definition newline :: char where "newline = CHR 0x0a"

text \<open>
  \<open>fgets (buf, n + 1, fp)\<close> of the C library: at most \<open>n\<close> characters, up to and with the next newline.
  The result is what was read and what is left of the file.
\<close>

fun fgets_line :: "nat \<Rightarrow> string \<Rightarrow> string \<times> string" where
  "fgets_line 0 s = ([], s)"
| "fgets_line (Suc n) [] = ([], [])"
| "fgets_line (Suc n) (c # s) =
     (if c = newline then ([c], s) else (let (l, r) = fgets_line n s in (c # l, r)))"

lemma fgets_line_append: "fgets_line n s = (l, r) \<Longrightarrow> l @ r = s"
  by (induction n s arbitrary: l r rule: fgets_line.induct) (auto split: if_splits prod.splits)

lemma fgets_line_progress: "0 < n \<Longrightarrow> s \<noteq> [] \<Longrightarrow> fst (fgets_line n s) \<noteq> []"
  by (cases n; cases s) (auto split: prod.splits)

function file_lines :: "nat \<Rightarrow> string \<Rightarrow> string list" where
  "file_lines n s = (if n = 0 \<or> s = [] then []
     else fst (fgets_line n s) # file_lines n (snd (fgets_line n s)))"
  by pat_completeness auto
termination
proof (relation "measure (\<lambda>(n, s). length s)", goal_cases)
  case (2 n s)
  then have "fst (fgets_line n s) \<noteq> []" by (intro fgets_line_progress) auto
  moreover have "fst (fgets_line n s) @ snd (fgets_line n s) = s"
    by (rule fgets_line_append) simp
  then have "length (fst (fgets_line n s)) + length (snd (fgets_line n s)) = length s"
    by (metis length_append)
  ultimately show ?case by (cases "fst (fgets_line n s)") simp_all
qed simp

declare file_lines.simps [simp del]

text \<open>The string in the buffer: the characters before the first nul.\<close>

definition cstr :: "string \<Rightarrow> string" where
  "cstr s = takeWhile (\<lambda>c. c \<noteq> NUL) s"

section \<open>GetPrivateProfileString\<close>

definition rstrip :: "string \<Rightarrow> string" where
  "rstrip s = rev (dropWhile isspace (rev s))"

text \<open>Storing a string in \<open>dest\<close>, cut to \<open>destsize\<close>. A \<open>destsize\<close> of 0 wraps around.\<close>

definition store_value :: "nat \<Rightarrow> string \<Rightarrow> string option" where
  "store_value destsize s =
     (if length s + 1 > destsize
      then (if destsize = 0 then None else Some (take (destsize - 1) s))
      else Some s)"

text \<open>
  What one line does: it is skipped, it opens a section, or it gives the value of the key. \<open>None\<close>
  is the access before the buffer: the loops that trim trailing spaces run to the left until they
  find another character, so a line of spaces only, or an empty key, takes them out of \<open>buf\<close>.
\<close>

datatype ini_line = IniSkip | IniSection bool | IniValue string

definition ini_key_line :: "string \<Rightarrow> string \<Rightarrow> ini_line option" where
  "ini_key_line keyname line =
     (if CHR ''='' \<notin> set line then Some IniSkip
      else (let key = takeWhile (\<lambda>c. c \<noteq> CHR ''='') line;
                val = tl (dropWhile (\<lambda>c. c \<noteq> CHR ''='') line)
            in if key = [] then None
               else if keyname \<noteq> rstrip key then Some IniSkip
               else Some (IniValue (dropWhile isspace val))))"

definition ini_line_of :: "string \<Rightarrow> string \<Rightarrow> bool \<Rightarrow> string \<Rightarrow> ini_line option" where
  "ini_line_of appname keyname in_section buf =
     (let line = dropWhile isspace (cstr buf) in
      if line \<noteq> [] \<and> hd line = CHR '';'' then Some IniSkip
      else if line \<noteq> [] \<and> hd line = CHR ''#'' then Some IniSkip
      else if line = [] then None
      else (let line = rstrip line in
        if hd line = CHR ''['' \<and> last line = CHR '']''
        then Some (IniSection (butlast (tl line) = appname))
        else if \<not> in_section then Some IniSkip
        else ini_key_line keyname line))"

fun ini_scan :: "string \<Rightarrow> string \<Rightarrow> nat \<Rightarrow> bool \<Rightarrow> string list \<Rightarrow> string \<Rightarrow> string option" where
  "ini_scan appname keyname destsize in_section [] dest = Some dest"
| "ini_scan appname keyname destsize in_section (buf # bufs) dest = do {
     l \<leftarrow> ini_line_of appname keyname in_section buf;
     (case l of
        IniSkip \<Rightarrow> ini_scan appname keyname destsize in_section bufs dest
      | IniSection b \<Rightarrow> ini_scan appname keyname destsize b bufs dest
      | IniValue v \<Rightarrow> store_value destsize v)
   }"

text \<open>
  \<open>GetPrivateProfileString (appname, keyname, deflt, dest, destsize, filename)\<close>: the return value
  and the string in \<open>dest\<close> (\<open>None\<close> where it is left as it was). \<open>files\<close> gives the contents of
  the files that can be opened.
\<close>

definition GetPrivateProfileString :: "(string \<Rightarrow> string option) \<Rightarrow> string option \<Rightarrow> string option
    \<Rightarrow> string option \<Rightarrow> nat \<Rightarrow> string \<Rightarrow> (nat \<times> string option) option" where
  "GetPrivateProfileString files appname keyname deflt destsize filename =
     (case (appname, keyname) of
        (Some app, Some key) \<Rightarrow> do {
          dest \<leftarrow> (case deflt of Some d \<Rightarrow> store_value destsize d
                     | None \<Rightarrow> if destsize = 0 then None else Some []);
          (case files filename of
             None \<Rightarrow> Some (0, Some dest)
           | Some text \<Rightarrow> do {
               dest1 \<leftarrow> ini_scan app key destsize False (file_lines 255 text) dest;
               Some (length dest1, Some dest1)
             })
        }
      | _ \<Rightarrow> Some (0, None))"

section \<open>The configuration file\<close>

text \<open>
  The static variables of \<open>config.c\<close>. A file name that was allocated and not yet written is the
  empty string. \<open>getenv\<close> is the environment; the buffer \<open>malloc (PATH_MAX)\<close> may be refused.
\<close>

record config =
  configdir :: "string option"
  configdirset :: bool
  configfile :: "string option"
  configfileset :: bool

definition PATH_MAX :: nat where "PATH_MAX = 256"
definition LSCK_CONFIG_FILE :: string where "LSCK_CONFIG_FILE = ''lsck.cfg''"

definition slashify :: "string \<Rightarrow> string" where
  "slashify s = List.map (\<lambda>c. if c = CHR 0x5c then CHR ''/'' else c) s"

definition config_getdir :: "(string \<Rightarrow> string option) \<Rightarrow> config \<Rightarrow> (string option \<times> config) option" where
  "config_getdir getenv c =
     (if \<not> configdirset c then
        (let d = (case getenv ''LSCK'' of Some p \<Rightarrow> Some p | None \<Rightarrow> getenv ''LIBSOCKET'') in
         case d of
           None \<Rightarrow> Some (None, c\<lparr>configdir := None\<rparr>)
         | Some p \<Rightarrow> Some (Some (slashify p), c\<lparr>configdir := Some (slashify p), configdirset := True\<rparr>))
      else
        (case configdir c of
           None \<Rightarrow> None
         | Some p \<Rightarrow> Some (Some (slashify p), c\<lparr>configdir := Some (slashify p)\<rparr>)))"

text \<open>\<open>strdup\<close> fails when memory runs out; the loop then reads through a null pointer.\<close>

definition config_setdir :: "bool \<Rightarrow> string \<Rightarrow> config \<Rightarrow> (string option \<times> config) option" where
  "config_setdir malloc_ok newdir c =
     (if malloc_ok
      then Some (configdir c, c\<lparr>configdir := Some (slashify newdir), configdirset := True\<rparr>)
      else None)"

definition config_getfile :: "(string \<Rightarrow> string option) \<Rightarrow> bool \<Rightarrow> config \<Rightarrow> (string option \<times> config) option" where
  "config_getfile getenv malloc_ok c =
     (if \<not> configfileset c then
        if \<not> malloc_ok then Some (None, c\<lparr>configfile := None\<rparr>)
        else do {
          (d, c) \<leftarrow> config_getdir getenv c;
          (case d of
             None \<Rightarrow> Some (None, c\<lparr>configfile := Some []\<rparr>)
           | Some _ \<Rightarrow> do {
               (d, c) \<leftarrow> config_getdir getenv c;
               p \<leftarrow> d;
               (let f = p @ ''/'' @ LSCK_CONFIG_FILE in
                if length f + 1 > PATH_MAX then None
                else Some (Some f, c\<lparr>configfile := Some f, configfileset := True\<rparr>))
             })
        }
      else Some (configfile c, c))"

definition config_setfile :: "string option \<Rightarrow> config \<Rightarrow> string option \<times> config" where
  "config_setfile newfile c = (configfile c, c\<lparr>configfile := newfile, configfileset := True\<rparr>)"

section \<open>Files in normal form\<close>

text \<open>A file without comments and stray spaces: its sections, each with its entries.\<close>

type_synonym ini = "(string \<times> (string \<times> string) list) list"

definition render_entry :: "string \<times> string \<Rightarrow> string" where
  "render_entry e = fst e @ ''='' @ snd e @ [newline]"

definition render_section :: "string \<times> (string \<times> string) list \<Rightarrow> string" where
  "render_section s = ''['' @ fst s @ '']'' @ [newline] @ concat (map render_entry (snd s))"

definition render_ini :: "ini \<Rightarrow> string" where
  "render_ini secs = concat (map render_section secs)"

definition plain_text :: "string \<Rightarrow> bool" where
  "plain_text t \<longleftrightarrow> newline \<notin> set t \<and> NUL \<notin> set t"

definition trimmed :: "string \<Rightarrow> bool" where
  "trimmed t \<longleftrightarrow> t = [] \<or> \<not> isspace (hd t) \<and> \<not> isspace (last t)"

definition valid_entry :: "string \<times> string \<Rightarrow> bool" where
  "valid_entry e \<longleftrightarrow> (case e of (k, v) \<Rightarrow> plain_text k \<and> plain_text v \<and> trimmed k \<and> trimmed v \<and> k \<noteq> [] \<and>
     CHR ''='' \<notin> set k \<and> hd k \<notin> {CHR '';'', CHR ''#'', CHR ''[''} \<and> length k + length v < 254)"

definition valid_ini :: "ini \<Rightarrow> bool" where
  "valid_ini secs \<longleftrightarrow> list_all (\<lambda>(name, es). plain_text name \<and> length name < 253 \<and> list_all valid_entry es) secs"

definition ini_lookup :: "ini \<Rightarrow> string \<Rightarrow> string \<Rightarrow> string option" where
  "ini_lookup secs app key = map_of (concat (map snd (filter (\<lambda>s. fst s = app) secs))) key"

lemma file_lines_Nil [simp]: "file_lines n [] = []"
  by (simp add: file_lines.simps)

lemma fgets_line_newline:
  "newline \<notin> set l \<Longrightarrow> length l < n \<Longrightarrow> fgets_line n (l @ newline # rest) = (l @ [newline], rest)"
proof (induction l arbitrary: n)
  case Nil
  then show ?case by (cases n) simp_all
next
  case (Cons c l)
  then show ?case by (cases n) auto
qed

lemma file_lines_newline:
  "newline \<notin> set l \<Longrightarrow> length l < n \<Longrightarrow> file_lines n (l @ newline # rest) = (l @ [newline]) # file_lines n rest"
  by (subst file_lines.simps) (simp add: fgets_line_newline)

lemma isspace_newline [simp]: "isspace newline"
  by (simp add: isspace_def newline_def)

lemma newline_NUL [simp]: "newline \<noteq> NUL" "NUL \<noteq> newline"
  by (simp_all add: newline_def NUL_def)

lemma rstrip_trimmed: "t \<noteq> [] \<Longrightarrow> \<not> isspace (last t) \<Longrightarrow> rstrip (t @ [newline]) = t"
  by (cases t rule: rev_cases) (simp_all add: rstrip_def)

lemma rstrip_id: "trimmed t \<Longrightarrow> rstrip t = t"
  by (cases t rule: rev_cases) (simp_all add: rstrip_def trimmed_def)

lemma cstr_line: "plain_text l \<Longrightarrow> cstr (l @ [newline]) = l @ [newline]"
  unfolding cstr_def by (rule takeWhile_all) (auto simp: plain_text_def)

lemma ini_line_trimmed:
  assumes "plain_text l" "trimmed l" "l \<noteq> []" "hd l \<noteq> CHR '';''" "hd l \<noteq> CHR ''#''"
  shows "ini_line_of app key b (l @ [newline])
    = (if hd l = CHR ''['' \<and> last l = CHR '']'' then Some (IniSection (butlast (tl l) = app))
       else if \<not> b then Some IniSkip else ini_key_line key l)"
proof -
  have "\<not> isspace (hd l)" "\<not> isspace (last l)" using assms(2,3) by (auto simp: trimmed_def)
  moreover from this(1) have "dropWhile isspace (l @ [newline]) = l @ [newline]"
    using assms(3) by (cases l) auto
  ultimately show ?thesis
    using assms by (simp add: ini_line_of_def cstr_line rstrip_trimmed Let_def hd_append)
qed

lemma isspace_bracket [simp]: "\<not> isspace (CHR ''['')" "\<not> isspace (CHR '']'')" "\<not> isspace (CHR ''='')"
  by (simp_all add: isspace_def)

lemma ini_line_section:
  assumes "plain_text name"
  shows "ini_line_of app key b (''['' @ name @ '']'' @ [newline]) = Some (IniSection (name = app))"
  using ini_line_trimmed [of "''['' @ name @ '']''" app key b] assms
  by (simp add: plain_text_def trimmed_def newline_def NUL_def)

lemma ini_key_line_entry:
  assumes "valid_entry (k, v)"
  shows "ini_key_line key (k @ ''='' @ v) = Some (if key = k then IniValue v else IniSkip)"
proof -
  have "CHR ''='' \<notin> set k" using assms by (simp add: valid_entry_def)
  then have "takeWhile (\<lambda>c. c \<noteq> CHR ''='') (k @ ''='' @ v) = k"
    "dropWhile (\<lambda>c. c \<noteq> CHR ''='') (k @ ''='' @ v) = CHR ''='' # v"
    by (subst takeWhile_append2 dropWhile_append2; auto)+
  moreover have "dropWhile isspace v = v"
    using assms by (cases v) (auto simp: valid_entry_def trimmed_def)
  ultimately show ?thesis
    using assms by (auto simp: ini_key_line_def valid_entry_def rstrip_id Let_def)
qed

lemma ini_line_entry:
  assumes "valid_entry (k, v)"
  shows "ini_line_of app key b (render_entry (k, v))
    = Some (if b \<and> key = k then IniValue v else IniSkip)"
proof -
  let ?l = "k @ ''='' @ v"
  have k: "k \<noteq> []" "\<not> isspace (hd k)" "hd k \<notin> {CHR '';'', CHR ''#'', CHR ''[''}" "plain_text k" "plain_text v" "trimmed v"
    using assms by (auto simp: valid_entry_def trimmed_def)
  have "plain_text ?l" using k by (auto simp: plain_text_def newline_def NUL_def)
  moreover have "trimmed ?l" using k by (auto simp: trimmed_def)
  ultimately have "ini_line_of app key b (?l @ [newline]) = (if \<not> b then Some IniSkip else ini_key_line key ?l)"
    using k by (subst ini_line_trimmed) auto
  then show ?thesis using ini_key_line_entry [OF assms, of key] by (simp add: render_entry_def)
qed

lemma file_lines_entry:
  assumes "valid_entry e"
  shows "file_lines 255 (render_entry e @ rest) = render_entry e # file_lines 255 rest"
  using file_lines_newline [of "fst e @ ''='' @ snd e" 255 rest] assms
  by (cases e) (auto simp: render_entry_def valid_entry_def plain_text_def newline_def)

lemma ini_scan_entries:
  assumes "list_all valid_entry es"
  shows "ini_scan app key n b (file_lines 255 (concat (map render_entry es) @ rest)) dest
    = (case (if b then map_of es key else None) of
         Some v \<Rightarrow> store_value n v
       | None \<Rightarrow> ini_scan app key n b (file_lines 255 rest) dest)"
  using assms
proof (induction es)
  case (Cons e es)
  obtain k v where e: "e = (k, v)" by (cases e)
  with Cons show ?case
    using ini_line_entry [of k v app key b] file_lines_entry [of e "concat (map render_entry es) @ rest"]
    by simp
qed simp

lemma ini_scan_render:
  assumes "valid_ini secs"
  shows "ini_scan app key n b (file_lines 255 (render_ini secs)) dest
    = (case ini_lookup secs app key of Some v \<Rightarrow> store_value n v | None \<Rightarrow> Some dest)"
  using assms
proof (induction secs arbitrary: b)
  case Nil
  then show ?case by (simp add: render_ini_def ini_lookup_def)
next
  case (Cons s secs)
  obtain name es where s: "s = (name, es)" by (cases s)
  let ?rest = "concat (map render_entry es) @ render_ini secs"
  have v: "plain_text name" "length name < 253" "list_all valid_entry es" "valid_ini secs"
    using Cons.prems by (simp_all add: valid_ini_def s)
  have "file_lines 255 (render_ini (s # secs)) = (''['' @ name @ '']'' @ [newline]) # file_lines 255 ?rest"
    using file_lines_newline [of "''['' @ name @ '']''" 255 ?rest] v
    by (simp add: render_ini_def render_section_def s plain_text_def newline_def)
  then have "ini_scan app key n b (file_lines 255 (render_ini (s # secs))) dest
      = ini_scan app key n (name = app) (file_lines 255 ?rest) dest"
    using ini_line_section [OF v(1), of app key b] by simp
  also have "\<dots> = (case ini_lookup (s # secs) app key of Some v \<Rightarrow> store_value n v | None \<Rightarrow> Some dest)"
    using ini_scan_entries [OF v(3)] Cons.IH [OF v(4)]
    by (auto simp: ini_lookup_def s map_of_append map_add_def split: option.splits)
  finally show ?case .
qed

lemma store_value_length: "store_value n t = Some s \<Longrightarrow> length s < n"
  by (auto simp: store_value_def split: if_splits)

lemma ini_scan_length:
  "ini_scan app key n b ls dest = Some s \<Longrightarrow> length dest < n \<Longrightarrow> length s < n"
proof (induction ls arbitrary: b)
  case (Cons l ls)
  from Cons.prems(1) obtain x where x: "ini_line_of app key b l = Some x"
    by (cases "ini_line_of app key b l") auto
  with Cons show ?case by (cases x) (auto dest: store_value_length)
qed simp

lemma ini_scan_length_Nil: "ini_scan app key n b ls [] = Some s \<Longrightarrow> 0 < n \<Longrightarrow> length s < n"
  using ini_scan_length [of app key n b ls "[]" s] by simp

section \<open>Properties\<close>

lemma profile_lookup:
  assumes "valid_ini secs" "files f = Some (render_ini secs)" "0 < n"
  shows "GetPrivateProfileString files (Some app) (Some key) d n f
    = (let v = take (n - 1) (case ini_lookup secs app key of Some v \<Rightarrow> v | None \<Rightarrow> (case d of Some d \<Rightarrow> d | None \<Rightarrow> []))
       in Some (length v, Some v))"
proof -
  have st: "store_value n t = Some (take (n - 1) t)" for t
    using assms(3) by (simp add: store_value_def)
  show ?thesis
    using assms(2,3) ini_scan_render [OF assms(1), of app key n False]
    by (cases d) (simp_all add: GetPrivateProfileString_def st Let_def split: option.splits)
qed

text \<open>C35: on a file that lists sections and entries, \<open>GetPrivateProfileString\<close> finds the first entry of the
  key in the sections of that name, or the default, cut to the size of the buffer; it returns its length.\<close>

theorem profile_render:
  assumes "valid_ini secs" "files f = Some (render_ini secs)" "0 < n"
  shows "GetPrivateProfileString files (Some app) (Some key) (Some d) n f
    = (let v = take (n - 1) (case ini_lookup secs app key of Some v \<Rightarrow> v | None \<Rightarrow> d)
       in Some (length v, Some v))"
  using profile_lookup [of secs files f n app key "Some d", OF assms] by (simp only: option.case)

theorem profile_render_witness:
  "GetPrivateProfileString [''lsck.cfg'' \<mapsto> render_ini [(''main'', [(''debug'', ''no'')]), (''unix'', [(''Enabled'', ''0'')])]]
     (Some ''unix'') (Some ''Enabled'') (Some ''true'') 6 ''lsck.cfg'' = Some (1, Some ''0'')"
  by (subst profile_render [of "[(''main'', [(''debug'', ''no'')]), (''unix'', [(''Enabled'', ''0'')])]"])
    (simp_all add: valid_ini_def valid_entry_def plain_text_def trimmed_def isspace_def newline_def NUL_def ini_lookup_def)

text \<open>The string stored in \<open>dest\<close> always fits \<open>destsize\<close> bytes with its nul, whatever the file holds, and
  the return value is its length or 0.\<close>

theorem profile_bounds:
  assumes "GetPrivateProfileString files app key d n f = Some (r, Some s)"
  shows "length s < n \<and> (r = length s \<or> r = 0)"
  using assms
  by (auto simp: GetPrivateProfileString_def bind_eq_Some_conv
      dest: store_value_length ini_scan_length_Nil ini_scan_length split: option.split_asm if_split_asm)

theorem profile_bounds_witness:
  "\<exists>r s. GetPrivateProfileString (\<lambda>_. None) (Some ''main'') (Some ''debug'') (Some ''false'') 4 ''f'' = Some (r, Some s)
     \<and> length s < 4 \<and> (r = length s \<or> r = 0)"
proof -
  have "GetPrivateProfileString (\<lambda>_. None) (Some ''main'') (Some ''debug'') (Some ''false'') 4 ''f'' = Some (0, Some ''fal'')"
    by (simp add: GetPrivateProfileString_def store_value_def)
  from this profile_bounds [OF this] show ?thesis by blast
qed

text \<open>A line of white space only is fatal: the loop that removes trailing spaces runs out of the buffer to
  the left, before the test for a blank line is reached.\<close>

theorem profile_blank_line:
  assumes "files f = Some (sp @ newline # rest)" "\<forall>c \<in> set sp. isspace c" "newline \<notin> set sp" "length sp < 255"
  shows "GetPrivateProfileString files (Some app) (Some key) (Some d) n f = None"
proof -
  have "c \<noteq> NUL" if "isspace c" for c using that by (auto simp: isspace_def NUL_def)
  then have "cstr (sp @ [newline]) = sp @ [newline]"
    unfolding cstr_def using assms(2) by (intro takeWhile_all) auto
  then have "ini_line_of app key b (sp @ [newline]) = None" for b
    using assms(2) by (simp add: ini_line_of_def Let_def)
  then show ?thesis
    using assms by (auto simp: GetPrivateProfileString_def file_lines_newline)
qed

theorem profile_blank_line_witness:
  "GetPrivateProfileString [''lsck.cfg'' \<mapsto> '' '' @ newline # ''[main]''] (Some ''main'') (Some ''debug'') (Some ''no'') 16 ''lsck.cfg'' = None"
  by (rule profile_blank_line [where sp = "'' ''" and rest = "''[main]''"]) (simp_all add: isspace_def newline_def)

end
