(* ===== verification/Lsck_State.thy ===== *)
theory Lsck_State
  imports Lsck_Prelude Ini_File
begin

text \<open>
  The state of the socket layer: the socket descriptors (\<open>LSCK_SOCKET\<close> of
  \<open>include/lsck/if.h\<close>) in the heap, the table \<open>__lsck_socket\<close> of \<open>src/socket.c\<close>, the file
  descriptors with their File System Extension (FSEXT) data, and the interfaces (\<open>LSCK_IF\<close>) as
  records of operations, a null function pointer being \<open>None\<close>.

  An operation takes the state and returns a value and the new state, or \<open>None\<close> for undefined
  behaviour. Pointers from \<open>malloc\<close> are numbers that are never used twice, so an access
  through a freed pointer is undefined. \<open>'d\<close> is the type of the data an interface keeps for a socket
  (\<open>idata\<close>), \<open>'w\<close> whatever else the interfaces act on.
\<close>

section \<open>Constants\<close>

datatype errno_t = ENOERR | ENODEV | EMFILE | ENFILE | ENOBUFS | EPROTONOSUPPORT | EBADF | EINVAL | EFAULT
  | EAFNOSUPPORT | EOPNOTSUPP | EALREADY | EISCONN | ENOTCONN | EAGAIN | EINPROGRESS | EPIPE
  | EDESTADDRREQ | ENOSYS | ENOPROTOOPT | EPERM | ENOMEM | ESPIPE | ENXIO | EACCES | ENAMETOOLONG
  | EIO | ENETUNREACH | ECONNREFUSED | ECONNRESET | ENOTSOCK | EMSGSIZE
  | EBUSY | EADDRINUSE | ETIMEDOUT | EHOSTUNREACH | EOTHER int

abbreviation (input) EWOULDBLOCK :: errno_t where "EWOULDBLOCK \<equiv> EAGAIN"

datatype signal = SIGPIPE | SIGURG

abbreviation (input) AF_UNSPEC :: int where "AF_UNSPEC \<equiv> 0"
abbreviation (input) AF_UNIX :: int where "AF_UNIX \<equiv> 1"
abbreviation (input) AF_INET4 :: int where "AF_INET4 \<equiv> 2"
abbreviation (input) SOCK_STREAM :: int where "SOCK_STREAM \<equiv> 1"
abbreviation (input) SOCK_DGRAM :: int where "SOCK_DGRAM \<equiv> 2"
abbreviation (input) SOCK_RAW :: int where "SOCK_RAW \<equiv> 3"
abbreviation (input) IPPROTO_TCP :: int where "IPPROTO_TCP \<equiv> 6"
abbreviation (input) IPPROTO_UDP :: int where "IPPROTO_UDP \<equiv> 17"

text \<open>The commands of \<open>fcntl\<close>; the requests are numbers, and so are two of the commands.\<close>

datatype fcntl_cmd = F_GETFL | F_SETFL | F_GETOWN | F_SETOWN | F_OTHER int

abbreviation (input) F_GETOWN_num :: int where "F_GETOWN_num \<equiv> 16"
abbreviation (input) F_SETOWN_num :: int where "F_SETOWN_num \<equiv> 17"

definition SOCKADDR_COMMON_SIZE :: nat where "SOCKADDR_COMMON_SIZE = 16"
definition SOCKADDR_MAX_SIZE :: nat where "SOCKADDR_MAX_SIZE = 110"
definition SOCKADDR_IN_SIZE :: nat where "SOCKADDR_IN_SIZE = 16"
definition LSCK_NUM_SOCKET :: nat where "LSCK_NUM_SOCKET = 256"
definition LSCK_MAX_IF :: nat where "LSCK_MAX_IF = 7"

section \<open>Data\<close>

text \<open>A socket address is the list of its bytes; the family is the little-endian short at its start.\<close>

type_synonym sockaddr = "u8 list"

definition sa_family :: "sockaddr \<Rightarrow> int option" where
  "sa_family a = do { lo \<leftarrow> rd a 0; hi \<leftarrow> rd a 1; Some (uint lo + 256 * uint hi) }"

record lsck_socket =
  lsd_fd :: int
  lsd_family :: int
  lsd_type :: int
  lsd_protocol :: int
  lsd_errno :: int
  lsd_sockname :: sockaddr
  lsd_socknamelen :: nat
  lsd_peername :: sockaddr
  lsd_peernamelen :: nat
  lsd_bound :: bool
  lsd_accepted :: bool
  lsd_connected :: bool
  lsd_connecting :: bool
  lsd_blocking :: bool
  lsd_outbound :: bool
  lsd_inbound :: bool
  lsd_listening :: bool
  lsd_backlog :: int
  lsd_send_timeout :: int
  lsd_recv_timeout :: int
  lsd_urgent_pid :: int
  lsd_interface :: "nat option"
  lsd_idata :: "nat option"

text \<open>The descriptor after \<open>memset (lsd, 0, sizeof (LSCK_SOCKET))\<close>.\<close>

definition zero_socket :: lsck_socket where
  "zero_socket = \<lparr>lsd_fd = 0, lsd_family = 0, lsd_type = 0, lsd_protocol = 0, lsd_errno = 0,
     lsd_sockname = replicate SOCKADDR_MAX_SIZE 0, lsd_socknamelen = 0,
     lsd_peername = replicate SOCKADDR_MAX_SIZE 0, lsd_peernamelen = 0,
     lsd_bound = False, lsd_accepted = False, lsd_connected = False, lsd_connecting = False,
     lsd_blocking = False, lsd_outbound = False, lsd_inbound = False, lsd_listening = False,
     lsd_backlog = 0, lsd_send_timeout = 0, lsd_recv_timeout = 0, lsd_urgent_pid = 0,
     lsd_interface = None, lsd_idata = None\<rparr>"

record addr_inet =
  inet_address :: u32
  inet_netmask :: u32
  inet_gw_present :: bool
  inet_gw :: u32
  inet_dns :: "u32 list"
  inet_fixed :: bool
  inet_hw_type :: nat
  inet_hw_addr :: "u8 list"
  inet_hw_addrlen :: nat
  inet_hostname :: string
  inet_domainname :: string

record addr_table =
  table_family :: int
  table_inet :: "addr_inet list"

text \<open>
  An open file descriptor: its FSEXT function and data. \<open>SocketFsext\<close> is
  \<open>__lsck_socket_fsext\<close>; the table of the C library maps a descriptor to such an entry.
\<close>

datatype fsext_function = SocketFsext | OtherFsext nat

record fd_entry =
  fd_function :: "fsext_function option"
  fd_data :: "nat option"

record ('d, 'w) lsck =
  errno :: errno_t
  inited :: bool
  if_list :: "nat list"
  if_names :: "string option list option"
  sock_table :: "nat option list"
  sock_heap :: "nat \<Rightarrow> lsck_socket option"
  idata_heap :: "nat \<Rightarrow> 'd option"
  next_ptr :: nat
  fds :: "int \<Rightarrow> fd_entry option"
  signals :: "signal list"
  debug_level :: int
  lsck_config :: config
  world :: 'w

type_synonym ('d, 'w, 'a) act = "('d, 'w) lsck \<Rightarrow> ('a \<times> ('d, 'w) lsck) option"

text \<open>
  The operations of an interface. A buffer argument is the contents of the caller's object; what the
  operation leaves in it is part of the result. \<open>getsockopt\<close>, \<open>setsockopt\<close>, \<open>fcntl\<close> and \<open>ioctl\<close> return
  whether they handled the request and the value they store in \<open>*rv\<close>.
\<close>

record ('d, 'w) lsck_if =
  if_name :: "string option"
  if_flags :: int
  if_addr :: "addr_table option"
  if_preuninit :: "('d, 'w, int) act option"
  if_uninit :: "('d, 'w, int) act option"
  if_socket :: "(nat \<Rightarrow> ('d, 'w, int) act) option"
  if_socketpair :: "(nat \<Rightarrow> nat \<Rightarrow> ('d, 'w, int) act) option"
  if_close :: "(nat \<Rightarrow> ('d, 'w, int) act) option"
  if_proto_check :: "(int \<Rightarrow> int \<Rightarrow> int \<Rightarrow> bool) option"
  if_addrlen_check :: "(lsck_socket \<Rightarrow> nat \<Rightarrow> bool) option"
  if_bind :: "(nat \<Rightarrow> sockaddr \<Rightarrow> nat \<Rightarrow> ('d, 'w, int) act) option"
  if_listen :: "(nat \<Rightarrow> int \<Rightarrow> ('d, 'w, int) act) option"
  if_accept :: "(nat \<Rightarrow> nat \<Rightarrow> sockaddr \<Rightarrow> nat \<Rightarrow> ('d, 'w, int \<times> sockaddr \<times> nat) act) option"
  if_connect :: "(nat \<Rightarrow> sockaddr \<Rightarrow> nat \<Rightarrow> ('d, 'w, int) act) option"
  if_recv :: "(nat \<Rightarrow> u8 list \<Rightarrow> nat \<Rightarrow> u32 \<Rightarrow> ('d, 'w, int \<times> u8 list) act) option"
  if_recvfrom :: "(nat \<Rightarrow> u8 list \<Rightarrow> nat \<Rightarrow> u32 \<Rightarrow> sockaddr option \<Rightarrow> nat option
     \<Rightarrow> ('d, 'w, int \<times> u8 list \<times> sockaddr option \<times> nat option) act) option"
  if_send :: "(nat \<Rightarrow> u8 list \<Rightarrow> nat \<Rightarrow> u32 \<Rightarrow> ('d, 'w, int) act) option"
  if_sendto :: "(nat \<Rightarrow> u8 list \<Rightarrow> nat \<Rightarrow> u32 \<Rightarrow> sockaddr option \<Rightarrow> nat \<Rightarrow> ('d, 'w, int) act) option"
  if_getsockname :: "(nat \<Rightarrow> sockaddr \<Rightarrow> nat \<Rightarrow> ('d, 'w, int \<times> sockaddr \<times> nat) act) option"
  if_getpeername :: "(nat \<Rightarrow> sockaddr \<Rightarrow> nat \<Rightarrow> ('d, 'w, int \<times> sockaddr \<times> nat) act) option"
  if_getsockopt :: "(nat \<Rightarrow> int \<Rightarrow> int \<Rightarrow> u8 list \<Rightarrow> nat \<Rightarrow> ('d, 'w, bool \<times> int \<times> u8 list \<times> nat) act) option"
  if_setsockopt :: "(nat \<Rightarrow> int \<Rightarrow> int \<Rightarrow> u8 list \<Rightarrow> nat \<Rightarrow> ('d, 'w, bool \<times> int) act) option"
  if_shutdown :: "(nat \<Rightarrow> int \<Rightarrow> ('d, 'w, int) act) option"
  if_fcntl :: "(nat \<Rightarrow> fcntl_cmd \<Rightarrow> int \<Rightarrow> ('d, 'w, bool \<times> int) act) option"
  if_ioctl :: "(nat \<Rightarrow> int \<Rightarrow> u8 list \<Rightarrow> ('d, 'w, bool \<times> int \<times> u8 list) act) option"
  if_select :: "(nat \<Rightarrow> int \<Rightarrow> ('d, 'w, int) act) option"
  if_nonblocking_check :: "(nat \<Rightarrow> ('d, 'w, int) act) option"
  if_sockatmark :: "(nat \<Rightarrow> ('d, 'w, int) act) option"

text \<open>
  What the layer is linked with: the interfaces with their \<open>init\<close> functions in the order of
  \<open>if_init_table\<close>, and the C library: \<open>getpid\<close>, \<open>__FSEXT_alloc_fd\<close> (a free descriptor, or a negative
  number), \<open>malloc\<close> (whether allocation number \<open>n\<close> succeeds), \<open>getenv\<close>, the text files and the clock.
  \<open>env_junk\<close> is what an uninitialised buffer holds.
\<close>

record ('d, 'w) lsck_env =
  env_if :: "nat \<Rightarrow> ('d, 'w) lsck_if"
  env_init_table :: "('d, 'w, nat option) act list"
  env_getpid :: int
  env_alloc_fd :: "('d, 'w) lsck \<Rightarrow> int"
  env_malloc :: "nat \<Rightarrow> bool"
  env_getenv :: "string \<Rightarrow> string option"
  env_files :: "string \<Rightarrow> string option"
  env_time :: int
  env_junk :: "u8 list"

section \<open>Primitives\<close>

text \<open>\<open>errno = e; return (v);\<close>\<close>

definition fail_with :: "errno_t \<Rightarrow> 'a \<Rightarrow> ('d, 'w, 'a) act" where
  "fail_with e v st = Some (v, st\<lparr>errno := e\<rparr>)"

abbreviation fail :: "errno_t \<Rightarrow> ('d, 'w, int) act" where
  "fail e \<equiv> fail_with e (-1)"

text \<open>Reading and writing the descriptor a pointer refers to.\<close>

definition upd_lsd :: "nat \<Rightarrow> (lsck_socket \<Rightarrow> lsck_socket) \<Rightarrow> ('d, 'w) lsck \<Rightarrow> ('d, 'w) lsck option" where
  "upd_lsd p f st = (case sock_heap st p of
     None \<Rightarrow> None | Some l \<Rightarrow> Some (st\<lparr>sock_heap := (sock_heap st)(p := Some (f l))\<rparr>))"

definition lsd_if :: "('d, 'w) lsck_env \<Rightarrow> lsck_socket \<Rightarrow> ('d, 'w) lsck_if option" where
  "lsd_if env l = map_option (env_if env) (lsd_interface l)"

text \<open>\<open>malloc\<close>: a fresh pointer, or a null pointer.\<close>

definition malloc_ptr :: "('d, 'w) lsck_env \<Rightarrow> ('d, 'w) lsck \<Rightarrow> nat option \<times> ('d, 'w) lsck" where
  "malloc_ptr env st =
     ((if env_malloc env (next_ptr st) then Some (next_ptr st) else None), st\<lparr>next_ptr := next_ptr st + 1\<rparr>)"

definition free_lsd :: "nat option \<Rightarrow> ('d, 'w) lsck \<Rightarrow> ('d, 'w) lsck option" where
  "free_lsd q st = (case q of None \<Rightarrow> Some st
     | Some p \<Rightarrow> if sock_heap st p = None then None else Some (st\<lparr>sock_heap := (sock_heap st)(p := None)\<rparr>))"

definition free_idata :: "nat option \<Rightarrow> ('d, 'w) lsck \<Rightarrow> ('d, 'w) lsck option" where
  "free_idata q st = (case q of None \<Rightarrow> Some st
     | Some d \<Rightarrow> if idata_heap st d = None then None else Some (st\<lparr>idata_heap := (idata_heap st)(d := None)\<rparr>))"

text \<open>
  The FSEXT calls of the C library. A function or datum can be set for any descriptor; \<open>_close\<close>
  gives the descriptor back.
\<close>

definition FSEXT_get_function :: "int \<Rightarrow> ('d, 'w) lsck \<Rightarrow> fsext_function option" where
  "FSEXT_get_function fd st = Option.bind (fds st fd) fd_function"

definition FSEXT_get_data :: "int \<Rightarrow> ('d, 'w) lsck \<Rightarrow> nat option" where
  "FSEXT_get_data fd st = Option.bind (fds st fd) fd_data"

definition FSEXT_set_function :: "int \<Rightarrow> fsext_function option \<Rightarrow> ('d, 'w) lsck \<Rightarrow> ('d, 'w) lsck" where
  "FSEXT_set_function fd f st =
     st\<lparr>fds := (fds st)(fd := map_option (\<lambda>e. e\<lparr>fd_function := f\<rparr>) (fds st fd))\<rparr>"

definition FSEXT_set_data :: "int \<Rightarrow> nat option \<Rightarrow> ('d, 'w) lsck \<Rightarrow> ('d, 'w) lsck" where
  "FSEXT_set_data fd d st =
     st\<lparr>fds := (fds st)(fd := map_option (\<lambda>e. e\<lparr>fd_data := d\<rparr>) (fds st fd))\<rparr>"

definition FSEXT_alloc_fd :: "('d, 'w) lsck_env \<Rightarrow> fsext_function \<Rightarrow> ('d, 'w) lsck \<Rightarrow> int \<times> ('d, 'w) lsck" where
  "FSEXT_alloc_fd env f st =
     (let fd = env_alloc_fd env st in
      if fd < 0 then (-1, st)
      else (fd, st\<lparr>fds := (fds st)(fd \<mapsto> \<lparr>fd_function = Some f, fd_data = None\<rparr>)\<rparr>))"

definition os_close :: "int \<Rightarrow> ('d, 'w) lsck \<Rightarrow> ('d, 'w) lsck" where
  "os_close fd st = st\<lparr>fds := (fds st)(fd := None)\<rparr>"

section \<open>Descriptor tests (\<open>src/fsext.c\<close>) and the start of every call\<close>

definition fd_is_socket :: "int \<Rightarrow> ('d, 'w) lsck \<Rightarrow> bool" where
  "fd_is_socket fd st = (case FSEXT_get_function fd st of
     None \<Rightarrow> False | Some f \<Rightarrow> if f = SocketFsext then True else False)"

text \<open>The \<open>ioctl\<close> of a descriptor without FSEXT function succeeds exactly when it is open.\<close>

definition fd_is_valid :: "int \<Rightarrow> ('d, 'w) lsck \<Rightarrow> bool" where
  "fd_is_valid fd st = (if FSEXT_get_function fd st \<noteq> None then True
     else if fds st fd \<noteq> None then True else False)"

abbreviation (input) S_IFSOCK :: int where "S_IFSOCK \<equiv> 0xC000"

definition isfdtype :: "int \<Rightarrow> int \<Rightarrow> ('d, 'w, int) act" where
  "isfdtype fd fd_type st =
     (if \<not> fd_is_valid fd st then fail EBADF st
      else if fd_type = S_IFSOCK then
        if fd_is_socket fd st then Some (1, st) else Some (0, st)
      else fail EINVAL st)"

definition fd_to_lsd :: "int \<Rightarrow> ('d, 'w) lsck \<Rightarrow> nat option" where
  "fd_to_lsd fd st = (if \<not> fd_is_socket fd st then None else FSEXT_get_data fd st)"

text \<open>
  Every call of the application starts alike: it finds the descriptor of \<open>s\<close>, or sets \<open>errno\<close> and
  returns -1; then the interface completes outstanding non-blocking I/O. \<open>lsck_enter\<close> is this
  start with the rest of the call as an argument.
\<close>

definition nonblocking_check :: "('d, 'w) lsck_env \<Rightarrow> nat \<Rightarrow> ('d, 'w) lsck \<Rightarrow> ('d, 'w) lsck option" where
  "nonblocking_check env p st = do {
     l \<leftarrow> sock_heap st p;
     i \<leftarrow> lsd_if env l;
     (case if_nonblocking_check i of
        None \<Rightarrow> Some st
      | Some f \<Rightarrow> map_option snd (f p st))
   }"

definition lsck_enter :: "('d, 'w) lsck_env \<Rightarrow> int \<Rightarrow> 'a \<Rightarrow> (nat \<Rightarrow> ('d, 'w, 'a) act) \<Rightarrow> ('d, 'w, 'a) act" where
  "lsck_enter env s err k st =
     (case fd_to_lsd s st of
        None \<Rightarrow> do { (_, st) \<leftarrow> isfdtype s S_IFSOCK st; Some (err, st) }
      | Some p \<Rightarrow> do { st \<leftarrow> nonblocking_check env p st; k p st })"

text \<open>
  The end of most calls: \<open>sel\<close> selects the operation of the interface; where it is null the call sets
  \<open>errno\<close> to \<open>e\<close> and returns \<open>err\<close>.
\<close>

definition with_op :: "('d, 'w) lsck_env \<Rightarrow> nat \<Rightarrow> (('d, 'w) lsck_if \<Rightarrow> 'f option) \<Rightarrow> errno_t \<Rightarrow> 'a
    \<Rightarrow> ('f \<Rightarrow> ('d, 'w, 'a) act) \<Rightarrow> ('d, 'w, 'a) act" where
  "with_op env p sel e err k st = do {
     l \<leftarrow> sock_heap st p;
     i \<leftarrow> lsd_if env l;
     (case sel i of None \<Rightarrow> fail_with e err st | Some f \<Rightarrow> k f st)
   }"

text \<open>Memory of a little-endian machine.\<close>

definition le32 :: "u8 list \<Rightarrow> nat \<Rightarrow> u32 option" where
  "le32 bs i = do {
     a \<leftarrow> rd bs i; b \<leftarrow> rd bs (i + 1); c \<leftarrow> rd bs (i + 2); d \<leftarrow> rd bs (i + 3);
     Some (ucast a OR push_bit 8 (ucast b) OR push_bit 16 (ucast c) OR push_bit 24 (ucast d)) }"

definition le32_bytes :: "u32 \<Rightarrow> u8 list" where
  "le32_bytes w = [ucast w, ucast (drop_bit 8 w), ucast (drop_bit 16 w), ucast (drop_bit 24 w)]"

definition le16_bytes :: "u16 \<Rightarrow> u8 list" where
  "le16_bytes w = [ucast w, ucast (drop_bit 8 w)]"

definition le16 :: "u8 list \<Rightarrow> nat \<Rightarrow> u16 option" where
  "le16 bs i = do { a \<leftarrow> rd bs i; b \<leftarrow> rd bs (i + 1); Some (ucast a OR push_bit 8 (ucast b)) }"

lemma le32_le32_bytes: "le32 (a @ le32_bytes w @ b) (length a) = Some w"
proof -
  have "(ucast (ucast w :: u8) OR push_bit 8 (ucast (ucast (drop_bit 8 w) :: u8))
     OR push_bit 16 (ucast (ucast (drop_bit 16 w) :: u8)) OR push_bit 24 (ucast (ucast (drop_bit 24 w) :: u8)) :: u32) = w"
    (is "?x = w")
  proof (rule bit_word_eqI)
    show "bit ?x n = bit w n" if "n < LENGTH(32)" for n
      using that by (cases "24 \<le> n"; cases "16 \<le> n"; cases "8 \<le> n") (auto simp: bit_simps)
  qed
  then show ?thesis
    by (simp add: le32_def le32_bytes_def nth_append rd_def)
qed

text \<open>\<open>memcmp (a, b, n) == 0\<close>\<close>

definition memcmp_eq :: "'a list \<Rightarrow> 'a list \<Rightarrow> nat \<Rightarrow> bool option" where
  "memcmp_eq a b n = (if n \<le> length a \<and> n \<le> length b then Some (take n a = take n b) else None)"

definition string_bytes :: "string \<Rightarrow> u8 list" where
  "string_bytes s = List.map (\<lambda>c. of_nat (chr_code c)) s"

end
