(* ===== verification/Addr_Config.thy ===== *)
theory Addr_Config
  imports Lsck_State Inet_Addr
begin

text \<open>
  Addresses of an interface (\<open>src/addr.c\<close>): the loopback device, and the address an administrator has written
  into the configuration file for an interface.
\<close>

definition LSCK_IF_HW_TYPE_VIRTUAL :: nat where "LSCK_IF_HW_TYPE_VIRTUAL = 0"
definition LSCK_IF_HW_TYPE_ETHERNET :: nat where "LSCK_IF_HW_TYPE_ETHERNET = 1"
definition LSCK_IF_HW_ADDRLEN_ETHERNET :: nat where "LSCK_IF_HW_ADDRLEN_ETHERNET = 6"
definition LSCK_IF_ADDR_INET_DNS_MAX :: nat where "LSCK_IF_ADDR_INET_DNS_MAX = 4"
definition MAXGETHOSTNAME :: nat where "MAXGETHOSTNAME = 128"

text \<open>An address structure after \<open>bzero\<close>.\<close>

definition zero_inet :: addr_inet where
  "zero_inet = \<lparr>inet_address = 0, inet_netmask = 0, inet_gw_present = False, inet_gw = 0,
     inet_dns = replicate LSCK_IF_ADDR_INET_DNS_MAX 0, inet_fixed = False, inet_hw_type = 0,
     inet_hw_addr = replicate 16 0, inet_hw_addrlen = 0, inet_hostname = [], inet_domainname = []\<rparr>"

definition if_addr_inet_loopback :: "bool \<Rightarrow> addr_inet option" where
  "if_addr_inet_loopback malloc_ok = (if \<not> malloc_ok then None
     else Some (zero_inet\<lparr>inet_address := htonl 0x7f000001, inet_netmask := htonl 0xff000000,
       inet_gw_present := False, inet_fixed := True, inet_hw_type := LSCK_IF_HW_TYPE_VIRTUAL\<rparr>))"

definition BAD_IP :: string where "BAD_IP = ''0.0.0.0''"

text \<open>An entry of the configuration file in a buffer of 16 bytes, and the address it denotes.\<close>

definition config_entry :: "(string \<Rightarrow> string option) \<Rightarrow> string \<Rightarrow> string \<Rightarrow> string \<Rightarrow> string option" where
  "config_entry files sect key cfg = do {
     (_, d) \<leftarrow> GetPrivateProfileString files (Some sect) (Some key) (Some BAD_IP) 16 cfg;
     d
   }"

definition entry_address :: "string \<Rightarrow> u32 option" where
  "entry_address buf = (if buf = BAD_IP then None else inet_aton buf)"

text \<open>The name servers \<open>DNS1Address\<close> to \<open>DNS4Address\<close>, up to the first that is missing or no address.\<close>

fun config_dns :: "(string \<Rightarrow> string option) \<Rightarrow> string \<Rightarrow> string \<Rightarrow> nat \<Rightarrow> nat list \<Rightarrow> u32 list \<Rightarrow> u32 list option" where
  "config_dns files sect cfg i [] dns = Some dns"
| "config_dns files sect cfg i (_ # ks) dns = do {
     buf \<leftarrow> config_entry files sect (''DNS'' @ dec_string (i + 1) @ ''Address'') cfg;
     (case entry_address buf of
        None \<Rightarrow> Some dns
      | Some a \<Rightarrow> config_dns files sect cfg (i + 1) ks (dns[i := a]))
   }"

text \<open>
  The host name is split at its first dot. Without a dot the domain name is copied from a null pointer.
\<close>

definition config_names :: "(string \<Rightarrow> string option) \<Rightarrow> string \<Rightarrow> addr_inet \<Rightarrow> addr_inet option" where
  "config_names files cfg inet = do {
     (_, d) \<leftarrow> GetPrivateProfileString files (Some ''main'') (Some ''hostname'') None MAXGETHOSTNAME cfg;
     hostname \<leftarrow> d;
     if hostname = [] then Some inet
     else (case dropWhile (\<lambda>c. c \<noteq> CHR ''.'') hostname of
        [] \<Rightarrow> None
      | _ # p \<Rightarrow> Some (inet\<lparr>inet_hostname := takeWhile (\<lambda>c. c \<noteq> CHR ''.'') hostname, inet_domainname := p\<rparr>))
   }"

text \<open>The name of the configuration file is \<open>cfg\<close>; the first result is whether there is an address.\<close>

definition if_addr_inet_getconfig :: "(string \<Rightarrow> string option) \<Rightarrow> bool \<Rightarrow> string option \<Rightarrow> string \<Rightarrow> addr_inet option option" where
  "if_addr_inet_getconfig files malloc_ok cfgfile sect =
     (if \<not> malloc_ok then Some None
      else (case cfgfile of
        None \<Rightarrow> Some None
      | Some cfg \<Rightarrow> do {
          buf \<leftarrow> config_entry files sect ''IPAddress'' cfg;
          (case entry_address buf of
             None \<Rightarrow> Some None
           | Some a \<Rightarrow> do {
               buf \<leftarrow> config_entry files sect ''IPMask'' cfg;
               (case entry_address buf of
                  None \<Rightarrow> Some None
                | Some m \<Rightarrow> do {
                    buf \<leftarrow> config_entry files sect ''Gateway'' cfg;
                    let inet = zero_inet\<lparr>inet_address := a, inet_netmask := m\<rparr>;
                    let inet = (case entry_address buf of None \<Rightarrow> inet
                                | Some g \<Rightarrow> inet\<lparr>inet_gw := g, inet_gw_present := True\<rparr>);
                    dns \<leftarrow> config_dns files sect cfg 0 [0..<LSCK_IF_ADDR_INET_DNS_MAX] (inet_dns inet);
                    inet \<leftarrow> config_names files cfg (inet\<lparr>inet_dns := dns, inet_hw_type := LSCK_IF_HW_TYPE_ETHERNET,
                      inet_hw_addrlen := LSCK_IF_HW_ADDRLEN_ETHERNET\<rparr>);
                    Some (Some inet)
                  })
             })
        }))"

section \<open>A written configuration is read back\<close>

text \<open>What the file says of an interface: addresses in dotted notation, the servers in order, the name of the host.\<close>

record if_settings =
  set_address :: u32
  set_netmask :: u32
  set_gateway :: "u32 option"
  set_servers :: "u32 list"
  set_names :: "(string \<times> string) option"

definition says_addresses :: "ini \<Rightarrow> string \<Rightarrow> if_settings \<Rightarrow> bool" where
  "says_addresses secs sect cf \<longleftrightarrow>
     ini_lookup secs sect ''IPAddress'' = Some (inet_ntoa (set_address cf)) \<and>
     ini_lookup secs sect ''IPMask'' = Some (inet_ntoa (set_netmask cf)) \<and>
     ini_lookup secs sect ''Gateway'' = map_option inet_ntoa (set_gateway cf) \<and>
     (\<forall>i<4. ini_lookup secs sect (''DNS'' @ dec_string (i + 1) @ ''Address'')
        = (if i < length (set_servers cf) then Some (inet_ntoa (set_servers cf ! i)) else None))"

definition says :: "ini \<Rightarrow> string \<Rightarrow> if_settings \<Rightarrow> bool" where
  "says secs sect cf \<longleftrightarrow> says_addresses secs sect cf \<and>
     ini_lookup secs ''main'' ''hostname'' = map_option (\<lambda>(h, d). h @ ''.'' @ d) (set_names cf)"

definition proper_addresses :: "if_settings \<Rightarrow> bool" where
  "proper_addresses cf \<longleftrightarrow> set_address cf \<noteq> 0 \<and> set_netmask cf \<noteq> 0 \<and> set_gateway cf \<noteq> Some 0 \<and> 0 \<notin> set (set_servers cf) \<and>
     length (set_servers cf) \<le> 4"

definition proper :: "if_settings \<Rightarrow> bool" where
  "proper cf \<longleftrightarrow> proper_addresses cf \<and> (\<forall>h d. set_names cf = Some (h, d) \<longrightarrow> h \<noteq> [] \<and> CHR ''.'' \<notin> set h \<and> length h + length d < 127)"

definition settings_inet :: "if_settings \<Rightarrow> addr_inet" where
  "settings_inet cf = \<lparr>inet_address = set_address cf, inet_netmask = set_netmask cf,
     inet_gw_present = (set_gateway cf \<noteq> None), inet_gw = (case set_gateway cf of Some g \<Rightarrow> g | None \<Rightarrow> 0),
     inet_dns = set_servers cf @ replicate (4 - length (set_servers cf)) 0, inet_fixed = False,
     inet_hw_type = LSCK_IF_HW_TYPE_ETHERNET, inet_hw_addr = replicate 16 0,
     inet_hw_addrlen = LSCK_IF_HW_ADDRLEN_ETHERNET,
     inet_hostname = (case set_names cf of Some (h, d) \<Rightarrow> h | None \<Rightarrow> []),
     inet_domainname = (case set_names cf of Some (h, d) \<Rightarrow> d | None \<Rightarrow> [])\<rparr>"

lemma entry_address_ntoa: "entry_address (inet_ntoa a) = (if a = 0 then None else Some a)"
proof -
  have "inet_ntoa 0 = BAD_IP" by code_simp
  moreover have "a = 0" if "inet_ntoa a = BAD_IP"
  proof -
    have "Some a = inet_aton (inet_ntoa 0)" using that \<open>inet_ntoa 0 = BAD_IP\<close> inet_aton_ntoa_fact [of a] by simp
    then show ?thesis by (simp add: inet_aton_ntoa_fact)
  qed
  ultimately show ?thesis by (auto simp: entry_address_def inet_aton_ntoa_fact)
qed

lemma entry_address_BAD_IP [simp]: "entry_address BAD_IP = None"
  by (simp add: entry_address_def)

lemma config_entry_address:
  assumes "valid_ini secs" "files cfg = Some (render_ini secs)"
    "ini_lookup secs sect key = map_option inet_ntoa a" "a \<noteq> Some 0"
  obtains buf where "config_entry files sect key cfg = Some buf" "entry_address buf = a"
proof -
  have "config_entry files sect key cfg = Some (take 15 (case map_option inet_ntoa a of Some v \<Rightarrow> v | None \<Rightarrow> BAD_IP))"
    by (cases a) (simp_all add: config_entry_def profile_lookup [of secs files cfg, OF assms(1,2)] Let_def assms(3))
  moreover have "take 15 BAD_IP = BAD_IP" by (simp add: BAD_IP_def)
  ultimately show ?thesis
    using that inet_ntoa_length assms(4) by (cases a) (auto simp: entry_address_ntoa)
qed

lemma config_dns_servers:
  assumes ini: "valid_ini secs" "files cfg = Some (render_ini secs)"
    and servers: "\<forall>i<4. ini_lookup secs sect (''DNS'' @ dec_string (i + 1) @ ''Address'') = (if i < length ss then Some (inet_ntoa (ss ! i)) else None)"
      "0 \<notin> set ss" "length ss \<le> 4"
  shows "i + length ks = 4 \<Longrightarrow> i \<le> length ss
    \<Longrightarrow> config_dns files sect cfg i ks (take i ss @ replicate (4 - i) 0) = Some (ss @ replicate (4 - length ss) 0)"
proof (induction ks arbitrary: i)
  case (Cons k ks)
  let ?a = "if i < length ss then Some (ss ! i) else None"
  have "?a \<noteq> Some 0" using servers(2) by (auto dest: nth_mem)
  moreover have "ini_lookup secs sect (''DNS'' @ dec_string (i + 1) @ ''Address'') = map_option inet_ntoa ?a"
    using servers(1) Cons.prems(1) by simp
  ultimately obtain buf where buf: "config_entry files sect (''DNS'' @ dec_string (i + 1) @ ''Address'') cfg = Some buf" "entry_address buf = ?a"
    using config_entry_address [of secs files cfg sect "''DNS'' @ dec_string (i + 1) @ ''Address''" ?a, OF ini] by blast
  show ?case
  proof (cases "i < length ss")
    case True
    have "(take i ss @ replicate (4 - i) 0)[i := ss ! i] = take (Suc i) ss @ replicate (4 - Suc i) 0"
      using True Cons.prems(1) by (auto simp: nth_list_update nth_append take_Suc_conv_app_nth less_Suc_eq intro!: nth_equalityI)
    then show ?thesis using buf True Cons.IH [of "Suc i"] Cons.prems by simp
  next
    case False
    then show ?thesis using buf Cons.prems by simp
  qed
qed (use assms in simp)

lemma split_dot:
  "CHR ''.'' \<notin> set h \<Longrightarrow> takeWhile (\<lambda>c. c \<noteq> CHR ''.'') (h @ CHR ''.'' # d) = h"
  "CHR ''.'' \<notin> set h \<Longrightarrow> dropWhile (\<lambda>c. c \<noteq> CHR ''.'') (h @ CHR ''.'' # d) = CHR ''.'' # d"
  by (induction h) auto

lemma config_names_split:
  assumes "valid_ini secs" "files cfg = Some (render_ini secs)"
    "ini_lookup secs ''main'' ''hostname'' = map_option (\<lambda>(h, d). h @ ''.'' @ d) nm"
    "\<forall>h d. nm = Some (h, d) \<longrightarrow> h \<noteq> [] \<and> CHR ''.'' \<notin> set h \<and> length h + length d < 127"
    "inet_hostname inet = []" "inet_domainname inet = []"
  shows "config_names files cfg inet = Some (inet\<lparr>inet_hostname := (case nm of Some (h, d) \<Rightarrow> h | None \<Rightarrow> []),
    inet_domainname := (case nm of Some (h, d) \<Rightarrow> d | None \<Rightarrow> [])\<rparr>)"
proof (cases nm)
  case None
  with assms show ?thesis by (simp add: config_names_def profile_lookup [of secs files cfg, OF assms(1,2)] Let_def MAXGETHOSTNAME_def)
next
  case (Some hd)
  obtain h d where hd: "hd = (h, d)" by (cases hd)
  have "CHR ''.'' \<notin> set h" "length (h @ CHR ''.'' # d) \<le> 127" using assms(4) Some hd by auto
  then show ?thesis
    using split_dot [of h d] take_all [of "h @ CHR ''.'' # d" 127] assms Some hd by (simp del: take_append add: config_names_def profile_lookup [of secs files cfg, OF assms(1,2)] Let_def MAXGETHOSTNAME_def)
qed

text \<open>Up to the names the settings are read as they are written.\<close>

lemma getconfig_addresses:
  assumes "valid_ini secs" "files cfg = Some (render_ini secs)" "says_addresses secs sect cf" "proper_addresses cf"
  shows "if_addr_inet_getconfig files True (Some cfg) sect
    = map_option Some (config_names files cfg (settings_inet (cf\<lparr>set_names := None\<rparr>)))"
proof -
  note ini = assms(1,2)
  note cf = assms(3,4) [unfolded says_addresses_def proper_addresses_def]
  obtain b1 where a: "config_entry files sect ''IPAddress'' cfg = Some b1" "entry_address b1 = Some (set_address cf)"
    using config_entry_address [of secs files cfg, OF ini, of sect "''IPAddress''" "Some (set_address cf)"] cf by auto
  obtain b2 where m: "config_entry files sect ''IPMask'' cfg = Some b2" "entry_address b2 = Some (set_netmask cf)"
    using config_entry_address [of secs files cfg, OF ini, of sect "''IPMask''" "Some (set_netmask cf)"] cf by auto
  obtain b3 where g: "config_entry files sect ''Gateway'' cfg = Some b3" "entry_address b3 = set_gateway cf"
    using config_entry_address [of secs files cfg, OF ini, of sect "''Gateway''" "set_gateway cf"] cf by auto
  have d: "config_dns files sect cfg 0 [0..<4] (replicate 4 0) = Some (set_servers cf @ replicate (4 - length (set_servers cf)) 0)"
    using config_dns_servers [of secs files cfg, OF ini, of sect "set_servers cf" 0 "[0..<4]"] cf
    by (simp del: upt_rec_numeral)
  show ?thesis
    by (cases "set_gateway cf"; cases "config_names files cfg (settings_inet (cf\<lparr>set_names := None\<rparr>))")
      (simp_all add: if_addr_inet_getconfig_def a m g d Let_def zero_inet_def settings_inet_def
        LSCK_IF_ADDR_INET_DNS_MAX_def del: upt_rec_numeral)
qed

section \<open>Properties\<close>

text \<open>C29: what an administrator has written of an interface into the configuration file, addresses as \<open>inet_ntoa\<close>
  prints them, is exactly what the interface starts with: its address, netmask, gateway, name servers in order
  and names.\<close>

theorem addr_config_read_back:
  assumes "valid_ini secs" "files cfg = Some (render_ini secs)" "says secs sect cf" "proper cf"
  shows "if_addr_inet_getconfig files True (Some cfg) sect = Some (Some (settings_inet cf))"
proof -
  have "config_names files cfg i = Some (i\<lparr>inet_hostname := (case set_names cf of Some (h, d) \<Rightarrow> h | None \<Rightarrow> []),
      inet_domainname := (case set_names cf of Some (h, d) \<Rightarrow> d | None \<Rightarrow> [])\<rparr>)"
    if "inet_hostname i = []" "inet_domainname i = []" for i
    using config_names_split [of secs files cfg, OF assms(1,2) _ _ that, of "set_names cf"] assms(3,4)
    by (simp add: says_def proper_def)
  then show ?thesis
    using getconfig_addresses [of secs files cfg, OF assms(1,2)] assms(3,4)
    by (simp add: says_def proper_def settings_inet_def)
qed

definition sample_settings :: if_settings where
  "sample_settings = \<lparr>set_address = 0x0100a8c0, set_netmask = 0x00ffffff, set_gateway = Some 0xfe00a8c0,
     set_servers = [0x0a00a8c0], set_names = Some (''pc'', ''lan.org'')\<rparr>"

definition sample_ini :: "string \<Rightarrow> ini" where
  "sample_ini host = [(''main'', [(''hostname'', host)]),
     (''csock'', [(''IPAddress'', ''192.168.0.1''), (''IPMask'', ''255.255.255.0''), (''Gateway'', ''192.168.0.254''),
       (''DNS1Address'', ''192.168.0.10'')])]"

lemma sample_valid: "host \<in> {''pc'', ''pc.lan.org''} \<Longrightarrow> valid_ini (sample_ini host)"
  by (auto simp: sample_ini_def valid_ini_def valid_entry_def plain_text_def trimmed_def isspace_def newline_def NUL_def)

lemma sample_texts:
  "inet_ntoa 0x0100a8c0 = ''192.168.0.1''" "inet_ntoa 0x00ffffff = ''255.255.255.0''" "inet_ntoa 0xfe00a8c0 = ''192.168.0.254''"
  "inet_ntoa 0x0a00a8c0 = ''192.168.0.10''"
  by code_simp+

lemma sample_says: "says_addresses (sample_ini host) ''csock'' sample_settings" "proper_addresses sample_settings"
proof -
  have d: "digit_char (Suc 0) = CHR ''1''" "digit_char (Suc (Suc 0)) = CHR ''2''" "digit_char 2 = CHR ''2''" "digit_char 3 = CHR ''3''" "digit_char 4 = CHR ''4''" by code_simp+
  have "\<forall>i<4. ini_lookup (sample_ini host) ''csock'' (''DNS'' @ dec_string (i + 1) @ ''Address'')
      = (if i < 1 then Some (inet_ntoa ([0x0a00a8c0] ! i)) else None)"
  proof (intro allI impI)
    fix i :: nat assume "i < 4"
    then consider "i = 0" | "i = 1" | "i = 2" | "i = 3" by linarith
    then show "ini_lookup (sample_ini host) ''csock'' (''DNS'' @ dec_string (i + 1) @ ''Address'')
        = (if i < 1 then Some (inet_ntoa ([0x0a00a8c0] ! i)) else None)"
      by cases (simp_all add: sample_texts ini_lookup_def sample_ini_def dec_string.simps d)
  qed
  then show "says_addresses (sample_ini host) ''csock'' sample_settings"
    by (simp add: says_addresses_def sample_settings_def sample_texts ini_lookup_def sample_ini_def)
qed (simp add: proper_addresses_def sample_settings_def)

theorem addr_config_read_back_witness:
  "if_addr_inet_getconfig [''lsck.cfg'' \<mapsto> render_ini (sample_ini ''pc.lan.org'')] True (Some ''lsck.cfg'') ''csock''
    = Some (Some (settings_inet sample_settings))"
proof (rule addr_config_read_back [of "sample_ini ''pc.lan.org''"])
  show "says (sample_ini ''pc.lan.org'') ''csock'' sample_settings" "proper sample_settings"
    using sample_says unfolding says_def proper_def by (simp_all add: ini_lookup_def sample_ini_def sample_settings_def)
qed (simp_all add: sample_valid)

text \<open>A host name without a domain is fatal: the domain is copied from the null pointer that \<open>strchr\<close> returns
  when there is no dot.\<close>

theorem addr_config_undotted_host:
  assumes "valid_ini secs" "files cfg = Some (render_ini secs)" "says_addresses secs sect cf" "proper_addresses cf"
    and "ini_lookup secs ''main'' ''hostname'' = Some h" "h \<noteq> []" "CHR ''.'' \<notin> set h"
  shows "if_addr_inet_getconfig files True (Some cfg) sect = None"
proof -
  have d: "dropWhile (\<lambda>c. c \<noteq> CHR ''.'') (take 127 h) = []" using assms(7) by (auto dest: in_set_takeD)
  have "config_names files cfg i = None" for i
    using assms(5,6) by (simp add: config_names_def profile_lookup [of secs files cfg, OF assms(1,2)] Let_def MAXGETHOSTNAME_def d del: dropWhile_eq_Nil_conv)
  then show ?thesis
    using getconfig_addresses [of secs files cfg, OF assms(1-4)] by simp
qed

theorem addr_config_undotted_host_witness:
  "if_addr_inet_getconfig [''lsck.cfg'' \<mapsto> render_ini (sample_ini ''pc'')] True (Some ''lsck.cfg'') ''csock'' = None"
proof (rule addr_config_undotted_host [of "sample_ini ''pc''" _ _ _ sample_settings "''pc''"])
  show "ini_lookup (sample_ini ''pc'') ''main'' ''hostname'' = Some ''pc''" by (simp add: ini_lookup_def sample_ini_def)
qed (simp_all add: sample_valid sample_says)

end
