(* ===== verification/Sock_Addr.thy ===== *)
theory Sock_Addr
  imports Lsck_State
begin

text \<open>
  Names and connections: \<open>getsockname\<close>, \<open>getpeername\<close>, \<open>bind\<close>, \<open>connect\<close>, \<open>listen\<close> and \<open>shutdown\<close>
  (\<open>src/gscknm.c\<close>, \<open>gprnm.c\<close>, \<open>bind.c\<close>, \<open>connct.c\<close>, \<open>listen.c\<close>, \<open>shtdwn.c\<close>).
\<close>

section \<open>Socket names\<close>

type_synonym name_result = "int \<times> sockaddr option \<times> nat option"

definition getsockname :: "('d, 'w) lsck_env \<Rightarrow> int \<Rightarrow> sockaddr option \<Rightarrow> nat option \<Rightarrow> ('d, 'w, name_result) act" where
  "getsockname env s name namelen = lsck_enter env s (-1, name, namelen) (\<lambda>p st.
     (case (name, namelen) of
        (Some n, Some l) \<Rightarrow>
          with_op env p if_getsockname EOPNOTSUPP (-1, name, namelen) (\<lambda>f st. do {
            ((ret, n1, l1), st) \<leftarrow> f p n l st;
            Some ((ret, Some n1, Some l1), st)
          }) st
      | _ \<Rightarrow> fail_with EFAULT (-1, name, namelen) st))"

definition getpeername :: "('d, 'w) lsck_env \<Rightarrow> int \<Rightarrow> sockaddr option \<Rightarrow> nat option \<Rightarrow> ('d, 'w, name_result) act" where
  "getpeername env s name namelen = lsck_enter env s (-1, name, namelen) (\<lambda>p st. do {
     lsd \<leftarrow> sock_heap st p;
     if lsd_type lsd = SOCK_STREAM \<and> \<not> lsd_connected lsd then fail_with ENOTCONN (-1, name, namelen) st
     else (case (name, namelen) of
        (Some n, Some l) \<Rightarrow>
          with_op env p if_getpeername EOPNOTSUPP (-1, name, namelen) (\<lambda>f st. do {
            ((ret, n1, l1), st) \<leftarrow> f p n l st;
            Some ((ret, Some n1, Some l1), st)
          }) st
      | _ \<Rightarrow> fail_with EFAULT (-1, name, namelen) st)
   })"

section \<open>bind\<close>

text \<open>
  After the interface has bound the socket the name is asked for with \<open>getsockname\<close> into a local
  buffer of \<open>SOCKADDR_MAX_SIZE\<close> bytes; its return value is ignored.
\<close>

definition bind_done :: "('d, 'w) lsck_env \<Rightarrow> nat \<Rightarrow> int \<Rightarrow> ('d, 'w, int) act" where
  "bind_done env p ret st =
     (if ret = 0 then do {
        lsd \<leftarrow> sock_heap st p;
        ((_, name, namelen), st) \<leftarrow> getsockname env (lsd_fd lsd) (Some (env_junk env)) (Some SOCKADDR_MAX_SIZE) st;
        bound_addr \<leftarrow> name;
        bound_addrlen \<leftarrow> namelen;
        lsd \<leftarrow> sock_heap st p;
        a \<leftarrow> memcpy (lsd_sockname lsd) bound_addr bound_addrlen;
        st \<leftarrow> upd_lsd p (\<lambda>l. l\<lparr>lsd_sockname := a, lsd_socknamelen := bound_addrlen, lsd_bound := True\<rparr>) st;
        Some (ret, st)
      } else do {
        lsd \<leftarrow> sock_heap st p;
        a \<leftarrow> bzero (lsd_sockname lsd) SOCKADDR_COMMON_SIZE;
        st \<leftarrow> upd_lsd p (\<lambda>l. l\<lparr>lsd_sockname := a, lsd_socknamelen := 0, lsd_bound := False\<rparr>) st;
        Some (ret, st)
      })"

definition bind_sock :: "('d, 'w) lsck_env \<Rightarrow> int \<Rightarrow> sockaddr option \<Rightarrow> nat \<Rightarrow> ('d, 'w, int) act" where
  "bind_sock env s my_addr addrlen = lsck_enter env s (-1) (\<lambda>p st. do {
     lsd \<leftarrow> sock_heap st p;
     if lsd_bound lsd then fail EINVAL st
     else (case my_addr of
        None \<Rightarrow> fail EFAULT st
      | Some a \<Rightarrow> do {
          fam \<leftarrow> sa_family a;
          if lsd_family lsd \<noteq> fam then fail EAFNOSUPPORT st
          else with_op env p if_bind EOPNOTSUPP (-1) (\<lambda>f st. do {
            (ret, st) \<leftarrow> f p a addrlen st;
            bind_done env p ret st
          }) st
        })
   })"

section \<open>connect\<close>

text \<open>The socket name after the interface has connected at once.\<close>

definition connect_sockname :: "('d, 'w) lsck_env \<Rightarrow> nat \<Rightarrow> int \<Rightarrow> ('d, 'w, int) act" where
  "connect_sockname env p ret st = do {
     lsd \<leftarrow> sock_heap st p;
     i \<leftarrow> lsd_if env lsd;
     (case if_getsockname i of
        None \<Rightarrow> Some (ret, st)
      | Some f \<Rightarrow>
          if ret \<noteq> 0 then Some (ret, st)
          else do {
            ((ret, name, namelen), st) \<leftarrow> f p (lsd_sockname lsd) SOCKADDR_MAX_SIZE st;
            st \<leftarrow> upd_lsd p (\<lambda>l. l\<lparr>lsd_sockname := name, lsd_socknamelen := namelen\<rparr>) st;
            if ret = -1 then do {
              a \<leftarrow> bzero name SOCKADDR_IN_SIZE;
              st \<leftarrow> upd_lsd p (\<lambda>l. l\<lparr>lsd_sockname := a\<rparr>) st;
              Some (0, st)
            } else Some (ret, st)
          })
   }"

definition in_progress :: "int \<Rightarrow> lsck_socket \<Rightarrow> ('d, 'w) lsck \<Rightarrow> bool" where
  "in_progress ret lsd st \<longleftrightarrow> ret = -1 \<and> \<not> lsd_blocking lsd \<and> errno st = EWOULDBLOCK"

definition connect_done :: "('d, 'w) lsck_env \<Rightarrow> nat \<Rightarrow> sockaddr \<Rightarrow> nat \<Rightarrow> int \<Rightarrow> ('d, 'w, int) act" where
  "connect_done env p serv_addr addrlen ret st = do {
     lsd \<leftarrow> sock_heap st p;
     (ret, st) \<leftarrow>
       (if ret = 0 \<or> in_progress ret lsd st then do {
          a \<leftarrow> memcpy (lsd_peername lsd) serv_addr addrlen;
          st \<leftarrow> upd_lsd p (\<lambda>l. l\<lparr>lsd_peername := a, lsd_peernamelen := addrlen\<rparr>) st;
          (ret, st) \<leftarrow> connect_sockname env p ret st;
          lsd \<leftarrow> sock_heap st p;
          st \<leftarrow> (if in_progress ret lsd st
                then upd_lsd p (\<lambda>l. l\<lparr>lsd_connecting := True, lsd_connected := False\<rparr>) st
                else upd_lsd p (\<lambda>l. l\<lparr>lsd_connecting := False, lsd_connected := True\<rparr>) st);
          Some (ret, st)
        } else do {
          a \<leftarrow> bzero (lsd_sockname lsd) SOCKADDR_COMMON_SIZE;
          b \<leftarrow> bzero (lsd_peername lsd) SOCKADDR_COMMON_SIZE;
          st \<leftarrow> upd_lsd p (\<lambda>l. l\<lparr>lsd_sockname := a, lsd_peername := b, lsd_socknamelen := 0,
                  lsd_peernamelen := 0, lsd_connected := False\<rparr>) st;
          Some (ret, st)
        });
     lsd \<leftarrow> sock_heap st p;
     if in_progress ret lsd st then fail EINPROGRESS st else Some (ret, st)
   }"

text \<open>A datagram socket only stores or clears the address.\<close>

definition connect_dgram :: "nat \<Rightarrow> sockaddr option \<Rightarrow> nat \<Rightarrow> ('d, 'w, int) act" where
  "connect_dgram p serv_addr addrlen st = do {
     lsd \<leftarrow> sock_heap st p;
     (case serv_addr of
        Some sa \<Rightarrow> do {
          fam \<leftarrow> sa_family sa;
          if fam \<noteq> lsd_family lsd then fail EAFNOSUPPORT st
          else do {
            a \<leftarrow> memcpy (lsd_peername lsd) sa addrlen;
            st \<leftarrow> upd_lsd p (\<lambda>l. l\<lparr>lsd_peername := a, lsd_peernamelen := addrlen\<rparr>) st;
            Some (0, st)
          }
        }
      | None \<Rightarrow> do {
          a \<leftarrow> bzero (lsd_peername lsd) SOCKADDR_MAX_SIZE;
          st \<leftarrow> upd_lsd p (\<lambda>l. l\<lparr>lsd_peername := a, lsd_peernamelen := 0\<rparr>) st;
          Some (0, st)
        })
   }"

definition connect_stream :: "('d, 'w) lsck_env \<Rightarrow> nat \<Rightarrow> sockaddr option \<Rightarrow> nat \<Rightarrow> ('d, 'w, int) act" where
  "connect_stream env p serv_addr addrlen st = do {
     lsd \<leftarrow> sock_heap st p;
     (case serv_addr of
        None \<Rightarrow> fail EFAULT st
      | Some sa \<Rightarrow> do {
          fam \<leftarrow> sa_family sa;
          if fam \<noteq> lsd_family lsd then fail EAFNOSUPPORT st
          else with_op env p if_connect EOPNOTSUPP (-1) (\<lambda>f st. do {
            (ret, st) \<leftarrow> f p sa addrlen st;
            connect_done env p sa addrlen ret st
          }) st
        })
   }"

definition addrlen_ok :: "('d, 'w) lsck_if \<Rightarrow> lsck_socket \<Rightarrow> sockaddr option \<Rightarrow> nat \<Rightarrow> bool" where
  "addrlen_ok i lsd serv_addr addrlen =
     (if lsd_type lsd = SOCK_STREAM \<or> (lsd_type lsd = SOCK_DGRAM \<and> serv_addr \<noteq> None)
      then (case if_addrlen_check i of None \<Rightarrow> False | Some f \<Rightarrow> f lsd addrlen)
      else True)"

definition connect :: "('d, 'w) lsck_env \<Rightarrow> int \<Rightarrow> sockaddr option \<Rightarrow> nat \<Rightarrow> ('d, 'w, int) act" where
  "connect env s serv_addr addrlen = lsck_enter env s (-1) (\<lambda>p st. do {
     lsd \<leftarrow> sock_heap st p;
     i \<leftarrow> lsd_if env lsd;
     if \<not> lsd_blocking lsd \<and> lsd_connecting lsd then fail EALREADY st
     else if lsd_connected lsd \<and> lsd_type lsd = SOCK_STREAM then fail EISCONN st
     else if lsd_listening lsd then fail EOPNOTSUPP st
     else if \<not> addrlen_ok i lsd serv_addr addrlen then fail EINVAL st
     else if lsd_type lsd = SOCK_DGRAM then connect_dgram p serv_addr addrlen st
     else connect_stream env p serv_addr addrlen st
   })"

section \<open>listen and shutdown\<close>

definition listen :: "('d, 'w) lsck_env \<Rightarrow> int \<Rightarrow> int \<Rightarrow> ('d, 'w, int) act" where
  "listen env s backlog = lsck_enter env s (-1) (\<lambda>p st. do {
     lsd \<leftarrow> sock_heap st p;
     if lsd_type lsd \<noteq> SOCK_STREAM then fail EOPNOTSUPP st
     else if \<not> lsd_bound lsd then fail EINVAL st
     else with_op env p if_listen EOPNOTSUPP (-1) (\<lambda>f st. do {
       (ret, st) \<leftarrow> f p backlog st;
       if ret \<noteq> -1 then do {
         st \<leftarrow> upd_lsd p (\<lambda>l. l\<lparr>lsd_listening := True, lsd_backlog := backlog\<rparr>) st;
         Some (ret, st)
       } else Some (ret, st)
     }) st
   })"

abbreviation (input) SHUT_RD :: int where "SHUT_RD \<equiv> 0"
abbreviation (input) SHUT_WR :: int where "SHUT_WR \<equiv> 1"
abbreviation (input) SHUT_RDWR :: int where "SHUT_RDWR \<equiv> 2"

definition shut_flags :: "int \<Rightarrow> lsck_socket \<Rightarrow> lsck_socket" where
  "shut_flags how l =
     (if how = SHUT_RD then l\<lparr>lsd_inbound := False\<rparr>
      else if how = SHUT_WR then l\<lparr>lsd_outbound := False\<rparr>
      else if how = SHUT_RDWR then l\<lparr>lsd_inbound := False, lsd_outbound := False\<rparr>
      else l)"

definition shutdown :: "('d, 'w) lsck_env \<Rightarrow> int \<Rightarrow> int \<Rightarrow> ('d, 'w, int) act" where
  "shutdown env s how = lsck_enter env s (-1) (\<lambda>p st. do {
     lsd \<leftarrow> sock_heap st p;
     if \<not> lsd_connected lsd then fail ENOTCONN st
     else if how \<notin> {SHUT_RD, SHUT_WR, SHUT_RDWR} then fail EINVAL st
     else with_op env p if_shutdown EOPNOTSUPP (-1) (\<lambda>f st. do {
       (ret, st) \<leftarrow> f p how st;
       if ret = 0 then do { st \<leftarrow> upd_lsd p (shut_flags how) st; Some (ret, st) }
       else Some (ret, st)
     }) st
   })"

end
