(* ===== verification/Sock_Io.thy ===== *)
theory Sock_Io
  imports Lsck_State
begin

text \<open>
  Data transfer: \<open>src/send.c\<close>, \<open>recv.c\<close>, \<open>select.c\<close>, \<open>sockmark.c\<close> and the vectors of \<open>readv.c\<close> and
  \<open>writev.c\<close>.
\<close>

section \<open>send and sendto\<close>

definition sendto_stream :: "('d, 'w) lsck_env \<Rightarrow> nat \<Rightarrow> u8 list \<Rightarrow> nat \<Rightarrow> u32 \<Rightarrow> sockaddr option \<Rightarrow> nat
    \<Rightarrow> ('d, 'w, int) act" where
  "sendto_stream env p msg len flags to tolen st = do {
     lsd \<leftarrow> sock_heap st p;
     if \<not> lsd_connected lsd then fail ENOTCONN st
     else do {
       let my_to = (case to of None \<Rightarrow> lsd_peername lsd | Some a \<Rightarrow> a);
       let my_tolen = (case to of None \<Rightarrow> lsd_peernamelen lsd | Some _ \<Rightarrow> tolen);
       same \<leftarrow> (if my_tolen \<noteq> lsd_peernamelen lsd then Some False
                else memcmp_eq (lsd_peername lsd) my_to my_tolen);
       if \<not> same then fail EISCONN st
       else if \<not> lsd_outbound lsd then fail EPIPE (st\<lparr>signals := SIGPIPE # signals st\<rparr>)
       else with_op env p if_send EOPNOTSUPP (-1) (\<lambda>f st. f p msg len flags st) st
     }
   }"

definition sendto_other :: "('d, 'w) lsck_env \<Rightarrow> nat \<Rightarrow> u8 list \<Rightarrow> nat \<Rightarrow> u32 \<Rightarrow> sockaddr option \<Rightarrow> nat
    \<Rightarrow> ('d, 'w, int) act" where
  "sendto_other env p msg len flags to tolen st = do {
     lsd \<leftarrow> sock_heap st p;
     fam \<leftarrow> sa_family (lsd_peername lsd);
     if lsd_type lsd = SOCK_DGRAM \<and> to = None \<and> fam = 0 then fail EDESTADDRREQ st
     else do {
       let use_peer = (lsd_type lsd = SOCK_DGRAM \<and> to = None);
       let my_to = (if use_peer then Some (lsd_peername lsd) else to);
       let my_tolen = (if use_peer then lsd_peernamelen lsd else tolen);
       if \<not> lsd_outbound lsd then fail EPIPE st
       else with_op env p if_sendto EOPNOTSUPP (-1) (\<lambda>f st. f p msg len flags my_to my_tolen st) st
     }
   }"

definition sendto :: "('d, 'w) lsck_env \<Rightarrow> int \<Rightarrow> u8 list option \<Rightarrow> nat \<Rightarrow> u32 \<Rightarrow> sockaddr option \<Rightarrow> nat
    \<Rightarrow> ('d, 'w, int) act" where
  "sendto env s msg len flags to tolen = lsck_enter env s (-1) (\<lambda>p st.
     (case msg of
        None \<Rightarrow> fail EFAULT st
      | Some m \<Rightarrow>
          if to \<noteq> None \<and> tolen = 0 then fail EINVAL st
          else do {
            lsd \<leftarrow> sock_heap st p;
            if \<not> lsd_outbound lsd then fail EPIPE (st\<lparr>signals := SIGPIPE # signals st\<rparr>)
            else if lsd_type lsd = SOCK_STREAM then sendto_stream env p m len flags to tolen st
            else sendto_other env p m len flags to tolen st
          }))"

definition send :: "('d, 'w) lsck_env \<Rightarrow> int \<Rightarrow> u8 list option \<Rightarrow> nat \<Rightarrow> u32 \<Rightarrow> ('d, 'w, int) act" where
  "send env s msg len flags = sendto env s msg len flags None 0"

definition sendmsg :: "('d, 'w, int) act" where
  "sendmsg = fail EOPNOTSUPP"

section \<open>recv and recvfrom\<close>

definition recv :: "('d, 'w) lsck_env \<Rightarrow> int \<Rightarrow> u8 list option \<Rightarrow> nat \<Rightarrow> u32
    \<Rightarrow> ('d, 'w, int \<times> u8 list option) act" where
  "recv env s buf len flags = lsck_enter env s (-1, buf) (\<lambda>p st. do {
     lsd \<leftarrow> sock_heap st p;
     if lsd_type lsd = SOCK_STREAM \<and> \<not> lsd_connected lsd then fail_with ENOTCONN (-1, buf) st
     else (case buf of
        None \<Rightarrow> fail_with EFAULT (-1, buf) st
      | Some b \<Rightarrow>
          if \<not> lsd_inbound lsd then Some ((0, buf), st)
          else with_op env p if_recv EOPNOTSUPP (-1, buf) (\<lambda>f st. do {
            ((ret, b1), st) \<leftarrow> f p b len flags st;
            Some ((ret, Some b1), st)
          }) st)
   })"

type_synonym recvfrom_result = "int \<times> u8 list option \<times> sockaddr option \<times> nat option"

definition recvfrom :: "('d, 'w) lsck_env \<Rightarrow> int \<Rightarrow> u8 list option \<Rightarrow> nat \<Rightarrow> u32 \<Rightarrow> sockaddr option \<Rightarrow> nat option
    \<Rightarrow> ('d, 'w, recvfrom_result) act" where
  "recvfrom env s buf len flags frm fromlen = lsck_enter env s (-1, buf, frm, fromlen) (\<lambda>p st.
     (case buf of
        None \<Rightarrow> fail_with EFAULT (-1, buf, frm, fromlen) st
      | Some b \<Rightarrow>
          if frm \<noteq> None \<and> fromlen = None then fail_with EFAULT (-1, buf, frm, fromlen) st
          else do {
            lsd \<leftarrow> sock_heap st p;
            if \<not> lsd_inbound lsd then Some ((0, buf, frm, fromlen), st)
            else with_op env p if_recvfrom EOPNOTSUPP (-1, buf, frm, fromlen) (\<lambda>f st. do {
              ((ret, b1, frm1, fromlen1), st) \<leftarrow> f p b len flags frm fromlen st;
              Some ((ret, Some b1, frm1, fromlen1), st)
            }) st
          }))"

definition recvmsg :: "('d, 'w, int) act" where
  "recvmsg = fail EOPNOTSUPP"

section \<open>selectsocket and sockatmark\<close>

abbreviation (input) FD_READ :: int where "FD_READ \<equiv> 0x01"
abbreviation (input) FD_WRITE :: int where "FD_WRITE \<equiv> 0x02"

definition selectsocket :: "('d, 'w) lsck_env \<Rightarrow> int \<Rightarrow> int \<Rightarrow> ('d, 'w, int) act" where
  "selectsocket env s event = lsck_enter env s (-1)
     (\<lambda>p. with_op env p if_select EOPNOTSUPP (-1) (\<lambda>f. f p event))"

definition sockatmark :: "('d, 'w) lsck_env \<Rightarrow> int \<Rightarrow> ('d, 'w, int) act" where
  "sockatmark env s = lsck_enter env s (-1)
     (\<lambda>p. with_op env p if_sockatmark ENOSYS (-1) (\<lambda>f. f p))"

section \<open>readv and writev\<close>

text \<open>
  \<open>read\<close> and \<open>write\<close> are the calls of the C library on the descriptor. Lengths are added as
  \<open>size_t\<close>; \<open>IOV_MAX\<close> and \<open>SSIZE_MAX\<close> come with the C library. A vector is a list of
  buffers with their \<open>iov_len\<close>.
\<close>

definition SSIZE_MAX :: nat where "SSIZE_MAX = 2 ^ 31 - 1"

definition iov_total :: "(u8 list \<times> u32) list \<Rightarrow> u32" where
  "iov_total iov = foldl (\<lambda>n b. n + snd b) 0 iov"

text \<open>Filling the buffers with the \<open>remainder\<close> bytes of \<open>data\<close> that are left.\<close>

fun scatter :: "u8 list \<Rightarrow> u32 \<Rightarrow> (u8 list \<times> u32) list \<Rightarrow> (u8 list \<times> u32) list option" where
  "scatter data remainder [] = Some []"
| "scatter data remainder ((base, ilen) # iov) = do {
     let len = (if ilen < remainder then ilen else remainder);
     b \<leftarrow> memcpy base data (unat len);
     r \<leftarrow> scatter (drop (unat len) data) (remainder - len) iov;
     Some ((b, ilen) # r)
   }"

definition readv :: "('d, 'w) lsck_env \<Rightarrow> nat \<Rightarrow> (int \<Rightarrow> nat \<Rightarrow> ('d, 'w, int \<times> u8 list) act) \<Rightarrow> int
    \<Rightarrow> (u8 list \<times> u32) list \<Rightarrow> int \<Rightarrow> ('d, 'w, int \<times> (u8 list \<times> u32) list) act" where
  "readv env iov_max read fd iov iovcnt st =
     (if iovcnt \<le> 0 \<or> iovcnt > int iov_max then fail_with EINVAL (-1, iov) st
      else if length iov < nat iovcnt then None
      else do {
        let maxbytes = iov_total (take (nat iovcnt) iov);
        if unat maxbytes > SSIZE_MAX then fail_with EINVAL (-1, iov) st
        else (case malloc_ptr env st of
          (None, st) \<Rightarrow> fail_with ENOMEM (-1, iov) st
        | (Some _, st) \<Rightarrow> do {
            ((ret, data), st) \<leftarrow> read fd (unat maxbytes) st;
            if ret < 0 then Some ((ret, iov), st)
            else do {
              filled \<leftarrow> scatter data (word_of_int ret) (take (nat iovcnt) iov);
              Some ((ret, filled @ drop (nat iovcnt) iov), st)
            }
          })
      })"

fun gather :: "(u8 list \<times> u32) list \<Rightarrow> u8 list option" where
  "gather [] = Some []"
| "gather ((base, ilen) # iov) =
     (if length base < unat ilen then None
      else do { r \<leftarrow> gather iov; Some (take (unat ilen) base @ r) })"

definition writev :: "('d, 'w) lsck_env \<Rightarrow> nat \<Rightarrow> (int \<Rightarrow> u8 list \<Rightarrow> nat \<Rightarrow> ('d, 'w, int) act) \<Rightarrow> int
    \<Rightarrow> (u8 list \<times> u32) list \<Rightarrow> int \<Rightarrow> ('d, 'w, int) act" where
  "writev env iov_max write fd iov iovcnt st =
     (if iovcnt \<le> 0 \<or> iovcnt > int iov_max then fail EINVAL st
      else if length iov < nat iovcnt then None
      else do {
        let nbytes = iov_total (take (nat iovcnt) iov);
        if unat nbytes > SSIZE_MAX then fail EINVAL st
        else (case malloc_ptr env st of
          (None, st) \<Rightarrow> fail ENOMEM st
        | (Some _, st) \<Rightarrow> do {
            buf \<leftarrow> gather (take (nat iovcnt) iov);
            if length buf > unat nbytes then None
            else write fd buf (unat nbytes) st
          })
      })"

end
