(* ===== verification/Sock_Opt.thy ===== *)
theory Sock_Opt
  imports Lsck_State Inet_Addr
begin

text \<open>
  Options and controls: \<open>src/sckopt.c\<close>, \<open>fcntl.c\<close> and \<open>ioctl.c\<close>. The interface is asked first; what
  it does not handle is emulated.
\<close>

section \<open>Socket options\<close>

abbreviation (input) SOL_SOCKET :: int where "SOL_SOCKET \<equiv> 0xffff"
abbreviation (input) SO_ACCEPTCONN :: int where "SO_ACCEPTCONN \<equiv> 0x0002"
abbreviation (input) SO_TYPE :: int where "SO_TYPE \<equiv> 0x1008"

definition int_bytes :: "int \<Rightarrow> u8 list" where
  "int_bytes i = le32_bytes (word_of_int i)"

type_synonym getopt_result = "int \<times> u8 list \<times> nat"

definition getsockopt_emulated :: "lsck_socket \<Rightarrow> int \<Rightarrow> int \<Rightarrow> u8 list \<Rightarrow> nat \<Rightarrow> ('d, 'w, getopt_result) act" where
  "getsockopt_emulated lsd level optname optval optlen st =
     (if level \<noteq> SOL_SOCKET then fail_with ENOPROTOOPT (-1, optval, optlen) st
      else if (optname = SO_ACCEPTCONN \<or> optname = SO_TYPE) \<and> optlen < 4
        then fail_with ENOBUFS (-1, optval, optlen) st
      else if optname = SO_ACCEPTCONN then do {
        v \<leftarrow> wr optval 0 (int_bytes (if lsd_listening lsd then 1 else 0));
        Some ((0, v, 4), st)
      }
      else if optname = SO_TYPE then do {
        v \<leftarrow> wr optval 0 (int_bytes (lsd_type lsd));
        Some ((0, v, 4), st)
      }
      else fail_with ENOPROTOOPT (-1, optval, optlen) st)"

text \<open>A null \<open>optval\<close> is replaced by a local buffer of 16 bytes.\<close>

definition getsockopt :: "('d, 'w) lsck_env \<Rightarrow> int \<Rightarrow> int \<Rightarrow> int \<Rightarrow> u8 list option \<Rightarrow> nat option
    \<Rightarrow> ('d, 'w, int \<times> u8 list option \<times> nat option) act" where
  "getsockopt env s level optname optval optlen = lsck_enter env s (-1, optval, optlen) (\<lambda>p st.
     if optval \<noteq> None \<and> optlen = None then fail_with EFAULT (-1, optval, optlen) st
     else do {
       let my_optval = (case optval of None \<Rightarrow> take 16 (env_junk env) | Some v \<Rightarrow> v);
       let my_optlen = (case optval of None \<Rightarrow> 16 | Some _ \<Rightarrow> the optlen);
       lsd \<leftarrow> sock_heap st p;
       i \<leftarrow> lsd_if env lsd;
       ((handled, rv, v1, l1), st) \<leftarrow>
         (case if_getsockopt i of
            None \<Rightarrow> Some ((False, 0, my_optval, my_optlen), st)
          | Some f \<Rightarrow> f p level optname my_optval my_optlen st);
       lsd \<leftarrow> sock_heap st p;
       ((ret, v2, l2), st) \<leftarrow>
         (if \<not> handled then getsockopt_emulated lsd level optname v1 l1 st
          else Some ((rv, v1, l1), st));
       Some ((if optval = None then (ret, None, optlen) else (ret, Some v2, Some l2)), st)
     })"

definition setsockopt_emulated :: "('d, 'w, int) act" where
  "setsockopt_emulated = fail ENOPROTOOPT"

definition setsockopt :: "('d, 'w) lsck_env \<Rightarrow> int \<Rightarrow> int \<Rightarrow> int \<Rightarrow> u8 list option \<Rightarrow> nat
    \<Rightarrow> ('d, 'w, int) act" where
  "setsockopt env s level optname optval optlen = lsck_enter env s (-1) (\<lambda>p st.
     (case optval of
        None \<Rightarrow> fail EFAULT st
      | Some v \<Rightarrow> do {
          lsd \<leftarrow> sock_heap st p;
          i \<leftarrow> lsd_if env lsd;
          ((handled, rv), st) \<leftarrow>
            (case if_setsockopt i of
               None \<Rightarrow> Some ((False, 0), st)
             | Some f \<Rightarrow> f p level optname v optlen st);
          if \<not> handled then setsockopt_emulated st else Some (rv, st)
        }))"

section \<open>fcntl\<close>

text \<open>The switch is over \<open>request\<close>, as it is in the source.\<close>

definition fcntlsocket_emulated :: "('d, 'w) lsck_env \<Rightarrow> nat \<Rightarrow> fcntl_cmd \<Rightarrow> int \<Rightarrow> ('d, 'w, int) act" where
  "fcntlsocket_emulated env p command request st = do {
     lsd \<leftarrow> sock_heap st p;
     if request = F_GETOWN_num then Some (lsd_urgent_pid lsd, st)
     else if request = F_SETOWN_num then
       if request \<noteq> env_getpid env \<and> request \<noteq> - env_getpid env then fail EPERM st
       else do {
         st \<leftarrow> upd_lsd p (\<lambda>l. l\<lparr>lsd_urgent_pid := request\<rparr>) st;
         Some (0, st)
       }
     else fail EINVAL st
   }"

definition fcntlsocket :: "('d, 'w) lsck_env \<Rightarrow> int \<Rightarrow> fcntl_cmd \<Rightarrow> int \<Rightarrow> ('d, 'w, int) act" where
  "fcntlsocket env s command request = lsck_enter env s (-1) (\<lambda>p st. do {
     lsd \<leftarrow> sock_heap st p;
     i \<leftarrow> lsd_if env lsd;
     ((handled, rv), st) \<leftarrow>
       (case if_fcntl i of
          None \<Rightarrow> Some ((False, 0), st)
        | Some f \<Rightarrow> f p command request st);
     if \<not> handled then fcntlsocket_emulated env p command request st else Some (rv, st)
   })"

section \<open>ioctl\<close>

definition IOR :: "int \<Rightarrow> int \<Rightarrow> int" where
  "IOR x y = 0x40000000 + 4 * 2 ^ 16 + x * 256 + y"

definition SIOCGIFNAME :: int where "SIOCGIFNAME = IOR 0x73 0x10"
definition SIOCGIFADDR :: int where "SIOCGIFADDR = IOR 0x73 0x15"
definition SIOCGIFDSTADDR :: int where "SIOCGIFDSTADDR = IOR 0x73 0x17"
definition SIOCGIFNETMASK :: int where "SIOCGIFNETMASK = IOR 0x73 0x1B"

text \<open>
  The local address, the peer address and the netmask go into the second member of a
  \<open>struct ifreq\<close>, at offset 16. The inner result \<open>Inl e\<close> is \<open>errno = e\<close> with a return of -1.
\<close>

definition ioctl_addr_guard :: "lsck_socket \<Rightarrow> (errno_t + unit) option" where
  "ioctl_addr_guard lsd = do {
     fam \<leftarrow> sa_family (lsd_sockname lsd);
     Some (if fam \<noteq> AF_INET4 then Inl EINVAL
       else if lsd_type lsd \<noteq> SOCK_STREAM \<and> lsd_type lsd \<noteq> SOCK_DGRAM then Inl EINVAL
       else if lsd_type lsd = SOCK_STREAM \<and> \<not> lsd_accepted lsd \<and> \<not> lsd_connected lsd \<and> \<not> lsd_connecting lsd
         then Inl ENOTCONN
       else if lsd_type lsd = SOCK_DGRAM \<and> \<not> lsd_bound lsd then Inl EAGAIN
       else Inr ())
   }"

definition ioctl_peer_guard :: "lsck_socket \<Rightarrow> (errno_t + unit) option" where
  "ioctl_peer_guard lsd = do {
     fam \<leftarrow> sa_family (lsd_sockname lsd);
     Some (if fam \<noteq> AF_INET4 then Inl EINVAL
       else if lsd_type lsd \<noteq> SOCK_STREAM \<and> lsd_type lsd \<noteq> SOCK_DGRAM then Inl EINVAL
       else if lsd_type lsd = SOCK_STREAM \<and> \<not> lsd_accepted lsd \<and> \<not> lsd_connected lsd
         then Inl ENOTCONN
       else if lsd_type lsd = SOCK_DGRAM \<and> lsd_peernamelen lsd \<noteq> 0 then Inl EDESTADDRREQ
       else Inr ())
   }"

definition ioctl_netmask :: "('d, 'w) lsck_if \<Rightarrow> lsck_socket \<Rightarrow> u8 list \<Rightarrow> (errno_t \<times> u8 list + u8 list) option" where
  "ioctl_netmask i lsd param = do {
     param \<leftarrow> bzero param 4;
     sin_addr \<leftarrow> le32 (lsd_sockname lsd) 4;
     (case if_addr i of
        Some t \<Rightarrow>
          if table_family t = AF_INET4 then
            (case List.find (\<lambda>a. sin_addr = inet_address a) (table_inet t) of
               None \<Rightarrow> Some (Inr param)
             | Some a \<Rightarrow> do {
                 param \<leftarrow> wr param 16 (le16_bytes 2);
                 param \<leftarrow> wr param 20 (le32_bytes (inet_netmask a));
                 Some (Inr param)
               })
          else Some (Inl (EINVAL, param))
      | None \<Rightarrow> Some (Inl (EINVAL, param)))
   }"

definition ioctlsocket_emulated :: "('d, 'w) lsck_env \<Rightarrow> nat \<Rightarrow> int \<Rightarrow> u8 list \<Rightarrow> ('d, 'w, int \<times> u8 list) act" where
  "ioctlsocket_emulated env p request param st = do {
     lsd \<leftarrow> sock_heap st p;
     i \<leftarrow> lsd_if env lsd;
     if request = SIOCGIFNAME then
       (case if_name i of
          None \<Rightarrow> fail_with EINVAL (-1, param) st
        | Some name \<Rightarrow> do { v \<leftarrow> wr param 0 (string_bytes name @ [0]); Some ((0, v), st) })
     else if request = SIOCGIFADDR then do {
       g \<leftarrow> ioctl_addr_guard lsd;
       (case g of
          Inl e \<Rightarrow> fail_with e (-1, param) st
        | Inr _ \<Rightarrow> do { v \<leftarrow> wr param 16 (take 16 (lsd_sockname lsd)); Some ((0, v), st) })
     }
     else if request = SIOCGIFDSTADDR then do {
       g \<leftarrow> ioctl_peer_guard lsd;
       (case g of
          Inl e \<Rightarrow> fail_with e (-1, param) st
        | Inr _ \<Rightarrow> do { v \<leftarrow> wr param 16 (take 16 (lsd_peername lsd)); Some ((0, v), st) })
     }
     else if request = SIOCGIFNETMASK then do {
       g \<leftarrow> ioctl_peer_guard lsd;
       (case g of
          Inl e \<Rightarrow> fail_with e (-1, param) st
        | Inr _ \<Rightarrow> do {
            r \<leftarrow> ioctl_netmask i lsd param;
            (case r of
               Inl (e, v) \<Rightarrow> fail_with e (-1, v) st
             | Inr v \<Rightarrow> Some ((0, v), st))
          })
     }
     else fail_with EINVAL (-1, param) st
   }"

definition ioctlsocket :: "('d, 'w) lsck_env \<Rightarrow> int \<Rightarrow> int \<Rightarrow> u8 list option
    \<Rightarrow> ('d, 'w, int \<times> u8 list option) act" where
  "ioctlsocket env s request param = lsck_enter env s (-1, param) (\<lambda>p st.
     (case param of
        None \<Rightarrow> fail_with EFAULT (-1, param) st
      | Some v \<Rightarrow> do {
          lsd \<leftarrow> sock_heap st p;
          i \<leftarrow> lsd_if env lsd;
          ((handled, rv, v1), st) \<leftarrow>
            (case if_ioctl i of
               None \<Rightarrow> Some ((False, 0, v), st)
             | Some f \<Rightarrow> f p request v st);
          if \<not> handled then do {
            ((ret, v2), st) \<leftarrow> ioctlsocket_emulated env p request v1 st;
            Some ((ret, Some v2), st)
          } else Some ((rv, Some v1), st)
        }))"

end
