(* ===== verification/Sock_Life.thy ===== *)
theory Sock_Life
  imports Sock_Addr Sock_Io Sock_Opt
begin

text \<open>
  The life of a socket: \<open>closesocket\<close> (\<open>src/close.c\<close>), the file system extension (\<open>src/fsext.c\<close>),
  initialisation and shutdown of the library (\<open>src/initnt.c\<close>), \<open>socket\<close> (\<open>src/socket.c\<close>), \<open>accept\<close>
  (\<open>src/accept.c\<close>), \<open>socketpair\<close> (\<open>src/sockpr.c\<close>) and the list of interface names (\<open>src/if.c\<close>).
\<close>

section \<open>closesocket\<close>

text \<open>The first entry of the table that equals \<open>x\<close>.\<close>

fun find_slot :: "'a \<Rightarrow> 'a list \<Rightarrow> nat option" where
  "find_slot x [] = None"
| "find_slot x (y # ys) = (if x = y then Some 0 else map_option Suc (find_slot x ys))"

definition release_lsd :: "nat \<Rightarrow> ('d, 'w) lsck \<Rightarrow> ('d, 'w) lsck option" where
  "release_lsd p st = (case find_slot (Some p) (sock_table st) of
     None \<Rightarrow> Some st
   | Some i \<Rightarrow> free_lsd (Some p) (st\<lparr>sock_table := (sock_table st)[i := None]\<rparr>))"

definition closesocket :: "('d, 'w) lsck_env \<Rightarrow> int \<Rightarrow> ('d, 'w, int) act" where
  "closesocket env s = lsck_enter env s (-1) (\<lambda>p.
     with_op env p if_close EOPNOTSUPP (-1) (\<lambda>f st. do {
       (ret, st) \<leftarrow> f p st;
       if ret = 0 then do {
         lsd \<leftarrow> sock_heap st p;
         st \<leftarrow> free_idata (lsd_idata lsd) st;
         st \<leftarrow> upd_lsd p (\<lambda>l. l\<lparr>lsd_idata := None\<rparr>) st;
         st \<leftarrow> release_lsd p st;
         Some (ret, st)
       } else Some (ret, st)
     }))"

section \<open>The file system extension\<close>

text \<open>
  The calls the C library hands to \<open>__lsck_socket_fsext\<close>, with their arguments, and what the call
  leaves in the caller's memory.
\<close>

datatype fsext_call =
    FS_read "u8 list option" int
  | FS_write "u8 list option" int
  | FS_ready
  | FS_close
  | FS_ioctl int "u8 list option"
  | FS_fcntl fcntl_cmd int
  | FS_lseek
  | FS_fstat
  | FS_other

record file_stat =
  st_mode :: int
  st_atime :: int
  st_ctime :: int
  st_mtime :: int

datatype fsext_out = NoOut | Buffer "u8 list option" | Stat file_stat

abbreviation (input) FSEXT_ready_read :: int where "FSEXT_ready_read \<equiv> 1"
abbreviation (input) FSEXT_ready_write :: int where "FSEXT_ready_write \<equiv> 2"
abbreviation (input) FSEXT_ready_error :: int where "FSEXT_ready_error \<equiv> 4"

definition size_of_int :: "int \<Rightarrow> nat" where
  "size_of_int i = nat (i mod 2 ^ 32)"

definition fsext_read :: "('d, 'w) lsck_env \<Rightarrow> int \<Rightarrow> u8 list option \<Rightarrow> int \<Rightarrow> ('d, 'w, int \<times> fsext_out) act" where
  "fsext_read env s data count st = do {
     ((rv, b), st) \<leftarrow> recv env s data (size_of_int count) 0 st;
     if rv = -1 \<and> errno st = EWOULDBLOCK then fail_with EAGAIN (0, Buffer b) st
     else Some ((rv, Buffer b), st)
   }"

text \<open>The test of \<open>errno\<close> is an assignment of \<open>EWOULDBLOCK\<close>, which is not zero.\<close>

definition fsext_write :: "('d, 'w) lsck_env \<Rightarrow> int \<Rightarrow> u8 list option \<Rightarrow> int \<Rightarrow> ('d, 'w, int \<times> fsext_out) act" where
  "fsext_write env s data count st = do {
     (rv, st) \<leftarrow> send env s data (size_of_int count) 0 st;
     if rv = -1 then fail_with EAGAIN (0, NoOut) (st\<lparr>errno := EWOULDBLOCK\<rparr>)
     else Some ((rv, NoOut), st)
   }"

definition fsext_ready :: "('d, 'w) lsck_env \<Rightarrow> int \<Rightarrow> ('d, 'w, int \<times> fsext_out) act" where
  "fsext_ready env s st = do {
     (t1, st) \<leftarrow> selectsocket env s FD_READ st;
     (t2, st) \<leftarrow> selectsocket env s FD_WRITE st;
     (t3, st) \<leftarrow> selectsocket env s (NOT (FD_READ OR FD_WRITE)) st;
     let r = (if t1 > 0 then FSEXT_ready_read else 0) OR (if t2 > 0 then FSEXT_ready_write else 0)
             OR (if t3 > 0 then FSEXT_ready_error else 0);
     Some (((if t1 = -1 \<or> t2 = -1 \<or> t3 = -1 then -1 else r), NoOut), st)
   }"

definition fsext_close :: "('d, 'w) lsck_env \<Rightarrow> int \<Rightarrow> ('d, 'w, int) act" where
  "fsext_close env s st = do {
     (rv, st) \<leftarrow> closesocket env s st;
     if rv = 0 then Some (rv, os_close s (FSEXT_set_data s None (FSEXT_set_function s None st)))
     else Some (rv, st)
   }"

definition socket_fsext :: "('d, 'w) lsck_env \<Rightarrow> int \<Rightarrow> fsext_call \<Rightarrow> ('d, 'w, int \<times> fsext_out) act" where
  "socket_fsext env s call st = (case call of
     FS_read data count \<Rightarrow> fsext_read env s data count st
   | FS_write data count \<Rightarrow> fsext_write env s data count st
   | FS_ready \<Rightarrow> fsext_ready env s st
   | FS_close \<Rightarrow> do { (rv, st) \<leftarrow> fsext_close env s st; Some ((rv, NoOut), st) }
   | FS_ioctl req param \<Rightarrow> do { ((rv, v), st) \<leftarrow> ioctlsocket env s req param st; Some ((rv, Buffer v), st) }
   | FS_fcntl cmd req \<Rightarrow>
       if cmd = F_SETFL \<or> cmd = F_SETOWN then do { (rv, st) \<leftarrow> fcntlsocket env s cmd req st; Some ((rv, NoOut), st) }
       else if cmd = F_GETFL \<or> cmd = F_GETOWN then do { (rv, st) \<leftarrow> fcntlsocket env s cmd 0 st; Some ((rv, NoOut), st) }
       else Some ((-1, NoOut), st)
   | FS_lseek \<Rightarrow> fail_with ESPIPE (-1, NoOut) st
   | FS_fstat \<Rightarrow> Some ((0, Stat \<lparr>st_mode = S_IFSOCK, st_atime = env_time env, st_ctime = env_time env,
                           st_mtime = env_time env\<rparr>), st)
   | FS_other \<Rightarrow> Some ((-1, NoOut), st))"

text \<open>\<open>close\<close> of the C library on a descriptor: the extension of a socket, or the descriptor itself.\<close>

definition close_fd :: "('d, 'w) lsck_env \<Rightarrow> int \<Rightarrow> ('d, 'w, int) act" where
  "close_fd env fd st =
     (if FSEXT_get_function fd st = Some SocketFsext then fsext_close env fd st
      else if fds st fd = None then fail EBADF st
      else Some (0, os_close fd st))"

section \<open>Initialisation\<close>

abbreviation (input) LSCK_DEBUG_OFF :: int where "LSCK_DEBUG_OFF \<equiv> 0"
abbreviation (input) LSCK_DEBUG_NORMAL :: int where "LSCK_DEBUG_NORMAL \<equiv> 1"
abbreviation (input) LSCK_DEBUG_VERBOSE :: int where "LSCK_DEBUG_VERBOSE \<equiv> 2"

definition stricmp_eq :: "string \<Rightarrow> string \<Rightarrow> bool" where
  "stricmp_eq a b \<longleftrightarrow> List.map tolower a = List.map tolower b"

definition debug_of :: "string \<Rightarrow> int" where
  "debug_of buf =
     (if stricmp_eq buf ''false'' \<or> stricmp_eq buf ''no'' \<or> buf = ''0'' then LSCK_DEBUG_OFF
      else if stricmp_eq buf ''verbose'' \<or> buf = dec_string 2 then LSCK_DEBUG_VERBOSE
      else LSCK_DEBUG_NORMAL)"

definition init_debug :: "('d, 'w) lsck_env \<Rightarrow> ('d, 'w) lsck \<Rightarrow> ('d, 'w) lsck option" where
  "init_debug env st = do {
     (cfg, c) \<leftarrow> config_getfile (env_getenv env) (env_malloc env (next_ptr st)) (lsck_config st);
     let st = st\<lparr>lsck_config := c, next_ptr := next_ptr st + 1\<rparr>;
     buf \<leftarrow> (case cfg of
        None \<Rightarrow> Some ''no''
      | Some f \<Rightarrow> do {
          (_, d) \<leftarrow> GetPrivateProfileString (env_files env) (Some ''main'') (Some ''debug'') (Some ''false'') 16 f;
          d
        });
     Some (st\<lparr>debug_level := debug_of buf\<rparr>)
   }"

fun init_ifs :: "('d, 'w, nat option) act list \<Rightarrow> ('d, 'w) lsck \<Rightarrow> ('d, 'w) lsck option" where
  "init_ifs [] st = Some st"
| "init_ifs (f # fs) st = do {
     (i, st) \<leftarrow> f st;
     init_ifs fs (case i of None \<Rightarrow> st | Some n \<Rightarrow> st\<lparr>if_list := if_list st @ [n]\<rparr>)
   }"

fun call_ifs :: "('d, 'w) lsck_env \<Rightarrow> (('d, 'w) lsck_if \<Rightarrow> ('d, 'w, int) act option) \<Rightarrow> nat list
    \<Rightarrow> ('d, 'w) lsck \<Rightarrow> ('d, 'w) lsck option" where
  "call_ifs env sel [] st = Some st"
| "call_ifs env sel (i # is) st = (case sel (env_if env i) of
     None \<Rightarrow> call_ifs env sel is st
   | Some f \<Rightarrow> do { (_, st) \<leftarrow> f st; call_ifs env sel is st })"

text \<open>Slots \<open>i\<close> to \<open>LSCK_NUM_SOCKET\<close> of the table; \<open>n\<close> is how many are left.\<close>

fun close_all :: "('d, 'w) lsck_env \<Rightarrow> nat \<Rightarrow> nat \<Rightarrow> ('d, 'w) lsck \<Rightarrow> ('d, 'w) lsck option" where
  "close_all env i 0 st = Some st"
| "close_all env i (Suc n) st = do {
     q \<leftarrow> rd (sock_table st) i;
     st \<leftarrow> (case q of
        None \<Rightarrow> Some st
      | Some p \<Rightarrow> do {
          lsd \<leftarrow> sock_heap st p;
          (_, st) \<leftarrow> close_fd env (lsd_fd lsd) st;
          q \<leftarrow> rd (sock_table st) i;
          free_lsd q st
        });
     close_all env (i + 1) n st
   }"

definition lsck_uninit :: "('d, 'w) lsck_env \<Rightarrow> ('d, 'w) lsck \<Rightarrow> ('d, 'w) lsck option" where
  "lsck_uninit env st =
     (if \<not> inited st then Some st
      else do {
        st \<leftarrow> call_ifs env if_preuninit (if_list st) st;
        st \<leftarrow> close_all env 0 LSCK_NUM_SOCKET st;
        call_ifs env if_uninit (if_list st) st
      })"

definition lsck_init :: "('d, 'w) lsck_env \<Rightarrow> ('d, 'w, bool) act" where
  "lsck_init env st =
     (if inited st then Some (True, st)
      else do {
        st \<leftarrow> init_debug env st;
        let st = st\<lparr>sock_table := replicate LSCK_NUM_SOCKET None, if_list := []\<rparr>;
        st \<leftarrow> init_ifs (env_init_table env) st;
        if if_list st = [] then do {
          st \<leftarrow> lsck_uninit env (st\<lparr>inited := True\<rparr>);
          Some (False, st)
        } else Some (True, st\<lparr>inited := True\<rparr>)
      })"

section \<open>socket\<close>

definition socket_default :: "(int \<times> int \<times> int) list" where
  "socket_default = [(AF_INET4, SOCK_STREAM, IPPROTO_TCP), (AF_INET4, SOCK_DGRAM, IPPROTO_UDP)]"

definition default_protocol :: "int \<Rightarrow> int \<Rightarrow> int \<Rightarrow> int" where
  "default_protocol domain type protocol =
     (if protocol = 0 \<and> type \<noteq> SOCK_RAW
      then (case List.find (\<lambda>(d, t, _). d = domain \<and> t = type) socket_default of
              None \<Rightarrow> protocol | Some (_, _, pr) \<Rightarrow> pr)
      else protocol)"

text \<open>The first null entry of \<open>__lsck_socket\<close>; the entry is read before the index is tested.\<close>

function scan_free :: "nat option list \<Rightarrow> nat \<Rightarrow> nat option" where
  "scan_free table i = do {
     q \<leftarrow> rd table i;
     if q \<noteq> None \<and> i < LSCK_NUM_SOCKET then scan_free table (i + 1) else Some i
   }"
  by pat_completeness auto
termination
  by (relation "measure (\<lambda>(table, i). length table - i)") (auto simp: rd_def split: if_splits)

declare scan_free.simps [simp del]

definition free_index :: "nat option list \<Rightarrow> int option" where
  "free_index table = do {
     i \<leftarrow> scan_free table 0;
     Some (if i < LSCK_NUM_SOCKET then int i else -1)
   }"

definition socket_cleanup :: "int \<Rightarrow> nat \<Rightarrow> nat \<Rightarrow> ('d, 'w) lsck \<Rightarrow> ('d, 'w) lsck option" where
  "socket_cleanup s slot p st = do {
     st \<leftarrow> free_lsd (Some p) (os_close s (FSEXT_set_data s None (FSEXT_set_function s None st)));
     Some (st\<lparr>sock_table := (sock_table st)[slot := None]\<rparr>)
   }"

text \<open>The interface a socket is created on: the one asked for, or the first whose \<open>proto_check\<close> agrees.\<close>

definition choose_if :: "('d, 'w) lsck_env \<Rightarrow> nat list \<Rightarrow> int \<Rightarrow> int \<Rightarrow> int \<Rightarrow> nat option \<Rightarrow> nat option" where
  "choose_if env ifs domain type protocol interface =
     (case interface of
        Some i \<Rightarrow> Some i
      | None \<Rightarrow> List.find (\<lambda>i. case if_proto_check (env_if env i) of
                              None \<Rightarrow> False | Some f \<Rightarrow> f domain type protocol) ifs)"

definition new_socket :: "('d, 'w) lsck_env \<Rightarrow> int \<Rightarrow> int \<Rightarrow> int \<Rightarrow> int \<Rightarrow> lsck_socket" where
  "new_socket env domain type protocol s = zero_socket\<lparr>lsd_family := domain, lsd_type := type,
     lsd_protocol := protocol, lsd_backlog := 0, lsd_blocking := True, lsd_fd := s,
     lsd_urgent_pid := env_getpid env, lsd_inbound := True, lsd_outbound := True\<rparr>"

text \<open>The part of \<open>__socketx\<close> behind the allocation of the descriptor \<open>p\<close> in slot \<open>slot\<close>.\<close>

definition socketx_create :: "('d, 'w) lsck_env \<Rightarrow> int \<Rightarrow> int \<Rightarrow> int \<Rightarrow> nat option \<Rightarrow> int \<Rightarrow> nat \<Rightarrow> nat
    \<Rightarrow> ('d, 'w, int) act" where
  "socketx_create env domain type protocol interface s slot p st = do {
     let i = choose_if env (if_list st) domain type protocol interface;
     let i = (case i of None \<Rightarrow> None | Some n \<Rightarrow> if if_socket (env_if env n) = None then None else Some n);
     st \<leftarrow> upd_lsd p (\<lambda>l. l\<lparr>lsd_interface := i\<rparr>) st;
     (case Option.bind i (\<lambda>n. if_socket (env_if env n)) of
        None \<Rightarrow> do { st \<leftarrow> socket_cleanup s slot p st; fail EPROTONOSUPPORT st }
      | Some f \<Rightarrow> do {
          (ret, st) \<leftarrow> f p st;
          if ret = -1 then do {
            let olderrno = errno st;
            st \<leftarrow> socket_cleanup s slot p st;
            Some (-1, st\<lparr>errno := olderrno\<rparr>)
          } else Some (s, st)
        })
   }"

definition socketx :: "('d, 'w) lsck_env \<Rightarrow> int \<Rightarrow> int \<Rightarrow> int \<Rightarrow> nat option \<Rightarrow> ('d, 'w, int) act" where
  "socketx env domain type protocol interface st = do {
     (ok, st) \<leftarrow> lsck_init env st;
     if \<not> ok then fail ENODEV st
     else do {
       let protocol = default_protocol domain type protocol;
       let (s, st) = FSEXT_alloc_fd env SocketFsext st;
       if s < 0 then fail EMFILE st
       else do {
         freelsd \<leftarrow> free_index (sock_table st);
         if freelsd < 0 then fail EMFILE (os_close s (FSEXT_set_function s None st))
         else (case malloc_ptr env st of
            (None, st) \<Rightarrow> fail ENOBUFS (os_close s (FSEXT_set_function s None
                            (st\<lparr>sock_table := (sock_table st)[nat freelsd := None]\<rparr>)))
          | (Some p, st) \<Rightarrow>
              socketx_create env domain type protocol interface s (nat freelsd) p
                (FSEXT_set_data s (Some p)
                  (st\<lparr>sock_table := (sock_table st)[nat freelsd := Some p],
                     sock_heap := (sock_heap st)(p \<mapsto> new_socket env domain type protocol s)\<rparr>)))
       }
     }
   }"

definition socket :: "('d, 'w) lsck_env \<Rightarrow> int \<Rightarrow> int \<Rightarrow> int \<Rightarrow> ('d, 'w, int) act" where
  "socket env domain type protocol = socketx env domain type protocol None"

section \<open>accept\<close>

type_synonym accept_result = "int \<times> sockaddr option \<times> nat option"

text \<open>The part behind the allocation of the new descriptor \<open>n\<close>, a copy of \<open>lsd\<close>.\<close>

definition accept_create :: "('d, 'w) lsck_env \<Rightarrow> nat \<Rightarrow> sockaddr \<Rightarrow> nat \<Rightarrow> int \<Rightarrow> nat \<Rightarrow> nat
    \<Rightarrow> ('d, 'w, accept_result) act" where
  "accept_create env p addr addrlen newfd slot n st = do {
     nsd \<leftarrow> sock_heap st n;
     ((ret, name, namelen), st) \<leftarrow>
       with_op env p if_accept EOPNOTSUPP (-1, lsd_peername nsd, SOCKADDR_MAX_SIZE)
         (\<lambda>f. f p n (lsd_peername nsd) SOCKADDR_MAX_SIZE) st;
     st \<leftarrow> upd_lsd n (\<lambda>l. l\<lparr>lsd_peername := name, lsd_peernamelen := namelen\<rparr>) st;
     if ret = 0 then do {
       let addrlen1 = (if addrlen > namelen then namelen else addrlen);
       a \<leftarrow> memcpy addr name addrlen1;
       st \<leftarrow> upd_lsd n (\<lambda>l. l\<lparr>lsd_accepted := True, lsd_connected := True\<rparr>) st;
       nsd \<leftarrow> sock_heap st n;
       Some ((lsd_fd nsd, Some a, Some addrlen1), st)
     } else do {
       let st = os_close newfd (FSEXT_set_function newfd None (FSEXT_set_data newfd None st));
       nsd \<leftarrow> sock_heap st n;
       st \<leftarrow> free_idata (lsd_idata nsd) st;
       st \<leftarrow> free_lsd (Some n) st;
       let st = st\<lparr>sock_table := (sock_table st)[slot := None]\<rparr>;
       if ret = -1 then Some ((-1, Some addr, Some addrlen), st) else None
     }
   }"

definition accept :: "('d, 'w) lsck_env \<Rightarrow> int \<Rightarrow> sockaddr option \<Rightarrow> nat option \<Rightarrow> ('d, 'w, accept_result) act" where
  "accept env s addr addrlen = lsck_enter env s (-1, addr, addrlen) (\<lambda>p st. do {
     lsd \<leftarrow> sock_heap st p;
     i \<leftarrow> lsd_if env lsd;
     if lsd_type lsd \<noteq> SOCK_STREAM \<or> if_accept i = None then fail_with EOPNOTSUPP (-1, addr, addrlen) st
     else if lsd_accepted lsd \<or> \<not> lsd_bound lsd \<or> \<not> lsd_listening lsd
       then fail_with EINVAL (-1, addr, addrlen) st
     else (case (addr, addrlen) of
        (Some a, Some al) \<Rightarrow> do {
          let (newfd, st) = FSEXT_alloc_fd env SocketFsext st;
          if newfd < 0 then fail_with ENFILE (-1, addr, addrlen) st
          else do {
            freelsd \<leftarrow> free_index (sock_table st);
            if freelsd < 0
            then fail_with ENFILE (-1, addr, addrlen) (os_close newfd (FSEXT_set_function newfd None st))
            else (case malloc_ptr env st of
               (None, st) \<Rightarrow> fail_with ENOBUFS (-1, addr, addrlen) (os_close newfd (FSEXT_set_function newfd None
                               (st\<lparr>sock_table := (sock_table st)[nat freelsd := None]\<rparr>)))
             | (Some n, st) \<Rightarrow>
                 accept_create env p a al newfd (nat freelsd) n
                   (FSEXT_set_data newfd (Some n)
                     (st\<lparr>sock_table := (sock_table st)[nat freelsd := Some n],
                        sock_heap := (sock_heap st)(n \<mapsto> lsd\<lparr>lsd_fd := newfd, lsd_listening := False,
                          lsd_peernamelen := SOCKADDR_MAX_SIZE\<rparr>)\<rparr>)))
          }
        }
      | _ \<Rightarrow> fail_with EFAULT (-1, addr, addrlen) st)
   })"

section \<open>socketpair\<close>

definition find_pair_if :: "('d, 'w) lsck_env \<Rightarrow> nat list \<Rightarrow> int \<Rightarrow> int \<Rightarrow> int \<Rightarrow> nat option" where
  "find_pair_if env ifs domain type protocol =
     List.find (\<lambda>i. (case if_proto_check (env_if env i) of None \<Rightarrow> False | Some f \<Rightarrow> f domain type protocol)
       \<and> if_socketpair (env_if env i) \<noteq> None) ifs"

text \<open>The names of one end; the return values of the calls are ignored.\<close>

definition pair_names :: "('d, 'w) lsck_env \<Rightarrow> nat \<Rightarrow> ('d, 'w) lsck \<Rightarrow> ('d, 'w) lsck option" where
  "pair_names env p st = do {
     st \<leftarrow> upd_lsd p (\<lambda>l. l\<lparr>lsd_socknamelen := SOCKADDR_MAX_SIZE, lsd_peernamelen := SOCKADDR_MAX_SIZE\<rparr>) st;
     lsd \<leftarrow> sock_heap st p;
     ((_, name, len), st) \<leftarrow> getsockname env (lsd_fd lsd) (Some (lsd_sockname lsd)) (Some (lsd_socknamelen lsd)) st;
     name \<leftarrow> name; len \<leftarrow> len;
     st \<leftarrow> upd_lsd p (\<lambda>l. l\<lparr>lsd_sockname := name, lsd_socknamelen := len\<rparr>) st;
     lsd \<leftarrow> sock_heap st p;
     ((_, name, len), st) \<leftarrow> getpeername env (lsd_fd lsd) (Some (lsd_peername lsd)) (Some (lsd_peernamelen lsd)) st;
     name \<leftarrow> name; len \<leftarrow> len;
     upd_lsd p (\<lambda>l. l\<lparr>lsd_peername := name, lsd_peernamelen := len\<rparr>) st
   }"

definition close_pair :: "('d, 'w) lsck_env \<Rightarrow> int \<Rightarrow> int \<Rightarrow> ('d, 'w) lsck \<Rightarrow> ('d, 'w) lsck option" where
  "close_pair env a b st = do { (_, st) \<leftarrow> close_fd env a st; (_, st) \<leftarrow> close_fd env b st; Some st }"

definition pair_connect :: "('d, 'w) lsck_env \<Rightarrow> nat \<Rightarrow> int \<Rightarrow> int \<Rightarrow> ('d, 'w, int \<times> (int \<times> int) option) act" where
  "pair_connect env my_if fd0 fd1 st = (case (fd_to_lsd fd0 st, fd_to_lsd fd1 st) of
     (Some p0, Some p1) \<Rightarrow> do {
       f \<leftarrow> if_socketpair (env_if env my_if);
       (ret, st) \<leftarrow> f p0 p1 st;
       if ret = -1 then do {
         let olderrno = errno st;
         st \<leftarrow> close_pair env fd0 fd1 st;
         Some ((ret, None), st\<lparr>errno := olderrno\<rparr>)
       } else do {
         st \<leftarrow> pair_names env p0 st;
         st \<leftarrow> pair_names env p1 st;
         Some ((ret, Some (fd0, fd1)), st)
       }
     }
   | _ \<Rightarrow> do { st \<leftarrow> close_pair env fd0 fd1 st; fail_with ENOMEM (-1, None) st })"

definition socketpair :: "('d, 'w) lsck_env \<Rightarrow> int \<Rightarrow> int \<Rightarrow> int \<Rightarrow> ('d, 'w, int \<times> (int \<times> int) option) act" where
  "socketpair env domain type protocol st =
     (case find_pair_if env (if_list st) domain type protocol of
        None \<Rightarrow> fail_with EOPNOTSUPP (-1, None) st
      | Some my_if \<Rightarrow> do {
          (fd0, st) \<leftarrow> socketx env domain type protocol (Some my_if) st;
          (fd1, st) \<leftarrow> socketx env domain type protocol (Some my_if) st;
          if fd0 = -1 \<or> fd1 = -1 then do {
            (_, st) \<leftarrow> (if fd0 \<ge> 0 then close_fd env fd0 st else Some (0, st));
            (_, st) \<leftarrow> (if fd1 \<ge> 0 then close_fd env fd1 st else Some (0, st));
            Some ((-1, None), st)
          } else pair_connect env my_if fd0 fd1 st
        })"

section \<open>Interface names\<close>

text \<open>
  The table \<open>__lsck_if_nameindex\<close> is built once; entry \<open>i\<close> has the index \<open>i + 1\<close>. An interface
  without a name ends the search by name.
\<close>

definition build_if_nameindex :: "('d, 'w) lsck_env \<Rightarrow> ('d, 'w) lsck \<Rightarrow> string option list \<times> ('d, 'w) lsck" where
  "build_if_nameindex env st = (case if_names st of
     Some ns \<Rightarrow> (ns, st)
   | None \<Rightarrow> (let ns = List.map (\<lambda>i. if_name (env_if env i)) (if_list st) in (ns, st\<lparr>if_names := Some ns\<rparr>)))"

fun name_index :: "string option list \<Rightarrow> nat \<Rightarrow> string \<Rightarrow> nat" where
  "name_index [] i ifname = 0"
| "name_index (None # ns) i ifname = 0"
| "name_index (Some n # ns) i ifname = (if n = ifname then i else name_index ns (i + 1) ifname)"

definition if_nametoindex :: "('d, 'w) lsck_env \<Rightarrow> string option \<Rightarrow> ('d, 'w, u32) act" where
  "if_nametoindex env ifname st = (case ifname of
     None \<Rightarrow> fail_with EFAULT (-1) st
   | Some n \<Rightarrow> (let (ns, st) = build_if_nameindex env st in Some (of_nat (name_index ns 1 n), st)))"

text \<open>The name found, which is copied to the caller's buffer of \<open>room\<close> bytes; \<open>None\<close> inside is NULL.\<close>

definition if_indextoname :: "('d, 'w) lsck_env \<Rightarrow> u32 \<Rightarrow> nat \<Rightarrow> ('d, 'w, string option) act" where
  "if_indextoname env ifindex room st =
     (let (ns, st) = build_if_nameindex env st in
      if ifindex \<noteq> 0 \<and> unat ifindex \<le> length ns then do {
        n \<leftarrow> ns ! (unat ifindex - 1);
        if length n + 1 > room then None else Some (Some n, st)
      } else fail_with ENXIO None st)"

definition if_nameindex :: "('d, 'w) lsck_env \<Rightarrow> ('d, 'w, (nat \<times> string option) list) act" where
  "if_nameindex env st =
     (let (ns, st) = build_if_nameindex env st in Some (List.map (\<lambda>(i, n). (i + 1, n)) (List.enumerate 0 ns), st))"

end
