(* ===== verification/Unix_State.thy ===== *)
theory Unix_State
  imports Sock_Life "HOL-Library.Signed_Division"
begin

text \<open>
  The state of the Unix domain interface (\<open>src/unix/unix.h\<close>): the data of a socket, the messages that
  go through the mailslots as bytes, and the calls of the C library and of the mailslot driver
  (\<open>src/unix/mailslot.c\<close>), which are the parameters \<open>unix_os\<close> of the model. File descriptors of
  mailslots belong to the driver and live in its own state \<open>'w\<close>.
\<close>

section \<open>Constants\<close>

definition UNIX_LOCAL_PATH :: "u8 list" where "UNIX_LOCAL_PATH = string_bytes ''/dev/mailslot/local''"

definition UNIX_MSG_VERSION :: u8 where "UNIX_MSG_VERSION = 0x01"
definition UNIX_MSG_DGRAM_BIT :: u8 where "UNIX_MSG_DGRAM_BIT = 0x20"
definition UNIX_MSG_CLIENT_OPEN :: u8 where "UNIX_MSG_CLIENT_OPEN = 0x01"
definition UNIX_MSG_CLIENT_CLOSE :: u8 where "UNIX_MSG_CLIENT_CLOSE = 0x02"
definition UNIX_MSG_SERVER_OPEN :: u8 where "UNIX_MSG_SERVER_OPEN = 0x11"
definition UNIX_MSG_SERVER_CLOSE :: u8 where "UNIX_MSG_SERVER_CLOSE = 0x12"
definition UNIX_MSG_DATA :: u8 where "UNIX_MSG_DATA = 0x08"

definition MAILSLOT_SENDSIZE :: nat where "MAILSLOT_SENDSIZE = 0x0FF0"
definition MAXPATH :: nat where "MAXPATH = 260"
definition MAXINT :: u32 where "MAXINT = 0x7fffffff"
definition SOCKADDR_UN_SIZE :: nat where "SOCKADDR_UN_SIZE = 110"
definition UNIX_PATH_SIZE :: nat where "UNIX_PATH_SIZE = 108"
definition HEADER_SIZE :: nat where "HEADER_SIZE = 20"
definition OPEN_SIZE :: nat where "OPEN_SIZE = 148"

text \<open>The requests of \<open>ioctl\<close>: \<open>_IOW (x, y, int)\<close> and \<open>_IOR (x, y, int)\<close>.\<close>

definition IOW :: "int \<Rightarrow> int \<Rightarrow> int" where
  "IOW x y = 0x80000000 + 4 * 2 ^ 16 + x * 256 + y"

definition FIONREAD :: int where "FIONREAD = IOR 0x66 127"
definition FIONBIO :: int where "FIONBIO = IOW 0x66 126"
definition MIOPEEK :: int where "MIOPEEK = IOW 0x6D 1"

section \<open>Strings in memory\<close>

text \<open>The C string at offset \<open>i\<close> of an object; without a nul it runs out of the object.\<close>

definition cstring_at :: "u8 list \<Rightarrow> nat \<Rightarrow> u8 list option" where
  "cstring_at b i = (let s = drop i b in if 0 \<in> set s then Some (takeWhile (\<lambda>c. c \<noteq> 0) s) else None)"

text \<open>\<open>strcpy\<close> or \<open>sprintf\<close> of a string to offset \<open>i\<close> of an object.\<close>

definition put_string :: "u8 list \<Rightarrow> nat \<Rightarrow> u8 list \<Rightarrow> u8 list option" where
  "put_string b i s = wr b i (s @ [0])"

text \<open>A string of a local buffer of \<open>n\<close> bytes, which has to have room for the nul.\<close>

definition fits :: "nat \<Rightarrow> u8 list \<Rightarrow> u8 list option" where
  "fits n s = (if length s < n then Some s else None)"

text \<open>What is in memory after \<open>bytes\<close> have been stored at the start of an object.\<close>

definition overlay :: "u8 list \<Rightarrow> u8 list \<Rightarrow> u8 list" where
  "overlay b bytes = take (length b) (bytes @ drop (length bytes) b)"

text \<open>The conversion \<open>%08lx\<close>.\<close>

definition hex_digit :: "u32 \<Rightarrow> u8" where
  "hex_digit n = (if n < 10 then ucast n + 48 else ucast n + 87)"

definition hex08 :: "u32 \<Rightarrow> u8 list" where
  "hex08 w = List.map (\<lambda>i. hex_digit (drop_bit (28 - 4 * i) w AND 0xf)) [0..<8]"

section \<open>The data of a socket and the message header\<close>

record unix_secret =
  secret_n :: u32
  secret_pid :: u32

record unix_socket =
  us_sockpath :: "u8 list"
  us_peerpath :: "u8 list"
  us_fd_w :: int
  us_fd_r :: int
  us_secret :: unix_secret
  us_seq_w :: u32
  us_seq_r :: u32

definition zero_usock :: unix_socket where
  "zero_usock = \<lparr>us_sockpath = replicate SOCKADDR_UN_SIZE 0, us_peerpath = replicate SOCKADDR_UN_SIZE 0,
     us_fd_w = 0, us_fd_r = 0, us_secret = \<lparr>secret_n = 0, secret_pid = 0\<rparr>, us_seq_w = 0, us_seq_r = 0\<rparr>"

record unix_header =
  hd_version :: u8
  hd_type :: u8
  hd_secret :: unix_secret
  hd_seq_start :: u32
  hd_seq_end :: u32
  hd_offset :: u16

definition zero_header :: unix_header where
  "zero_header = \<lparr>hd_version = 0, hd_type = 0, hd_secret = \<lparr>secret_n = 0, secret_pid = 0\<rparr>,
     hd_seq_start = 0, hd_seq_end = 0, hd_offset = 0\<rparr>"

text \<open>The packed layout: 20 bytes.\<close>

definition secret_bytes :: "unix_secret \<Rightarrow> u8 list" where
  "secret_bytes s = le32_bytes (secret_n s) @ le32_bytes (secret_pid s)"

definition header_bytes :: "unix_header \<Rightarrow> u8 list" where
  "header_bytes h = [hd_version h, hd_type h] @ secret_bytes (hd_secret h)
     @ le32_bytes (hd_seq_start h) @ le32_bytes (hd_seq_end h) @ le16_bytes (hd_offset h)"

definition header_of :: "u8 list \<Rightarrow> unix_header option" where
  "header_of b = do {
     v \<leftarrow> rd b 0; t \<leftarrow> rd b 1;
     n \<leftarrow> le32 b 2; pid \<leftarrow> le32 b 6;
     ss \<leftarrow> le32 b 10; se \<leftarrow> le32 b 14;
     off \<leftarrow> le16 b 18;
     Some \<lparr>hd_version = v, hd_type = t, hd_secret = \<lparr>secret_n = n, secret_pid = pid\<rparr>,
       hd_seq_start = ss, hd_seq_end = se, hd_offset = off\<rparr>
   }"

text \<open>
  Sequence numbers are taken modulo \<open>MAXINT\<close>: of an unsigned sum where a length is added
  (\<open>seq_add\<close>), and of a signed one for the number behind the last (\<open>seq_next\<close>).
\<close>

definition seq_add :: "u32 \<Rightarrow> nat \<Rightarrow> u32" where
  "seq_add s n = (s + of_nat n) mod MAXINT"

definition seq_next :: "u32 \<Rightarrow> u32" where
  "seq_next s = word_of_int (sint (s + 1) smod sint MAXINT)"

section \<open>The C library and the mailslot driver\<close>

text \<open>
  A call gets the state of the driver and returns its result, the \<open>errno\<close> it sets when the result
  is -1, and the new state; or \<open>None\<close>, when it does not return or leaves an object. \<open>os_open\<close> is told whether it opens for writing. \<open>os_junk\<close> is the content of
  uninitialised memory.
\<close>

record 'w unix_os =
  os_open :: "u8 list \<Rightarrow> bool \<Rightarrow> 'w \<Rightarrow> (int \<times> errno_t \<times> 'w) option"
  os_read :: "int \<Rightarrow> nat \<Rightarrow> 'w \<Rightarrow> ((int \<times> u8 list) \<times> errno_t \<times> 'w) option"
  os_write :: "int \<Rightarrow> u8 list \<Rightarrow> 'w \<Rightarrow> (int \<times> errno_t \<times> 'w) option"
  os_fdclose :: "int \<Rightarrow> 'w \<Rightarrow> (int \<times> errno_t \<times> 'w) option"
  os_nonblock :: "int \<Rightarrow> 'w \<Rightarrow> (int \<times> errno_t \<times> 'w) option"
  os_ioctl :: "int \<Rightarrow> int \<Rightarrow> u32 \<Rightarrow> 'w \<Rightarrow> ((int \<times> u32) \<times> errno_t \<times> 'w) option"
  os_select :: "nat set \<Rightarrow> int \<Rightarrow> 'w \<Rightarrow> (int \<times> errno_t \<times> 'w) option"
  os_random :: "'w \<Rightarrow> u32 \<times> 'w"
  os_srandom :: "'w \<Rightarrow> 'w"
  os_getcwd :: "nat \<Rightarrow> 'w \<Rightarrow> u8 list option"
  os_install :: "'w \<Rightarrow> bool \<times> 'w"
  os_used :: "'w \<Rightarrow> int \<Rightarrow> bool"
  os_getpid :: u32
  os_malloc :: "nat \<Rightarrow> bool"
  os_getenv :: "string \<Rightarrow> string option"
  os_files :: "string \<Rightarrow> string option"
  os_time :: int
  os_junk :: "nat \<Rightarrow> u8"
  os_O_NONBLOCK :: int

text \<open>
  The static variables of the interface beside the state of the driver: \<open>__unix_inited\<close> and the two
  buffers \<open>my_buf\<close> of \<open>u_recv.c\<close>.
\<close>

record 'w unix_world =
  unix_inited :: bool
  stream_buf :: "u8 list"
  dgram_buf :: "u8 list"
  driver :: 'w

type_synonym 'w ustate = "(unix_socket, 'w unix_world) lsck"
type_synonym ('w, 'a) uact = "(unix_socket, 'w unix_world, 'a) act"

definition junk :: "'w unix_os \<Rightarrow> nat \<Rightarrow> u8 list" where
  "junk os n = List.map (os_junk os) [0..<n]"

definition junk_usock :: "'w unix_os \<Rightarrow> unix_socket" where
  "junk_usock os = zero_usock\<lparr>us_sockpath := junk os SOCKADDR_UN_SIZE, us_peerpath := junk os SOCKADDR_UN_SIZE,
     us_fd_w := uint (os_junk os 0), us_fd_r := uint (os_junk os 1)\<rparr>"

definition set_driver :: "'w \<Rightarrow> 'w ustate \<Rightarrow> 'w ustate" where
  "set_driver w st = st\<lparr>world := (world st)\<lparr>driver := w\<rparr>\<rparr>"

text \<open>A call whose result -1 means that it has set \<open>errno\<close>.\<close>

definition sys :: "('w \<Rightarrow> (int \<times> errno_t \<times> 'w) option) \<Rightarrow> ('w, int) uact" where
  "sys f st = do {
     (r, e, w) \<leftarrow> f (driver (world st));
     Some (r, set_driver w (if r = -1 then st\<lparr>errno := e\<rparr> else st))
   }"

definition sys2 :: "('w \<Rightarrow> ((int \<times> 'a) \<times> errno_t \<times> 'w) option) \<Rightarrow> ('w, int \<times> 'a) uact" where
  "sys2 f st = do {
     (r, e, w) \<leftarrow> f (driver (world st));
     Some (r, set_driver w (if fst r = -1 then st\<lparr>errno := e\<rparr> else st))
   }"

definition random :: "'w unix_os \<Rightarrow> ('w, u32) uact" where
  "random os st = (case os_random os (driver (world st)) of (r, w) \<Rightarrow> Some (r, set_driver w st))"

text \<open>\<open>read\<close> into an object of \<open>n\<close> bytes.\<close>

definition read_into :: "'w unix_os \<Rightarrow> int \<Rightarrow> u8 list \<Rightarrow> ('w, int \<times> u8 list) uact" where
  "read_into os fd b st = do {
     ((r, bytes), st) \<leftarrow> sys2 (os_read os fd (length b)) st;
     if length bytes > length b then None else Some ((r, overlay b bytes), st)
   }"

text \<open>The data of the socket \<open>p\<close>; a null or freed pointer is undefined.\<close>

definition usock_of :: "nat \<Rightarrow> 'w ustate \<Rightarrow> unix_socket option" where
  "usock_of p st = do { l \<leftarrow> sock_heap st p; d \<leftarrow> lsd_idata l; idata_heap st d }"

definition upd_usock :: "nat \<Rightarrow> (unix_socket \<Rightarrow> unix_socket) \<Rightarrow> 'w ustate \<Rightarrow> 'w ustate option" where
  "upd_usock p f st = do {
     l \<leftarrow> sock_heap st p;
     d \<leftarrow> lsd_idata l;
     u \<leftarrow> idata_heap st d;
     Some (st\<lparr>idata_heap := (idata_heap st)(d \<mapsto> f u)\<rparr>)
   }"

text \<open>A socket name: the family, the path and its nul, and what was in the local variable behind it.\<close>

definition un_name :: "'w unix_os \<Rightarrow> u8 list \<Rightarrow> u8 list option" where
  "un_name os path = do {
     b \<leftarrow> wr (junk os SOCKADDR_UN_SIZE) 0 (le16_bytes 1);
     put_string b 2 path
   }"

end
