(* ===== verification/Unix_If.thy ===== *)
theory Unix_If
  imports Unix_State
begin

text \<open>
  The operations of the Unix domain interface, \<open>src/unix/u_*.c\<close>, over the C library and the driver of
  \<open>Unix_State\<close>, and the interface table and library they make: \<open>unix_if\<close> and \<open>unix_env\<close>.
\<close>

section \<open>Creating, binding and naming\<close>

definition unix_socket_op :: "'w unix_os \<Rightarrow> nat \<Rightarrow> ('w, int) uact" where
  "unix_socket_op os p st = (let n = next_ptr st; st = st\<lparr>next_ptr := n + 1\<rparr> in
     if \<not> os_malloc os n then do {
       st \<leftarrow> upd_lsd p (\<lambda>l. l\<lparr>lsd_idata := None\<rparr>) st;
       fail ENOMEM st
     } else do {
       st \<leftarrow> upd_lsd p (\<lambda>l. l\<lparr>lsd_idata := Some n\<rparr>) (st\<lparr>idata_heap := (idata_heap st)(n \<mapsto> junk_usock os)\<rparr>);
       st \<leftarrow> upd_usock p (\<lambda>u. zero_usock\<lparr>us_fd_w := -1, us_fd_r := -1\<rparr>) st;
       Some (0, st)
     })"

definition bind_path :: "'w unix_os \<Rightarrow> u8 list \<Rightarrow> 'w ustate \<Rightarrow> u8 list option option" where
  "bind_path os sun_path st =
     (if hd (sun_path @ [0]) = 47 then do { path \<leftarrow> fits MAXPATH (UNIX_LOCAL_PATH @ sun_path); Some (Some path) }
      else (case os_getcwd os MAXPATH (driver (world st)) of
          None \<Rightarrow> Some None
        | Some buf \<Rightarrow>
            if length buf < 2 then None
            else do { path \<leftarrow> fits MAXPATH (UNIX_LOCAL_PATH @ drop 2 buf @ [47] @ sun_path); Some (Some path) }))"

definition unix_bind :: "'w unix_os \<Rightarrow> nat \<Rightarrow> sockaddr \<Rightarrow> nat \<Rightarrow> ('w, int) uact" where
  "unix_bind os p my_addr addrlen st =
     (if addrlen < SOCKADDR_UN_SIZE then fail EINVAL st
      else if addrlen > SOCKADDR_UN_SIZE then fail ENAMETOOLONG st
      else do {
        sun_path \<leftarrow> cstring_at my_addr 2;
        path \<leftarrow> bind_path os sun_path st;
        (case path of
           None \<Rightarrow> fail EACCES st
         | Some path \<Rightarrow> do {
             (ret, st) \<leftarrow> sys (os_open os path False) st;
             st \<leftarrow> upd_usock p (\<lambda>u. u\<lparr>us_fd_r := ret\<rparr>) st;
             u \<leftarrow> usock_of p st;
             sockpath \<leftarrow> (if ret \<noteq> -1 then put_string (us_sockpath u) 0 sun_path
                         else Some (replicate SOCKADDR_UN_SIZE 0));
             st \<leftarrow> upd_usock p (\<lambda>u. u\<lparr>us_sockpath := sockpath\<rparr>) st;
             Some (if ret = -1 then -1 else 0, st)
           })
      })"

definition unix_getname :: "'w unix_os \<Rightarrow> (unix_socket \<Rightarrow> u8 list) \<Rightarrow> nat \<Rightarrow> sockaddr \<Rightarrow> nat
    \<Rightarrow> ('w, int \<times> sockaddr \<times> nat) uact" where
  "unix_getname os sel p name namelen st = do {
     u \<leftarrow> usock_of p st;
     let copylen = (if namelen < SOCKADDR_UN_SIZE then namelen else SOCKADDR_UN_SIZE);
     path \<leftarrow> cstring_at (sel u) 0;
     sun \<leftarrow> un_name os path;
     name \<leftarrow> memcpy name sun copylen;
     Some ((0, name, copylen), st)
   }"

definition unix_getsockname :: "'w unix_os \<Rightarrow> nat \<Rightarrow> sockaddr \<Rightarrow> nat \<Rightarrow> ('w, int \<times> sockaddr \<times> nat) uact" where
  "unix_getsockname os = unix_getname os us_sockpath"

definition unix_getpeername :: "'w unix_os \<Rightarrow> nat \<Rightarrow> sockaddr \<Rightarrow> nat \<Rightarrow> ('w, int \<times> sockaddr \<times> nat) uact" where
  "unix_getpeername os = unix_getname os us_peerpath"

definition unix_proto_check :: "int \<Rightarrow> int \<Rightarrow> int \<Rightarrow> bool" where
  "unix_proto_check domain type protocol =
     (if domain \<noteq> AF_UNIX then False
      else if type \<noteq> SOCK_DGRAM \<and> type \<noteq> SOCK_STREAM then False
      else if protocol \<noteq> 0 then False
      else True)"

definition unix_addrlen_check :: "lsck_socket \<Rightarrow> nat \<Rightarrow> bool" where
  "unix_addrlen_check lsd addrlen =
     (if lsd_family lsd \<noteq> AF_UNIX then False
      else if lsd_type lsd \<noteq> SOCK_STREAM \<and> lsd_type lsd \<noteq> SOCK_DGRAM then False
      else if addrlen < SOCKADDR_UN_SIZE then False
      else True)"

section \<open>Listening, controls and closing\<close>

definition unix_listen :: "nat \<Rightarrow> int \<Rightarrow> ('w, int) uact" where
  "unix_listen p backlog st = Some (0, st)"

definition unix_shutdown :: "nat \<Rightarrow> int \<Rightarrow> ('w, int) uact" where
  "unix_shutdown p how st = Some (0, st)"

definition unix_close :: "'w unix_os \<Rightarrow> nat \<Rightarrow> ('w, int) uact" where
  "unix_close os p st = do {
     l \<leftarrow> sock_heap st p;
     u \<leftarrow> usock_of p st;
     let header = zero_header\<lparr>hd_version := UNIX_MSG_VERSION,
           hd_type := (if lsd_accepted l then UNIX_MSG_SERVER_CLOSE else UNIX_MSG_CLIENT_CLOSE),
           hd_secret := us_secret u, hd_seq_start := us_seq_w u, hd_seq_end := us_seq_w u,
           hd_offset := of_nat HEADER_SIZE\<rparr>;
     (_, st) \<leftarrow> sys (os_nonblock os (us_fd_w u)) st;
     (_, st) \<leftarrow> sys (os_write os (us_fd_w u) (header_bytes header)) st;
     st \<leftarrow> upd_usock p (\<lambda>u. u\<lparr>us_seq_w := us_seq_w u + 1\<rparr>) st;
     (_, st) \<leftarrow> sys (os_fdclose os (us_fd_r u)) st;
     (_, st) \<leftarrow> sys (os_fdclose os (us_fd_w u)) st;
     st \<leftarrow> upd_usock p (\<lambda>u. u\<lparr>us_fd_r := -1, us_fd_w := -1\<rparr>) st;
     Some (0, st)
   }"

definition fd_index :: "int \<Rightarrow> nat option" where
  "fd_index fd = (if fd < 0 then None else Some (nat fd))"

text \<open>\<open>FD_SET\<close> of a negative descriptor is outside the set. The number tells which of the three sets.\<close>

definition unix_select :: "'w unix_os \<Rightarrow> nat \<Rightarrow> int \<Rightarrow> ('w, int) uact" where
  "unix_select os p event st = do {
     u \<leftarrow> usock_of p st;
     (ret, st) \<leftarrow>
       (if event = FD_READ then do { r \<leftarrow> fd_index (us_fd_r u); sys (os_select os {r} 0) st }
        else if event = FD_WRITE then do { w \<leftarrow> fd_index (us_fd_w u); sys (os_select os {w} 1) st }
        else do { w \<leftarrow> fd_index (us_fd_w u); r \<leftarrow> fd_index (us_fd_r u); sys (os_select os {w, r} 2) st });
     Some (if ret > 0 then 1 else ret, st)
   }"

definition unix_getsockopt :: "nat \<Rightarrow> int \<Rightarrow> int \<Rightarrow> u8 list \<Rightarrow> nat \<Rightarrow> ('w, bool \<times> int \<times> u8 list \<times> nat) uact" where
  "unix_getsockopt p level optname optval optlen st = Some ((False, 0, optval, optlen), st)"

text \<open>\<open>ioctl\<close> with the parameter as a value; the result tells whether it was handled.\<close>

definition unix_ioctl :: "'w unix_os \<Rightarrow> nat \<Rightarrow> int \<Rightarrow> u32 \<Rightarrow> ('w, bool \<times> int \<times> u32) uact" where
  "unix_ioctl os p request param st =
     (if request = FIONBIO then
        if param = 1 then do {
          u \<leftarrow> usock_of p st;
          (ret, st) \<leftarrow> sys (os_nonblock os (us_fd_w u)) st;
          (_, st) \<leftarrow> (if ret \<noteq> -1 then sys (os_nonblock os (us_fd_r u)) st else Some (0, st));
          Some ((True, 0, param), st)
        } else fail_with EINVAL (True, -1, param) st
      else if request = FIONREAD then do {
        u \<leftarrow> usock_of p st;
        ((rv, param), st) \<leftarrow> sys2 (os_ioctl os (us_fd_w u) request param) st;
        Some ((True, rv, param), st)
      } else Some ((False, 0, param), st))"

definition unix_ioctl_buf :: "'w unix_os \<Rightarrow> nat \<Rightarrow> int \<Rightarrow> u8 list \<Rightarrow> ('w, bool \<times> int \<times> u8 list) uact" where
  "unix_ioctl_buf os p request v st = do {
     x \<leftarrow> (if request = FIONBIO \<or> request = FIONREAD then le32 v 0 else Some 0);
     ((handled, rv, y), st) \<leftarrow> unix_ioctl os p request x st;
     v \<leftarrow> (if request = FIONREAD then wr v 0 (le32_bytes y) else Some v);
     Some ((handled, rv, v), st)
   }"

definition unix_fcntl :: "'w unix_os \<Rightarrow> nat \<Rightarrow> fcntl_cmd \<Rightarrow> int \<Rightarrow> ('w, bool \<times> int) uact" where
  "unix_fcntl os p command request st =
     (if command = F_SETFL then do {
        let x = (if request AND os_O_NONBLOCK os = os_O_NONBLOCK os then 1 else 0);
        ((handled, rv, _), st) \<leftarrow> unix_ioctl os p FIONBIO x st;
        Some ((handled, rv), st)
      } else if command = F_GETFL then do {
        l \<leftarrow> sock_heap st p;
        Some ((True, if lsd_blocking l then os_O_NONBLOCK os else 0), st)
      } else Some ((False, 0), st))"

section \<open>The library the interface calls back\<close>

text \<open>
  \<open>connect\<close>, \<open>send\<close>, \<open>sendto\<close> and their like call \<open>bind\<close> of the library, which comes back through the
  interface. \<open>unix_base\<close> is the interface table without them: \<open>bind\<close> uses no other entry.
\<close>

definition unix_base :: "'w unix_os \<Rightarrow> (unix_socket, 'w unix_world) lsck_if" where
  "unix_base os = \<lparr>if_name = Some ''Unix->mailslot'', if_flags = 2,
     if_addr = Some \<lparr>table_family = AF_INET4, table_inet = []\<rparr>,
     if_preuninit = None, if_uninit = Some (\<lambda>st. Some (1, st)),
     if_socket = Some (unix_socket_op os), if_socketpair = None, if_close = Some (unix_close os),
     if_proto_check = Some unix_proto_check, if_addrlen_check = Some unix_addrlen_check,
     if_bind = Some (unix_bind os), if_listen = Some unix_listen, if_accept = None, if_connect = None,
     if_recv = None, if_recvfrom = None, if_send = None, if_sendto = None,
     if_getsockname = Some (unix_getsockname os), if_getpeername = Some (unix_getpeername os),
     if_getsockopt = Some unix_getsockopt, if_setsockopt = None, if_shutdown = Some unix_shutdown,
     if_fcntl = Some (unix_fcntl os), if_ioctl = Some (unix_ioctl_buf os), if_select = Some (unix_select os),
     if_nonblocking_check = None, if_sockatmark = None\<rparr>"

text \<open>A descriptor is free when neither the library nor the driver uses it.\<close>

definition alloc_fd :: "'w unix_os \<Rightarrow> 'w ustate \<Rightarrow> int" where
  "alloc_fd os st = (case List.find (\<lambda>fd. fds st fd = None \<and> \<not> os_used os (driver (world st)) fd)
      (List.map int [3..<256]) of None \<Rightarrow> -1 | Some fd \<Rightarrow> fd)"

definition host_env :: "'w unix_os \<Rightarrow> (unix_socket, 'w unix_world) lsck_if
    \<Rightarrow> ('w, nat option) uact list \<Rightarrow> (unix_socket, 'w unix_world) lsck_env" where
  "host_env os i inits = \<lparr>env_if = (\<lambda>_. i), env_init_table = inits, env_getpid = sint (os_getpid os),
     env_alloc_fd = alloc_fd os, env_malloc = os_malloc os, env_getenv = os_getenv os, env_files = os_files os,
     env_time = os_time os, env_junk = junk os SOCKADDR_MAX_SIZE\<rparr>"

definition base_env :: "'w unix_os \<Rightarrow> (unix_socket, 'w unix_world) lsck_env" where
  "base_env os = host_env os (unix_base os) []"

text \<open>Binding a socket that is not bound to a random local name (\<open>u_connct.c\<close>, \<open>u_send.c\<close>).\<close>

definition bind_random :: "'w unix_os \<Rightarrow> nat \<Rightarrow> ('w, int) uact" where
  "bind_random os p st = do {
     (r, st) \<leftarrow> random os st;
     sun \<leftarrow> un_name os (string_bytes ''/tmp/lsck/client/'' @ hex08 r);
     l \<leftarrow> sock_heap st p;
     bind_sock (base_env os) (lsd_fd l) (Some sun) SOCKADDR_UN_SIZE st
   }"

text \<open>A path that starts with \<open>UNIX_LOCAL_PATH\<close>, without it.\<close>

definition local_path :: "u8 list \<Rightarrow> u8 list option" where
  "local_path path = (if take (length UNIX_LOCAL_PATH) path = UNIX_LOCAL_PATH
     then Some (drop (length UNIX_LOCAL_PATH) path) else None)"

section \<open>connect\<close>

definition unbind_me :: "'w unix_os \<Rightarrow> bool \<Rightarrow> nat \<Rightarrow> 'w ustate \<Rightarrow> 'w ustate option" where
  "unbind_me os bind_here p st =
     (if bind_here then do {
        st \<leftarrow> upd_lsd p (\<lambda>l. l\<lparr>lsd_bound := False\<rparr>) st;
        u \<leftarrow> usock_of p st;
        (_, st) \<leftarrow> sys (os_fdclose os (us_fd_r u)) st;
        Some st
      } else Some st)"

text \<open>The part behind the request: the reply of the server in \<open>rep\<close>, or -1.\<close>

definition connect_reply :: "'w unix_os \<Rightarrow> nat \<Rightarrow> bool \<Rightarrow> int \<Rightarrow> u8 list \<Rightarrow> ('w, int) uact" where
  "connect_reply os p bind_here ret rep st =
     (if ret = -1 then do { st \<leftarrow> unbind_me os bind_here p st; fail ENETUNREACH st }
      else do {
        u \<leftarrow> usock_of p st;
        h \<leftarrow> header_of rep;
        if hd_secret h \<noteq> us_secret u \<or> hd_type h \<noteq> UNIX_MSG_SERVER_OPEN then do {
          st \<leftarrow> unbind_me os bind_here p st;
          fail ECONNREFUSED st
        } else do {
          rep_path \<leftarrow> cstring_at rep HEADER_SIZE;
          (fd_w, st) \<leftarrow> sys (os_open os rep_path True) st;
          st \<leftarrow> upd_usock p (\<lambda>u. u\<lparr>us_fd_w := fd_w\<rparr>) st;
          (case local_path rep_path of
             None \<Rightarrow> do { st \<leftarrow> unbind_me os bind_here p st; fail ECONNREFUSED st }
           | Some path \<Rightarrow> do {
               u \<leftarrow> usock_of p st;
               peer \<leftarrow> put_string (us_peerpath u) 0 path;
               st \<leftarrow> upd_usock p (\<lambda>u. u\<lparr>us_peerpath := peer\<rparr>) st;
               Some (0, st)
             })
        }
      })"

definition connect_request :: "'w unix_os \<Rightarrow> nat \<Rightarrow> int \<Rightarrow> unix_header \<Rightarrow> bool \<Rightarrow> ('w, int) uact" where
  "connect_request os p fd h bind_here st = do {
     u \<leftarrow> usock_of p st;
     sockpath \<leftarrow> cstring_at (us_sockpath u) 0;
     path \<leftarrow> put_string (replicate 128 0) 0 (UNIX_LOCAL_PATH @ sockpath);
     let h = h\<lparr>hd_seq_end := seq_add (hd_seq_start h) (length (UNIX_LOCAL_PATH @ sockpath))\<rparr>;
     st \<leftarrow> upd_usock p (\<lambda>u. u\<lparr>us_secret := hd_secret h, us_seq_w := seq_next (hd_seq_end h)\<rparr>) st;
     (ret, st) \<leftarrow> sys (os_write os fd (header_bytes h @ path)) st;
     ((ret, rep), st) \<leftarrow>
       (if ret \<noteq> -1 then read_into os (us_fd_r u) (junk os OPEN_SIZE) st else Some ((ret, []), st));
     connect_reply os p bind_here ret rep st
   }"

text \<open>The descriptor \<open>fd\<close> of the server's mailslot is tested again where \<open>fd_w\<close> is meant: the test never holds.\<close>

definition unix_connect :: "'w unix_os \<Rightarrow> nat \<Rightarrow> sockaddr \<Rightarrow> nat \<Rightarrow> ('w, int) uact" where
  "unix_connect os p serv_addr addrlen st = do {
     st \<leftarrow> upd_usock p (\<lambda>u. u\<lparr>us_peerpath := replicate SOCKADDR_UN_SIZE 0\<rparr>) st;
     serv_path \<leftarrow> cstring_at serv_addr 2;
     path \<leftarrow> fits MAXPATH (UNIX_LOCAL_PATH @ serv_path);
     (fd, st) \<leftarrow> sys (os_open os path True) st;
     if fd = -1 then Some (-1, st)
     else do {
       (n, st) \<leftarrow> random os st;
       (seq, st) \<leftarrow> random os st;
       let h = zero_header\<lparr>hd_version := UNIX_MSG_VERSION, hd_type := UNIX_MSG_CLIENT_OPEN,
             hd_secret := \<lparr>secret_n = n, secret_pid = os_getpid os\<rparr>, hd_seq_start := seq,
             hd_offset := of_nat HEADER_SIZE\<rparr>;
       l \<leftarrow> sock_heap st p;
       let bind_here = (\<not> lsd_bound l);
       (ret, st) \<leftarrow> (if bind_here then bind_random os p st else Some (0, st));
       if ret = -1 then Some (-1, st) else connect_request os p fd h bind_here st
     }
   }"

section \<open>accept\<close>

text \<open>
  The part behind the request \<open>req\<close> of a client: the two mailslots of the new socket \<open>q\<close>, and the reply.
  \<open>seq_end\<close> of the reply is computed from the path of the request, which has been cleared by then.
\<close>

definition accept_reply :: "'w unix_os \<Rightarrow> nat \<Rightarrow> u8 list \<Rightarrow> unix_header \<Rightarrow> u8 list \<Rightarrow> sockaddr \<Rightarrow> nat
    \<Rightarrow> ('w, int \<times> sockaddr \<times> nat) uact" where
  "accept_reply os q path h cli_path addr addrlen st = do {
     cli_sun \<leftarrow> un_name os cli_path;
     (seq, st) \<leftarrow> random os st;
     st \<leftarrow> upd_usock q (\<lambda>u. u\<lparr>us_secret := hd_secret h, us_seq_w := seq, us_seq_r := seq_next (hd_seq_end h)\<rparr>) st;
     let rep = zero_header\<lparr>hd_version := UNIX_MSG_VERSION, hd_type := UNIX_MSG_SERVER_OPEN,
           hd_secret := hd_secret h, hd_seq_start := seq, hd_seq_end := seq_add seq 0,
           hd_offset := of_nat HEADER_SIZE\<rparr>;
     rep_path \<leftarrow> put_string (junk os 128) 0 path;
     u \<leftarrow> usock_of q st;
     (ret, st) \<leftarrow> sys (os_write os (us_fd_w u) (header_bytes rep @ rep_path)) st;
     if ret = -1 then Some ((-1, addr, addrlen), st)
     else do {
       u \<leftarrow> usock_of q st;
       peer \<leftarrow> put_string (us_peerpath u) 0 cli_path;
       st \<leftarrow> upd_usock q (\<lambda>u. u\<lparr>us_seq_w := seq_next (hd_seq_end rep), us_peerpath := peer\<rparr>) st;
       addr \<leftarrow> memcpy addr cli_sun SOCKADDR_UN_SIZE;
       Some ((0, addr, SOCKADDR_UN_SIZE), st)
     }
   }"

definition accept_open :: "'w unix_os \<Rightarrow> nat \<Rightarrow> nat \<Rightarrow> u8 list \<Rightarrow> sockaddr \<Rightarrow> nat
    \<Rightarrow> ('w, int \<times> sockaddr \<times> nat) uact" where
  "accept_open os p q req addr addrlen st = do {
     h \<leftarrow> header_of req;
     if hd_type h \<noteq> UNIX_MSG_CLIENT_OPEN then Some ((-1, addr, addrlen), st)
     else do {
       l \<leftarrow> sock_heap st p;
       serv_path \<leftarrow> cstring_at (lsd_sockname l) 2;
       (r, st) \<leftarrow> random os st;
       path \<leftarrow> fits MAXPATH (UNIX_LOCAL_PATH @ serv_path @ [47] @ hex08 r);
       (fd_r, st) \<leftarrow> sys (os_open os path False) st;
       st \<leftarrow> upd_usock q (\<lambda>u. u\<lparr>us_fd_r := fd_r\<rparr>) st;
       if fd_r = -1 then Some ((-1, addr, addrlen), st)
       else do {
         req_path \<leftarrow> cstring_at req HEADER_SIZE;
         (fd_w, st) \<leftarrow> sys (os_open os req_path True) st;
         st \<leftarrow> upd_usock q (\<lambda>u. u\<lparr>us_fd_w := fd_w\<rparr>) st;
         if fd_w = -1 then Some ((-1, addr, addrlen), st)
         else (case local_path req_path of
             None \<Rightarrow> Some ((-1, addr, addrlen), st)
           | Some cli_path \<Rightarrow> accept_reply os q path h cli_path addr addrlen st)
       }
     }
   }"

definition unix_accept :: "'w unix_os \<Rightarrow> nat \<Rightarrow> nat \<Rightarrow> sockaddr \<Rightarrow> nat \<Rightarrow> ('w, int \<times> sockaddr \<times> nat) uact" where
  "unix_accept os p q addr addrlen st = do {
     let n = next_ptr st;
     let st = st\<lparr>next_ptr := n + 1\<rparr>;
     if \<not> os_malloc os n then do {
       st \<leftarrow> upd_lsd q (\<lambda>l. l\<lparr>lsd_idata := None\<rparr>) st;
       fail_with ENOMEM (-1, addr, addrlen) st
     } else do {
       st \<leftarrow> upd_lsd q (\<lambda>l. l\<lparr>lsd_idata := Some n\<rparr>)
         (st\<lparr>idata_heap := (idata_heap st)(n \<mapsto> (junk_usock os)\<lparr>us_peerpath := replicate SOCKADDR_UN_SIZE 0\<rparr>)\<rparr>);
       if addrlen < SOCKADDR_UN_SIZE then fail_with ENOBUFS (-1, addr, addrlen) st
       else do {
         u \<leftarrow> usock_of p st;
         ((ret, req), st) \<leftarrow> read_into os (us_fd_r u) (junk os OPEN_SIZE) st;
         if ret = -1 then Some ((-1, addr, addrlen), st) else accept_open os p q req addr addrlen st
       }
     }
   }"

end
