(* ===== verification/Unix_Io.thy ===== *)
theory Unix_Io
  imports Unix_If
begin

text \<open>
  Data transfer over mailslots (\<open>src/unix/u_send.c\<close>, \<open>u_recv.c\<close>), socket pairs (\<open>u_sockpr.c\<close>) and the
  start of the interface (\<open>u_initnt.c\<close>), and with them the interface table and the library.
\<close>

section \<open>send\<close>

definition data_header :: "unix_socket \<Rightarrow> nat \<Rightarrow> unix_header" where
  "data_header u sendlen = zero_header\<lparr>hd_version := UNIX_MSG_VERSION, hd_type := UNIX_MSG_DATA,
     hd_secret := us_secret u, hd_seq_start := us_seq_w u, hd_seq_end := seq_add (us_seq_w u - 1) sendlen,
     hd_offset := of_nat HEADER_SIZE\<rparr>"

text \<open>The loop over the message, from byte \<open>sent\<close> on.\<close>

function send_stream_loop :: "'w unix_os \<Rightarrow> nat \<Rightarrow> u8 list \<Rightarrow> nat \<Rightarrow> nat \<Rightarrow> ('w, int) uact" where
  "send_stream_loop os p msg len sent st =
     (if sent < len then do {
        u \<leftarrow> usock_of p st;
        let sendlen = (if len - sent > MAILSLOT_SENDSIZE - HEADER_SIZE
                       then MAILSLOT_SENDSIZE - HEADER_SIZE else len - sent);
        if length msg < sent + sendlen then None
        else do {
          (ret, st) \<leftarrow> sys (os_write os (us_fd_w u)
            (header_bytes (data_header u sendlen) @ take sendlen (drop sent msg))) st;
          if ret = -1 \<or> ret - int HEADER_SIZE \<noteq> int sendlen then fail EIO st
          else do {
            st \<leftarrow> upd_usock p (\<lambda>u. u\<lparr>us_seq_w := seq_add (us_seq_w u) sendlen\<rparr>) st;
            send_stream_loop os p msg len (sent + sendlen) st
          }
        }
      } else Some (int sent, st))"
  by pat_completeness auto
termination
  by (relation "measure (\<lambda>(os, p, msg, len, sent, st). len - sent)")
    (auto simp: MAILSLOT_SENDSIZE_def HEADER_SIZE_def)

declare send_stream_loop.simps [simp del]

definition send_stream :: "'w unix_os \<Rightarrow> nat \<Rightarrow> u8 list \<Rightarrow> nat \<Rightarrow> ('w, int) uact" where
  "send_stream os p msg len st = do { _ \<leftarrow> usock_of p st; send_stream_loop os p msg len 0 st }"

definition dgram_header :: "nat \<Rightarrow> unix_header" where
  "dgram_header len = zero_header\<lparr>hd_version := UNIX_MSG_VERSION,
     hd_type := UNIX_MSG_DATA OR UNIX_MSG_DGRAM_BIT, hd_offset := of_nat OPEN_SIZE,
     hd_seq_start := 0, hd_seq_end := of_nat len - 1\<rparr>"

function send_dgram_loop :: "'w unix_os \<Rightarrow> int \<Rightarrow> u8 list \<Rightarrow> u8 list \<Rightarrow> nat \<Rightarrow> nat \<Rightarrow> ('w, int) uact" where
  "send_dgram_loop os fd path msg len sent st =
     (if sent < len then do {
        let sendlen = (if len - sent > MAILSLOT_SENDSIZE - OPEN_SIZE
                       then MAILSLOT_SENDSIZE - OPEN_SIZE else len - sent);
        if length msg < sent + sendlen then None
        else do {
          (ret, st) \<leftarrow> sys (os_write os fd
            (header_bytes (dgram_header len) @ path @ take sendlen (drop sent msg))) st;
          if ret = -1 \<or> ret - int OPEN_SIZE \<noteq> int sendlen then fail EIO st
          else send_dgram_loop os fd path msg len (sent + sendlen) st
        }
      } else do {
        (_, st) \<leftarrow> sys (os_fdclose os fd) st;
        Some (int sent, st)
      })"
  by pat_completeness auto
termination
  by (relation "measure (\<lambda>(os, fd, path, msg, len, sent, st). len - sent)")
    (auto simp: MAILSLOT_SENDSIZE_def OPEN_SIZE_def)

declare send_dgram_loop.simps [simp del]

definition send_dgram :: "'w unix_os \<Rightarrow> nat \<Rightarrow> u8 list \<Rightarrow> nat \<Rightarrow> sockaddr option \<Rightarrow> nat \<Rightarrow> ('w, int) uact" where
  "send_dgram os p msg len dest tolen st = do {
     l \<leftarrow> sock_heap st p;
     if tolen < SOCKADDR_UN_SIZE \<and> dest \<noteq> None then fail EINVAL st
     else if lsd_type l \<noteq> SOCK_DGRAM then fail EOPNOTSUPP st
     else do {
       (ret, st) \<leftarrow> (if \<not> lsd_bound l then bind_random os p st else Some (0, st));
       if ret = -1 then Some (-1, st)
       else do {
         l \<leftarrow> sock_heap st p;
         my_path \<leftarrow> cstring_at (lsd_sockname l) 2;
         path \<leftarrow> put_string (junk os 128) 0 (UNIX_LOCAL_PATH @ my_path);
         a \<leftarrow> dest;
         to_path \<leftarrow> cstring_at a 2;
         dest_path \<leftarrow> fits MAXPATH (UNIX_LOCAL_PATH @ to_path);
         (fd, st) \<leftarrow> sys (os_open os dest_path True) st;
         if fd = -1 then Some (-1, st) else send_dgram_loop os fd path msg len 0 st
       }
     }
   }"

definition unix_send :: "'w unix_os \<Rightarrow> nat \<Rightarrow> u8 list \<Rightarrow> nat \<Rightarrow> u32 \<Rightarrow> ('w, int) uact" where
  "unix_send os p msg len flags st = do {
     l \<leftarrow> sock_heap st p;
     if lsd_type l = SOCK_STREAM then send_stream os p msg len st
     else if lsd_type l = SOCK_DGRAM then send_dgram os p msg len None 0 st
     else fail EOPNOTSUPP st
   }"

definition unix_sendto :: "'w unix_os \<Rightarrow> nat \<Rightarrow> u8 list \<Rightarrow> nat \<Rightarrow> u32 \<Rightarrow> sockaddr option \<Rightarrow> nat \<Rightarrow> ('w, int) uact" where
  "unix_sendto os p msg len flags dest tolen st = do {
     l \<leftarrow> sock_heap st p;
     if lsd_type l = SOCK_STREAM then send_stream os p msg len st
     else if lsd_type l = SOCK_DGRAM then send_dgram os p msg len dest tolen st
     else fail EOPNOTSUPP st
   }"

section \<open>recv\<close>

text \<open>One message into the static buffer, with the driver told to leave it there when peeking.\<close>

definition read_message :: "'w unix_os \<Rightarrow> int \<Rightarrow> bool \<Rightarrow> u8 list \<Rightarrow> ('w, int \<times> u8 list) uact" where
  "read_message os fd peek my_buf st = do {
     (_, st) \<leftarrow> (if peek then sys2 (os_ioctl os fd MIOPEEK 1) st else Some ((0, 0), st));
     ((ret, my_buf), st) \<leftarrow> read_into os fd my_buf st;
     (_, st) \<leftarrow> (if peek then sys2 (os_ioctl os fd MIOPEEK 0) st else Some ((0, 0), st));
     Some ((ret, my_buf), st)
   }"

definition recv_len :: "nat \<Rightarrow> unix_header \<Rightarrow> nat" where
  "recv_len len h = (let recvlen = unat (hd_seq_end h - hd_seq_start h + 1) in
     if len < recvlen then len else recvlen)"

text \<open>The \<open>n\<close> bytes of a message at its offset.\<close>

definition message_data :: "u8 list \<Rightarrow> unix_header \<Rightarrow> nat \<Rightarrow> u8 list option" where
  "message_data my_buf h n = (let off = sint (hd_offset h) in
     if off < 0 \<or> length my_buf < nat off + n then None else Some (take n (drop (nat off) my_buf)))"

definition peer_closes :: "lsck_socket \<Rightarrow> unix_socket \<Rightarrow> unix_header \<Rightarrow> bool" where
  "peer_closes l u h \<longleftrightarrow>
     (hd_type h = UNIX_MSG_SERVER_CLOSE \<and> \<not> lsd_accepted l \<and> us_secret u = hd_secret h)
   \<or> (hd_type h = UNIX_MSG_CLIENT_CLOSE \<and> lsd_accepted l \<and> us_secret u = hd_secret h)"

text \<open>
  The loops run while \<open>ret\<close> is 0. A message that is rejected leaves \<open>ret\<close> at the number of bytes read,
  as the \<open>continue\<close> of the source does; a message without data leaves it at 0.
\<close>

partial_function (option) recv_stream_loop :: "'w unix_os \<Rightarrow> nat \<Rightarrow> nat \<Rightarrow> bool \<Rightarrow> int \<Rightarrow> bool \<Rightarrow> u8 list \<Rightarrow> 'w ustate
    \<Rightarrow> ((int \<times> u8 list) \<times> 'w ustate) option" where
  "recv_stream_loop os p len peeking ret bad_packet buf st =
     (if ret \<noteq> 0 then Some ((ret, buf), st)
      else do {
        l \<leftarrow> sock_heap st p;
        u \<leftarrow> usock_of p st;
        ((ret, my_buf), st) \<leftarrow> read_message os (us_fd_r u) (\<not> bad_packet \<and> peeking) (stream_buf (world st)) st;
        let st = st\<lparr>world := (world st)\<lparr>stream_buf := my_buf\<rparr>\<rparr>;
        if ret = -1 then fail_with EIO (-1, buf) st
        else do {
          h \<leftarrow> header_of my_buf;
          if peer_closes l u h then do {
            (_, st) \<leftarrow> unix_close os p st;
            fail_with ECONNRESET (-1, buf) st
          }
          else if hd_type h AND UNIX_MSG_DATA = 0
            then recv_stream_loop os p len peeking ret True buf st
          else if hd_type h AND UNIX_MSG_DGRAM_BIT = 0 \<and> hd_secret h \<noteq> us_secret u
            then recv_stream_loop os p len peeking ret True buf st
          else do {
            st \<leftarrow> (if hd_type h AND UNIX_MSG_DGRAM_BIT = 0
                  then upd_usock p (\<lambda>u. u\<lparr>us_seq_r := seq_add (us_seq_r u) (unat (hd_seq_end h - hd_seq_start h + 1))\<rparr>) st
                  else Some st);
            data \<leftarrow> message_data my_buf h (recv_len len h);
            buf \<leftarrow> memcpy buf data (recv_len len h);
            recv_stream_loop os p len peeking (int (recv_len len h)) False buf st
          }
        }
      })"

partial_function (option) recv_dgram_loop :: "'w unix_os \<Rightarrow> nat \<Rightarrow> nat \<Rightarrow> bool \<Rightarrow> int \<Rightarrow> bool \<Rightarrow> u8 list
    \<Rightarrow> sockaddr option \<Rightarrow> nat option \<Rightarrow> 'w ustate
    \<Rightarrow> ((int \<times> u8 list \<times> sockaddr option \<times> nat option) \<times> 'w ustate) option" where
  "recv_dgram_loop os p len peeking ret bad_packet buf frm fromlen st =
     (if ret \<noteq> 0 then Some ((ret, buf, frm, fromlen), st)
      else do {
        u \<leftarrow> usock_of p st;
        ((ret, my_buf), st) \<leftarrow> read_message os (us_fd_r u) (\<not> bad_packet \<and> peeking) (dgram_buf (world st)) st;
        let st = st\<lparr>world := (world st)\<lparr>dgram_buf := my_buf\<rparr>\<rparr>;
        if ret = -1 then fail_with EIO (-1, buf, frm, fromlen) st
        else do {
          h \<leftarrow> header_of my_buf;
          if hd_type h AND (UNIX_MSG_DATA OR UNIX_MSG_DGRAM_BIT) = 0
            then recv_dgram_loop os p len peeking ret True buf frm fromlen st
          else do {
            (frm, fromlen) \<leftarrow> (case (frm, fromlen) of
                (Some a, Some n) \<Rightarrow> do {
                  path \<leftarrow> cstring_at my_buf HEADER_SIZE;
                  sun \<leftarrow> put_string (le16_bytes 1 @ replicate UNIX_PATH_SIZE 0) 2 path;
                  let n = (if n > SOCKADDR_UN_SIZE then SOCKADDR_UN_SIZE else n);
                  a \<leftarrow> memcpy a sun n;
                  Some (Some a, Some n)
                }
              | _ \<Rightarrow> Some (frm, fromlen));
            data \<leftarrow> message_data my_buf h (recv_len len h);
            buf \<leftarrow> memcpy buf data (recv_len len h);
            recv_dgram_loop os p len peeking (int (recv_len len h)) False buf frm fromlen st
          }
        }
      })"

definition peeks :: "u32 \<Rightarrow> bool" where
  "peeks flags \<longleftrightarrow> flags AND 2 = 2"

definition recv_stream :: "'w unix_os \<Rightarrow> nat \<Rightarrow> u8 list \<Rightarrow> nat \<Rightarrow> u32 \<Rightarrow> ('w, int \<times> u8 list) uact" where
  "recv_stream os p buf len flags st = recv_stream_loop os p len (peeks flags) 0 False buf st"

definition recv_dgram :: "'w unix_os \<Rightarrow> nat \<Rightarrow> u8 list \<Rightarrow> nat \<Rightarrow> u32 \<Rightarrow> sockaddr option \<Rightarrow> nat option
    \<Rightarrow> ('w, int \<times> u8 list \<times> sockaddr option \<times> nat option) uact" where
  "recv_dgram os p buf len flags frm fromlen st = do {
     l \<leftarrow> sock_heap st p;
     if lsd_type l \<noteq> SOCK_DGRAM then fail_with EOPNOTSUPP (-1, buf, frm, fromlen) st
     else recv_dgram_loop os p len (peeks flags) 0 False buf frm fromlen st
   }"

definition unix_recv :: "'w unix_os \<Rightarrow> nat \<Rightarrow> u8 list \<Rightarrow> nat \<Rightarrow> u32 \<Rightarrow> ('w, int \<times> u8 list) uact" where
  "unix_recv os p buf len flags st = do {
     l \<leftarrow> sock_heap st p;
     if lsd_type l = SOCK_STREAM then recv_stream os p buf len flags st
     else if lsd_type l = SOCK_DGRAM then do {
       ((ret, b, _, _), st) \<leftarrow> recv_dgram os p buf len flags None None st;
       Some ((ret, b), st)
     }
     else fail_with EOPNOTSUPP (-1, buf) st
   }"

definition unix_recvfrom :: "'w unix_os \<Rightarrow> nat \<Rightarrow> u8 list \<Rightarrow> nat \<Rightarrow> u32 \<Rightarrow> sockaddr option \<Rightarrow> nat option
    \<Rightarrow> ('w, int \<times> u8 list \<times> sockaddr option \<times> nat option) uact" where
  "unix_recvfrom os p buf len flags frm fromlen st = do {
     l \<leftarrow> sock_heap st p;
     if lsd_type l = SOCK_STREAM then do {
       ((ret, b), st) \<leftarrow> recv_stream os p buf len flags st;
       (case (frm, fromlen) of
          (Some a, Some n) \<Rightarrow>
            if ret \<noteq> -1 then do {
              ((_, a, n), st) \<leftarrow> unix_getpeername os p a n st;
              Some ((ret, b, Some a, Some n), st)
            } else Some ((ret, b, frm, fromlen), st)
        | _ \<Rightarrow> Some ((ret, b, frm, fromlen), st))
     }
     else if lsd_type l = SOCK_DGRAM then recv_dgram os p buf len flags frm fromlen st
     else fail_with EOPNOTSUPP (-1, buf, frm, fromlen) st
   }"

section \<open>Socket pairs\<close>

text \<open>
  The stream half of \<open>__unix_socketpair\<close>: secrets, sequence numbers and peers, then a descriptor to
  write to each end. \<open>ret\<close> is set to 0 behind the loop, whether the descriptors were opened or not.
\<close>

definition pair_writer :: "'w unix_os \<Rightarrow> nat \<Rightarrow> u8 list \<Rightarrow> ('w, int) uact" where
  "pair_writer os p peer_path st = do {
     dest_path \<leftarrow> fits MAXPATH (UNIX_LOCAL_PATH @ peer_path);
     (fd_w, st) \<leftarrow> sys (os_open os dest_path True) st;
     if fd_w = -1 then Some (-1, st)
     else do {
       st \<leftarrow> upd_usock p (\<lambda>u. u\<lparr>us_fd_w := fd_w\<rparr>) st;
       Some (0, st)
     }
   }"

definition set_peer :: "nat \<Rightarrow> u8 list \<Rightarrow> 'w ustate \<Rightarrow> 'w ustate option" where
  "set_peer p path st = do {
     u \<leftarrow> usock_of p st;
     peer \<leftarrow> put_string (us_peerpath u) 0 path;
     upd_usock p (\<lambda>u. u\<lparr>us_peerpath := peer\<rparr>) st
   }"

definition pair_stream :: "'w unix_os \<Rightarrow> nat \<Rightarrow> nat \<Rightarrow> u8 list \<Rightarrow> u8 list \<Rightarrow> ('w, int) uact" where
  "pair_stream os p q path0 path1 st = do {
     (n, st) \<leftarrow> random os st;
     st \<leftarrow> upd_usock q (\<lambda>u. u\<lparr>us_secret := \<lparr>secret_n = n, secret_pid = os_getpid os\<rparr>\<rparr>) st;
     st \<leftarrow> upd_usock p (\<lambda>u. u\<lparr>us_secret := \<lparr>secret_n = n, secret_pid = os_getpid os\<rparr>\<rparr>) st;
     (a, st) \<leftarrow> random os st;
     st \<leftarrow> upd_usock q (\<lambda>u. u\<lparr>us_seq_r := a\<rparr>) st;
     st \<leftarrow> upd_usock p (\<lambda>u. u\<lparr>us_seq_w := a\<rparr>) st;
     (b, st) \<leftarrow> random os st;
     st \<leftarrow> upd_usock p (\<lambda>u. u\<lparr>us_seq_r := b\<rparr>) st;
     st \<leftarrow> upd_usock q (\<lambda>u. u\<lparr>us_seq_w := b\<rparr>) st;
     st \<leftarrow> set_peer p path1 st;
     st \<leftarrow> set_peer q path0 st;
     (ret, st) \<leftarrow> pair_writer os p path1 st;
     (_, st) \<leftarrow> (if ret = -1 then Some (-1, st) else pair_writer os q path0 st);
     st \<leftarrow> upd_lsd q (\<lambda>l. l\<lparr>lsd_connected := True\<rparr>) st;
     st \<leftarrow> upd_lsd p (\<lambda>l. l\<lparr>lsd_connected := True\<rparr>) st;
     st \<leftarrow> upd_lsd q (\<lambda>l. l\<lparr>lsd_bound := True\<rparr>) st;
     st \<leftarrow> upd_lsd p (\<lambda>l. l\<lparr>lsd_bound := True\<rparr>) st;
     Some (0, st)
   }"

definition unix_socketpair :: "'w unix_os \<Rightarrow> nat \<Rightarrow> nat \<Rightarrow> ('w, int) uact" where
  "unix_socketpair os p q st = do {
     (r0, st) \<leftarrow> random os st;
     (r1, st) \<leftarrow> random os st;
     let path0 = string_bytes ''/tmp/lsck/sockpair/'' @ hex08 r0;
     let path1 = string_bytes ''/tmp/lsck/sockpair/'' @ hex08 r1;
     sun0 \<leftarrow> un_name os path0;
     sun1 \<leftarrow> un_name os path1;
     (ret, st) \<leftarrow> unix_bind os p sun0 SOCKADDR_UN_SIZE st;
     if ret = -1 then Some (-1, st)
     else do {
       (ret, st) \<leftarrow> unix_bind os q sun1 SOCKADDR_UN_SIZE st;
       if ret = -1 then Some (-1, st)
       else do {
         l \<leftarrow> sock_heap st p;
         if lsd_type l = SOCK_STREAM then pair_stream os p q path0 path1 st
         else if lsd_type l = SOCK_DGRAM then do {
           st \<leftarrow> set_peer p path1 st;
           st \<leftarrow> set_peer q path0 st;
           st \<leftarrow> upd_lsd q (\<lambda>l. l\<lparr>lsd_bound := True\<rparr>) st;
           st \<leftarrow> upd_lsd p (\<lambda>l. l\<lparr>lsd_bound := True\<rparr>) st;
           Some (0, st)
         }
         else fail EPROTONOSUPPORT st
       }
     }
   }"

section \<open>Initialisation, the interface and the library\<close>

abbreviation (input) UNIX_IF :: nat where "UNIX_IF \<equiv> 6"

definition unix_enabled :: "'w unix_os \<Rightarrow> 'w ustate \<Rightarrow> (bool \<times> 'w ustate) option" where
  "unix_enabled os st = do {
     (cfg, c) \<leftarrow> config_getfile (os_getenv os) (os_malloc os (next_ptr st)) (lsck_config st);
     let st = st\<lparr>lsck_config := c, next_ptr := next_ptr st + 1\<rparr>;
     buf \<leftarrow> (case cfg of
        None \<Rightarrow> Some ''true''
      | Some f \<Rightarrow> do {
          (_, d) \<leftarrow> GetPrivateProfileString (os_files os) (Some ''unix'') (Some ''Enabled'') (Some ''true'') 6 f;
          d
        });
     Some (\<not> (stricmp_eq buf ''false'' \<or> stricmp_eq buf ''no'' \<or> buf = ''0''), st)
   }"

definition unix_init :: "'w unix_os \<Rightarrow> ('w, nat option) uact" where
  "unix_init os st =
     (if unix_inited (world st) then Some (Some UNIX_IF, st)
      else do {
        (enabled, st) \<leftarrow> unix_enabled os st;
        if \<not> enabled then Some (None, st)
        else (case os_install os (driver (world st)) of (ok, w) \<Rightarrow>
          let st = set_driver w st in
          if \<not> ok then Some (None, st)
          else Some (Some UNIX_IF, (set_driver (os_srandom os w) st)
                 \<lparr>world := (world (set_driver (os_srandom os w) st))\<lparr>unix_inited := True\<rparr>\<rparr>))
      })"

definition unix_if :: "'w unix_os \<Rightarrow> (unix_socket, 'w unix_world) lsck_if" where
  "unix_if os = (unix_base os)\<lparr>if_socketpair := Some (unix_socketpair os), if_accept := Some (unix_accept os),
     if_connect := Some (unix_connect os), if_recv := Some (unix_recv os), if_recvfrom := Some (unix_recvfrom os),
     if_send := Some (unix_send os), if_sendto := Some (unix_sendto os)\<rparr>"

definition unix_env :: "'w unix_os \<Rightarrow> (unix_socket, 'w unix_world) lsck_env" where
  "unix_env os = host_env os (unix_if os) [unix_init os]"

text \<open>Binding goes through entries the two tables share.\<close>

lemma base_env_simps [simp]:
  "env_if (base_env os) i = unix_base os" "env_if (unix_env os) i = unix_if os"
  "env_junk (base_env os) = junk os SOCKADDR_MAX_SIZE" "env_junk (unix_env os) = junk os SOCKADDR_MAX_SIZE"
  by (simp_all add: base_env_def unix_env_def host_env_def)

lemma unix_if_simps [simp]:
  "if_bind (unix_if os) = if_bind (unix_base os)" "if_getsockname (unix_if os) = if_getsockname (unix_base os)"
  "if_nonblocking_check (unix_if os) = None" "if_nonblocking_check (unix_base os) = None"
  by (simp_all add: unix_if_def unix_base_def)

lemma nonblocking_base: "nonblocking_check (base_env os) p st = nonblocking_check (unix_env os) p st"
proof (cases "sock_heap st p")
  case (Some l)
  then show ?thesis by (cases "lsd_interface l") (simp_all add: nonblocking_check_def lsd_if_def)
qed (simp add: nonblocking_check_def)

lemma with_op_base:
  assumes "sel (unix_base os) = sel (unix_if os)"
  shows "with_op (base_env os) p sel e v k st = with_op (unix_env os) p sel e v k st"
proof (cases "sock_heap st p")
  case (Some l)
  then show ?thesis using assms by (cases "lsd_interface l") (simp_all add: with_op_def lsd_if_def)
qed (simp add: with_op_def)

lemma lsck_enter_base: "lsck_enter (base_env os) s v k st = lsck_enter (unix_env os) s v k st"
  by (simp add: lsck_enter_def nonblocking_base cong: option.case_cong)

lemma getsockname_base: "getsockname (base_env os) s name len st = getsockname (unix_env os) s name len st"
  by (simp add: getsockname_def lsck_enter_base with_op_base cong: option.case_cong)

lemma bind_base: "bind_sock (base_env os) s a n st = bind_sock (unix_env os) s a n st"
  by (simp add: bind_sock_def bind_done_def lsck_enter_base with_op_base getsockname_base cong: option.case_cong if_cong)

end
