(* ===== verification/Lsck_Contract.thy ===== *)
theory Lsck_Contract
  imports Sock_Life
begin

text \<open>
  The invariant of the socket layer, what a call may change, and the contract between the layer and
  an interface as a locale. \<open>total\<close> says whether the interface promises to be free of undefined
  behaviour: the laws read "where the operation returns, ..." without it, and "the operation returns,
  and ..." with it.
\<close>

section \<open>Outcomes\<close>

definition runs :: "bool \<Rightarrow> 'a option \<Rightarrow> ('a \<Rightarrow> bool) \<Rightarrow> bool" where
  "runs t m Q = (case m of None \<Rightarrow> \<not> t | Some x \<Rightarrow> Q x)"

lemma runs_simps [simp]:
  "runs t None Q = (\<not> t)"
  "runs t (Some x) Q = Q x"
  "runs t (Option.bind m k) Q = runs t m (\<lambda>x. runs t (k x) Q)"
  "runs t (map_option g m) Q = runs t m (\<lambda>x. Q (g x))"
  by (cases m; simp add: runs_def)+

lemma runs_mono: "runs t m P \<Longrightarrow> (\<And>x. P x \<Longrightarrow> Q x) \<Longrightarrow> runs t m Q"
  by (cases m) (simp_all add: runs_def)

lemma runs_partial [simp]: "runs False m (\<lambda>x. True)"
  by (cases m) (simp_all add: runs_def)

lemma runs_split: "runs t (case x of (a, b) \<Rightarrow> f a b) Q = (case x of (a, b) \<Rightarrow> runs t (f a b) Q)"
  by (cases x) simp

lemma runs_if: "runs t (if b then m else n) Q = (if b then runs t m Q else runs t n Q)"
  by simp

lemma runs_defined: "runs True m Q \<longleftrightarrow> (\<exists>x. m = Some x \<and> Q x)"
  by (cases m) (simp_all add: runs_def)

lemma runs_weaken: "runs True m Q \<Longrightarrow> runs t m Q"
  by (cases m) (simp_all add: runs_def)

section \<open>The invariant\<close>

definition wf_sock :: "nat set \<Rightarrow> lsck_socket \<Rightarrow> bool" where
  "wf_sock ifs l \<longleftrightarrow> 0 \<le> lsd_fd l \<and> length (lsd_sockname l) = SOCKADDR_MAX_SIZE
     \<and> length (lsd_peername l) = SOCKADDR_MAX_SIZE
     \<and> lsd_socknamelen l \<le> SOCKADDR_MAX_SIZE \<and> lsd_peernamelen l \<le> SOCKADDR_MAX_SIZE \<and> (\<exists>i \<in> ifs. lsd_interface l = Some i)
     \<and> (lsd_listening l \<longrightarrow> lsd_bound l \<and> lsd_type l = SOCK_STREAM)
     \<and> (lsd_accepted l \<longrightarrow> lsd_type l = SOCK_STREAM)"

text \<open>
  The table, the heap and the file descriptors agree: the table lists each live descriptor once, the
  data of a socket's file descriptor is its descriptor, and there is no other socket descriptor.
\<close>

definition slots_distinct :: "'a option list \<Rightarrow> bool" where
  "slots_distinct t \<longleftrightarrow> (\<forall>i j p. i < length t \<and> j < length t \<and> t ! i = Some p \<and> t ! j = Some p \<longrightarrow> i = j)"

definition wf_state :: "nat set \<Rightarrow> ('d, 'w) lsck \<Rightarrow> bool" where
  "wf_state ifs st \<longleftrightarrow> length (sock_table st) = LSCK_NUM_SOCKET
     \<and> slots_distinct (sock_table st)
     \<and> (\<forall>p. Some p \<in> set (sock_table st) \<longleftrightarrow> sock_heap st p \<noteq> None)
     \<and> (\<forall>p l. sock_heap st p = Some l \<longrightarrow>
          p < next_ptr st \<and> wf_sock ifs l \<and> fd_to_lsd (lsd_fd l) st = Some p)
     \<and> (\<forall>fd. fd_is_socket fd st \<longrightarrow>
          (\<exists>p l. fd_to_lsd fd st = Some p \<and> sock_heap st p = Some l \<and> lsd_fd l = fd))
     \<and> set (if_list st) \<subseteq> ifs
     \<and> (\<not> inited st \<longrightarrow> (\<forall>p. sock_heap st p = None))"

text \<open>Every socket owns its interface data; \<open>n\<close> is left out (a new socket while it is accepted).\<close>

definition idata_but :: "nat option \<Rightarrow> ('d, 'w) lsck \<Rightarrow> bool" where
  "idata_but n st \<longleftrightarrow> (\<forall>p l d. sock_heap st p = Some l \<and> lsd_idata l = Some d \<and> Some p \<noteq> n \<longrightarrow>
       idata_heap st d \<noteq> None \<and> d < next_ptr st
       \<and> (\<forall>q m. sock_heap st q = Some m \<and> lsd_idata m = Some d \<and> Some q \<noteq> n \<longrightarrow> q = p))"

abbreviation idata_ok :: "('d, 'w) lsck \<Rightarrow> bool" where
  "idata_ok \<equiv> idata_but None"

definition consistent :: "nat set \<Rightarrow> ('d, 'w) lsck \<Rightarrow> bool" where
  "consistent ifs st \<longleftrightarrow> wf_state ifs st \<and> idata_ok st"

section \<open>What a call on one socket may change\<close>

definition evolves0 :: "lsck_socket \<Rightarrow> lsck_socket \<Rightarrow> bool" where
  "evolves0 l l' \<longleftrightarrow> lsd_fd l' = lsd_fd l \<and> lsd_type l' = lsd_type l \<and> lsd_family l' = lsd_family l
     \<and> lsd_interface l' = lsd_interface l \<and> lsd_accepted l' = lsd_accepted l
     \<and> (lsd_inbound l' \<longrightarrow> lsd_inbound l) \<and> (lsd_outbound l' \<longrightarrow> lsd_outbound l)"

definition evolves :: "lsck_socket \<Rightarrow> lsck_socket \<Rightarrow> bool" where
  "evolves l l' \<longleftrightarrow> evolves0 l l' \<and> lsd_listening l' = lsd_listening l"

definition frame_by :: "(lsck_socket \<Rightarrow> lsck_socket \<Rightarrow> bool) \<Rightarrow> ('d, 'w) lsck \<Rightarrow> ('d, 'w) lsck \<Rightarrow> bool" where
  "frame_by R st st' \<longleftrightarrow> fds st' = fds st \<and> sock_table st' = sock_table st \<and> if_list st' = if_list st
     \<and> inited st' = inited st \<and> next_ptr st \<le> next_ptr st'
     \<and> (\<forall>p. rel_option R (sock_heap st p) (sock_heap st' p))"

abbreviation frame :: "('d, 'w) lsck \<Rightarrow> ('d, 'w) lsck \<Rightarrow> bool" where
  "frame \<equiv> frame_by evolves"

abbreviation frame0 :: "('d, 'w) lsck \<Rightarrow> ('d, 'w) lsck \<Rightarrow> bool" where
  "frame0 \<equiv> frame_by evolves0"

lemma evolves_refl [simp]: "evolves l l" "evolves0 l l"
  by (simp_all add: evolves_def evolves0_def)

lemma evolves_trans:
  "evolves l m \<Longrightarrow> evolves m n \<Longrightarrow> evolves l n"
  "evolves0 l m \<Longrightarrow> evolves0 m n \<Longrightarrow> evolves0 l n"
  by (auto simp: evolves_def evolves0_def)

lemma evolves_evolves0: "evolves l m \<Longrightarrow> evolves0 l m"
  by (simp add: evolves_def)

lemma rel_option_evolves_refl [simp]: "rel_option evolves x x" "rel_option evolves0 x x"
  by (rule option.rel_refl; simp)+

lemma frame_refl [simp]: "frame st st" "frame0 st st"
  by (simp_all add: frame_by_def)

lemma rel_option_trans:
  "rel_option R x y \<Longrightarrow> rel_option R y z \<Longrightarrow> (\<And>a b c. R a b \<Longrightarrow> R b c \<Longrightarrow> R a c) \<Longrightarrow> rel_option R x z"
  by (cases x; cases y; cases z) auto

lemma frame_by_trans:
  assumes "frame_by R st s1" "frame_by R s1 s2" "\<And>a b c. R a b \<Longrightarrow> R b c \<Longrightarrow> R a c"
  shows "frame_by R st s2"
proof -
  have "rel_option R (sock_heap st p) (sock_heap s2 p)" for p
    using rel_option_trans [of R "sock_heap st p" "sock_heap s1 p" "sock_heap s2 p"] assms
    unfolding frame_by_def by blast
  then show ?thesis using assms(1,2) unfolding frame_by_def by simp
qed

lemma frame_trans: "frame st s1 \<Longrightarrow> frame s1 s2 \<Longrightarrow> frame st s2"
  by (rule frame_by_trans) (auto intro: evolves_trans)

lemma frame0_trans: "frame0 st s1 \<Longrightarrow> frame0 s1 s2 \<Longrightarrow> frame0 st s2"
  by (rule frame_by_trans) (auto intro: evolves_trans)

lemma frame_frame0: "frame st st' \<Longrightarrow> frame0 st st'"
  unfolding frame_by_def by (auto intro: option.rel_mono_strong evolves_evolves0)

lemma frame_live:
  "frame0 st st' \<Longrightarrow> sock_heap st p = Some l \<Longrightarrow> \<exists>l'. sock_heap st' p = Some l' \<and> evolves0 l l'"
  "frame st st' \<Longrightarrow> sock_heap st p = Some l \<Longrightarrow> \<exists>l'. sock_heap st' p = Some l' \<and> evolves l l'"
  unfolding frame_by_def by (metis option_rel_Some1)+

lemma frame_dead: "frame0 st st' \<Longrightarrow> sock_heap st p = None \<longleftrightarrow> sock_heap st' p = None"
  unfolding frame_by_def by (metis option.rel_distinct option.exhaust)

lemma frame_fd [simp]:
  "frame_by R st st' \<Longrightarrow> fd_to_lsd fd st' = fd_to_lsd fd st"
  "frame_by R st st' \<Longrightarrow> fd_is_socket fd st' = fd_is_socket fd st"
  by (simp_all add: frame_by_def fd_to_lsd_def fd_is_socket_def FSEXT_get_function_def FSEXT_get_data_def)

section \<open>Updates that keep the invariant\<close>

lemma fd_lookup_simps [simp]:
  "fd_to_lsd fd (st\<lparr>errno := e\<rparr>) = fd_to_lsd fd st"
  "fd_to_lsd fd (st\<lparr>signals := sg\<rparr>) = fd_to_lsd fd st"
  "fd_to_lsd fd (st\<lparr>world := w\<rparr>) = fd_to_lsd fd st"
  "fd_to_lsd fd (st\<lparr>idata_heap := h\<rparr>) = fd_to_lsd fd st"
  "fd_to_lsd fd (st\<lparr>if_names := ns\<rparr>) = fd_to_lsd fd st"
  "fd_to_lsd fd (st\<lparr>next_ptr := n\<rparr>) = fd_to_lsd fd st"
  "fd_to_lsd fd (st\<lparr>sock_table := t\<rparr>) = fd_to_lsd fd st"
  "fd_to_lsd fd (st\<lparr>sock_heap := g\<rparr>) = fd_to_lsd fd st"
  "fd_to_lsd fd (st\<lparr>if_list := il\<rparr>) = fd_to_lsd fd st"
  "fd_to_lsd fd (st\<lparr>inited := b\<rparr>) = fd_to_lsd fd st"
  "fd_to_lsd fd (st\<lparr>debug_level := dl\<rparr>) = fd_to_lsd fd st"
  "fd_to_lsd fd (st\<lparr>lsck_config := c\<rparr>) = fd_to_lsd fd st"
  "fd_is_socket fd (st\<lparr>errno := e\<rparr>) = fd_is_socket fd st"
  "fd_is_socket fd (st\<lparr>signals := sg\<rparr>) = fd_is_socket fd st"
  "fd_is_socket fd (st\<lparr>world := w\<rparr>) = fd_is_socket fd st"
  "fd_is_socket fd (st\<lparr>idata_heap := h\<rparr>) = fd_is_socket fd st"
  "fd_is_socket fd (st\<lparr>if_names := ns\<rparr>) = fd_is_socket fd st"
  "fd_is_socket fd (st\<lparr>next_ptr := n\<rparr>) = fd_is_socket fd st"
  "fd_is_socket fd (st\<lparr>sock_table := t\<rparr>) = fd_is_socket fd st"
  "fd_is_socket fd (st\<lparr>sock_heap := g\<rparr>) = fd_is_socket fd st"
  "fd_is_socket fd (st\<lparr>if_list := il\<rparr>) = fd_is_socket fd st"
  "fd_is_socket fd (st\<lparr>inited := b\<rparr>) = fd_is_socket fd st"
  "fd_is_socket fd (st\<lparr>debug_level := dl\<rparr>) = fd_is_socket fd st"
  "fd_is_socket fd (st\<lparr>lsck_config := c\<rparr>) = fd_is_socket fd st"
  by (simp_all add: fd_to_lsd_def fd_is_socket_def FSEXT_get_function_def FSEXT_get_data_def)

lemma wf_simps [simp]:
  "wf_state ifs (st\<lparr>errno := e\<rparr>) = wf_state ifs st"
  "wf_state ifs (st\<lparr>signals := sg\<rparr>) = wf_state ifs st"
  "wf_state ifs (st\<lparr>world := w\<rparr>) = wf_state ifs st"
  "wf_state ifs (st\<lparr>idata_heap := h\<rparr>) = wf_state ifs st"
  "wf_state ifs (st\<lparr>if_names := ns\<rparr>) = wf_state ifs st"
  by (simp_all add: wf_state_def)

lemma idata_but_simps [simp]:
  "idata_but n (st\<lparr>errno := e\<rparr>) = idata_but n st"
  "idata_but n (st\<lparr>signals := sg\<rparr>) = idata_but n st"
  "idata_but n (st\<lparr>world := w\<rparr>) = idata_but n st"
  "idata_but n (st\<lparr>if_names := ns\<rparr>) = idata_but n st"
  "idata_but n (st\<lparr>sock_table := t\<rparr>) = idata_but n st"
  "idata_but n (st\<lparr>fds := t'\<rparr>) = idata_but n st"
  "idata_but n (st\<lparr>if_list := il\<rparr>) = idata_but n st"
  "idata_but n (st\<lparr>inited := b\<rparr>) = idata_but n st"
  by (simp_all add: idata_but_def)

lemma consistent_simps [simp]:
  "consistent ifs (st\<lparr>errno := e\<rparr>) = consistent ifs st"
  "consistent ifs (st\<lparr>signals := sg\<rparr>) = consistent ifs st"
  "consistent ifs (st\<lparr>world := w\<rparr>) = consistent ifs st"
  "consistent ifs (st\<lparr>if_names := ns\<rparr>) = consistent ifs st"
  by (simp_all add: consistent_def)

lemma frame_simps [simp]:
  "frame_by R st (s\<lparr>errno := e\<rparr>) = frame_by R st s"
  "frame_by R st (s\<lparr>signals := sg\<rparr>) = frame_by R st s"
  "frame_by R st (s\<lparr>world := w\<rparr>) = frame_by R st s"
  "frame_by R st (s\<lparr>idata_heap := h\<rparr>) = frame_by R st s"
  "frame_by R st (s\<lparr>if_names := ns\<rparr>) = frame_by R st s"
  by (simp_all add: frame_by_def)

lemma wf_next_ptr:
  assumes "wf_state ifs st" "next_ptr st \<le> n"
  shows "wf_state ifs (st\<lparr>next_ptr := n\<rparr>)"
proof -
  note w = assms(1) [unfolded wf_state_def]
  have "p < n" if "sock_heap st p = Some l" for p l
    using w that assms(2) by (meson less_le_trans)
  with w show ?thesis by (simp add: wf_state_def)
qed

lemma idata_but_next_ptr: "idata_but q st \<Longrightarrow> next_ptr st \<le> n \<Longrightarrow> idata_but q (st\<lparr>next_ptr := n\<rparr>)"
  unfolding idata_but_def by simp (meson less_le_trans)

lemma consistent_next_ptr: "consistent ifs st \<Longrightarrow> next_ptr st \<le> n \<Longrightarrow> consistent ifs (st\<lparr>next_ptr := n\<rparr>)"
  by (simp add: consistent_def wf_next_ptr idata_but_next_ptr)

lemma frame_next_ptr: "next_ptr st \<le> n \<Longrightarrow> frame st (st\<lparr>next_ptr := n\<rparr>)"
  by (simp add: frame_by_def)

lemma wf_sockD:
  assumes "wf_state ifs st" "sock_heap st p = Some l"
  shows "wf_sock ifs l" "p < next_ptr st" "fd_to_lsd (lsd_fd l) st = Some p" "Some p \<in> set (sock_table st)"
  using assms unfolding wf_state_def by blast+

lemma wf_fdD:
  assumes "wf_state ifs st" "fd_to_lsd fd st = Some p"
  obtains l where "sock_heap st p = Some l" "lsd_fd l = fd"
proof -
  from assms(2) have "fd_is_socket fd st" by (auto simp: fd_to_lsd_def split: if_splits)
  with assms that show thesis unfolding wf_state_def by force
qed

lemma upd_frame:
  "sock_heap st p = Some l \<Longrightarrow> R l l' \<Longrightarrow> (\<And>x. R x x) \<Longrightarrow> frame_by R st (st\<lparr>sock_heap := (sock_heap st)(p \<mapsto> l')\<rparr>)"
  by (simp add: frame_by_def option.rel_refl)

lemma upd_wf:
  assumes "wf_state ifs st" "sock_heap st p = Some l" "lsd_fd l' = lsd_fd l" "wf_sock ifs l'"
  shows "wf_state ifs (st\<lparr>sock_heap := (sock_heap st)(p \<mapsto> l')\<rparr>)"
proof -
  note w = assms(1) [unfolded wf_state_def]
  have sock: "\<exists>q m. fd_to_lsd fd st = Some q \<and> ((sock_heap st)(p \<mapsto> l')) q = Some m \<and> lsd_fd m = fd"
    if "fd_is_socket fd st" for fd
  proof -
    from w that obtain q m where "fd_to_lsd fd st = Some q" "sock_heap st q = Some m" "lsd_fd m = fd" by blast
    then show ?thesis using assms(2,3) by (cases "q = p") auto
  qed
  show ?thesis
    unfolding wf_state_def using w assms(2-4) sock by (auto simp: wf_sockD [OF assms(1,2)] simp del: not_None_eq)
qed

lemma upd_idata:
  assumes "idata_but n st" "sock_heap st p = Some l" "lsd_idata l' = lsd_idata l"
  shows "idata_but n (st\<lparr>sock_heap := (sock_heap st)(p \<mapsto> l')\<rparr>)"
  using assms unfolding idata_but_def by simp metis

lemma upd_consistent:
  "consistent ifs st \<Longrightarrow> sock_heap st p = Some l \<Longrightarrow> lsd_fd l' = lsd_fd l \<Longrightarrow> wf_sock ifs l'
   \<Longrightarrow> lsd_idata l' = lsd_idata l \<Longrightarrow> consistent ifs (st\<lparr>sock_heap := (sock_heap st)(p \<mapsto> l')\<rparr>)"
  by (simp add: consistent_def upd_wf upd_idata)

lemma upd_lsd_live [simp]:
  "sock_heap st p = Some l \<Longrightarrow> upd_lsd p f st = Some (st\<lparr>sock_heap := (sock_heap st)(p \<mapsto> f l)\<rparr>)"
  by (simp add: upd_lsd_def)

section \<open>The contract of an interface\<close>

definition owned :: "nat set \<Rightarrow> nat \<Rightarrow> nat \<Rightarrow> lsck_socket \<Rightarrow> ('d, 'w) lsck \<Rightarrow> bool" where
  "owned ifs i p l st \<longleftrightarrow> i \<in> ifs \<and> consistent ifs st \<and> sock_heap st p = Some l \<and> lsd_interface l = Some i"

definition returns :: "bool \<Rightarrow> nat set \<Rightarrow> ('d, 'w) lsck \<Rightarrow> ('a \<Rightarrow> bool) \<Rightarrow> ('a \<times> ('d, 'w) lsck) option \<Rightarrow> bool" where
  "returns t ifs st P m \<longleftrightarrow> runs t m (\<lambda>(r, s). P r \<and> frame st s \<and> consistent ifs s)"

abbreviation keeps :: "bool \<Rightarrow> nat set \<Rightarrow> ('d, 'w) lsck \<Rightarrow> ('a \<times> ('d, 'w) lsck) option \<Rightarrow> bool" where
  "keeps t ifs st \<equiv> returns t ifs st (\<lambda>_. True)"

text \<open>
  The laws. Each operation, called on a socket of its interface, keeps the invariant and the frame.
  An operation that fills a buffer keeps its length. \<open>accept\<close> is called on a copy of the listening
  socket that still shares its interface data, and must give the copy data of its own, or none.
\<close>

locale interface_contract =
  fixes env :: "('d, 'w) lsck_env" and ifs :: "nat set" and total :: bool
  assumes alloc_law: "env_alloc_fd env st < 0 \<or> fds st (env_alloc_fd env st) = None"
    and junk_law: "length (env_junk env) = SOCKADDR_MAX_SIZE"
    and name_law: "i \<in> ifs \<Longrightarrow> if_name (env_if env i) = Some nm \<Longrightarrow> length nm < 16"
    and init_law: "f \<in> set (env_init_table env) \<Longrightarrow> consistent ifs st
      \<Longrightarrow> returns total ifs st (\<lambda>r. case r of None \<Rightarrow> True | Some i \<Rightarrow> i \<in> ifs) (f st)"
    and preuninit_law: "i \<in> ifs \<Longrightarrow> consistent ifs st \<Longrightarrow> if_preuninit (env_if env i) = Some f1 \<Longrightarrow> keeps total ifs st (f1 st)"
    and uninit_law: "i \<in> ifs \<Longrightarrow> consistent ifs st \<Longrightarrow> if_uninit (env_if env i) = Some f1 \<Longrightarrow> keeps total ifs st (f1 st)"
    and socket_law: "owned ifs i p l st \<Longrightarrow> if_socket (env_if env i) = Some f2 \<Longrightarrow> keeps total ifs st (f2 p st)"
    and socketpair_law: "owned ifs i p l st \<Longrightarrow> owned ifs i q m st
      \<Longrightarrow> if_socketpair (env_if env i) = Some f3 \<Longrightarrow> keeps total ifs st (f3 p q st)"
    and close_law: "owned ifs i p l st \<Longrightarrow> if_close (env_if env i) = Some f2 \<Longrightarrow> keeps total ifs st (f2 p st)"
    and bind_law: "owned ifs i p l st \<Longrightarrow> (total \<longrightarrow> n \<le> length a)
      \<Longrightarrow> if_bind (env_if env i) = Some f4 \<Longrightarrow> keeps total ifs st (f4 p a n st)"
    and listen_law: "owned ifs i p l st \<Longrightarrow> lsd_bound l \<Longrightarrow> if_listen (env_if env i) = Some f5
      \<Longrightarrow> runs total (f5 p k st) (\<lambda>(r, s). frame st s \<and> consistent ifs s
            \<and> (\<exists>l'. sock_heap s p = Some l' \<and> lsd_bound l'))"
    and accept_law: "i \<in> ifs \<Longrightarrow> if_accept (env_if env i) = Some f6 \<Longrightarrow> wf_state ifs st \<Longrightarrow> idata_but (Some q) st
      \<Longrightarrow> sock_heap st p = Some l \<Longrightarrow> lsd_interface l = Some i \<Longrightarrow> sock_heap st q = Some m
      \<Longrightarrow> lsd_idata m = lsd_idata l \<Longrightarrow> p \<noteq> q \<Longrightarrow> length a = SOCKADDR_MAX_SIZE
      \<Longrightarrow> returns total ifs st (\<lambda>(r, a', n'). length a' = SOCKADDR_MAX_SIZE \<and> n' \<le> SOCKADDR_MAX_SIZE
            \<and> (r = 0 \<or> r = -1)) (f6 p q a SOCKADDR_MAX_SIZE st)"
    and connect_law: "owned ifs i p l st \<Longrightarrow> \<not> lsd_listening l \<Longrightarrow> (total \<longrightarrow> n \<le> length a)
      \<Longrightarrow> if_connect (env_if env i) = Some f4 \<Longrightarrow> keeps total ifs st (f4 p a n st)"
    and recv_law: "owned ifs i p l st \<Longrightarrow> (total \<longrightarrow> n \<le> length b) \<Longrightarrow> if_recv (env_if env i) = Some f7
      \<Longrightarrow> keeps total ifs st (f7 p b n flg st)"
    and recvfrom_law: "owned ifs i p l st \<Longrightarrow> (total \<longrightarrow> n \<le> length b \<and> (\<forall>x. from = Some x \<longrightarrow> the fl \<le> length x))
      \<Longrightarrow> if_recvfrom (env_if env i) = Some f8 \<Longrightarrow> keeps total ifs st (f8 p b n flg from fl st)"
    and send_law: "owned ifs i p l st \<Longrightarrow> (total \<longrightarrow> n \<le> length b) \<Longrightarrow> if_send (env_if env i) = Some f9
      \<Longrightarrow> keeps total ifs st (f9 p b n flg st)"
    and sendto_law: "owned ifs i p l st \<Longrightarrow> (total \<longrightarrow> n \<le> length b \<and> (\<forall>x. dest = Some x \<longrightarrow> tln \<le> length x))
      \<Longrightarrow> if_sendto (env_if env i) = Some f10 \<Longrightarrow> keeps total ifs st (f10 p b n flg dest tln st)"
    and getsockname_law: "owned ifs i p l st \<Longrightarrow> (total \<longrightarrow> n \<le> length a) \<Longrightarrow> if_getsockname (env_if env i) = Some f11
      \<Longrightarrow> returns total ifs st (\<lambda>(r, a', n'). length a' = length a \<and> n' \<le> n) (f11 p a n st)"
    and getpeername_law: "owned ifs i p l st \<Longrightarrow> (total \<longrightarrow> n \<le> length a) \<Longrightarrow> if_getpeername (env_if env i) = Some f11
      \<Longrightarrow> returns total ifs st (\<lambda>(r, a', n'). length a' = length a \<and> n' \<le> n) (f11 p a n st)"
    and getsockopt_law: "owned ifs i p l st \<Longrightarrow> (total \<longrightarrow> n \<le> length v) \<Longrightarrow> if_getsockopt (env_if env i) = Some f12
      \<Longrightarrow> returns total ifs st (\<lambda>(h, rv, v', n'). total \<longrightarrow> n' \<le> length v') (f12 p lev opt v n st)"
    and setsockopt_law: "owned ifs i p l st \<Longrightarrow> (total \<longrightarrow> n \<le> length v) \<Longrightarrow> if_setsockopt (env_if env i) = Some f13
      \<Longrightarrow> keeps total ifs st (f13 p lev opt v n st)"
    and shutdown_law: "owned ifs i p l st \<Longrightarrow> if_shutdown (env_if env i) = Some f5 \<Longrightarrow> keeps total ifs st (f5 p k st)"
    and fcntl_law: "owned ifs i p l st \<Longrightarrow> if_fcntl (env_if env i) = Some f14 \<Longrightarrow> keeps total ifs st (f14 p cmd k st)"
    and ioctl_law: "owned ifs i p l st \<Longrightarrow> (total \<longrightarrow> 32 \<le> length v) \<Longrightarrow> if_ioctl (env_if env i) = Some f15
      \<Longrightarrow> returns total ifs st (\<lambda>(h, rv, v'). length v' = length v) (f15 p k v st)"
    and select_law: "owned ifs i p l st \<Longrightarrow> if_select (env_if env i) = Some f5 \<Longrightarrow> keeps total ifs st (f5 p k st)"
    and nonblocking_law: "owned ifs i p l st \<Longrightarrow> if_nonblocking_check (env_if env i) = Some f2 \<Longrightarrow> keeps total ifs st (f2 p st)"
    and sockatmark_law: "owned ifs i p l st \<Longrightarrow> if_sockatmark (env_if env i) = Some f2 \<Longrightarrow> keeps total ifs st (f2 p st)"
begin

lemma ownedE:
  assumes "consistent ifs st" "sock_heap st p = Some l"
  obtains i where "owned ifs i p l st" "lsd_if env l = Some (env_if env i)"
  using assms wf_sockD(1) [of ifs st p l]
  by (auto simp: consistent_def owned_def wf_sock_def lsd_if_def)

lemma enter_rule:
  assumes "consistent ifs st"
    and call: "\<And>p l i s. frame st s \<Longrightarrow> owned ifs i p l s \<Longrightarrow> lsd_if env l = Some (env_if env i)
      \<Longrightarrow> fd_to_lsd fd s = Some p \<Longrightarrow> runs total (k p s) Q"
    and err: "\<And>s. frame st s \<Longrightarrow> consistent ifs s \<Longrightarrow> Q (v, s)"
  shows "runs total (lsck_enter env fd v k st) Q"
proof (cases "fd_to_lsd fd st")
  case None
  then show ?thesis
    using assms(1) by (auto simp: lsck_enter_def isfdtype_def fail_with_def intro: err)
next
  case (Some p)
  with assms(1) obtain l where l: "sock_heap st p = Some l"
    unfolding consistent_def by (blast elim: wf_fdD)
  with assms(1) obtain i where o: "owned ifs i p l st" and e: "lsd_if env l = Some (env_if env i)"
    by (rule ownedE)
  have "runs total (nonblocking_check env p st) (\<lambda>s. frame st s \<and> consistent ifs s)"
  proof (cases "if_nonblocking_check (env_if env i)")
    case None
    then show ?thesis using l e assms(1) by (simp add: nonblocking_check_def)
  next
    case (Some f)
    then show ?thesis
      using nonblocking_law [OF o Some] l e
      by (auto simp: nonblocking_check_def returns_def split_beta elim: runs_mono)
  qed
  moreover have "runs total (k p s) Q" if s: "frame st s" "consistent ifs s" for s
  proof -
    obtain l' where "sock_heap s p = Some l'" using frame_live(2) [OF s(1) l] by blast
    moreover from s(2) this obtain i' where "owned ifs i' p l' s" "lsd_if env l' = Some (env_if env i')"
      by (rule ownedE)
    moreover have "fd_to_lsd fd s = Some p" using Some s(1) by simp
    ultimately show ?thesis using s(1) by (intro call)
  qed
  ultimately show ?thesis
    using Some by (auto simp: lsck_enter_def elim!: runs_mono)
qed

lemma op_rule:
  assumes "owned ifs i p l s" "\<And>f. sel (env_if env i) = Some f \<Longrightarrow> runs total (k f s) Q"
    "\<And>s'. frame s s' \<Longrightarrow> consistent ifs s' \<Longrightarrow> Q (v, s')"
  shows "runs total (with_op env p sel e v k s) Q"
  using assms
  by (auto simp: with_op_def owned_def lsd_if_def fail_with_def split: option.split)

end

end
