(* ===== verification/Sock_Rules.thy ===== *)
theory Sock_Rules
  imports Lsck_Contract
begin

text \<open>
  Rules for calls that keep the invariant: \<open>owned\<close> and \<open>returns\<close> for each construct the
  calls are written with, so that the proof for a call follows its text.
\<close>

section \<open>Rules for the calls\<close>

lemma owned_heap: "owned ifs i p l s \<Longrightarrow> sock_heap s p = Some l"
  by (simp add: owned_def)

lemma owned_wf: "owned ifs i p l s \<Longrightarrow> wf_sock ifs l"
  using wf_sockD(1) by (auto simp: owned_def consistent_def)

lemma owned_consistent: "owned ifs i p l s \<Longrightarrow> consistent ifs s"
  by (simp add: owned_def)

lemma owned_frame:
  assumes "owned ifs i p l s" "frame s s'" "consistent ifs s'"
  obtains l' where "owned ifs i p l' s'" "evolves l l'"
proof -
  obtain l' where l: "sock_heap s' p = Some l'" "evolves l l'"
    using frame_live(2) [OF assms(2) owned_heap [OF assms(1)]] by blast
  then have "owned ifs i p l' s'"
    using assms(1,3) by (simp add: owned_def evolves_def evolves0_def)
  with l show thesis by (intro that)
qed

lemma owned_upd:
  assumes "owned ifs i p l s" "evolves0 l l'" "wf_sock ifs l'" "lsd_idata l' = lsd_idata l"
  shows "owned ifs i p l' (s\<lparr>sock_heap := (sock_heap s)(p \<mapsto> l')\<rparr>)"
    "frame0 s (s\<lparr>sock_heap := (sock_heap s)(p \<mapsto> l')\<rparr>)"
    "evolves l l' \<Longrightarrow> frame s (s\<lparr>sock_heap := (sock_heap s)(p \<mapsto> l')\<rparr>)"
  using assms by (auto simp: owned_def evolves0_def intro!: upd_consistent upd_frame)

lemma returns_Some: "P r \<Longrightarrow> consistent ifs s \<Longrightarrow> returns t ifs s P (Some (r, s))"
  by (simp add: returns_def)

lemma returns_fail: "P v \<Longrightarrow> consistent ifs s \<Longrightarrow> returns t ifs s P (fail_with e v s)"
  by (simp add: returns_def fail_with_def)

lemma returns_sigpipe: "P v \<Longrightarrow> consistent ifs s \<Longrightarrow> returns t ifs s P (fail_with e v (s\<lparr>signals := sg\<rparr>))"
  by (simp add: returns_def fail_with_def)

lemma returns_step: "returns t ifs s1 P m \<Longrightarrow> frame s s1 \<Longrightarrow> returns t ifs s P m"
  unfolding returns_def by (erule runs_mono) (auto intro: frame_trans)

lemma returns_bind:
  assumes "returns t ifs s P' m"
    "\<And>r s'. P' r \<Longrightarrow> frame s s' \<Longrightarrow> consistent ifs s' \<Longrightarrow> returns t ifs s' P (k (r, s'))"
  shows "returns t ifs s P (Option.bind m k)"
proof -
  have "runs t (k x) (\<lambda>(r, s2). P r \<and> frame s s2 \<and> consistent ifs s2)"
    if "case x of (r, s1) \<Rightarrow> P' r \<and> frame s s1 \<and> consistent ifs s1" for x
    using that assms(2) [THEN returns_step] by (cases x) (auto simp: returns_def)
  then show ?thesis using assms(1) by (auto simp: returns_def elim: runs_mono)
qed

lemma returns_runs_bind:
  "returns t ifs s P m \<Longrightarrow> (\<And>r s'. P r \<Longrightarrow> frame s s' \<Longrightarrow> consistent ifs s' \<Longrightarrow> runs t (k (r, s')) Q)
   \<Longrightarrow> runs t (Option.bind m k) Q"
  unfolding returns_def runs_simps by (erule runs_mono) auto

lemma returns_upd:
  assumes "owned ifs i p l s" "evolves l (f l)" "wf_sock ifs (f l)" "lsd_idata (f l) = lsd_idata l"
    "\<And>s'. owned ifs i p (f l) s' \<Longrightarrow> returns t ifs s' P (k s')"
  shows "returns t ifs s P (Option.bind (upd_lsd p f s) k)"
proof -
  let ?s = "s\<lparr>sock_heap := (sock_heap s)(p \<mapsto> f l)\<rparr>"
  have "evolves0 l (f l)" using assms(2) by (rule evolves_evolves0)
  note o = owned_upd [OF assms(1) this assms(3,4)]
  have "returns t ifs s P (k ?s)"
    by (rule returns_step [OF assms(5) [OF o(1)] o(3) [OF assms(2)]])
  then show ?thesis using owned_heap [OF assms(1)] by simp
qed

lemma returns_if:
  "(b \<Longrightarrow> returns t ifs s P m) \<Longrightarrow> (\<not> b \<Longrightarrow> returns t ifs s P n) \<Longrightarrow> returns t ifs s P (if b then m else n)"
  by simp

lemma returns_case:
  "(x = None \<Longrightarrow> returns t ifs s P m) \<Longrightarrow> (\<And>y. x = Some y \<Longrightarrow> returns t ifs s P (n y))
   \<Longrightarrow> returns t ifs s P (case x of None \<Rightarrow> m | Some y \<Rightarrow> n y)"
  by (cases x) simp_all

lemma returns_mono: "returns t ifs s P m \<Longrightarrow> (\<And>r. P r \<Longrightarrow> P' r) \<Longrightarrow> returns t ifs s P' m"
  unfolding returns_def by (erule runs_mono) auto

lemma returns_heap:
  "owned ifs i p l s \<Longrightarrow> returns t ifs s P (k l) \<Longrightarrow> returns t ifs s P (Option.bind (sock_heap s p) k)"
  by (simp add: owned_heap)

lemma returns_memcpy:
  "(t \<Longrightarrow> n \<le> length dst \<and> n \<le> length src) \<Longrightarrow> (\<And>r. length r = length dst \<Longrightarrow> n \<le> length dst \<Longrightarrow> returns t ifs s P (k r))
   \<Longrightarrow> returns t ifs s P (Option.bind (memcpy dst src n) k)"
  by (cases "n \<le> length dst \<and> n \<le> length src") (auto simp: memcpy_def returns_def)

lemma returns_bzero:
  "(t \<Longrightarrow> n \<le> length dst) \<Longrightarrow> (\<And>r. length r = length dst \<Longrightarrow> returns t ifs s P (k r))
   \<Longrightarrow> returns t ifs s P (Option.bind (bzero dst n) k)"
  by (cases "n \<le> length dst") (auto simp: bzero_def returns_def)

lemma returns_wr:
  "(t \<Longrightarrow> i + length src \<le> length dst) \<Longrightarrow> (\<And>r. length r = length dst \<Longrightarrow> returns t ifs s P (k r))
   \<Longrightarrow> returns t ifs s P (Option.bind (wr dst i src) k)"
  by (cases "i + length src \<le> length dst") (auto simp: wr_def returns_def)

lemma returns_pure:
  "(t \<Longrightarrow> m \<noteq> None) \<Longrightarrow> (\<And>x. m = Some x \<Longrightarrow> returns t ifs s P (k x)) \<Longrightarrow> returns t ifs s P (Option.bind m k)"
  by (cases m) (auto simp: returns_def)

text \<open>A change of the flags and names of a well-formed socket that keeps it well-formed.\<close>

lemma wf_sockI:
  assumes "wf_sock ifs l" "lsd_fd l' = lsd_fd l" "lsd_interface l' = lsd_interface l" "lsd_type l' = lsd_type l"
    "length (lsd_sockname l') = SOCKADDR_MAX_SIZE" "length (lsd_peername l') = SOCKADDR_MAX_SIZE"
    "lsd_socknamelen l' \<le> SOCKADDR_MAX_SIZE" "lsd_peernamelen l' \<le> SOCKADDR_MAX_SIZE"
    "lsd_listening l' \<Longrightarrow> lsd_bound l' \<and> lsd_type l = SOCK_STREAM" "lsd_accepted l' = lsd_accepted l"
  shows "wf_sock ifs l'"
  using assms by (simp add: wf_sock_def)

lemma sockaddr_sizes [simp]:
  "SOCKADDR_COMMON_SIZE \<le> SOCKADDR_MAX_SIZE" "SOCKADDR_IN_SIZE \<le> SOCKADDR_MAX_SIZE"
  by (simp_all add: SOCKADDR_COMMON_SIZE_def SOCKADDR_IN_SIZE_def SOCKADDR_MAX_SIZE_def)

lemma wf_sock_lengths:
  "wf_sock ifs l \<Longrightarrow> length (lsd_sockname l) = SOCKADDR_MAX_SIZE"
  "wf_sock ifs l \<Longrightarrow> length (lsd_peername l) = SOCKADDR_MAX_SIZE"
  "wf_sock ifs l \<Longrightarrow> lsd_socknamelen l \<le> SOCKADDR_MAX_SIZE"
  "wf_sock ifs l \<Longrightarrow> lsd_peernamelen l \<le> SOCKADDR_MAX_SIZE"
  "wf_sock ifs l \<Longrightarrow> lsd_listening l \<Longrightarrow> lsd_bound l"
  "wf_sock ifs l \<Longrightarrow> lsd_listening l \<Longrightarrow> lsd_type l = SOCK_STREAM"
  by (simp_all add: wf_sock_def)

lemma sa_family_defined: "2 \<le> length a \<Longrightarrow> sa_family a \<noteq> None"
  by (auto simp: sa_family_def rd_def)

context interface_contract begin

lemma enter_returns:
  assumes "consistent ifs st"
    "\<And>p l i s. frame st s \<Longrightarrow> owned ifs i p l s \<Longrightarrow> lsd_if env l = Some (env_if env i)
      \<Longrightarrow> fd_to_lsd fd s = Some p \<Longrightarrow> returns total ifs s P (k p s)"
    "P v"
  shows "returns total ifs st P (lsck_enter env fd v k st)"
  unfolding returns_def
  using assms(2) [THEN returns_step] assms(3)
  by (intro enter_rule [OF assms(1)]) (auto simp: returns_def)

lemma op_returns:
  assumes "owned ifs i p l s" "\<And>f. sel (env_if env i) = Some f \<Longrightarrow> returns total ifs s P (k f s)" "P v"
  shows "returns total ifs s P (with_op env p sel e v k s)"
  unfolding returns_def by (rule op_rule [OF assms(1)]) (use assms(2,3) in \<open>auto simp: returns_def\<close>)

lemma getsockname_returns:
  assumes "consistent ifs st" "total \<longrightarrow> (\<forall>a n. name = Some a \<longrightarrow> len = Some n \<longrightarrow> n \<le> length a)"
  shows "returns total ifs st (\<lambda>(r, name', len'). rel_option (\<lambda>a b. length b = length a) name name'
     \<and> rel_option (\<lambda>a b. b \<le> a) len len') (getsockname env s name len st)"
proof -
  have refl: "rel_option (\<lambda>a b. length b = length a) x x" "rel_option (\<lambda>a b. b \<le> a) y y"
    for x :: "sockaddr option" and y :: "nat option"
    by (rule option.rel_refl; simp)+
  show ?thesis
    unfolding getsockname_def using assms(2)
    by (intro enter_returns [OF assms(1)])
      (auto simp: refl split: option.split intro!: op_returns returns_fail returns_Some
        returns_bind [OF getsockname_law] owned_consistent)
qed

end

end
