(* ===== verification/Sock_Safety.thy ===== *)
theory Sock_Safety
  imports Sock_Rules
begin

text \<open>
  Every call on one socket keeps the invariant and changes no other socket: \<open>src/gscknm.c\<close> to
  \<open>src/ioctl.c\<close>, each under the contract of the interfaces.
\<close>

context interface_contract begin

lemma getpeername_returns:
  assumes "consistent ifs st" "total \<longrightarrow> (\<forall>a n. name = Some a \<longrightarrow> len = Some n \<longrightarrow> n \<le> length a)"
  shows "returns total ifs st (\<lambda>(r, name', len'). rel_option (\<lambda>a b. length b = length a) name name'
     \<and> rel_option (\<lambda>a b. b \<le> a) len len') (getpeername env s name len st)"
proof -
  have refl: "rel_option (\<lambda>a b. length b = length a) x x" "rel_option (\<lambda>a b. b \<le> a) y y"
    for x :: "sockaddr option" and y :: "nat option"
    by (rule option.rel_refl; simp)+
  show ?thesis
    unfolding getpeername_def using assms(2)
    by (intro enter_returns [OF assms(1)] returns_heap)
      (auto simp: refl split: option.split intro!: op_returns returns_fail returns_Some
        returns_bind [OF getpeername_law] owned_consistent)
qed

lemma bind_done_keeps:
  assumes "owned ifs i p l s" "\<not> lsd_listening l"
  shows "keeps total ifs s (bind_done env p r s)"
proof (cases "r = 0")
  case True
  show ?thesis
    unfolding bind_done_def if_P [OF True]
  proof (rule returns_heap [OF assms(1)], rule returns_bind [OF getsockname_returns], goal_cases)
    case 1
    show ?case by (rule owned_consistent [OF assms(1)])
  next
    case 2
    then show ?case using junk_law by simp
  next
    case (3 r s')
    then obtain x a n where r: "r = (x, Some a, Some n)" "length a = SOCKADDR_MAX_SIZE" "n \<le> SOCKADDR_MAX_SIZE"
      using junk_law by (cases r) (auto simp: option_rel_Some1)
    obtain l' where l': "owned ifs i p l' s'" "evolves l l'" by (rule owned_frame [OF assms(1) 3(2,3)])
    have w: "wf_sock ifs l'" "\<not> lsd_listening l'"
      using owned_wf [OF l'(1)] l'(2) assms(2) by (simp_all add: evolves_def)
    show ?case
      unfolding r prod.case bind.bind_lunit
      by (intro returns_heap [OF l'(1)] returns_memcpy returns_upd [OF l'(1)] returns_Some)
        (use w r in \<open>auto simp: evolves_def evolves0_def wf_sock_lengths intro: wf_sockI [OF w(1)] owned_consistent\<close>)
  qed
next
  case False
  have w: "wf_sock ifs l" by (rule owned_wf [OF assms(1)])
  show ?thesis
    unfolding bind_done_def if_not_P [OF False]
    by (intro returns_heap [OF assms(1)] returns_bzero returns_upd [OF assms(1)] returns_Some)
      (use w assms(2) in \<open>auto simp: evolves_def evolves0_def wf_sock_lengths intro: wf_sockI [OF w] owned_consistent\<close>)
qed

lemma bind_keeps:
  assumes "consistent ifs st" "total \<longrightarrow> (\<forall>a. my_addr = Some a \<longrightarrow> 2 \<le> length a \<and> addrlen \<le> length a)"
  shows "keeps total ifs st (bind_sock env s my_addr addrlen st)"
  unfolding bind_sock_def
proof (rule enter_returns [OF assms(1)], goal_cases)
  case (1 p l i s')
  note o = 1(2)
  note c = owned_consistent [OF o]
  have op: "keeps total ifs s' (with_op env p if_bind EOPNOTSUPP (-1) (\<lambda>f st. do {
            (ret, st) \<leftarrow> f p a addrlen st;
            bind_done env p ret st
          }) s')" if a: "my_addr = Some a" "\<not> lsd_bound l" for a
  proof (rule op_returns [OF o], rule returns_bind [OF bind_law [OF o]], goal_cases)
    case (3 f r s2)
    have "\<not> lsd_listening l" using a(2) owned_wf [OF o] by (auto simp: wf_sock_def)
    then show ?case
      unfolding prod.case by (metis bind_done_keeps evolves_def owned_frame [OF o 3(3,4)])
  qed (use assms(2) a in auto)
  show ?case
    by (intro returns_heap [OF o] returns_if returns_case returns_fail returns_pure [OF sa_family_defined] op c)
      (use assms(2) in auto)
qed simp


lemma connect_sockname_keeps:
  assumes "owned ifs i p l s"
  shows "keeps total ifs s (connect_sockname env p r s)"
proof -
  have e: "lsd_if env l = Some (env_if env i)" using assms by (simp add: owned_def lsd_if_def)
  have w: "wf_sock ifs l" by (rule owned_wf [OF assms])
  note c = owned_consistent [OF assms]
  have op: "keeps total ifs s (do {
            ((ret, name, namelen), st) \<leftarrow> f p (lsd_sockname l) SOCKADDR_MAX_SIZE s;
            st \<leftarrow> upd_lsd p (\<lambda>l. l\<lparr>lsd_sockname := name, lsd_socknamelen := namelen\<rparr>) st;
            if ret = -1 then do {
              a \<leftarrow> bzero name SOCKADDR_IN_SIZE;
              st \<leftarrow> upd_lsd p (\<lambda>l. l\<lparr>lsd_sockname := a\<rparr>) st;
              Some (0, st)
            } else Some (ret, st)
          })" if f: "if_getsockname (env_if env i) = Some f" for f
  proof (rule returns_bind [OF getsockname_law [OF assms _ f]], goal_cases)
    case (2 r s')
    obtain x a n where r: "r = (x, a, n)" "length a = SOCKADDR_MAX_SIZE" "n \<le> SOCKADDR_MAX_SIZE"
      using 2(1) w by (cases r) (auto simp: wf_sock_lengths)
    obtain l' where l': "owned ifs i p l' s'" "evolves l l'" by (rule owned_frame [OF assms 2(2,3)])
    have w': "wf_sock ifs l'" by (rule owned_wf [OF l'(1)])
    let ?l = "l'\<lparr>lsd_sockname := a, lsd_socknamelen := n\<rparr>"
    have w2: "wf_sock ifs ?l" by (rule wf_sockI [OF w']) (use w' r in \<open>auto simp: wf_sock_lengths\<close>)
    show ?case
      unfolding r(1) prod.case
    proof (rule returns_upd [OF l'(1)], goal_cases)
      case (4 s3)
      show ?case
        by (intro returns_if returns_bzero returns_upd [OF 4] returns_Some)
          (use r(2,3) in \<open>auto simp: evolves_def evolves0_def wf_sock_lengths [OF w'] intro: wf_sockI [OF w2] owned_consistent\<close>,
           use 4 owned_consistent in blast)
    qed (use w2 in \<open>simp_all add: evolves_def evolves0_def\<close>)
  qed (use w in \<open>simp add: wf_sock_lengths\<close>)
  show ?thesis
    unfolding connect_sockname_def
    by (rule returns_heap [OF assms])
      (simp add: e, intro conjI allI impI returns_if returns_case returns_Some op c, simp_all)
qed


lemma connect_done_keeps:
  assumes "owned ifs i p l s" "\<not> lsd_listening l" "total \<longrightarrow> n \<le> length a \<and> n \<le> SOCKADDR_MAX_SIZE"
  shows "keeps total ifs s (connect_done env p a n r s)"
proof -
  have w: "wf_sock ifs l" by (rule owned_wf [OF assms(1)])
  note c = owned_consistent
  note len = wf_sock_lengths(1,2)
  have good: "keeps total ifs s (do {
          a \<leftarrow> memcpy (lsd_peername l) a n;
          st \<leftarrow> upd_lsd p (\<lambda>l. l\<lparr>lsd_peername := a, lsd_peernamelen := n\<rparr>) s;
          (ret, st) \<leftarrow> connect_sockname env p r st;
          lsd \<leftarrow> sock_heap st p;
          st \<leftarrow> (if in_progress ret lsd st
                then upd_lsd p (\<lambda>l. l\<lparr>lsd_connecting := True, lsd_connected := False\<rparr>) st
                else upd_lsd p (\<lambda>l. l\<lparr>lsd_connecting := False, lsd_connected := True\<rparr>) st);
          Some (ret, st)
        })"
  proof (rule returns_memcpy, goal_cases)
    case (2 b)
    let ?l = "l\<lparr>lsd_peername := b, lsd_peernamelen := n\<rparr>"
    have w2: "wf_sock ifs ?l" by (rule wf_sockI [OF w]) (use w 2 in \<open>auto simp: wf_sock_lengths\<close>)
    show ?case
    proof (rule returns_upd [OF assms(1)], goal_cases)
      case (4 s2)
      show ?case
      proof (rule returns_bind [OF connect_sockname_keeps [OF 4]], goal_cases)
        case (1 r' s3)
        obtain l3 where l3: "owned ifs i p l3 s3" "evolves ?l l3" by (rule owned_frame [OF 4 1(2,3)])
        have w3: "wf_sock ifs l3" by (rule owned_wf [OF l3(1)])
        have u: "keeps total ifs s3 (do { st \<leftarrow> upd_lsd p (\<lambda>l. l\<lparr>lsd_connecting := x, lsd_connected := y\<rparr>) s3; Some (r', st) })" for x y
          by (intro returns_upd [OF l3(1)] returns_Some)
            (use w3 in \<open>auto simp: evolves_def evolves0_def wf_sock_lengths intro: wf_sockI [OF w3] c\<close>)
        show ?case
          unfolding prod.case
          by (rule returns_heap [OF l3(1)]) (use u in \<open>simp split: if_split\<close>)
      qed
    qed (use w2 in \<open>simp_all add: evolves_def evolves0_def\<close>)
  qed (use assms(3) w in \<open>simp_all add: len\<close>)
  have bad: "keeps total ifs s (do {
          a \<leftarrow> bzero (lsd_sockname l) SOCKADDR_COMMON_SIZE;
          b \<leftarrow> bzero (lsd_peername l) SOCKADDR_COMMON_SIZE;
          st \<leftarrow> upd_lsd p (\<lambda>l. l\<lparr>lsd_sockname := a, lsd_peername := b, lsd_socknamelen := 0,
                  lsd_peernamelen := 0, lsd_connected := False\<rparr>) s;
          Some (r, st)
        })"
    by (intro returns_bzero returns_upd [OF assms(1)] returns_Some)
      (use w assms(2) in \<open>auto simp: evolves_def evolves0_def wf_sock_lengths intro: wf_sockI [OF w] c\<close>)
  show ?thesis
    unfolding connect_done_def
  proof (rule returns_heap [OF assms(1)], rule returns_bind [where P' = "\<lambda>_. True"], goal_cases)
    case 1
    then show ?case using good bad by (simp split: if_split)
  next
    case (2 r' s2)
    obtain l2 where l2: "owned ifs i p l2 s2" by (rule owned_frame [OF assms(1) 2(2,3)])
    show ?case
      unfolding prod.case
      by (rule returns_heap [OF l2], intro returns_if returns_fail returns_Some 2(3)) simp_all
  qed
qed

lemma connect_dgram_keeps:
  assumes "owned ifs i p l s" "\<not> lsd_listening l"
    "total \<longrightarrow> (\<forall>a. serv_addr = Some a \<longrightarrow> 2 \<le> length a \<and> n \<le> length a \<and> n \<le> SOCKADDR_MAX_SIZE)"
  shows "keeps total ifs s (connect_dgram p serv_addr n s)"
proof -
  have w: "wf_sock ifs l" by (rule owned_wf [OF assms(1)])
  show ?thesis
    unfolding connect_dgram_def
    by (intro returns_heap [OF assms(1)] returns_case returns_pure [OF sa_family_defined] returns_if returns_fail returns_memcpy returns_bzero
        returns_upd [OF assms(1)] returns_Some)
      (use w assms(2,3) owned_consistent [OF assms(1)] in \<open>auto simp: evolves_def evolves0_def wf_sock_lengths intro: wf_sockI [OF w] owned_consistent\<close>)
qed

lemma connect_stream_keeps:
  assumes "owned ifs i p l s" "\<not> lsd_listening l"
    "total \<longrightarrow> (\<forall>a. serv_addr = Some a \<longrightarrow> 2 \<le> length a \<and> n \<le> length a \<and> n \<le> SOCKADDR_MAX_SIZE)"
  shows "keeps total ifs s (connect_stream env p serv_addr n s)"
proof -
  note c = owned_consistent [OF assms(1)]
  have op: "keeps total ifs s (with_op env p if_connect EOPNOTSUPP (-1) (\<lambda>f st. do {
            (ret, st) \<leftarrow> f p a n st;
            connect_done env p a n ret st
          }) s)" if a: "serv_addr = Some a" for a
  proof (rule op_returns [OF assms(1)], rule returns_bind [OF connect_law [OF assms(1,2)]], goal_cases)
    case (3 f r s2)
    obtain l2 where "owned ifs i p l2 s2" "evolves l l2" by (rule owned_frame [OF assms(1) 3(3,4)])
    then show ?case
      unfolding prod.case using assms(2,3) a by (intro connect_done_keeps [of i p l2]) (auto simp: evolves_def)
  qed (use assms(3) a in auto)
  show ?thesis
    unfolding connect_stream_def
    by (intro returns_heap [OF assms(1)] returns_if returns_case returns_fail returns_pure [OF sa_family_defined] op c)
      (use assms(3) in auto)
qed

lemma connect_keeps:
  assumes "consistent ifs st"
    "total \<longrightarrow> (\<forall>a. serv_addr = Some a \<longrightarrow> 2 \<le> length a \<and> n \<le> length a \<and> n \<le> SOCKADDR_MAX_SIZE)"
  shows "keeps total ifs st (connect env s serv_addr n st)"
  unfolding connect_def
proof (rule enter_returns [OF assms(1)], goal_cases)
  case (1 p l i s')
  note o = 1(2)
  show ?case
    unfolding 1(3) bind.bind_lunit
    by (intro returns_heap [OF o]; (unfold 1(3) bind.bind_lunit)?; intro returns_if returns_fail connect_dgram_keeps [OF o] connect_stream_keeps [OF o])
      (use assms(2) owned_consistent [OF o] in auto)
qed simp


lemma listen_keeps:
  assumes "consistent ifs st"
  shows "runs total (listen env s k st) (\<lambda>(r, s'). frame0 st s' \<and> consistent ifs s')"
  unfolding listen_def
proof (rule enter_rule [OF assms], goal_cases)
  case (1 p l i s1)
  note o = 1(2)
  have f1: "frame0 st s1" by (rule frame_frame0 [OF 1(1)])
  show ?case
  proof (cases "lsd_type l \<noteq> SOCK_STREAM \<or> \<not> lsd_bound l")
    case True
    then show ?thesis using f1 o by (auto simp: owned_heap [OF o] fail_with_def owned_def)
  next
    case False
    have "runs total (if r \<noteq> -1 then do {
           st \<leftarrow> upd_lsd p (\<lambda>l. l\<lparr>lsd_listening := True, lsd_backlog := k\<rparr>) s2; Some (r, st) } else Some (r, s2))
         (\<lambda>(r, s'). frame0 st s' \<and> consistent ifs s')"
      if s2: "frame s1 s2" "consistent ifs s2" "sock_heap s2 p = Some l'" "lsd_bound l'" for r s2 l'
    proof -
      obtain l2 where l2: "owned ifs i p l2 s2" "evolves l l2" by (rule owned_frame [OF o s2(1,2)])
      then have [simp]: "l2 = l'" using s2(3) owned_heap by fastforce
      have w: "wf_sock ifs l'" using owned_wf [OF l2(1)] by simp
      have "wf_sock ifs (l'\<lparr>lsd_listening := True, lsd_backlog := k\<rparr>)"
        by (rule wf_sockI [OF w]) (use w s2(4) l2(2) False in \<open>auto simp: wf_sock_lengths evolves_def evolves0_def\<close>)
      note u = owned_upd [OF l2(1), where l' = "l'\<lparr>lsd_listening := True, lsd_backlog := k\<rparr>", simplified, OF _ this]
      have "frame0 st s2" using f1 s2(1) by (blast intro: frame0_trans frame_frame0)
      then show ?thesis using u(1,2) s2
        by (auto simp: evolves0_def owned_def intro: frame0_trans)
    qed
    note * = this
    show ?thesis
      unfolding owned_heap [OF o] bind.bind_lunit if_not_P [OF False [unfolded de_Morgan_disj, THEN conjunct1]]
        if_not_P [OF False [unfolded de_Morgan_disj, THEN conjunct2]]
    proof (rule op_rule [OF o], goal_cases)
      case (1 f)
      have "runs total (f p k s1) (\<lambda>x. runs total (case x of (r, s2) \<Rightarrow> if r \<noteq> -1 then do {
           st \<leftarrow> upd_lsd p (\<lambda>l. l\<lparr>lsd_listening := True, lsd_backlog := k\<rparr>) s2; Some (r, st) } else Some (r, s2))
         (\<lambda>(r, s'). frame0 st s' \<and> consistent ifs s'))"
        by (rule runs_mono [OF listen_law [OF o _ 1]]) (use False * in auto)
      then show ?case by simp
    next
      case (2 s')
      then show ?case using f1 by (auto intro: frame0_trans frame_frame0)
    qed
  qed
qed (auto intro: frame_frame0)


lemma shutdown_keeps:
  assumes "consistent ifs st"
  shows "keeps total ifs st (shutdown env s how st)"
  unfolding shutdown_def
proof (rule enter_returns [OF assms], goal_cases)
  case (1 p l i s1)
  note o = 1(2)
  have op: "keeps total ifs s1 (with_op env p if_shutdown EOPNOTSUPP (-1) (\<lambda>f st. do {
       (ret, st) \<leftarrow> f p how st;
       if ret = 0 then do { st \<leftarrow> upd_lsd p (shut_flags how) st; Some (ret, st) }
       else Some (ret, st)
     }) s1)"
  proof (rule op_returns [OF o], rule returns_bind [OF shutdown_law [OF o]], goal_cases)
    case (2 f r s2)
    obtain l2 where l2: "owned ifs i p l2 s2" by (rule owned_frame [OF o 2(3,4)])
    have w: "wf_sock ifs l2" by (rule owned_wf [OF l2])
    show ?case
      unfolding prod.case
      by (intro returns_if returns_upd [OF l2] returns_Some)
        (use w 2(4) in \<open>auto simp: shut_flags_def evolves_def evolves0_def wf_sock_lengths intro: wf_sockI [OF w] owned_consistent\<close>)
  qed auto
  show ?case
    by (intro returns_heap [OF o] returns_if returns_fail op owned_consistent [OF o]) simp_all
qed simp

lemma sendto_stream_keeps:
  assumes "owned ifs i p l s"
    "total \<longrightarrow> n \<le> length m \<and> (\<forall>x. dest = Some x \<longrightarrow> tolen \<le> length x)"
  shows "keeps total ifs s (sendto_stream env p m n flg dest tolen s)"
proof -
  have w: "wf_sock ifs l" by (rule owned_wf [OF assms(1)])
  note c = owned_consistent [OF assms(1)]
  have op: "keeps total ifs s (with_op env p if_send EOPNOTSUPP (-1) (\<lambda>f st. f p m n flg st) s)"
    by (rule op_returns [OF assms(1)], rule send_law [OF assms(1)]) (use assms(2) in auto)
  show ?thesis
    unfolding sendto_stream_def Let_def
    by (intro returns_heap [OF assms(1)] returns_if returns_sigpipe returns_fail returns_pure op c)
      (use assms(2) w c in \<open>auto simp: memcmp_eq_def wf_sock_lengths split: option.splits if_splits\<close>)
qed

lemma sendto_other_keeps:
  assumes "owned ifs i p l s"
    "total \<longrightarrow> n \<le> length m \<and> (\<forall>x. dest = Some x \<longrightarrow> tolen \<le> length x)"
  shows "keeps total ifs s (sendto_other env p m n flg dest tolen s)"
proof -
  have w: "wf_sock ifs l" by (rule owned_wf [OF assms(1)])
  note c = owned_consistent [OF assms(1)]
  have fam: "2 \<le> length (lsd_peername l)" using w by (simp add: wf_sock_lengths SOCKADDR_MAX_SIZE_def)
  have op: "keeps total ifs s (with_op env p if_sendto EOPNOTSUPP (-1) (\<lambda>f st. f p m n flg to tl st) s)"
    if "total \<longrightarrow> (\<forall>x. to = Some x \<longrightarrow> tl \<le> length x)" for to tl
    by (rule op_returns [OF assms(1)], rule sendto_law [OF assms(1)]) (use assms(2) that in auto)
  show ?thesis
    unfolding sendto_other_def Let_def
    by (intro returns_heap [OF assms(1)] returns_pure [OF sa_family_defined [OF fam]] returns_if returns_fail op c)
      (use assms(2) w in \<open>auto simp: wf_sock_lengths\<close>)
qed

lemma sendto_keeps:
  assumes "consistent ifs st"
    "total \<longrightarrow> (\<forall>m. msg = Some m \<longrightarrow> n \<le> length m) \<and> (\<forall>x. dest = Some x \<longrightarrow> tolen \<le> length x)"
  shows "keeps total ifs st (sendto env fd msg n flg dest tolen st)"
  unfolding sendto_def
proof (rule enter_returns [OF assms(1)], goal_cases)
  case (1 p l i s1)
  note o = 1(2)
  show ?case
    by (intro returns_case returns_if returns_sigpipe returns_fail returns_heap [OF o]
        sendto_stream_keeps [OF o] sendto_other_keeps [OF o])
      (use assms(2) owned_consistent [OF o] in auto)
qed simp

lemma recv_keeps:
  assumes "consistent ifs st" "total \<longrightarrow> (\<forall>b. buf = Some b \<longrightarrow> n \<le> length b)"
  shows "keeps total ifs st (recv env fd buf n flg st)"
  unfolding recv_def
proof (rule enter_returns [OF assms(1)], goal_cases)
  case (1 p l i s1)
  note o = 1(2)
  have op: "keeps total ifs s1 (with_op env p if_recv EOPNOTSUPP (-1, buf) (\<lambda>f st. do {
            ((ret, b1), st) \<leftarrow> f p b n flg st;
            Some ((ret, Some b1), st)
          }) s1)" if "buf = Some b" for b
  proof (rule op_returns [OF o], rule returns_bind [OF recv_law [OF o]], goal_cases)
    case (3 f r s2)
    then show ?case by (cases r) (simp add: returns_Some)
  qed (use assms(2) that in auto)
  show ?case
    by (intro returns_heap [OF o] returns_if returns_fail returns_case returns_Some op) (use owned_consistent [OF o] in auto)
qed simp

lemma recvfrom_keeps:
  assumes "consistent ifs st"
    "total \<longrightarrow> (\<forall>b. buf = Some b \<longrightarrow> n \<le> length b) \<and> (\<forall>x k. frm = Some x \<longrightarrow> fromlen = Some k \<longrightarrow> k \<le> length x)"
  shows "keeps total ifs st (recvfrom env fd buf n flg frm fromlen st)"
  unfolding recvfrom_def
proof (rule enter_returns [OF assms(1)], goal_cases)
  case (1 p l i s1)
  note o = 1(2)
  have op: "keeps total ifs s1 (with_op env p if_recvfrom EOPNOTSUPP (-1, buf, frm, fromlen) (\<lambda>f st. do {
              ((ret, b1, frm1, fromlen1), st) \<leftarrow> f p b n flg frm fromlen st;
              Some ((ret, Some b1, frm1, fromlen1), st)
            }) s1)" if "buf = Some b" "\<not> (frm \<noteq> None \<and> fromlen = None)" for b
  proof (rule op_returns [OF o], rule returns_bind [OF recvfrom_law [OF o]], goal_cases)
    case (3 f r s2)
    then show ?case by (cases r) (simp add: returns_Some)
  qed (use assms(2) that in auto)
  show ?case
    by (intro returns_heap [OF o] returns_if returns_fail returns_case returns_Some op) (use owned_consistent [OF o] in auto)
qed simp

lemma selectsocket_keeps: "consistent ifs st \<Longrightarrow> keeps total ifs st (selectsocket env fd ev st)"
  unfolding selectsocket_def
  by (rule enter_returns, assumption, rule op_returns, assumption) (auto intro: select_law)

lemma sockatmark_keeps: "consistent ifs st \<Longrightarrow> keeps total ifs st (sockatmark env fd st)"
  unfolding sockatmark_def
  by (rule enter_returns, assumption, rule op_returns, assumption) (auto intro: sockatmark_law)

end

lemma sa_family_110: "wf_sock ifs l \<Longrightarrow> sa_family (lsd_sockname l) \<noteq> None" "wf_sock ifs l \<Longrightarrow> sa_family (lsd_peername l) \<noteq> None"
  by (auto intro!: sa_family_defined simp: wf_sock_lengths SOCKADDR_MAX_SIZE_def simp del: not_None_eq)

lemma returns_wr2:
  "(t \<Longrightarrow> i + length src \<le> length dst) \<Longrightarrow> (\<And>r. length r = length dst \<Longrightarrow> returns t ifs s P (k r))
   \<Longrightarrow> returns t ifs s P (case wr dst i src of None \<Rightarrow> None | Some r \<Rightarrow> k r)"
  by (cases "i + length src \<le> length dst") (auto simp: wr_def returns_def)

context interface_contract begin

lemma getsockopt_keeps:
  assumes "consistent ifs st" "total \<longrightarrow> (\<forall>v k. optval = Some v \<longrightarrow> optlen = Some k \<longrightarrow> k \<le> length v)"
  shows "keeps total ifs st (getsockopt env fd level optname optval optlen st)"
  unfolding getsockopt_def Let_def
proof (rule enter_returns [OF assms(1)], goal_cases)
  case (1 p l i s1)
  note o = 1(2)
  define v0 where "v0 = (case optval of None \<Rightarrow> take 16 (env_junk env) | Some v \<Rightarrow> v)"
  define n0 where "n0 = (case optval of None \<Rightarrow> 16 | Some _ \<Rightarrow> the optlen)"
  have fits: "total \<longrightarrow> n0 \<le> length v0" if "\<not> (optval \<noteq> None \<and> optlen = None)"
    using assms(2) that junk_law by (auto simp: v0_def n0_def SOCKADDR_MAX_SIZE_def split: option.splits)
  have em: "keeps total ifs s2 (do {
       lsd \<leftarrow> sock_heap s2 p;
       ((ret, v2, l2), st) \<leftarrow>
         (if \<not> h then getsockopt_emulated lsd level optname v n s2 else Some ((rv, v, n), s2));
       Some ((if optval = None then (ret, None, optlen) else (ret, Some v2, Some l2)), st) })"
    if s2: "frame s1 s2" "consistent ifs s2" "total \<longrightarrow> n \<le> length v" for s2 h rv v n
  proof -
    obtain l2 where l2: "owned ifs i p l2 s2" by (rule owned_frame [OF o s2(1,2)])
    have "keeps total ifs s2 (if \<not> h then getsockopt_emulated l2 level optname v n s2 else Some ((rv, v, n), s2))"
      unfolding getsockopt_emulated_def
      by (intro returns_if returns_fail returns_wr returns_Some) (use s2 in \<open>auto simp: int_bytes_def le32_bytes_def\<close>)
    then show ?thesis
      by (intro returns_heap [OF l2]) (erule returns_bind, auto intro!: returns_Some)
  qed
  have e: "lsd_if env l = Some (env_if env i)" by (rule 1(3))
  have "keeps total ifs s1 (do {
     ((handled, rv, v1, l1), st) \<leftarrow>
         (case if_getsockopt (env_if env i) of
            None \<Rightarrow> Some ((False, 0, v0, n0), s1)
          | Some f \<Rightarrow> f p level optname v0 n0 s1);
     lsd \<leftarrow> sock_heap st p;
     ((ret, v2, l2), st) \<leftarrow>
         (if \<not> handled then getsockopt_emulated lsd level optname v1 l1 st else Some ((rv, v1, l1), st));
     Some ((if optval = None then (ret, None, optlen) else (ret, Some v2, Some l2)), st) })"
    if "\<not> (optval \<noteq> None \<and> optlen = None)"
  proof (rule returns_bind [where P' = "\<lambda>(h, rv, v', n'). total \<longrightarrow> n' \<le> length v'"], goal_cases)
    case 1
    show ?case
      by (rule returns_case, rule returns_Some)
        (use fits [OF that] owned_consistent [OF o] in \<open>auto intro: getsockopt_law [OF o]\<close>)
  next
    case (2 r s2)
    then show ?case using em by (cases r) simp
  qed
  note body = this
  show ?case
    unfolding v0_def [symmetric] n0_def [symmetric]
  proof (intro returns_if returns_fail, goal_cases)
    case 3
    then show ?case by (intro returns_heap [OF o]) (simp only: e bind.bind_lunit body not_False_eq_True)
  qed (use owned_consistent [OF o] in auto)
qed simp

lemma setsockopt_keeps:
  assumes "consistent ifs st" "total \<longrightarrow> (\<forall>v. optval = Some v \<longrightarrow> n \<le> length v)"
  shows "keeps total ifs st (setsockopt env fd level optname optval n st)"
  unfolding setsockopt_def
proof (rule enter_returns [OF assms(1)], goal_cases)
  case (1 p l i s1)
  note o = 1(2)
  have "keeps total ifs s1 (do {
      ((handled, rv), st) \<leftarrow> (case if_setsockopt (env_if env i) of
               None \<Rightarrow> Some ((False, 0), s1)
             | Some f \<Rightarrow> f p level optname v n s1);
      if \<not> handled then setsockopt_emulated st else Some (rv, st) })" if "optval = Some v" for v
  proof (rule returns_bind [where P' = "\<lambda>_. True"], goal_cases)
    case 1
    show ?case
      by (rule returns_case, rule returns_Some)
        (use assms(2) that owned_consistent [OF o] in \<open>auto intro: setsockopt_law [OF o]\<close>)
  next
    case (2 r s2)
    then show ?case by (cases r) (auto simp: setsockopt_emulated_def intro!: returns_fail returns_Some)
  qed
  then show ?case
    by (intro returns_case returns_fail returns_heap [OF o]) (use owned_consistent [OF o] in \<open>auto simp: 1(3)\<close>)
qed simp

lemma fcntlsocket_keeps:
  assumes "consistent ifs st"
  shows "keeps total ifs st (fcntlsocket env fd cmd req st)"
  unfolding fcntlsocket_def
proof (rule enter_returns [OF assms(1)], goal_cases)
  case (1 p l i s1)
  note o = 1(2)
  have "keeps total ifs s1 (do {
      ((handled, rv), st) \<leftarrow> (case if_fcntl (env_if env i) of
          None \<Rightarrow> Some ((False, 0), s1)
        | Some f \<Rightarrow> f p cmd req s1);
      if \<not> handled then fcntlsocket_emulated env p cmd req st else Some (rv, st) })"
  proof (rule returns_bind [where P' = "\<lambda>_. True"], goal_cases)
    case 1
    show ?case
      by (rule returns_case, rule returns_Some)
        (use owned_consistent [OF o] in \<open>auto intro: fcntl_law [OF o]\<close>)
  next
    case (2 r s2)
    obtain l2 where l2: "owned ifs i p l2 s2" by (rule owned_frame [OF o 2(2,3)])
    have w: "wf_sock ifs l2" by (rule owned_wf [OF l2])
    have "keeps total ifs s2 (fcntlsocket_emulated env p cmd req s2)"
      unfolding fcntlsocket_emulated_def
      by (intro returns_heap [OF l2] returns_if returns_fail returns_upd [OF l2] returns_Some)
        (use w 2(3) in \<open>auto simp: evolves_def evolves0_def wf_sock_lengths intro: wf_sockI [OF w] owned_consistent\<close>)
    then show ?case using 2 by (cases r) (auto intro!: returns_Some)
  qed
  then show ?case by (intro returns_heap [OF o]) (simp add: 1(3))
qed simp

lemma ioctl_netmask_length:
  assumes "wf_sock ifs l"
  shows "(32 \<le> length v \<longrightarrow> ioctl_netmask i l v \<noteq> None)"
proof -
  have "le32 (lsd_sockname l) 4 \<noteq> None"
    using assms by (simp add: le32_def wf_sock_lengths SOCKADDR_MAX_SIZE_def)
  then show ?thesis
    by (auto simp: ioctl_netmask_def bzero_def wr_def le16_bytes_def le32_bytes_def split: option.split)
qed

lemma ioctl_emulated_keeps:
  assumes "owned ifs i p l s" "total \<longrightarrow> 32 \<le> length v"
  shows "keeps total ifs s (ioctlsocket_emulated env p req v s)"
proof -
  have e: "lsd_if env l = Some (env_if env i)" using assms(1) by (simp add: owned_def lsd_if_def)
  have w: "wf_sock ifs l" by (rule owned_wf [OF assms(1)])
  note c = owned_consistent [OF assms(1)]
  have i: "i \<in> ifs" using assms(1) by (simp add: owned_def)
  have g: "ioctl_addr_guard l \<noteq> None" "ioctl_peer_guard l \<noteq> None"
    using sa_family_110 [OF w] by (auto simp: ioctl_addr_guard_def ioctl_peer_guard_def)
  have nm: "keeps total ifs s (case if_name (env_if env i) of
          None \<Rightarrow> fail_with EINVAL (-1, v) s
        | Some name \<Rightarrow> do { v \<leftarrow> wr v 0 (string_bytes name @ [0]); Some ((0, v), s) })"
    using name_law [OF i] assms(2) c
    by (auto simp: string_bytes_def intro!: returns_fail returns_wr returns_Some split: option.split)
  have copy: "keeps total ifs s (do { v \<leftarrow> wr v 16 (take 16 a); Some ((0, v), s) })" for a :: "u8 list"
    using assms(2) c by (auto intro!: returns_wr returns_Some)
  have mask: "keeps total ifs s (do { r \<leftarrow> ioctl_netmask (env_if env i) l v;
            (case r of Inl (e, v) \<Rightarrow> fail_with e (-1, v) s | Inr v \<Rightarrow> Some ((0, v), s)) })"
    using ioctl_netmask_length [OF w] assms(2) c
    by (auto intro!: returns_pure returns_fail returns_Some split: sum.split)
  show ?thesis
    unfolding ioctlsocket_emulated_def
    by (rule returns_heap [OF assms(1)], unfold e bind.bind_lunit, intro returns_if nm returns_pure [OF g(1)] returns_pure [OF g(2)] returns_fail c)
      (auto intro!: returns_fail copy mask c split: sum.split)
qed

lemma ioctlsocket_keeps:
  assumes "consistent ifs st" "total \<longrightarrow> (\<forall>v. param = Some v \<longrightarrow> 32 \<le> length v)"
  shows "keeps total ifs st (ioctlsocket env fd req param st)"
  unfolding ioctlsocket_def
proof (rule enter_returns [OF assms(1)], goal_cases)
  case (1 p l i s1)
  note o = 1(2)
  have "keeps total ifs s1 (do {
      ((handled, rv, v1), st) \<leftarrow> (case if_ioctl (env_if env i) of
               None \<Rightarrow> Some ((False, 0, v), s1)
             | Some f \<Rightarrow> f p req v s1);
      if \<not> handled then do {
            ((ret, v2), st) \<leftarrow> ioctlsocket_emulated env p req v1 st;
            Some ((ret, Some v2), st)
          } else Some ((rv, Some v1), st) })" if "param = Some v" for v
  proof (rule returns_bind [where P' = "\<lambda>(h, rv, v'). length v' = length v"], goal_cases)
    case 1
    show ?case
      by (rule returns_case, rule returns_Some)
        (use assms(2) that owned_consistent [OF o] in \<open>auto intro: ioctl_law [OF o]\<close>)
  next
    case (2 r s2)
    obtain h rv v' where r: "r = (h, rv, v')" "length v' = length v" using 2(1) by (cases r) auto
    obtain l2 where l2: "owned ifs i p l2 s2" by (rule owned_frame [OF o 2(2,3)])
    have fit: "total \<longrightarrow> 32 \<le> length v'" using assms(2) that r by auto
    show ?case
      unfolding r prod.case
      by (intro returns_if returns_bind [OF ioctl_emulated_keeps [OF l2 fit]] returns_Some 2(3))
        (auto intro!: returns_Some split: prod.split)
  qed
  then show ?case
    by (intro returns_case returns_fail returns_heap [OF o]) (use owned_consistent [OF o] in \<open>auto simp: 1(3)\<close>)
qed simp

end

end
