(* ===== verification/Sock_Table.thy ===== *)
theory Sock_Table
  imports Sock_Safety
begin

text \<open>
  The calls that make and end sockets: \<open>socket\<close>, \<open>accept\<close>, \<open>closesocket\<close> and \<open>close\<close> change the
  table, the heap and the file descriptors together, or undo what they did.
\<close>

section \<open>Entering and leaving the table\<close>

lemma find_slot_Some:
  "find_slot x xs = Some i \<Longrightarrow> i < length xs \<and> xs ! i = x"
  by (induction xs arbitrary: i) (auto split: if_splits)

lemma find_slot_None: "find_slot x xs = None \<longleftrightarrow> x \<notin> set xs"
  by (induction xs) auto

lemma slots_distinctD:
  "slots_distinct t \<Longrightarrow> i < length t \<Longrightarrow> j < length t \<Longrightarrow> t ! i = Some p \<Longrightarrow> t ! j = Some p \<Longrightarrow> i = j"
  unfolding slots_distinct_def by blast

lemma update_SomeD: "i < length t \<Longrightarrow> t[j := None] ! i = Some q \<Longrightarrow> i \<noteq> j \<and> t ! i = Some q"
  by (cases "i = j") simp_all

lemma slots_distinct_None: "slots_distinct t \<Longrightarrow> slots_distinct (t[j := None])"
  unfolding slots_distinct_def by (metis length_list_update update_SomeD)

lemma slots_distinct_Some:
  assumes "slots_distinct t" "Some p \<notin> set t"
  shows "slots_distinct (t[j := Some p])"
proof -
  have ne: "t ! i \<noteq> Some p" if "i < length t" for i using assms(2) that by (metis nth_mem)
  show ?thesis
    unfolding slots_distinct_def
  proof (intro allI impI)
    fix i k q
    assume "i < length (t[j := Some p]) \<and> k < length (t[j := Some p])
      \<and> t[j := Some p] ! i = Some q \<and> t[j := Some p] ! k = Some q"
    then show "i = k"
      using ne slots_distinctD [OF assms(1), of i k q] by (cases "i = j"; cases "k = j") auto
  qed
qed

lemma slot_update_None:
  assumes "slots_distinct t" "j < length t" "t ! j = Some p"
  shows "Some q \<in> set (t[j := None]) \<longleftrightarrow> Some q \<in> set t \<and> q \<noteq> p"
proof
  assume "Some q \<in> set (t[j := None])"
  then obtain i where i: "i < length t" "t[j := None] ! i = Some q" by (auto simp: in_set_conv_nth)
  from update_SomeD [OF this] have "i \<noteq> j" "t ! i = Some q" by simp_all
  then show "Some q \<in> set t \<and> q \<noteq> p"
    using i(1) slots_distinctD [OF assms(1) i(1) assms(2)] assms(3) by (metis nth_mem)
next
  assume a: "Some q \<in> set t \<and> q \<noteq> p"
  then obtain i where "i < length t" "t ! i = Some q" by (auto simp: in_set_conv_nth)
  moreover from this a assms(3) have "i \<noteq> j" by auto
  ultimately show "Some q \<in> set (t[j := None])" by (metis length_list_update nth_list_update_neq nth_mem)
qed

lemma slot_update_Some:
  assumes "j < length t" "t ! j = None"
  shows "Some q \<in> set (t[j := Some p]) \<longleftrightarrow> q = p \<or> Some q \<in> set t"
proof
  assume "Some q \<in> set (t[j := Some p])"
  then show "q = p \<or> Some q \<in> set t" using set_update_subset_insert [of t j "Some p"] by auto
next
  assume a: "q = p \<or> Some q \<in> set t"
  show "Some q \<in> set (t[j := Some p])"
  proof (cases "q = p")
    case True
    then show ?thesis using assms(1) by (simp add: set_update_memI)
  next
    case False
    with a obtain i where "i < length t" "t ! i = Some q" by (auto simp: in_set_conv_nth)
    moreover from this assms(2) have "i \<noteq> j" by auto
    ultimately show ?thesis by (metis length_list_update nth_list_update_neq nth_mem)
  qed
qed

lemma scan_free_Some:
  assumes "scan_free t i = Some k" "length t = LSCK_NUM_SOCKET"
  shows "k < LSCK_NUM_SOCKET \<and> t ! k = None"
  using assms
proof (induction t i rule: scan_free.induct)
  case (1 t i)
  show ?case
  proof (cases "i < length t")
    case True
    then show ?thesis
      using "1.IH" [of "t ! i"] "1.prems" by (subst (asm) (2) scan_free.simps) (auto split: if_splits)
  next
    case False
    then show ?thesis using "1.prems" by (simp add: scan_free.simps)
  qed
qed

lemma scan_free_None:
  assumes "None \<in> set (drop i t)" "length t = LSCK_NUM_SOCKET"
  shows "scan_free t i \<noteq> None"
  using assms
proof (induction t i rule: scan_free.induct)
  case (1 t i)
  have i: "i < length t" using "1.prems"(1) by (cases "i < length t") auto
  then have "drop i t = t ! i # drop (i + 1) t" by (simp add: Cons_nth_drop_Suc)
  then show ?case
    using "1.IH" [of "t ! i"] "1.prems" i by (subst scan_free.simps) (auto simp del: not_None_eq)
qed

lemma free_index_Some:
  assumes "free_index t = Some k" "length t = LSCK_NUM_SOCKET"
  obtains j where "k = int j" "j < LSCK_NUM_SOCKET" "t ! j = None"
  using assms scan_free_Some [of t 0] by (fastforce simp: free_index_def bind_eq_Some_conv)

definition sock_entry :: "nat \<Rightarrow> fd_entry" where
  "sock_entry p = \<lparr>fd_function = Some SocketFsext, fd_data = Some p\<rparr>"

lemma fd_to_lsd_entry [simp]:
  "fd_to_lsd fd (st\<lparr>fds := F\<rparr>) = (if Option.bind (F fd) fd_function = Some SocketFsext then Option.bind (F fd) fd_data else None)"
  "fd_is_socket fd (st\<lparr>fds := F\<rparr>) = (Option.bind (F fd) fd_function = Some SocketFsext)"
  by (auto simp: fd_to_lsd_def fd_is_socket_def FSEXT_get_function_def FSEXT_get_data_def split: option.split)

lemma fd_to_lsd_alt:
  "fd_to_lsd fd st = (if Option.bind (fds st fd) fd_function = Some SocketFsext then Option.bind (fds st fd) fd_data else None)"
  "fd_is_socket fd st = (Option.bind (fds st fd) fd_function = Some SocketFsext)"
  by (auto simp: fd_to_lsd_def fd_is_socket_def FSEXT_get_function_def FSEXT_get_data_def split: option.split)

text \<open>A socket in a free slot, on a free file descriptor and at a fresh pointer.\<close>

lemma add_wf:
  assumes w: "wf_state ifs s" and j: "j < LSCK_NUM_SOCKET" "sock_table s ! j = None"
    and p: "next_ptr s \<le> p" "p < n" and fd: "fds s (lsd_fd l) = None" and l: "wf_sock ifs l" and i: "inited s"
  shows "wf_state ifs (s\<lparr>next_ptr := n, sock_table := (sock_table s)[j := Some p],
      sock_heap := (sock_heap s)(p \<mapsto> l), fds := (fds s)(lsd_fd l \<mapsto> sock_entry p)\<rparr>)" (is "wf_state ifs ?s")
proof -
  note d = w [unfolded wf_state_def]
  have fresh: "sock_heap s p = None" using d p(1) by (metis leD not_None_eq)
  then have nin: "Some p \<notin> set (sock_table s)" using d by blast
  have other: "q < n \<and> wf_sock ifs m \<and> fd_to_lsd (lsd_fd m) ?s = Some q" if "sock_heap s q = Some m" for q m
  proof -
    have "fd_to_lsd (lsd_fd m) s = Some q" "q < next_ptr s" "wf_sock ifs m" using d that by blast+
    moreover from this(1) fd have "lsd_fd m \<noteq> lsd_fd l" by (auto simp: fd_to_lsd_alt)
    ultimately show ?thesis using p by (auto simp: fd_to_lsd_alt split: if_splits)
  qed
  have sock: "\<exists>q m. fd_to_lsd k ?s = Some q \<and> sock_heap ?s q = Some m \<and> lsd_fd m = k" if "fd_is_socket k ?s" for k
  proof (cases "k = lsd_fd l")
    case True
    then show ?thesis by (simp add: sock_entry_def)
  next
    case False
    then have "fd_is_socket k s" using that by (simp add: fd_to_lsd_alt)
    then obtain q m where "fd_to_lsd k s = Some q" "sock_heap s q = Some m" "lsd_fd m = k" using d by blast
    then show ?thesis using False fresh
      by (intro exI [of _ q] exI [of _ m]) (auto simp: fd_to_lsd_alt split: if_splits)
  qed
  have pn: "q < n \<and> wf_sock ifs m \<and> fd_to_lsd (lsd_fd m) ?s = Some q" if "sock_heap ?s q = Some m" for q m
  proof (cases "q = p")
    case True
    then show ?thesis using that p l by (simp add: sock_entry_def)
  next
    case False
    then have "sock_heap s q = Some m" using that by simp
    then show ?thesis by (rule other)
  qed
  show ?thesis
    unfolding wf_state_def
    using d j i nin sock pn by (simp add: slots_distinct_Some slot_update_Some)
qed

text \<open>Taking a socket out of its slot and giving its file descriptor back.\<close>

lemma remove_wf:
  assumes w: "wf_state ifs s" and j: "j < LSCK_NUM_SOCKET" "sock_table s ! j = Some p" and l: "sock_heap s p = Some l"
  shows "wf_state ifs (s\<lparr>sock_table := (sock_table s)[j := None], sock_heap := (sock_heap s)(p := None),
      fds := (fds s)(lsd_fd l := None)\<rparr>)" (is "wf_state ifs ?s")
proof -
  note d = w [unfolded wf_state_def]
  have fdp: "fd_to_lsd (lsd_fd l) s = Some p" using d l by blast
  have pn: "q < next_ptr s \<and> wf_sock ifs m \<and> fd_to_lsd (lsd_fd m) ?s = Some q"
    if "sock_heap s q = Some m" "q \<noteq> p" for q m
  proof -
    have "fd_to_lsd (lsd_fd m) s = Some q" "q < next_ptr s" "wf_sock ifs m" using d that by blast+
    moreover from this(1) fdp that(2) have "lsd_fd m \<noteq> lsd_fd l" by auto
    ultimately show ?thesis by (auto simp: fd_to_lsd_alt split: if_splits)
  qed
  have sock: "\<exists>q m. fd_to_lsd k ?s = Some q \<and> sock_heap ?s q = Some m \<and> lsd_fd m = k" if "fd_is_socket k ?s" for k
  proof -
    have k: "k \<noteq> lsd_fd l" "fd_is_socket k s" using that by (auto simp: fd_to_lsd_alt split: if_splits)
    then obtain q m where q: "fd_to_lsd k s = Some q" "sock_heap s q = Some m" "lsd_fd m = k" using d by blast
    moreover from this k(1) l have "q \<noteq> p" by auto
    ultimately show ?thesis using k(1)
      by (intro exI [of _ q] exI [of _ m]) (auto simp: fd_to_lsd_alt split: if_splits)
  qed
  have pn': "q < next_ptr s \<and> wf_sock ifs m \<and> fd_to_lsd (lsd_fd m) ?s = Some q" if "sock_heap ?s q = Some m" for q m
  proof -
    have "q \<noteq> p" "sock_heap s q = Some m" using that by (auto split: if_splits)
    then show ?thesis using pn by blast
  qed
  have len: "j < length (sock_table s)" "slots_distinct (sock_table s)" using d j by simp_all
  show ?thesis
    unfolding wf_state_def
    using d j sock pn' by (simp add: slots_distinct_None slot_update_None [OF len(2,1) j(2)])
qed

lemma remove_idata:
  assumes "idata_ok s" "\<And>q m d. sock_heap s q = Some m \<Longrightarrow> q \<noteq> p \<Longrightarrow> lsd_idata m = Some d \<Longrightarrow> h d = idata_heap s d"
  shows "idata_ok (s\<lparr>idata_heap := h, sock_heap := (sock_heap s)(p := None)\<rparr>)"
  unfolding idata_but_def
proof (intro allI impI, elim conjE)
  fix q m d
  assume "sock_heap (s\<lparr>idata_heap := h, sock_heap := (sock_heap s)(p := None)\<rparr>) q = Some m" and d: "lsd_idata m = Some d"
  then have q: "q \<noteq> p" "sock_heap s q = Some m" by (auto split: if_splits)
  from assms(1) q(2) d have "idata_heap s d \<noteq> None" "d < next_ptr s"
    "\<And>r k. sock_heap s r = Some k \<Longrightarrow> lsd_idata k = Some d \<Longrightarrow> r = q"
    unfolding idata_but_def by blast+
  with assms(2) [OF q(2,1) d] show "idata_heap (s\<lparr>idata_heap := h, sock_heap := (sock_heap s)(p := None)\<rparr>) d \<noteq> None
      \<and> d < next_ptr (s\<lparr>idata_heap := h, sock_heap := (sock_heap s)(p := None)\<rparr>)
      \<and> (\<forall>q' m. sock_heap (s\<lparr>idata_heap := h, sock_heap := (sock_heap s)(p := None)\<rparr>) q' = Some m
          \<and> lsd_idata m = Some d \<and> Some q' \<noteq> None \<longrightarrow> q' = q)"
    by (auto split: if_splits)
qed

definition removed :: "('d, 'w) lsck \<Rightarrow> int \<Rightarrow> nat \<Rightarrow> ('d, 'w) lsck \<Rightarrow> bool" where
  "removed st fd p st' \<longleftrightarrow> (\<exists>j l. j < LSCK_NUM_SOCKET \<and> sock_table st ! j = Some p \<and> sock_heap st p = Some l
     \<and> lsd_fd l = fd \<and> sock_table st' = (sock_table st)[j := None] \<and> fds st' = (fds st)(fd := None)
     \<and> sock_heap st' p = None \<and> (\<forall>q. q \<noteq> p \<longrightarrow> rel_option evolves (sock_heap st q) (sock_heap st' q))
     \<and> if_list st' = if_list st \<and> inited st' = inited st \<and> next_ptr st \<le> next_ptr st')"

definition without :: "nat \<Rightarrow> nat \<Rightarrow> (nat \<Rightarrow> 'd option) \<Rightarrow> ('d, 'w) lsck \<Rightarrow> ('d, 'w) lsck" where
  "without j p h s = s\<lparr>idata_heap := h, sock_table := (sock_table s)[j := None], sock_heap := (sock_heap s)(p := None)\<rparr>"

definition other_idata :: "nat \<Rightarrow> (nat \<Rightarrow> 'd option) \<Rightarrow> ('d, 'w) lsck \<Rightarrow> bool" where
  "other_idata p h s \<longleftrightarrow> (\<forall>q m d. sock_heap s q = Some m \<and> q \<noteq> p \<and> lsd_idata m = Some d \<longrightarrow> h d = idata_heap s d)"

lemma without_consistent:
  assumes "consistent ifs s" "j < LSCK_NUM_SOCKET" "sock_table s ! j = Some p" "sock_heap s p = Some l" "other_idata p h s"
  shows "consistent ifs ((without j p h s)\<lparr>fds := (fds s)(lsd_fd l := None)\<rparr>)"
proof -
  have "wf_state ifs (s\<lparr>sock_table := (sock_table s)[j := None], sock_heap := (sock_heap s)(p := None),
      fds := (fds s)(lsd_fd l := None)\<rparr>)"
    using assms by (intro remove_wf) (simp_all add: consistent_def)
  then have "wf_state ifs (s\<lparr>sock_table := (sock_table s)[j := None], sock_heap := (sock_heap s)(p := None),
      fds := (fds s)(lsd_fd l := None), idata_heap := h\<rparr>)" by (simp only: wf_simps)
  moreover have "idata_ok (s\<lparr>idata_heap := h, sock_heap := (sock_heap s)(p := None)\<rparr>)"
    using assms by (intro remove_idata) (auto simp: consistent_def other_idata_def)
  then have "idata_ok (s\<lparr>idata_heap := h, sock_heap := (sock_heap s)(p := None),
     sock_table := (sock_table s)[j := None], fds := (fds s)(lsd_fd l := None)\<rparr>)" by (simp only: idata_but_simps)
  moreover have "(without j p h s)\<lparr>fds := (fds s)(lsd_fd l := None)\<rparr>
      = s\<lparr>sock_table := (sock_table s)[j := None], sock_heap := (sock_heap s)(p := None),
          fds := (fds s)(lsd_fd l := None), idata_heap := h\<rparr>"
    "(without j p h s)\<lparr>fds := (fds s)(lsd_fd l := None)\<rparr>
      = s\<lparr>idata_heap := h, sock_heap := (sock_heap s)(p := None),
          sock_table := (sock_table s)[j := None], fds := (fds s)(lsd_fd l := None)\<rparr>"
    by (simp_all add: without_def)
  ultimately show ?thesis unfolding consistent_def by metis
qed

lemma slot_of:
  assumes "consistent ifs s" "sock_heap s p = Some l"
  obtains j where "find_slot (Some p) (sock_table s) = Some j" "j < LSCK_NUM_SOCKET" "sock_table s ! j = Some p"
proof -
  have "Some p \<in> set (sock_table s)" "length (sock_table s) = LSCK_NUM_SOCKET"
    using assms wf_sockD(4) by (auto simp: consistent_def wf_state_def)
  then obtain j where "find_slot (Some p) (sock_table s) = Some j"
    by (cases "find_slot (Some p) (sock_table s)") (auto simp: find_slot_None)
  with find_slot_Some [OF this] \<open>length (sock_table s) = LSCK_NUM_SOCKET\<close> that show thesis by simp
qed

context interface_contract begin

lemma closesocket_post:
  assumes "consistent ifs st"
  shows "runs total (closesocket env fd st) (\<lambda>(r, s'). if r = 0
     then \<exists>p l s2 j h. fd_to_lsd fd st = Some p \<and> frame st s2 \<and> consistent ifs s2 \<and> sock_heap s2 p = Some l
       \<and> j < LSCK_NUM_SOCKET \<and> sock_table s2 ! j = Some p \<and> other_idata p h s2 \<and> s' = without j p h s2
     else frame st s' \<and> consistent ifs s')"
  (is "runs total _ ?Q")
  unfolding closesocket_def
proof (rule enter_rule [OF assms], goal_cases)
  case (1 p l i s1)
  note o = 1(2)
  show ?case
  proof (rule op_rule [OF o], goal_cases)
    case (1 f)
    have "runs total (if r = 0 then do {
         lsd \<leftarrow> sock_heap s2 p;
         st \<leftarrow> free_idata (lsd_idata lsd) s2;
         st \<leftarrow> upd_lsd p (\<lambda>l. l\<lparr>lsd_idata := None\<rparr>) st;
         st \<leftarrow> release_lsd p st;
         Some (r, st) } else Some (r, s2)) ?Q" if s2: "frame s1 s2" "consistent ifs s2" for r s2
    proof (cases "r = 0")
      case True
      obtain l2 where l2: "owned ifs i p l2 s2" by (rule owned_frame [OF o s2])
      then have h2: "sock_heap s2 p = Some l2" by (rule owned_heap)
      obtain j where j: "find_slot (Some p) (sock_table s2) = Some j" "j < LSCK_NUM_SOCKET" "sock_table s2 ! j = Some p"
        by (rule slot_of [OF s2(2) h2])
      have id: "idata_ok s2" using s2(2) by (simp add: consistent_def)
      define h where "h = (case lsd_idata l2 of None \<Rightarrow> idata_heap s2 | Some d \<Rightarrow> (idata_heap s2)(d := None))"
      have live: "idata_heap s2 d \<noteq> None" if "lsd_idata l2 = Some d" for d
        using id h2 that unfolding idata_but_def by blast
      have fr: "free_idata (lsd_idata l2) s2 = Some (s2\<lparr>idata_heap := h\<rparr>)"
        using live by (auto simp: free_idata_def h_def split: option.split)
      have oth: "other_idata p h s2"
        using id h2 unfolding other_idata_def h_def idata_but_def
        by (auto split: option.split)
      have f: "frame st s2" by (rule frame_trans [OF \<open>frame st s1\<close> s2(1)])
      then have "fd_to_lsd fd st = Some p" using \<open>fd_to_lsd fd s1 = Some p\<close> \<open>frame st s1\<close> by simp
      moreover have "release_lsd p (s2\<lparr>idata_heap := h, sock_heap := (sock_heap s2)(p \<mapsto> l2\<lparr>lsd_idata := None\<rparr>)\<rparr>)
          = Some (without j p h s2)"
        using j by (simp add: release_lsd_def free_lsd_def without_def)
      ultimately show ?thesis
        using True h2 fr f s2(2) j oth by auto
    next
      case False
      then show ?thesis using frame_trans [OF \<open>frame st s1\<close> s2(1)] s2(2) by simp
    qed
    note * = this
    show ?case
      by (rule returns_runs_bind [OF close_law [OF o 1]], unfold prod.case, rule *)
  next
    case (2 s')
    then show ?case using frame_trans [OF \<open>frame st s1\<close>] by simp
  qed
qed simp

lemma fsext_close_post:
  assumes "consistent ifs st"
  shows "runs total (fsext_close env fd st) (\<lambda>(r, s'). consistent ifs s' \<and>
     (if r = 0 then \<exists>p. fd_to_lsd fd st = Some p \<and> removed st fd p s' else frame st s'))"
proof -
  have "consistent ifs s' \<and> removed st fd p s'"
    if a: "fd_to_lsd fd st = Some p" "frame st s2" "consistent ifs s2" "sock_heap s2 p = Some l"
       "j < LSCK_NUM_SOCKET" "sock_table s2 ! j = Some p" "other_idata p h s2"
       "s' = os_close fd (FSEXT_set_data fd None (FSEXT_set_function fd None (without j p h s2)))" for p l s2 j h s'
  proof -
    have fd: "lsd_fd l = fd"
      using wf_fdD [of ifs s2 fd p] a(1-4) by (force simp: consistent_def)
    have s': "s' = (without j p h s2)\<lparr>fds := (fds s2)(fd := None)\<rparr>"
      by (simp add: a(8) os_close_def FSEXT_set_data_def FSEXT_set_function_def without_def)
    have "consistent ifs s'"
      unfolding s' fd [symmetric] by (rule without_consistent) (use a in auto)
    moreover obtain l0 where "sock_heap st p = Some l0" "lsd_fd l0 = fd"
      using wf_fdD [OF _ a(1)] assms unfolding consistent_def by blast
    then have "removed st fd p s'"
      unfolding removed_def using a(2,5,6) fd
      by (intro exI [of _ j] exI [of _ l0]) (simp add: s' without_def frame_by_def)
    ultimately show ?thesis ..
  qed
  note step = this
  show ?thesis
    unfolding fsext_close_def runs_simps
  proof (rule runs_mono [OF closesocket_post [OF assms]], goal_cases)
    case (1 x)
    obtain r s' where x: "x = (r, s')" by (cases x)
    show ?case
    proof (cases "r = 0")
      case True
      with 1 x step show ?thesis by (simp, blast)
    next
      case False
      with 1 x show ?thesis by simp
    qed
  qed
qed

lemma closesocket_consistent:
  assumes "consistent ifs st" "closesocket env fd st = Some (r, st')"
  shows "consistent ifs (if r = 0 then os_close fd st' else st')"
proof (cases "r = 0")
  case True
  with closesocket_post [OF assms(1), of fd] assms(2)
  obtain p l s2 j h where a: "fd_to_lsd fd st = Some p" "frame st s2" "consistent ifs s2" "sock_heap s2 p = Some l"
       "j < LSCK_NUM_SOCKET" "sock_table s2 ! j = Some p" "other_idata p h s2" "st' = without j p h s2"
    by (auto simp: runs_def)
  then have "lsd_fd l = fd" using wf_fdD [of ifs s2 fd p] by (force simp: consistent_def)
  moreover have "consistent ifs ((without j p h s2)\<lparr>fds := (fds s2)(lsd_fd l := None)\<rparr>)"
    by (rule without_consistent) (use a in auto)
  ultimately show ?thesis using True a(8) by (simp add: os_close_def without_def)
next
  case False
  with closesocket_post [OF assms(1), of fd] assms(2) show ?thesis by (auto simp: runs_def)
qed

lemma close_fd_post:
  assumes "consistent ifs st" "fd_is_socket fd st"
  shows "runs total (close_fd env fd st) (\<lambda>(r, s'). consistent ifs s' \<and>
     (if r = 0 then \<exists>p. fd_to_lsd fd st = Some p \<and> removed st fd p s' else frame st s'))"
proof -
  have "FSEXT_get_function fd st = Some SocketFsext"
    using assms(2) by (auto simp: fd_is_socket_def split: option.splits if_splits)
  then show ?thesis using fsext_close_post [OF assms(1)] by (simp add: close_fd_def)
qed

end

definition added :: "('d, 'w) lsck \<Rightarrow> int \<Rightarrow> nat \<Rightarrow> ('d, 'w) lsck \<Rightarrow> bool" where
  "added st fd p st' \<longleftrightarrow> (\<exists>j l. j < LSCK_NUM_SOCKET \<and> sock_table st ! j = None \<and> fds st fd = None
     \<and> next_ptr st \<le> p \<and> sock_heap st p = None \<and> sock_table st' = (sock_table st)[j := Some p]
     \<and> fds st' = (fds st)(fd \<mapsto> sock_entry p) \<and> sock_heap st' p = Some l \<and> lsd_fd l = fd
     \<and> (\<forall>q. q \<noteq> p \<longrightarrow> rel_option evolves (sock_heap st q) (sock_heap st' q))
     \<and> if_list st' = if_list st \<and> inited st' = inited st \<and> next_ptr st \<le> next_ptr st')"

text \<open>The new socket is of the family and type asked for, and on the interface asked for.\<close>

definition made_as :: "int \<Rightarrow> int \<Rightarrow> nat option \<Rightarrow> nat \<Rightarrow> ('d, 'w) lsck \<Rightarrow> bool" where
  "made_as domain type interface p st \<longleftrightarrow> (\<exists>l. sock_heap st p = Some l \<and> lsd_family l = domain \<and> lsd_type l = type
     \<and> (\<forall>n. interface = Some n \<longrightarrow> lsd_interface l = Some n))"

definition with_new :: "('d, 'w) lsck \<Rightarrow> nat \<Rightarrow> lsck_socket \<Rightarrow> ('d, 'w) lsck" where
  "with_new s j l = s\<lparr>next_ptr := Suc (next_ptr s), sock_table := (sock_table s)[j := Some (next_ptr s)],
     sock_heap := (sock_heap s)(next_ptr s \<mapsto> l), fds := (fds s)(lsd_fd l \<mapsto> sock_entry (next_ptr s))\<rparr>"

lemma wf_fresh: "wf_state ifs s \<Longrightarrow> next_ptr s \<le> p \<Longrightarrow> sock_heap s p = None"
  unfolding wf_state_def by (metis leD not_None_eq)

lemma with_new_wf:
  assumes "consistent ifs s" "inited s" "j < LSCK_NUM_SOCKET" "sock_table s ! j = None" "fds s (lsd_fd l) = None" "wf_sock ifs l"
  shows "wf_state ifs (with_new s j l)"
  using assms unfolding with_new_def by (intro add_wf) (auto simp: consistent_def)

lemma with_new_idata:
  assumes "consistent ifs s"
  shows "idata_but (Some (next_ptr s)) (with_new s j l)"
    "lsd_idata l = None \<Longrightarrow> idata_ok (with_new s j l)"
proof -
  have id: "idata_ok s" using assms by (simp add: consistent_def)
  have "sock_heap s (next_ptr s) = None" using assms wf_fresh by (auto simp: consistent_def)
  then show "idata_but (Some (next_ptr s)) (with_new s j l)"
    "lsd_idata l = None \<Longrightarrow> idata_ok (with_new s j l)"
    using id unfolding idata_but_def with_new_def by (auto intro: less_SucI)
qed

text \<open>Undoing: a state in which the other sockets have evolved, without the new one, is a frame of the old state.\<close>

lemma undo_frame:
  assumes "consistent ifs s" "j < LSCK_NUM_SOCKET" "sock_table s ! j = None" "fds s (lsd_fd l) = None"
    "frame (with_new s j l) s2"
  shows "frame s ((without j (next_ptr s) h s2)\<lparr>fds := (fds s2)(lsd_fd l := None)\<rparr>)"
proof -
  have fresh: "sock_heap s (next_ptr s) = None" "length (sock_table s) = LSCK_NUM_SOCKET"
    using assms(1) wf_fresh by (auto simp: consistent_def wf_state_def)
  have "rel_option evolves (sock_heap s q) (((sock_heap s2)(next_ptr s := None)) q)" for q
    using assms(5) fresh by (cases "q = next_ptr s") (auto simp: frame_by_def with_new_def dest: spec [of _ q])
  moreover have "(sock_table s)[j := None] = sock_table s" using assms(3) by (metis list_update_id)
  moreover have "(fds s)(lsd_fd l := None) = fds s" using assms(4) by auto
  ultimately show ?thesis
    using assms(5) by (simp add: frame_by_def with_new_def without_def)
qed

lemma cleanup_eq:
  assumes "sock_heap s2 p \<noteq> None"
  shows "socket_cleanup fd j p s2 = Some ((without j p (idata_heap s2) s2)\<lparr>fds := (fds s2)(fd := None)\<rparr>)"
  using assms by (auto simp: socket_cleanup_def free_lsd_def os_close_def FSEXT_set_data_def FSEXT_set_function_def without_def)

lemma added_new:
  assumes "consistent ifs s" "j < LSCK_NUM_SOCKET" "sock_table s ! j = None" "fds s (lsd_fd l) = None"
    "frame0 (with_new s j l) s2" "\<And>q. q \<noteq> next_ptr s \<Longrightarrow> rel_option evolves (sock_heap s q) (sock_heap s2 q)"
  shows "added s (lsd_fd l) (next_ptr s) s2"
proof -
  have "sock_heap (with_new s j l) (next_ptr s) = Some l" by (simp add: with_new_def)
  from frame_live(1) [OF assms(5) this] obtain l2 where "sock_heap s2 (next_ptr s) = Some l2" "lsd_fd l2 = lsd_fd l"
    by (auto simp: evolves0_def)
  moreover have "sock_heap s (next_ptr s) = None" using assms(1) wf_fresh by (auto simp: consistent_def)
  ultimately show ?thesis
    unfolding added_def using assms
    by (intro exI [of _ j] exI [of _ l2]) (simp add: frame_by_def with_new_def)
qed

context interface_contract begin

lemma socketx_create_post:
  assumes s: "consistent ifs s" "inited s" "j < LSCK_NUM_SOCKET" "sock_table s ! j = None" "0 \<le> fd" "fds s fd = None"
    and i: "\<And>n. interface = Some n \<Longrightarrow> n \<in> ifs"
  shows "runs total (socketx_create env domain type protocol interface fd j (next_ptr s)
      (with_new s j (new_socket env domain type protocol fd)))
    (\<lambda>(r, s'). consistent ifs s' \<and> (r = -1 \<and> frame s s'
        \<or> r = fd \<and> added s fd (next_ptr s) s' \<and> made_as domain type interface (next_ptr s) s'))"
proof -
  define l where "l = new_socket env domain type protocol fd"
  define n where "n = choose_if env (if_list s) domain type protocol interface"
  have lf: "lsd_fd l = fd" "lsd_idata l = None" by (simp_all add: l_def new_socket_def zero_socket_def)
  have upd: "upd_lsd (next_ptr s) (\<lambda>l. l\<lparr>lsd_interface := k\<rparr>) (with_new s j l) = Some (with_new s j (l\<lparr>lsd_interface := k\<rparr>))" for k
    by (simp add: upd_lsd_def with_new_def)
  have ifl: "if_list (with_new s j l) = if_list s" by (simp add: with_new_def)
  have nifs: "m \<in> ifs" if "n = Some m" for m
  proof (cases interface)
    case None
    with that have "m \<in> set (if_list s)" by (auto simp: n_def choose_if_def find_Some_iff in_set_conv_nth)
    then show ?thesis using s(1) by (auto simp: consistent_def wf_state_def)
  next
    case (Some x)
    with that i show ?thesis by (simp add: n_def choose_if_def)
  qed
  have undo: "consistent ifs ((without j (next_ptr s) (idata_heap s2) s2)\<lparr>fds := (fds s2)(fd := None)\<rparr>)
     \<and> frame s ((without j (next_ptr s) (idata_heap s2) s2)\<lparr>fds := (fds s2)(fd := None)\<rparr>)
     \<and> sock_heap s2 (next_ptr s) \<noteq> None"
    if f: "frame (with_new s j l') s2" "consistent ifs s2" "lsd_fd l' = fd" for s2 l'
  proof -
    have "sock_heap (with_new s j l') (next_ptr s) = Some l'" by (simp add: with_new_def)
    from frame_live(2) [OF f(1) this] obtain l2 where l2: "sock_heap s2 (next_ptr s) = Some l2" "lsd_fd l2 = fd"
      using f(3) by (auto simp: evolves_def evolves0_def)
    have "sock_table s2 ! j = Some (next_ptr s)"
      using f(1) s by (simp add: frame_by_def with_new_def consistent_def wf_state_def)
    then have "consistent ifs ((without j (next_ptr s) (idata_heap s2) s2)\<lparr>fds := (fds s2)(fd := None)\<rparr>)"
      using without_consistent [OF f(2) s(3) _ l2(1), of "idata_heap s2"] l2(2) by (simp add: other_idata_def)
    moreover have "frame s ((without j (next_ptr s) (idata_heap s2) s2)\<lparr>fds := (fds s2)(fd := None)\<rparr>)"
      using undo_frame [OF s(1,3,4) _ f(1)] f(3) s(6) by simp
    ultimately show ?thesis using l2 by simp
  qed
  show ?thesis
  proof (cases "n = None \<or> (\<exists>m. n = Some m \<and> if_socket (env_if env m) = None)")
    case True
    let ?s2 = "with_new s j (l\<lparr>lsd_interface := None\<rparr>)"
    have eq: "(without j (next_ptr s) (idata_heap ?s2) ?s2)\<lparr>fds := (fds ?s2)(fd := None)\<rparr> = s\<lparr>next_ptr := Suc (next_ptr s)\<rparr>"
    proof -
      have "sock_heap s (next_ptr s) = None" using s(1) wf_fresh by (auto simp: consistent_def)
      then have "(sock_heap s)(next_ptr s := None) = sock_heap s" "(fds s)(fd := None) = fds s"
        "(sock_table s)[j := None] = sock_table s"
        using s(4,6) by (auto simp: fun_upd_idem) (metis list_update_id)
      then show ?thesis by (simp add: without_def with_new_def lf)
    qed
    have "sock_heap ?s2 (next_ptr s) \<noteq> None" by (simp add: with_new_def)
    note cl = cleanup_eq [OF this, of fd j, unfolded eq]
    show ?thesis
      unfolding socketx_create_def l_def [symmetric] ifl n_def [symmetric] Let_def
      using True by (auto simp: upd cl fail_with_def consistent_next_ptr [OF s(1)] frame_next_ptr)
  next
    case False
    then obtain m f where m: "n = Some m" "if_socket (env_if env m) = Some f" by auto
    let ?l = "l\<lparr>lsd_interface := Some m\<rparr>"
    have wl: "wf_sock ifs ?l"
      using nifs [OF m(1)] s(5) by (simp add: wf_sock_def l_def new_socket_def zero_socket_def)
    have "consistent ifs (with_new s j ?l)"
      unfolding consistent_def using s(6) lf
      by (intro conjI with_new_wf [OF s(1-4) _ wl] with_new_idata(2) [OF s(1)]) simp_all
    then have o: "owned ifs m (next_ptr s) ?l (with_new s j ?l)"
      using nifs [OF m(1)] by (simp add: owned_def with_new_def)
    show ?thesis
      unfolding socketx_create_def l_def [symmetric] ifl n_def [symmetric] Let_def m option.case option.distinct if_False
        upd bind.bind_lunit
    proof (simp only: m(2) bind.bind_lunit option.case option.distinct if_False upd, rule returns_runs_bind [OF socket_law [OF o m(2)]], goal_cases)
      case (1 r s2)
      note u = undo [OF 1(2,3)]
      have "added s fd (next_ptr s) s2"
      proof -
        have "rel_option evolves (sock_heap s q) (sock_heap s2 q)" if "q \<noteq> next_ptr s" for q
          using 1(2) that by (auto simp: frame_by_def with_new_def dest: spec [of _ q])
        then show ?thesis
          using added_new [OF s(1,3,4), of ?l s2] frame_frame0 [OF 1(2)] s(6) lf(1) by simp
      qed
      moreover have "made_as domain type interface (next_ptr s) s2"
      proof -
        have "sock_heap (with_new s j ?l) (next_ptr s) = Some ?l" by (simp add: with_new_def)
        from frame_live(2) [OF 1(2) this] show ?thesis
          using m(1) unfolding made_as_def n_def
          by (auto simp: evolves_def evolves0_def choose_if_def l_def new_socket_def split: option.splits)
      qed
      ultimately show ?case
        using u lf(1) 1(3) by (auto simp: cleanup_eq)
    qed
  qed
qed

end

lemma frame_next_fd:
  assumes "fds s fd = None"
  shows "frame s (os_close fd (FSEXT_set_function fd None (s\<lparr>fds := (fds s)(fd \<mapsto> e)\<rparr>)))"
proof -
  have "(fds s)(fd := None) = fds s" using assms by auto
  then show ?thesis by (simp add: frame_by_def os_close_def FSEXT_set_function_def)
qed

lemma undo_fd:
  assumes "fds s fd = None"
  shows "os_close fd (FSEXT_set_function fd None (s\<lparr>fds := (fds s)(fd \<mapsto> e)\<rparr>)) = s"
    "os_close fd (FSEXT_set_function fd None (s\<lparr>fds := (fds s)(fd \<mapsto> e), next_ptr := k, sock_table := t\<rparr>))
      = s\<lparr>next_ptr := k, sock_table := t\<rparr>"
proof -
  have "(fds s)(fd := None) = fds s" using assms by auto
  then show "os_close fd (FSEXT_set_function fd None (s\<lparr>fds := (fds s)(fd \<mapsto> e)\<rparr>)) = s"
    "os_close fd (FSEXT_set_function fd None (s\<lparr>fds := (fds s)(fd \<mapsto> e), next_ptr := k, sock_table := t\<rparr>))
      = s\<lparr>next_ptr := k, sock_table := t\<rparr>"
    by (simp_all add: os_close_def FSEXT_set_function_def)
qed

lemma free_index_defined: "length t = LSCK_NUM_SOCKET \<Longrightarrow> None \<in> set t \<Longrightarrow> free_index t \<noteq> None"
  using scan_free_None [of 0 t] by (auto simp: free_index_def)

lemma frame_record: "frame s (s\<lparr>next_ptr := Suc (next_ptr s)\<rparr>)"
  by (rule frame_next_ptr) simp

context interface_contract begin

lemma alloc_fdE:
  obtains "FSEXT_alloc_fd env SocketFsext s = (-1, s)"
  | fd where "FSEXT_alloc_fd env SocketFsext s = (fd, s\<lparr>fds := (fds s)(fd \<mapsto> \<lparr>fd_function = Some SocketFsext, fd_data = None\<rparr>)\<rparr>)"
      "0 \<le> fd" "fds s fd = None"
proof (cases "env_alloc_fd env s < 0")
  case True
  then show ?thesis by (intro that(1)) (simp add: FSEXT_alloc_fd_def)
next
  case False
  then show ?thesis using alloc_law [of s] by (intro that(2) [of "env_alloc_fd env s"]) (simp_all add: FSEXT_alloc_fd_def Let_def)
qed

lemma socketx_post:
  assumes "consistent ifs s" "inited s" "total \<longrightarrow> None \<in> set (sock_table s)"
    "\<And>n. interface = Some n \<Longrightarrow> n \<in> ifs"
  shows "runs total (socketx env domain type protocol interface s)
    (\<lambda>(r, s'). consistent ifs s' \<and> (r = -1 \<and> frame s s'
        \<or> 0 \<le> r \<and> (\<exists>p. added s r p s' \<and> made_as domain type interface p s')))"
proof -
  have init: "lsck_init env s = Some (True, s)" using assms(2) by (simp add: lsck_init_def)
  have len: "length (sock_table s) = LSCK_NUM_SOCKET" using assms(1) by (simp add: consistent_def wf_state_def)
  show ?thesis
  proof (rule alloc_fdE [of s])
    assume "FSEXT_alloc_fd env SocketFsext s = (-1, s)"
    then show ?thesis using assms(1) by (simp add: socketx_def init fail_with_def)
  next
    fix fd
    assume fd: "FSEXT_alloc_fd env SocketFsext s = (fd, s\<lparr>fds := (fds s)(fd \<mapsto> \<lparr>fd_function = Some SocketFsext, fd_data = None\<rparr>)\<rparr>)"
      "0 \<le> fd" "fds s fd = None"
    let ?s1 = "s\<lparr>fds := (fds s)(fd \<mapsto> \<lparr>fd_function = Some SocketFsext, fd_data = None\<rparr>)\<rparr>"
    show ?thesis
    proof (cases "free_index (sock_table s)")
      case None
      then have "\<not> total" using free_index_defined [OF len] assms(3) by auto
      then show ?thesis using None fd by (simp add: socketx_def init Let_def)
    next
      case (Some k)
      then obtain j where j: "k = int j" "j < LSCK_NUM_SOCKET" "sock_table s ! j = None"
        using len by (rule free_index_Some)
      show ?thesis
      proof (cases "env_malloc env (next_ptr s)")
        case False
        have "(sock_table s)[j := None] = sock_table s" using j(3) by (metis list_update_id)
        moreover have "(fds s)(fd := None) = fds s" using fd(3) by auto
        ultimately have "socketx env domain type protocol interface s = fail ENOBUFS (s\<lparr>next_ptr := Suc (next_ptr s)\<rparr>)"
          using fd Some j False
          by (simp add: socketx_def init Let_def malloc_ptr_def os_close_def FSEXT_set_function_def)
        then show ?thesis
          using assms(1) by (simp add: fail_with_def consistent_next_ptr frame_record)
      next
        case True
        have "socketx env domain type protocol interface s
          = socketx_create env domain (type) (default_protocol domain type protocol) interface fd j (next_ptr s)
              (with_new s j (new_socket env domain type (default_protocol domain type protocol) fd))"
          using fd Some j True
          by (simp add: socketx_def init Let_def malloc_ptr_def FSEXT_set_data_def with_new_def sock_entry_def new_socket_def)
        note eq = this
        show ?thesis
          unfolding eq
          by (rule runs_mono [OF socketx_create_post [OF assms(1,2) j(2,3) fd(2,3) assms(4)]]) (use fd(2) in auto)
      qed
    qed
  qed
qed

end

lemma frame_rel: "frame s s1 \<Longrightarrow> rel_option evolves (sock_heap s q) (sock_heap s1 q)"
  by (simp add: frame_by_def)

lemma rel_evolves_trans:
  "rel_option evolves x y \<Longrightarrow> rel_option evolves y z \<Longrightarrow> rel_option evolves x z"
  by (rule rel_option_trans) (auto intro: evolves_trans)

lemma added_frame:
  assumes "frame s s1" "added s1 fd p s'"
  shows "added s fd p s'"
proof -
  obtain j l where a: "j < LSCK_NUM_SOCKET" "sock_table s1 ! j = None" "fds s1 fd = None" "next_ptr s1 \<le> p" "sock_heap s1 p = None"
    "sock_table s' = (sock_table s1)[j := Some p]" "fds s' = (fds s1)(fd \<mapsto> sock_entry p)"
    "sock_heap s' p = Some l" "lsd_fd l = fd" "\<forall>q. q \<noteq> p \<longrightarrow> rel_option evolves (sock_heap s1 q) (sock_heap s' q)"
    "if_list s' = if_list s1" "inited s' = inited s1" "next_ptr s1 \<le> next_ptr s'"
    using assms(2) unfolding added_def by blast
  have "rel_option evolves (sock_heap s q) (sock_heap s' q)" if "q \<noteq> p" for q
    using rel_evolves_trans [OF frame_rel [OF assms(1)]] a(10) that by blast
  moreover have "sock_heap s p = None"
    using frame_dead [OF frame_frame0 [OF assms(1)]] a(5) by blast
  ultimately show ?thesis
    unfolding added_def using a assms(1)
    by (intro exI [of _ j] exI [of _ l]) (simp add: frame_by_def)
qed

lemma removed_frame:
  assumes "frame s s1" "removed s1 fd p s'"
  shows "removed s fd p s'"
proof -
  obtain j l where a: "j < LSCK_NUM_SOCKET" "sock_table s1 ! j = Some p" "sock_heap s1 p = Some l" "lsd_fd l = fd"
    "sock_table s' = (sock_table s1)[j := None]" "fds s' = (fds s1)(fd := None)"
    "sock_heap s' p = None" "\<forall>q. q \<noteq> p \<longrightarrow> rel_option evolves (sock_heap s1 q) (sock_heap s' q)"
    "if_list s' = if_list s1" "inited s' = inited s1" "next_ptr s1 \<le> next_ptr s'"
    using assms(2) unfolding removed_def by blast
  have "rel_option evolves (sock_heap s q) (sock_heap s' q)" if "q \<noteq> p" for q
    using rel_evolves_trans [OF frame_rel [OF assms(1)]] a(8) that by blast
  moreover obtain l0 where "sock_heap s p = Some l0" "lsd_fd l0 = fd"
    using frame_rel [OF assms(1), of p] a(3,4) by (cases "sock_heap s p") (auto simp: evolves_def evolves0_def)
  ultimately show ?thesis
    unfolding removed_def using a assms(1)
    by (intro exI [of _ j] exI [of _ l0]) (simp add: frame_by_def)
qed

lemma lsck_upd_comm:
  "st\<lparr>fds := a, sock_table := t\<rparr> = st\<lparr>sock_table := t, fds := a\<rparr>"
  "st\<lparr>fds := a, idata_heap := h\<rparr> = st\<lparr>idata_heap := h, fds := a\<rparr>"
  "st\<lparr>fds := a, sock_heap := g\<rparr> = st\<lparr>sock_heap := g, fds := a\<rparr>"
  "st\<lparr>sock_heap := g, sock_table := t\<rparr> = st\<lparr>sock_table := t, sock_heap := g\<rparr>"
  "st\<lparr>sock_table := t, idata_heap := h\<rparr> = st\<lparr>idata_heap := h, sock_table := t\<rparr>"
  "st\<lparr>sock_heap := g, idata_heap := h\<rparr> = st\<lparr>idata_heap := h, sock_heap := g\<rparr>"
  by simp_all

context interface_contract begin

lemma accept_create_post:
  assumes s: "consistent ifs s" "sock_heap s p = Some l" "lsd_interface l = Some i" "i \<in> ifs"
    and j: "j < LSCK_NUM_SOCKET" "sock_table s ! j = None" and fd: "0 \<le> fd" "fds s fd = None"
    and f: "if_accept (env_if env i) = Some f" and ty: "lsd_type l = SOCK_STREAM"
    and mem: "total \<longrightarrow> al \<le> length a"
  shows "runs total (accept_create env p a al fd j (next_ptr s) (with_new s j (l\<lparr>lsd_fd := fd, lsd_listening := False,
        lsd_peernamelen := SOCKADDR_MAX_SIZE\<rparr>)))
    (\<lambda>((r, _, _), s'). consistent ifs s' \<and> (r = -1 \<and> frame s s' \<or> r = fd \<and> added s fd (next_ptr s) s'))"
proof -
  let ?n = "next_ptr s"
  define nl where "nl = l\<lparr>lsd_fd := fd, lsd_listening := False, lsd_peernamelen := SOCKADDR_MAX_SIZE\<rparr>"
  let ?s = "with_new s j nl"
  have wl: "wf_sock ifs l" using s(1,2) wf_sockD(1) by (auto simp: consistent_def)
  have wn: "wf_sock ifs nl" using wl fd(1) by (auto simp: wf_sock_def nl_def)
  have pn: "p < ?n" "inited s" using s(1,2) wf_sockD(2) by (fastforce simp: consistent_def wf_state_def)+
  have lfd: "lsd_fd nl = fd" by (simp add: nl_def)
  have w: "wf_state ifs ?s" using with_new_wf [OF s(1) pn(2) j _ wn] lfd fd(2) by simp
  have id: "idata_but (Some ?n) ?s" by (rule with_new_idata(1) [OF s(1)])
  have hp: "sock_heap ?s p = Some l" "sock_heap ?s ?n = Some nl" using s(2) pn(1) by (simp_all add: with_new_def)
  have len: "length (lsd_peername nl) = SOCKADDR_MAX_SIZE" using wn by (rule wf_sock_lengths)
  have ac: "returns total ifs ?s (\<lambda>(r, a', n'). length a' = SOCKADDR_MAX_SIZE \<and> n' \<le> SOCKADDR_MAX_SIZE \<and> (r = 0 \<or> r = -1))
      (f p ?n (lsd_peername nl) SOCKADDR_MAX_SIZE ?s)"
    by (rule accept_law [OF s(4) f w id hp(1) s(3) hp(2) _ _ len]) (use pn in \<open>auto simp: nl_def\<close>)
  have op: "with_op env p if_accept e v k ?s = k f ?s" for e and v :: "int \<times> sockaddr \<times> nat" and k
    using f s(3) by (simp add: with_op_def hp lsd_if_def)
  show ?thesis
    unfolding accept_create_def nl_def [symmetric] hp bind.bind_lunit op
  proof (rule returns_runs_bind [OF ac], goal_cases)
    case (1 r s2)
    obtain x nm k where r: "r = (x, nm, k)" "length nm = SOCKADDR_MAX_SIZE" "k \<le> SOCKADDR_MAX_SIZE" "x = 0 \<or> x = -1"
      using 1(1) by (cases r) auto
    obtain l2 where l2: "sock_heap s2 ?n = Some l2" "evolves nl l2" using frame_live(2) [OF 1(2) hp(2)] by blast
    obtain i2 where o2: "owned ifs i2 ?n l2 s2" using ownedE [OF 1(3) l2(1)] by blast
    have w2: "wf_sock ifs l2" by (rule owned_wf [OF o2])
    let ?l3 = "l2\<lparr>lsd_peername := nm, lsd_peernamelen := k\<rparr>"
    have w3: "wf_sock ifs ?l3" by (rule wf_sockI [OF w2]) (use w2 r in \<open>auto simp: wf_sock_lengths\<close>)
    let ?s3 = "s2\<lparr>sock_heap := (sock_heap s2)(?n \<mapsto> ?l3)\<rparr>"
    have o3: "owned ifs i2 ?n ?l3 ?s3" "frame s2 ?s3"
      using owned_upd [OF o2, of ?l3] w3 by (simp_all add: evolves_def evolves0_def)
    have f3: "frame ?s ?s3" by (rule frame_trans [OF 1(2) o3(2)])
    have fdl: "lsd_fd l2 = fd" "lsd_type l2 = SOCK_STREAM" using l2(2) ty by (simp_all add: evolves_def evolves0_def nl_def)
    show ?case
    proof (cases "x = 0")
      case True
      let ?l4 = "?l3\<lparr>lsd_accepted := True, lsd_connected := True\<rparr>"
      let ?s4 = "s2\<lparr>sock_heap := (sock_heap s2)(?n \<mapsto> ?l4)\<rparr>"
      have "wf_sock ifs ?l4" using w3 fdl(2) by (auto simp: wf_sock_def)
      then have c4: "consistent ifs ?s4" using upd_consistent [OF owned_consistent [OF o3(1)] owned_heap [OF o3(1)], of ?l4] by simp
      have "rel_option evolves (sock_heap s q) (sock_heap ?s4 q)" if "q \<noteq> ?n" for q
        using frame_rel [OF 1(2), of q] that by (simp add: with_new_def)
      moreover have "frame0 ?s s2" by (rule frame_frame0 [OF 1(2)])
      ultimately have "added s fd ?n ?s4"
        unfolding added_def using 1(2) j fd wf_fresh [of ifs s ?n] s(1) fdl(1)
        by (intro exI [of _ j] exI [of _ ?l4]) (simp add: frame_by_def with_new_def lfd consistent_def)
      moreover have "runs total (memcpy a nm (if k < al then k else al)) (\<lambda>x. True)"
        using mem r(2,3) by (auto simp: memcpy_def runs_def)
      ultimately show ?thesis
        using True r(1) l2(1) c4 fdl(1) by (auto simp: Let_def elim!: runs_mono)
    next
      case False
      then have x: "x = -1" using r(4) by simp
      have id2: "idata_ok s2" using 1(3) by (simp add: consistent_def)
      define h where "h = (case lsd_idata l2 of None \<Rightarrow> idata_heap s2 | Some d \<Rightarrow> (idata_heap s2)(d := None))"
      have live: "idata_heap s2 d \<noteq> None" if "lsd_idata l2 = Some d" for d
        using id2 l2(1) that unfolding idata_but_def by blast
      have oth: "other_idata ?n h s2"
        using id2 l2(1) unfolding other_idata_def h_def idata_but_def by (auto split: option.split)
      let ?s5 = "(without j ?n h s2)\<lparr>fds := (fds s2)(fd := None)\<rparr>"
      have eq: "runs total (do {
           st \<leftarrow> upd_lsd ?n (\<lambda>l. l\<lparr>lsd_peername := nm, lsd_peernamelen := k\<rparr>) s2;
           if x = 0 then K st
           else do {
             let st = os_close fd (FSEXT_set_function fd None (FSEXT_set_data fd None st));
             nsd \<leftarrow> sock_heap st ?n;
             st \<leftarrow> free_idata (lsd_idata nsd) st;
             st \<leftarrow> free_lsd (Some ?n) st;
             let st = st\<lparr>sock_table := (sock_table st)[j := None]\<rparr>;
             if x = -1 then Some ((-1, Some a, Some al), st) else None
           }}) Q = Q ((-1, Some a, Some al), ?s5)" for K Q
        using x l2(1) live
        by (cases "lsd_idata l2")
          (auto simp: Let_def free_idata_def free_lsd_def os_close_def FSEXT_set_data_def FSEXT_set_function_def without_def h_def lsck_upd_comm)
      have "sock_table s2 ! j = Some ?n"
        using 1(2) s(1) j by (simp add: frame_by_def with_new_def consistent_def wf_state_def)
      then have "consistent ifs ?s5"
        using without_consistent [OF 1(3) j(1) _ l2(1) oth] fdl(1) by simp
      moreover have "frame s ?s5"
        using undo_frame [OF s(1) j _ 1(2), of h] lfd fd(2) by simp
      ultimately show ?thesis
        unfolding r(1) prod.case eq by simp
    qed
  qed
qed

end

end
