(* ===== verification/Sock_Create.thy ===== *)
theory Sock_Create
  imports Sock_Table
begin

text \<open>
  The calls that create sockets as a whole: \<open>accept\<close>, the initialisation of the library, \<open>socket\<close> and
  \<open>socketpair\<close>. Each adds its sockets or leaves the state as it was, and keeps the invariant.
\<close>

section \<open>What may become of the old sockets\<close>

text \<open>
  Across any sequence of calls: no descriptor comes back once it is freed, and a socket that lives on is still
  the same one, with no direction opened again.
\<close>

definition later :: "('d, 'w) lsck \<Rightarrow> ('d, 'w) lsck \<Rightarrow> bool" where
  "later st st' \<longleftrightarrow> next_ptr st \<le> next_ptr st'
     \<and> (\<forall>p < next_ptr st. \<forall>l'. sock_heap st' p = Some l' \<longrightarrow> (\<exists>l. sock_heap st p = Some l \<and> evolves0 l l'))"

lemma later_refl [simp]: "later st st"
  by (simp add: later_def)

lemma later_trans:
  assumes "later st s1" "later s1 s2"
  shows "later st s2"
proof -
  have "\<exists>l. sock_heap st p = Some l \<and> evolves0 l l2" if p: "p < next_ptr st" "sock_heap s2 p = Some l2" for p l2
  proof -
    have "p < next_ptr s1" using assms(1) p(1) by (simp add: later_def)
    then obtain l1 where "sock_heap s1 p = Some l1" "evolves0 l1 l2"
      using assms(2) p(2) unfolding later_def by blast
    moreover from this(1) obtain l where "sock_heap st p = Some l" "evolves0 l l1"
      using assms(1) p(1) unfolding later_def by blast
    ultimately show ?thesis using evolves_trans(2) by blast
  qed
  then show ?thesis using assms unfolding later_def by auto
qed

lemma frame0_later: "frame0 st s \<Longrightarrow> later st s"
  unfolding later_def frame_by_def by (metis option_rel_Some2)

lemma frame_later: "frame st s \<Longrightarrow> later st s"
  by (intro frame0_later frame_frame0)

lemma rel_evolves_later: "rel_option evolves x (Some l') \<Longrightarrow> \<exists>l. x = Some l \<and> evolves0 l l'"
  by (auto simp: option_rel_Some2 evolves_def)

lemma added_later: "added st fd p s \<Longrightarrow> later st s"
  unfolding later_def added_def by (metis leD rel_evolves_later)

lemma removed_later: "removed st fd p s \<Longrightarrow> later st s"
  unfolding later_def removed_def by (metis option.distinct(1) rel_evolves_later)

section \<open>accept\<close>

context interface_contract begin

lemma accept_post:
  assumes c: "consistent ifs st" and room: "total \<longrightarrow> None \<in> set (sock_table st)"
    and mem: "\<And>a n. total \<Longrightarrow> addr = Some a \<Longrightarrow> len = Some n \<Longrightarrow> n \<le> length a"
  shows "runs total (accept env fd addr len st)
    (\<lambda>((r, _, _), s'). consistent ifs s' \<and> (r = -1 \<and> frame st s' \<or> 0 \<le> r \<and> (\<exists>p. added st r p s')))"
    (is "runs total _ ?Q")
  unfolding accept_def
proof (rule enter_rule [OF c], goal_cases)
  case (1 p l i s)
  note fr = \<open>frame st s\<close> and o = \<open>owned ifs i p l s\<close>
  have cs: "consistent ifs s" and hp: "sock_heap s p = Some l" and li: "lsd_interface l = Some i" "i \<in> ifs"
    using o by (simp_all add: owned_def)
  have ins: "inited s" using cs hp by (auto simp: consistent_def wf_state_def)
  have len: "length (sock_table s) = LSCK_NUM_SOCKET" using cs by (simp add: consistent_def wf_state_def)
  have tab: "sock_table s = sock_table st" using fr by (simp add: frame_by_def)
  have err: "?Q ((-1, x, y), s\<lparr>errno := e\<rparr>)" for x y e using fr cs by simp
  have new: "runs total (let (newfd, st) = FSEXT_alloc_fd env SocketFsext s in
          if newfd < 0 then fail_with ENFILE (-1, addr, len) st
          else do {
            freelsd \<leftarrow> free_index (sock_table st);
            if freelsd < 0
            then fail_with ENFILE (-1, addr, len) (os_close newfd (FSEXT_set_function newfd None st))
            else (case malloc_ptr env st of
               (None, st) \<Rightarrow> fail_with ENOBUFS (-1, addr, len) (os_close newfd (FSEXT_set_function newfd None
                               (st\<lparr>sock_table := (sock_table st)[nat freelsd := None]\<rparr>)))
             | (Some n, st) \<Rightarrow>
                 accept_create env p a al newfd (nat freelsd) n
                   (FSEXT_set_data newfd (Some n)
                     (st\<lparr>sock_table := (sock_table st)[nat freelsd := Some n],
                        sock_heap := (sock_heap st)(n \<mapsto> l\<lparr>lsd_fd := newfd, lsd_listening := False,
                          lsd_peernamelen := SOCKADDR_MAX_SIZE\<rparr>)\<rparr>)))
          }) ?Q"
    if a: "addr = Some a" "len = Some al" and ty: "lsd_type l = SOCK_STREAM" and f: "if_accept (env_if env i) = Some f" for a al f
  proof (rule alloc_fdE [of s])
    assume "FSEXT_alloc_fd env SocketFsext s = (-1, s)"
    then show ?thesis using err by (simp add: fail_with_def)
  next
    fix fd
    assume fd: "FSEXT_alloc_fd env SocketFsext s = (fd, s\<lparr>fds := (fds s)(fd \<mapsto> \<lparr>fd_function = Some SocketFsext, fd_data = None\<rparr>)\<rparr>)"
      "0 \<le> fd" "fds s fd = None"
    show ?thesis
    proof (cases "free_index (sock_table s)")
      case None
      then have "\<not> total" using free_index_defined [OF len] room tab by auto
      then show ?thesis using None fd by (simp add: Let_def)
    next
      case (Some k)
      then obtain j where j: "k = int j" "j < LSCK_NUM_SOCKET" "sock_table s ! j = None"
        using len by (rule free_index_Some)
      show ?thesis
      proof (cases "env_malloc env (next_ptr s)")
        case False
        have "(sock_table s)[j := None] = sock_table s" using j(3) by (metis list_update_id)
        moreover have "(fds s)(fd := None) = fds s" using fd(3) by auto
        ultimately show ?thesis
          using fd Some j False fr
          by (simp add: Let_def malloc_ptr_def os_close_def FSEXT_set_function_def fail_with_def
              consistent_next_ptr [OF cs] frame_trans [OF fr frame_record])
      next
        case True
        let ?l = "l\<lparr>lsd_fd := fd, lsd_listening := False, lsd_peernamelen := SOCKADDR_MAX_SIZE\<rparr>"
        have "runs total (accept_create env p a al fd j (next_ptr s) (with_new s j ?l)) ?Q"
          by (rule runs_mono [OF accept_create_post [OF cs hp li j(2,3) fd(2,3) f ty]])
            (use a mem fd(2) in \<open>auto intro: frame_trans [OF fr] dest: added_frame [OF fr]\<close>)
        moreover have "with_new s j ?l = FSEXT_set_data fd (Some (next_ptr s))
           (s\<lparr>fds := (fds s)(fd \<mapsto> \<lparr>fd_function = Some SocketFsext, fd_data = None\<rparr>), next_ptr := Suc (next_ptr s),
              sock_table := (sock_table s)[j := Some (next_ptr s)], sock_heap := (sock_heap s)(next_ptr s \<mapsto> ?l)\<rparr>)"
          by (simp add: with_new_def sock_entry_def FSEXT_set_data_def)
        ultimately show ?thesis
          using fd Some j True by (simp add: Let_def malloc_ptr_def)
      qed
    qed
  qed
  have li': "lsd_if env l = Some (env_if env i)" using li by (simp add: lsd_if_def)
  show ?case
    unfolding hp li' bind.bind_lunit
  proof (cases "lsd_type l \<noteq> SOCK_STREAM \<or> if_accept (env_if env i) = None
      \<or> lsd_accepted l \<or> \<not> lsd_bound l \<or> \<not> lsd_listening l \<or> addr = None \<or> len = None", goal_cases)
    case 1
    then show ?case using err by (auto simp: fail_with_def split: option.split)
  next
    case 2
    then obtain a al f where "addr = Some a" "len = Some al" "if_accept (env_if env i) = Some f" "lsd_type l = SOCK_STREAM"
      by auto
    note n = new [OF this(1,2,4,3)] and eqs = this
    show ?case using 2 n unfolding eqs by simp
  qed
qed (use c in auto)

end

section \<open>Initialisation\<close>

lemma init_debug_only:
  assumes "init_debug env st = Some s"
  shows "\<exists>c d. s = st\<lparr>lsck_config := c, next_ptr := next_ptr st + 1, debug_level := d\<rparr>"
  using assms by (auto simp: init_debug_def bind_eq_Some_conv Let_def)

lemma consistent_misc [simp]:
  "consistent ifs (st\<lparr>lsck_config := c\<rparr>) = consistent ifs st"
  "consistent ifs (st\<lparr>debug_level := d\<rparr>) = consistent ifs st"
  by (simp_all add: consistent_def wf_state_def idata_but_def)

lemma consistent_reset:
  assumes "consistent ifs st" "\<not> inited st"
  shows "consistent ifs (st\<lparr>sock_table := replicate LSCK_NUM_SOCKET None, if_list := []\<rparr>)"
proof -
  have "sock_heap st p = None" for p using assms by (auto simp: consistent_def wf_state_def)
  moreover have "slots_distinct (replicate LSCK_NUM_SOCKET (None :: nat option))"
    unfolding slots_distinct_def by auto
  ultimately show ?thesis using assms by (simp add: consistent_def wf_state_def idata_but_def)
qed

lemma consistent_inited:
  "consistent ifs st \<Longrightarrow> consistent ifs (st\<lparr>inited := True\<rparr>)"
  by (simp add: consistent_def wf_state_def)

lemma consistent_if_list:
  "consistent ifs st \<Longrightarrow> i \<in> ifs \<Longrightarrow> consistent ifs (st\<lparr>if_list := if_list st @ [i]\<rparr>)"
  by (simp add: consistent_def wf_state_def)

lemma close_all_empty:
  "i + n \<le> length (sock_table st) \<Longrightarrow> \<forall>k. i \<le> k \<and> k < i + n \<longrightarrow> sock_table st ! k = None \<Longrightarrow> close_all env i n st = Some st"
  by (induction n arbitrary: i) (auto simp: rd_def)

text \<open>What initialisation leaves alone: there is no socket before and after it.\<close>

definition same_sockets :: "('d, 'w) lsck \<Rightarrow> ('d, 'w) lsck \<Rightarrow> bool" where
  "same_sockets st s \<longleftrightarrow> fds s = fds st \<and> (\<forall>p. sock_heap s p = None) \<and> inited s = inited st
     \<and> sock_table s = replicate LSCK_NUM_SOCKET None \<and> next_ptr st \<le> next_ptr s"

lemma same_sockets_frame:
  assumes "same_sockets st s" "frame s s'"
  shows "same_sockets st s'"
  using assms frame_dead [OF frame_frame0 [OF assms(2)]] by (auto simp: same_sockets_def frame_by_def)

context interface_contract begin

lemma init_ifs_post:
  assumes "set fs \<subseteq> set (env_init_table env)" "consistent ifs s" "same_sockets st s"
  shows "runs total (init_ifs fs s) (\<lambda>s'. consistent ifs s' \<and> same_sockets st s')"
  using assms
proof (induction fs arbitrary: s)
  case (Cons f fs)
  have f: "f \<in> set (env_init_table env)" and fs: "set fs \<subseteq> set (env_init_table env)" using Cons.prems(1) by auto
  show ?case
    unfolding init_ifs.simps
  proof (rule returns_runs_bind [OF init_law [OF f Cons.prems(2)]], goal_cases)
    case (1 r s1)
    show ?case
      using 1 Cons.IH [OF fs, of s1] Cons.IH [OF fs, of "s1\<lparr>if_list := if_list s1 @ [i]\<rparr>" for i]
        same_sockets_frame [OF Cons.prems(3) 1(2)]
      by (auto simp: same_sockets_def consistent_if_list split: option.splits)
  qed
qed simp

lemma lsck_init_post:
  assumes c: "consistent ifs st" and i: "\<not> inited st" and debug_ok: "total \<Longrightarrow> init_debug env st \<noteq> None"
  shows "runs total (lsck_init env st) (\<lambda>(ok, s'). consistent ifs s' \<and> inited s' \<and> (ok \<longleftrightarrow> if_list s' \<noteq> [])
     \<and> same_sockets (st\<lparr>inited := True\<rparr>) s')"
proof -
  have debug: "runs total (init_debug env st) (\<lambda>s. \<exists>c d. s = st\<lparr>lsck_config := c, next_ptr := next_ptr st + 1, debug_level := d\<rparr>)"
    using debug_ok init_debug_only [of env st] by (cases "init_debug env st") auto
  have ifs: "runs total (init_ifs (env_init_table env) (s\<lparr>sock_table := replicate LSCK_NUM_SOCKET None, if_list := []\<rparr>))
      (\<lambda>s'. consistent ifs s' \<and> same_sockets st s')"
    if s: "s = st\<lparr>lsck_config := cf, next_ptr := next_ptr st + 1, debug_level := d\<rparr>" for s cf d
  proof (rule init_ifs_post)
    have "consistent ifs (st\<lparr>next_ptr := next_ptr st + 1\<rparr>)" using c by (rule consistent_next_ptr) simp
    moreover have "s = st\<lparr>next_ptr := next_ptr st + 1, lsck_config := cf, debug_level := d\<rparr>" by (simp add: s)
    ultimately have "consistent ifs s" by (simp only: consistent_misc)
    moreover have "\<not> inited s" using i by (simp add: s)
    ultimately show "consistent ifs (s\<lparr>sock_table := replicate LSCK_NUM_SOCKET None, if_list := []\<rparr>)"
      by (rule consistent_reset)
    have "\<forall>p. sock_heap st p = None" using c i by (simp add: consistent_def wf_state_def)
    then show "same_sockets st (s\<lparr>sock_table := replicate LSCK_NUM_SOCKET None, if_list := []\<rparr>)"
      by (simp add: same_sockets_def s)
  qed simp
  have fin: "runs total (if if_list s = [] then do {
          st \<leftarrow> lsck_uninit env (s\<lparr>inited := True\<rparr>);
          Some (False, st)
        } else Some (True, s\<lparr>inited := True\<rparr>)) (\<lambda>(ok, s'). consistent ifs s' \<and> inited s' \<and> (ok \<longleftrightarrow> if_list s' \<noteq> [])
     \<and> same_sockets (st\<lparr>inited := True\<rparr>) s')" if "consistent ifs s" "same_sockets st s" for s
  proof -
    have "close_all env 0 LSCK_NUM_SOCKET (s\<lparr>inited := True\<rparr>) = Some (s\<lparr>inited := True\<rparr>)"
      using that(2) by (intro close_all_empty) (simp_all add: same_sockets_def)
    then show ?thesis
      using that consistent_inited [OF that(1)] by (simp add: lsck_uninit_def same_sockets_def)
  qed
  have "runs total (do {
        st \<leftarrow> init_debug env st;
        let st = st\<lparr>sock_table := replicate LSCK_NUM_SOCKET None, if_list := []\<rparr>;
        st \<leftarrow> init_ifs (env_init_table env) st;
        if if_list st = [] then do {
          st \<leftarrow> lsck_uninit env (st\<lparr>inited := True\<rparr>);
          Some (False, st)
        } else Some (True, st\<lparr>inited := True\<rparr>) }) (\<lambda>(ok, s'). consistent ifs s' \<and> inited s' \<and> (ok \<longleftrightarrow> if_list s' \<noteq> [])
     \<and> same_sockets (st\<lparr>inited := True\<rparr>) s')"
    unfolding runs_simps(3) Let_def
  proof (rule runs_mono [OF debug], elim exE)
    fix s cf d
    assume "s = st\<lparr>lsck_config := cf, next_ptr := next_ptr st + 1, debug_level := d\<rparr>"
    from ifs [OF this] show "runs total (init_ifs (env_init_table env) (s\<lparr>sock_table := replicate LSCK_NUM_SOCKET None, if_list := []\<rparr>))
      (\<lambda>s. runs total (if if_list s = [] then lsck_uninit env (s\<lparr>inited := True\<rparr>) \<bind> (\<lambda>st. Some (False, st))
          else Some (True, s\<lparr>inited := True\<rparr>))
        (\<lambda>(ok, s'). consistent ifs s' \<and> inited s' \<and> (ok \<longleftrightarrow> if_list s' \<noteq> []) \<and> same_sockets (st\<lparr>inited := True\<rparr>) s'))"
      by (rule runs_mono) (rule fin; simp)
  qed
  then show ?thesis using i by (simp add: lsck_init_def)
qed

end

text \<open>The state a call for a new socket starts from: the old one, or that after initialisation.\<close>

definition started :: "('d, 'w) lsck \<Rightarrow> ('d, 'w) lsck \<Rightarrow> bool" where
  "started st s \<longleftrightarrow> (if inited st then s = st else same_sockets (st\<lparr>inited := True\<rparr>) s)"

context interface_contract begin

lemma upd_lsd_runs:
  assumes "owned ifs i p l s" "evolves l (f l)" "wf_sock ifs (f l)" "lsd_idata (f l) = lsd_idata l"
  shows "runs total (upd_lsd p f s) (\<lambda>s'. frame s s' \<and> owned ifs i p (f l) s')"
  using owned_upd [OF assms(1) evolves_evolves0 [OF assms(2)] assms(3,4)] assms(2) owned_heap [OF assms(1)] by simp

lemma pair_names_post:
  assumes o: "owned ifs i p l st"
  shows "runs total (pair_names env p st) (\<lambda>s'. frame st s' \<and> consistent ifs s')"
proof -
  let ?l = "l\<lparr>lsd_socknamelen := SOCKADDR_MAX_SIZE, lsd_peernamelen := SOCKADDR_MAX_SIZE\<rparr>"
  have w: "wf_sock ifs ?l" using owned_wf [OF o] by (simp add: wf_sock_def)
  have "evolves l ?l" by (simp add: evolves_def evolves0_def)
  note u = upd_lsd_runs [where f = "\<lambda>l. l\<lparr>lsd_socknamelen := SOCKADDR_MAX_SIZE, lsd_peernamelen := SOCKADDR_MAX_SIZE\<rparr>", OF o this w]
  show ?thesis
    unfolding pair_names_def runs_simps(3)
  proof (rule runs_mono [OF u], goal_cases)
    case (2 s1)
    then have o1: "owned ifs i p ?l s1" and f1: "frame st s1" by simp_all
    have "returns total ifs s1 (\<lambda>(r, name', len'). rel_option (\<lambda>a b. length b = length a) (Some (lsd_sockname ?l)) name'
       \<and> rel_option (\<lambda>a b. b \<le> a) (Some (lsd_socknamelen ?l)) len')
      (getsockname env (lsd_fd ?l) (Some (lsd_sockname ?l)) (Some (lsd_socknamelen ?l)) s1)"
      by (rule getsockname_returns [OF owned_consistent [OF o1]]) (use wf_sock_lengths [OF w] in simp)
    note g1 = this
    show ?case
      unfolding owned_heap [OF o1] runs_simps(2)
    proof (rule runs_mono [OF g1 [unfolded returns_def]], clarsimp simp: option_rel_Some1 simp del: lsck_socket.simps, goal_cases)
      case (1 s2 a n)
      note c2 = \<open>consistent ifs s2\<close>
      obtain l2 where o2: "owned ifs i p l2 s2" and e2: "evolves ?l l2" by (rule owned_frame [OF o1 1(1,2)])
      let ?l2 = "l2\<lparr>lsd_sockname := a, lsd_socknamelen := n\<rparr>"
      have w2: "wf_sock ifs ?l2"
        using 1 owned_wf [OF o2] wf_sock_lengths [OF owned_wf [OF o]] by (simp add: wf_sock_def)
      have "evolves l2 ?l2" by (simp add: evolves_def evolves0_def)
      note u2 = upd_lsd_runs [where f = "\<lambda>l. l\<lparr>lsd_sockname := a, lsd_socknamelen := n\<rparr>", OF o2 this w2]
      show ?case
      proof (rule runs_mono [OF u2], goal_cases)
        case (2 s3)
        then have o3: "owned ifs i p ?l2 s3" and f3: "frame s2 s3" by simp_all
        have "returns total ifs s3 (\<lambda>(r, name', len'). rel_option (\<lambda>a b. length b = length a) (Some (lsd_peername ?l2)) name'
           \<and> rel_option (\<lambda>a b. b \<le> a) (Some (lsd_peernamelen ?l2)) len')
          (getpeername env (lsd_fd ?l2) (Some (lsd_peername ?l2)) (Some (lsd_peernamelen ?l2)) s3)"
          by (rule getpeername_returns [OF owned_consistent [OF o3]]) (use wf_sock_lengths [OF w2] in simp)
        note g2 = this
        show ?case
          unfolding owned_heap [OF o3] runs_simps(2)
        proof (rule runs_mono [OF g2 [unfolded returns_def]], clarsimp simp: option_rel_Some1 simp del: lsck_socket.simps, goal_cases)
          case (1 s4 b m)
          obtain l4 where o4: "owned ifs i p l4 s4" "evolves ?l2 l4" by (rule owned_frame [OF o3 1(1,2)])
          let ?l4 = "l4\<lparr>lsd_peername := b, lsd_peernamelen := m\<rparr>"
          have w4: "wf_sock ifs ?l4"
            using 1 owned_wf [OF o4(1)] wf_sock_lengths [OF w2] by (simp add: wf_sock_def)
          have "evolves l4 ?l4" by (simp add: evolves_def evolves0_def)
          note u4 = upd_lsd_runs [where f = "\<lambda>l. l\<lparr>lsd_peername := b, lsd_peernamelen := m\<rparr>", OF o4(1) this w4]
          have "frame st s4" by (rule frame_trans [OF frame_trans [OF frame_trans [OF f1 \<open>frame s1 s2\<close>] f3] 1(1)])
          then show ?case
            by (intro runs_mono [OF u4]) (auto intro: frame_trans owned_consistent)
        qed
      qed simp
    qed
  qed simp
qed

lemma pair_names_later:
  assumes "owned ifs i p l st" "frame st s" "consistent ifs s"
  shows "runs total (pair_names env p s) (\<lambda>s'. frame st s' \<and> consistent ifs s')"
proof -
  obtain l' where "owned ifs i p l' s" by (rule owned_frame [OF assms])
  from pair_names_post [OF this] show ?thesis by (rule runs_mono) (use frame_trans [OF assms(2)] in auto)
qed

lemma started_later: "started st s \<Longrightarrow> later st s"
  by (auto simp: started_def same_sockets_def later_def split: if_splits)

lemma frame_socket: "frame st s \<Longrightarrow> fd_is_socket fd st \<Longrightarrow> fd_is_socket fd s"
  by simp

lemma added_socket: "added st fd p s \<Longrightarrow> fd_to_lsd fd s = Some p \<and> fd_is_socket fd s"
  by (auto simp: added_def fd_to_lsd_alt sock_entry_def)

lemma added_other: "added st fd p s \<Longrightarrow> fd_is_socket k st \<Longrightarrow> fd_is_socket k s \<and> fd_to_lsd k s = fd_to_lsd k st \<and> k \<noteq> fd"
  by (auto simp: added_def fd_to_lsd_alt)

lemma removed_other: "removed st fd p s \<Longrightarrow> fd_is_socket k st \<Longrightarrow> k \<noteq> fd \<Longrightarrow> fd_is_socket k s"
  by (auto simp: removed_def fd_to_lsd_alt)

lemma close_fd_keeps:
  assumes "consistent ifs st" "fd_is_socket fd st"
  shows "runs total (close_fd env fd st) (\<lambda>(r, s'). consistent ifs s' \<and> later st s'
     \<and> (\<forall>k. fd_is_socket k st \<and> k \<noteq> fd \<longrightarrow> fd_is_socket k s'))"
  by (rule runs_mono [OF close_fd_post [OF assms]]) (auto split: if_splits dest: removed_other removed_later frame_later)

lemma close_pair_keeps:
  assumes "consistent ifs st" "fd_is_socket a st" "fd_is_socket b st" "a \<noteq> b"
  shows "runs total (close_pair env a b st) (\<lambda>s'. consistent ifs s' \<and> later st s')"
  unfolding close_pair_def runs_simps(3)
proof (rule runs_mono [OF close_fd_keeps [OF assms(1,2)]], goal_cases)
  case (1 x)
  have s: "fd_is_socket b (snd x)" "consistent ifs (snd x)" "later st (snd x)" using 1 assms(3,4) by auto
  show ?case
    using runs_mono [OF close_fd_keeps [OF s(2,1)], of "\<lambda>(r, s'). consistent ifs s' \<and> later st s'"] later_trans [OF s(3)]
    by (auto simp: split_beta case_prod_unfold)
qed

lemma pair_connect_keeps:
  assumes c: "consistent ifs st" and i: "if_socketpair (env_if env i) = Some f"
    and fd: "fd_to_lsd a st = Some p" "fd_to_lsd b st = Some q" "a \<noteq> b"
    and o: "owned ifs i p l st" "owned ifs i q m st"
  shows "runs total (pair_connect env i a b st) (\<lambda>(r, s'). consistent ifs s' \<and> later st s')"
proof -
  have cl: "runs total (close_pair env a b s) (\<lambda>s'. consistent ifs s' \<and> later st s')" if "frame st s" "consistent ifs s" for s
  proof -
    have "fd_is_socket a s" "fd_is_socket b s"
      using that(1) fd by (auto simp: fd_to_lsd_def split: if_splits)
    from close_pair_keeps [OF that(2) this fd(3)] show ?thesis
      by (rule runs_mono) (use later_trans [OF frame_later [OF that(1)]] in auto)
  qed
  note nm = pair_names_later [OF o(1)] and nm2 = pair_names_later [OF o(2)]
  show ?thesis
    unfolding pair_connect_def fd i option.case prod.case bind.bind_lunit
  proof (rule returns_runs_bind [OF socketpair_law [OF o i]], goal_cases)
    case (1 r s')
    show ?case
    proof (cases "r = -1")
      case True
      then show ?thesis using cl [OF 1(2,3)] by (auto simp: Let_def later_def elim!: runs_mono)
    next
      case False
      have "runs total (pair_names env q s) (\<lambda>s. consistent ifs s \<and> later st s)" if "frame st s" "consistent ifs s" for s
        by (rule runs_mono [OF nm2 [OF that]]) (simp add: frame_later)
      then have "runs total (pair_names env p s') (\<lambda>s. runs total (pair_names env q s) (\<lambda>s. consistent ifs s \<and> later st s))"
        by (intro runs_mono [OF nm [OF 1(2,3)]]) simp
      then show ?thesis using False by simp
    qed
  qed
qed

lemma socketx_full:
  assumes "consistent ifs st" "total \<Longrightarrow> inited st \<Longrightarrow> None \<in> set (sock_table st)"
    "\<And>n. interface = Some n \<Longrightarrow> n \<in> ifs" "total \<Longrightarrow> \<not> inited st \<Longrightarrow> init_debug env st \<noteq> None"
  shows "runs total (socketx env domain type protocol interface st) (\<lambda>(r, s'). consistent ifs s' \<and> (\<exists>s. started st s
    \<and> (r = -1 \<and> frame s s' \<or> 0 \<le> r \<and> (\<exists>p. added s r p s' \<and> made_as domain type interface p s'))))"
proof (cases "inited st")
  case True
  show ?thesis
    by (rule runs_mono [OF socketx_post [OF assms(1) True _ assms(3)]]) (use assms(2) True in \<open>auto simp: started_def\<close>)
next
  case False
  have "runs total (socketx env domain type protocol interface s) (\<lambda>(r, s'). consistent ifs s' \<and> (\<exists>s. started st s
    \<and> (r = -1 \<and> frame s s' \<or> 0 \<le> r \<and> (\<exists>p. added s r p s' \<and> made_as domain type interface p s'))))"
    if "consistent ifs s" "inited s" "same_sockets (st\<lparr>inited := True\<rparr>) s" for s
    by (rule runs_mono [OF socketx_post [OF that(1,2) _ assms(3)]])
      (use that(3) False in \<open>auto simp: started_def same_sockets_def LSCK_NUM_SOCKET_def\<close>)
  moreover have "socketx env domain type protocol interface st
      = Option.bind (lsck_init env st) (\<lambda>(ok, s). if \<not> ok then fail ENODEV s else socketx env domain type protocol interface s)"
  proof (cases "lsck_init env st")
    case (Some x)
    obtain ok s where x: "x = (ok, s)" by (cases x)
    have "ok \<Longrightarrow> inited s" using Some x False
      by (auto simp: lsck_init_def bind_eq_Some_conv Let_def split: if_splits)
    then have "ok \<Longrightarrow> lsck_init env s = Some (True, s)" by (simp add: lsck_init_def)
    then show ?thesis by (simp add: socketx_def [of env domain "type" protocol interface st] Some x)
        (simp add: socketx_def)
  qed (simp add: socketx_def)
  moreover have "runs total (fail ENODEV s) (\<lambda>(r, s'). consistent ifs s' \<and> (\<exists>s. started st s
    \<and> (r = -1 \<and> frame s s' \<or> 0 \<le> r \<and> (\<exists>p. added s r p s' \<and> made_as domain type interface p s'))))"
    if "consistent ifs s" "same_sockets (st\<lparr>inited := True\<rparr>) s" for s
    using that False by (auto simp: fail_with_def started_def intro!: exI [of _ s])
  moreover have "total \<Longrightarrow> init_debug env st \<noteq> None"
    using assms(4) False by simp
  ultimately show ?thesis
    by (auto simp: split_beta intro!: runs_mono [OF lsck_init_post [OF assms(1) False]])
qed

lemma room_after:
  assumes "started st s" "r = -1 \<and> frame s s' \<or> 0 \<le> r \<and> (\<exists>p. added s r p s' \<and> made_as d t i p s')"
    "inited st \<Longrightarrow> 2 \<le> count_list (sock_table st) None"
  shows "None \<in> set (sock_table s')"
proof -
  have two: "2 \<le> count_list (sock_table s) None"
    using assms(1,3) by (auto simp: started_def same_sockets_def LSCK_NUM_SOCKET_def eval_nat_numeral split: if_splits)
  have "None \<in> set (t[j := x])" if "2 \<le> count_list t None" for t :: "nat option list" and j x
  proof (cases "j < length t")
    case True
    have "count_list t None \<le> Suc (count_list (t[j := x]) None)"
      using arg_cong [OF id_take_nth_drop [OF True], of "\<lambda>t. count_list t None"] True
      by (simp add: upd_conv_take_nth_drop)
    then show ?thesis using that count_notin [of None "t[j := x]"] by (cases "None \<in> set (t[j := x])") auto
  next
    case False
    then have "t[j := x] = t" by (intro list_update_beyond) (simp add: not_less)
    then show ?thesis using that count_notin [of None t] by (cases "None \<in> set t") auto
  qed
  then show ?thesis
    using assms(2) two count_notin [of None "sock_table s"] by (fastforce simp: frame_by_def added_def)
qed


lemma socketpair_keeps:
  assumes c: "consistent ifs st" and room: "total \<Longrightarrow> inited st \<Longrightarrow> 2 \<le> count_list (sock_table st) None"
    and debug_ok: "total \<Longrightarrow> \<not> inited st \<Longrightarrow> init_debug env st \<noteq> None"
  shows "runs total (socketpair env domain type protocol st) (\<lambda>(r, s'). consistent ifs s' \<and> later st s')"
proof (cases "find_pair_if env (if_list st) domain type protocol")
  case None
  then show ?thesis using c by (simp add: socketpair_def fail_with_def later_def)
next
  case (Some i)
  then have i: "i \<in> set (if_list st)" "if_socketpair (env_if env i) \<noteq> None"
    by (auto simp: find_pair_if_def find_Some_iff in_set_conv_nth)
  then obtain f where f: "if_socketpair (env_if env i) = Some f" by blast
  have ifs: "i \<in> ifs" using i(1) c by (auto simp: consistent_def wf_state_def)
  show ?thesis
    unfolding socketpair_def Some option.case runs_simps(3)
  proof (rule runs_mono [OF socketx_full [OF c]], goal_cases)
    case 1
    then show ?case using room count_notin [of None "sock_table st"] by fastforce
  next
    case 2
    then show ?case using ifs by simp
  next
    case 3
    then show ?case using debug_ok by simp
  next
    case (4 x)
    obtain a s1 where x: "x = (a, s1)" by (cases x)
    with 4 obtain s where c1: "consistent ifs s1" and s: "started st s"
      and m: "a = -1 \<and> frame s s1 \<or> 0 \<le> a \<and> (\<exists>p. added s a p s1 \<and> made_as domain type (Some i) p s1)" by auto
    have l1: "later st s1" using later_trans [OF started_later [OF s]] m frame_later added_later by blast
    have in1: "inited s1" using s m by (auto simp: started_def same_sockets_def frame_by_def added_def split: if_splits)
    show ?case
      unfolding x prod.case runs_simps(3)
    proof (rule runs_mono [OF socketx_post [OF c1 in1]], goal_cases)
      case 1
      then show ?case using room_after [OF s m] room by blast
    next
      case 2
      then show ?case using ifs by simp
    next
      case (3 y)
      obtain b s2 where y: "y = (b, s2)" by (cases y)
      with 3 have c2: "consistent ifs s2"
        and m2: "b = -1 \<and> frame s1 s2 \<or> 0 \<le> b \<and> (\<exists>q. added s1 b q s2 \<and> made_as domain type (Some i) q s2)" by auto
      have l2: "later st s2" using later_trans [OF l1] m2 frame_later added_later by blast
      have a: "a = -1 \<or> 0 \<le> a \<and> fd_is_socket a s2 \<and> a \<noteq> b"
      proof (cases "a = -1")
        case False
        with m obtain p where p: "0 \<le> a" "added s a p s1" by auto
        then have "fd_is_socket a s1" using added_socket by blast
        from m2 show ?thesis
        proof
          assume "b = -1 \<and> frame s1 s2"
          then show ?thesis using p(1) frame_socket [OF _ \<open>fd_is_socket a s1\<close>] by auto
        next
          assume "0 \<le> b \<and> (\<exists>q. added s1 b q s2 \<and> made_as domain type (Some i) q s2)"
          then show ?thesis using p(1) added_other [OF _ \<open>fd_is_socket a s1\<close>] by blast
        qed
      qed simp
      have b: "b = -1 \<or> 0 \<le> b \<and> fd_is_socket b s2" using m2 added_socket by blast
      show ?case
      proof (cases "a = -1 \<or> b = -1")
        case True
        have cl: "runs total (if fd \<ge> 0 then close_fd env fd s2 else Some (0, s2)) (\<lambda>(r, s'). consistent ifs s' \<and> later st s')"
          if "fd = -1 \<or> 0 \<le> fd \<and> fd_is_socket fd s2" for fd
        proof (cases "fd = -1")
          case False
          then have "0 \<le> fd" "fd_is_socket fd s2" using that by simp_all
          then show ?thesis using close_fd_keeps [OF c2, of fd] by (simp, elim runs_mono) (auto dest: later_trans [OF l2])
        qed (simp add: c2 l2)
        show ?thesis
        proof (cases "a = -1")
          case True
          then show ?thesis
            unfolding y prod.case using cl [OF b] by (simp add: split_beta case_prod_unfold split: if_splits)
        next
          case False
          then have "b = -1" "0 \<le> a" using a \<open>a = -1 \<or> b = -1\<close> by simp_all
          then show ?thesis
            unfolding y prod.case using cl [of a] a False by (simp add: split_beta case_prod_unfold split: if_splits)
        qed
      next
        case False
        then obtain p q where p: "added s a p s1" "made_as domain type (Some i) p s1"
          and q: "added s1 b q s2" "made_as domain type (Some i) q s2" using m m2 by auto
        have fa: "fd_to_lsd a s2 = Some p" using added_socket [OF p(1)] added_other [OF q(1), of a] by simp
        have fb: "fd_to_lsd b s2 = Some q" using added_socket [OF q(1)] by simp
        obtain l where l: "sock_heap s1 p = Some l" "lsd_interface l = Some i" using p(2) by (auto simp: made_as_def)
        have "p \<noteq> q" using l(1) q(1) by (auto simp: added_def)
        then have "rel_option evolves (sock_heap s1 p) (sock_heap s2 p)" using q(1) by (auto simp: added_def)
        then obtain l' where "sock_heap s2 p = Some l'" "lsd_interface l' = Some i"
          using l by (auto simp: option_rel_Some1 evolves_def evolves0_def)
        then have op: "owned ifs i p l' s2" using c2 ifs by (simp add: owned_def)
        obtain m' where "owned ifs i q m' s2" using q(2) c2 ifs by (auto simp: made_as_def owned_def)
        note pc = pair_connect_keeps [OF c2 f fa fb _ op this]
        have "runs total (pair_connect env i a b s2) (\<lambda>(r, s'). consistent ifs s' \<and> later st s')"
          by (rule runs_mono [OF pc]) (use False a later_trans [OF l2] in auto)
        then show ?thesis using False by (simp add: y)
      qed
    qed
  qed
qed

end

end
