(* ===== verification/Contract_Rules.thy ===== *)
theory Contract_Rules
  imports Sock_Create
begin

text \<open>
  Rules to prove the laws of \<open>interface_contract\<close> for an interface: one for every construct its operations are written
  with, and for the steps they share, such as giving a socket its data.
\<close>

section \<open>Steps that keep the invariant\<close>

definition safe_state :: "nat set \<Rightarrow> ('d, 'w) lsck \<Rightarrow> ('d, 'w) lsck option \<Rightarrow> bool" where
  "safe_state ifs s m \<longleftrightarrow> (\<forall>s'. m = Some s' \<longrightarrow> frame s s' \<and> consistent ifs s')"

lemma returns_safe:
  "safe_state ifs s m \<Longrightarrow> (\<And>s'. consistent ifs s' \<Longrightarrow> returns False ifs s' P (k s')) \<Longrightarrow> returns False ifs s P (Option.bind m k)"
  by (cases m) (auto simp: safe_state_def intro: returns_step simp: returns_def [of False ifs s P None])

lemma returns_keeps_bind:
  "keeps False ifs s m \<Longrightarrow> (\<And>r s'. consistent ifs s' \<Longrightarrow> returns False ifs s' P (k (r, s')))
   \<Longrightarrow> returns False ifs s P (Option.bind m k)"
  by (erule returns_bind) simp

lemma returns_any: "(\<And>x. returns False ifs s P (k x)) \<Longrightarrow> returns False ifs s P (Option.bind m k)"
  by (cases m) (simp_all add: returns_def)

lemma returns_None: "returns False ifs s P None"
  by (simp add: returns_def)

lemma returns_Let: "returns t ifs s P (f x) \<Longrightarrow> returns t ifs s P (Let x f)"
  by simp

lemma returns_prod: "(\<And>a b. returns t ifs s P (f a b)) \<Longrightarrow> returns t ifs s P (case x of (a, b) \<Rightarrow> f a b)"
  by (cases x) simp

lemma returns_prod1: "(\<And>a b. returns t ifs s P (f a b y)) \<Longrightarrow> returns t ifs s P ((case x of (a, b) \<Rightarrow> f a b) y)"
  by (cases x) simp

lemma returns_pair: "returns t ifs s P (f a b) \<Longrightarrow> returns t ifs s P (case (a, b) of (x, y) \<Rightarrow> f x y)"
  by simp

lemma returns_bind_if:
  "(b \<Longrightarrow> returns t ifs s P (Option.bind m k)) \<Longrightarrow> (\<not> b \<Longrightarrow> returns t ifs s P (Option.bind n k))
   \<Longrightarrow> returns t ifs s P (Option.bind (if b then m else n) k)"
  by simp

lemma returns_bind_case:
  "(x = None \<Longrightarrow> returns t ifs s P (Option.bind m k)) \<Longrightarrow> (\<And>y. x = Some y \<Longrightarrow> returns t ifs s P (Option.bind (n y) k))
   \<Longrightarrow> returns t ifs s P (Option.bind (case x of None \<Rightarrow> m | Some y \<Rightarrow> n y) k)"
  by (cases x) simp_all

lemma returns_bind_Some: "returns t ifs s P (k x) \<Longrightarrow> returns t ifs s P (Option.bind (Some x) k)"
  by simp

lemma returns_bind_bind:
  "returns t ifs s P (Option.bind m (\<lambda>x. Option.bind (j x) k)) \<Longrightarrow> returns t ifs s P (Option.bind (Option.bind m j) k)"
  by (cases m) simp_all

lemma consistent_idata_write:
  assumes "consistent ifs s" "idata_heap s d \<noteq> None"
  shows "consistent ifs (s\<lparr>idata_heap := (idata_heap s)(d \<mapsto> u)\<rparr>)"
proof -
  have "idata_but None (s\<lparr>idata_heap := (idata_heap s)(d \<mapsto> u)\<rparr>)"
    using assms unfolding consistent_def idata_but_def by simp metis
  then show ?thesis using assms(1) by (simp add: consistent_def)
qed

lemma upd_lsd_safe:
  assumes "consistent ifs s"
    "\<And>l. sock_heap s p = Some l \<Longrightarrow> wf_sock ifs l \<Longrightarrow> evolves l (f l) \<and> wf_sock ifs (f l) \<and> lsd_idata (f l) = lsd_idata l"
  shows "safe_state ifs s (upd_lsd p f s)"
proof (cases "sock_heap s p")
  case (Some l)
  have w: "wf_sock ifs l" using assms(1) Some by (auto simp: consistent_def dest: wf_sockD)
  have e: "evolves l (f l)" "wf_sock ifs (f l)" "lsd_idata (f l) = lsd_idata l" using assms(2) [OF Some w] by simp_all
  then have "lsd_fd (f l) = lsd_fd l" by (simp add: evolves_def evolves0_def)
  then show ?thesis
    using upd_consistent [OF assms(1) Some _ e(2,3)] upd_frame [OF Some, of evolves "f l"] e Some
    by (simp add: safe_state_def)
qed (simp add: safe_state_def upd_lsd_def)

lemma flag_safe:
  "consistent ifs s \<Longrightarrow> safe_state ifs s (upd_lsd p (\<lambda>l. l\<lparr>lsd_connected := b\<rparr>) s)"
  "consistent ifs s \<Longrightarrow> safe_state ifs s (upd_lsd p (\<lambda>l. l\<lparr>lsd_bound := True\<rparr>) s)"
  by (rule upd_lsd_safe; simp add: evolves_def evolves0_def wf_sock_def)+

text \<open>A socket whose data is left out of the invariant gets data of its own, or none.\<close>

lemma idata_but_any: "idata_ok s \<Longrightarrow> idata_but q s"
  unfolding idata_but_def by simp metis

lemma set_idata_wf:
  assumes "wf_state ifs s" "sock_heap s q = Some l"
  shows "wf_state ifs (s\<lparr>next_ptr := Suc (next_ptr s), idata_heap := h, sock_heap := (sock_heap s)(q \<mapsto> l\<lparr>lsd_idata := d\<rparr>)\<rparr>)"
    "frame s (s\<lparr>next_ptr := Suc (next_ptr s), idata_heap := h, sock_heap := (sock_heap s)(q \<mapsto> l\<lparr>lsd_idata := d\<rparr>)\<rparr>)"
proof -
  let ?s = "s\<lparr>next_ptr := Suc (next_ptr s)\<rparr>"
  have "wf_state ifs ?s" by (rule wf_next_ptr [OF assms(1)]) simp
  moreover have "wf_sock ifs (l\<lparr>lsd_idata := d\<rparr>)" using wf_sockD(1) [OF assms] by (simp add: wf_sock_def)
  ultimately have "wf_state ifs (?s\<lparr>sock_heap := (sock_heap ?s)(q \<mapsto> l\<lparr>lsd_idata := d\<rparr>)\<rparr>)"
    by (intro upd_wf) (use assms(2) in simp_all)
  then have "wf_state ifs (?s\<lparr>sock_heap := (sock_heap ?s)(q \<mapsto> l\<lparr>lsd_idata := d\<rparr>), idata_heap := h\<rparr>)"
    by (simp only: wf_simps)
  then show "wf_state ifs (s\<lparr>next_ptr := Suc (next_ptr s), idata_heap := h, sock_heap := (sock_heap s)(q \<mapsto> l\<lparr>lsd_idata := d\<rparr>)\<rparr>)"
    by (simp add: lsck_upd_comm)
  show "frame s (s\<lparr>next_ptr := Suc (next_ptr s), idata_heap := h, sock_heap := (sock_heap s)(q \<mapsto> l\<lparr>lsd_idata := d\<rparr>)\<rparr>)"
    using assms(2) by (simp add: frame_by_def evolves_def evolves0_def)
qed

lemma idata_butD:
  assumes "idata_but (Some q) s" "sock_heap s p = Some m" "p \<noteq> q" "lsd_idata m = Some d"
  shows "\<exists>x. idata_heap s d = Some x" "d < next_ptr s"
    "sock_heap s r = Some k \<Longrightarrow> r \<noteq> q \<Longrightarrow> lsd_idata k = Some d \<Longrightarrow> r = p"
  using assms unfolding idata_but_def by auto

lemma give_idata:
  assumes "wf_state ifs s" "idata_but (Some q) s" "sock_heap s q = Some l"
  shows "consistent ifs (s\<lparr>next_ptr := Suc (next_ptr s), idata_heap := (idata_heap s)(next_ptr s \<mapsto> u),
     sock_heap := (sock_heap s)(q \<mapsto> l\<lparr>lsd_idata := Some (next_ptr s)\<rparr>)\<rparr>)"
proof -
  note D = idata_butD [OF assms(2)]
  show ?thesis
    unfolding consistent_def idata_but_def using set_idata_wf(1) [OF assms(1,3)]
    by (auto dest: D(1,2) intro: D(3) split: if_splits)
qed

lemma drop_idata:
  assumes "wf_state ifs s" "idata_but (Some q) s" "sock_heap s q = Some l"
  shows "consistent ifs (s\<lparr>next_ptr := Suc (next_ptr s), sock_heap := (sock_heap s)(q \<mapsto> l\<lparr>lsd_idata := None\<rparr>)\<rparr>)"
proof -
  note D = idata_butD [OF assms(2)]
  show ?thesis
    unfolding consistent_def idata_but_def
    using set_idata_wf(1) [OF assms(1,3), where h = "idata_heap s" and d = None]
    by (auto dest: D(1,2) intro: D(3) split: if_splits)
qed

section \<open>Results of calls and loops\<close>

lemma keepsD: "m = Some y \<Longrightarrow> keeps False ifs s m \<Longrightarrow> frame s (snd y) \<and> consistent ifs (snd y)"
  by (cases y) (simp add: returns_def)

lemma keepsI: "(\<And>y. m = Some y \<Longrightarrow> frame s (snd y) \<and> consistent ifs (snd y)) \<Longrightarrow> keeps False ifs s m"
  by (cases m) (auto simp: returns_def)

lemma find_holds: "List.find Q xs = Some x \<Longrightarrow> Q x"
  by (auto simp: find_Some_iff)

section \<open>Sockets that do not listen\<close>

definition calm :: "nat \<Rightarrow> ('d, 'w) lsck \<Rightarrow> bool" where
  "calm p s \<longleftrightarrow> (\<forall>l. sock_heap s p = Some l \<longrightarrow> \<not> lsd_listening l)"

lemma calm_frame: "calm p s \<Longrightarrow> frame s s' \<Longrightarrow> calm p s'"
  by (cases "sock_heap s p"; cases "sock_heap s' p")
    (auto simp: calm_def evolves_def frame_dead [OF frame_frame0] dest: frame_rel [where q = p])

lemma returns_calm_bind:
  "calm p s \<Longrightarrow> keeps False ifs s m \<Longrightarrow> (\<And>r s'. consistent ifs s' \<Longrightarrow> calm p s' \<Longrightarrow> returns False ifs s' P (k (r, s')))
   \<Longrightarrow> returns False ifs s P (Option.bind m k)"
  by (erule returns_bind) (auto dest: calm_frame)

lemma returns_calm_safe:
  "calm p s \<Longrightarrow> safe_state ifs s m \<Longrightarrow> (\<And>s'. consistent ifs s' \<Longrightarrow> calm p s' \<Longrightarrow> returns False ifs s' P (k s'))
   \<Longrightarrow> returns False ifs s P (Option.bind m k)"
  by (cases m) (auto simp: safe_state_def intro: returns_step dest: calm_frame simp: returns_def [of False ifs s P None])

end
