(* ===== verification/Unix_Contract.thy ===== *)
theory Unix_Contract
  imports Unix_Io Contract_Rules
begin

text \<open>
  The Unix domain interface keeps the contract of \<open>Lsck_Contract\<close>: every operation, where it returns,
  keeps the invariant of the library and its frame. The laws are proved for the table without the
  operations that call the library back, then for the whole table, and each gives an interpretation
  of the contract.
\<close>

section \<open>Steps of the interface\<close>

lemma consistent_set_driver [simp]:
  "consistent ifs (set_driver w s) = consistent ifs s" "frame_by R s (set_driver w s') = frame_by R s s'"
  by (simp_all add: set_driver_def)

lemma sys_keeps: "consistent ifs s \<Longrightarrow> keeps False ifs s (sys f s)"
  by (auto simp: sys_def returns_def split: prod.split)

lemma sys2_keeps: "consistent ifs s \<Longrightarrow> keeps False ifs s (sys2 f s)"
  by (auto simp: sys2_def returns_def split: prod.split)

lemma random_keeps: "consistent ifs s \<Longrightarrow> keeps False ifs s (random os s)"
  by (auto simp: random_def returns_def split: prod.split)

lemma upd_usock_safe: "consistent ifs s \<Longrightarrow> safe_state ifs s (upd_usock p f s)"
  by (auto simp: upd_usock_def safe_state_def bind_eq_Some_conv intro: consistent_idata_write)

lemma read_into_keeps: "consistent ifs s \<Longrightarrow> keeps False ifs s (read_into os fd b s)"
  unfolding read_into_def by (rule returns_keeps_bind [OF sys2_keeps]) (auto intro!: returns_prod returns_prod1 returns_Some returns_None)

text \<open>The rules for the operations: one for every construct and every step, the general bind last.\<close>

lemmas unix_rules = returns_None returns_Some [where P = "\<lambda>_. True", OF TrueI] returns_fail [where P = "\<lambda>_. True", OF TrueI]
  returns_Let returns_pair returns_prod returns_prod1 returns_if returns_case
  returns_bind_if returns_bind_case returns_bind_Some returns_bind_bind
  returns_keeps_bind [OF sys_keeps] returns_keeps_bind [OF sys2_keeps] returns_keeps_bind [OF random_keeps]
  returns_keeps_bind [OF read_into_keeps] returns_safe [OF upd_usock_safe] returns_safe [OF flag_safe(1)]
  returns_safe [OF flag_safe(2)]

section \<open>The table without calls back\<close>

lemma unix_bind_keeps: "consistent ifs s \<Longrightarrow> keeps False ifs s (unix_bind os p a n s)"
  unfolding unix_bind_def by (assumption | rule unix_rules | rule returns_any)+

lemma unix_getname_returns:
  assumes "consistent ifs s"
  shows "returns False ifs s (\<lambda>(r, a', n'). length a' = length a \<and> n' \<le> n) (unix_getname os sel p a n s)"
  unfolding unix_getname_def
  by (rule returns_any, rule returns_Let, rule returns_any, rule returns_any, rule returns_memcpy, simp, rule returns_Some)
    (simp_all add: assms)

lemma unix_close_keeps: "consistent ifs s \<Longrightarrow> keeps False ifs s (unix_close os p s)"
  unfolding unix_close_def by (assumption | rule unix_rules | rule returns_any)+

lemma unix_ioctl_keeps: "consistent ifs s \<Longrightarrow> keeps False ifs s (unix_ioctl os p r x s)"
  unfolding unix_ioctl_def by (assumption | rule unix_rules | rule returns_any)+

lemma unix_fcntl_keeps: "consistent ifs s \<Longrightarrow> keeps False ifs s (unix_fcntl os p c r s)"
  unfolding unix_fcntl_def by (assumption | rule unix_rules | rule returns_keeps_bind [OF unix_ioctl_keeps] | rule returns_any)+

lemma unix_select_keeps: "consistent ifs s \<Longrightarrow> keeps False ifs s (unix_select os p e s)"
  unfolding unix_select_def by (assumption | rule unix_rules | rule returns_any)+

lemma unix_socket_op_keeps:
  assumes "consistent ifs s"
  shows "keeps False ifs s (unix_socket_op os p s)"
proof (cases "sock_heap s p")
  case (Some l)
  have w: "wf_state ifs s" "idata_but (Some p) s" using assms idata_but_any by (auto simp: consistent_def)
  note g = give_idata [OF w Some, of "junk_usock os"] and d = drop_idata [OF w Some]
  have "keeps False ifs s' (do { st \<leftarrow> upd_usock p f s'; Some (0, st) })" if c: "consistent ifs s'" for s' f
    by (insert c, (assumption | rule unix_rules)+)
  note k = this [OF g, THEN returns_step, OF set_idata_wf(2) [OF w(1) Some]]
  show ?thesis
    unfolding unix_socket_op_def Let_def
    using Some k d set_idata_wf(2) [OF w(1) Some, where h = "idata_heap s" and d = None]
    by (simp add: returns_def fail_with_def)
qed (simp add: unix_socket_op_def Let_def returns_def upd_lsd_def)

section \<open>The contract of the table without calls back\<close>

lemma alloc_fd_free: "alloc_fd os st < 0 \<or> fds st (alloc_fd os st) = None"
  unfolding alloc_fd_def
  by (cases "List.find (\<lambda>fd. fds st fd = None \<and> \<not> os_used os (driver (world st)) fd) (List.map int [3..<256])")
    (simp_all del: upt_rec_numeral, drule find_holds, simp)

lemma host_env_simps [simp]:
  "env_alloc_fd (base_env os) = alloc_fd os" "env_alloc_fd (unix_env os) = alloc_fd os"
  "env_init_table (base_env os) = []" "env_init_table (unix_env os) = [unix_init os]"
  by (simp_all add: base_env_def unix_env_def host_env_def)

lemma junk_length [simp]: "length (junk os n) = n"
  by (simp add: junk_def)

lemma base_handlers [simp]:
  "if_name (unix_base os) = Some ''Unix->mailslot''" "if_preuninit (unix_base os) = None"
  "if_uninit (unix_base os) = Some (\<lambda>st. Some (1, st))"
  "if_socket (unix_base os) = Some (unix_socket_op os)" "if_socketpair (unix_base os) = None"
  "if_close (unix_base os) = Some (unix_close os)" "if_bind (unix_base os) = Some (unix_bind os)"
  "if_listen (unix_base os) = Some unix_listen" "if_accept (unix_base os) = None" "if_connect (unix_base os) = None"
  "if_recv (unix_base os) = None" "if_recvfrom (unix_base os) = None" "if_send (unix_base os) = None"
  "if_sendto (unix_base os) = None" "if_getsockname (unix_base os) = Some (unix_getsockname os)"
  "if_getpeername (unix_base os) = Some (unix_getpeername os)" "if_getsockopt (unix_base os) = Some unix_getsockopt"
  "if_setsockopt (unix_base os) = None" "if_shutdown (unix_base os) = Some unix_shutdown"
  "if_fcntl (unix_base os) = Some (unix_fcntl os)" "if_ioctl (unix_base os) = Some (unix_ioctl_buf os)"
  "if_select (unix_base os) = Some (unix_select os)" "if_sockatmark (unix_base os) = None"
  by (simp_all add: unix_base_def)

lemma unix_ioctl_buf_returns:
  assumes "consistent ifs s"
  shows "returns False ifs s (\<lambda>(h, rv, v'). length v' = length v) (unix_ioctl_buf os p k v s)"
  unfolding unix_ioctl_buf_def
  apply (rule returns_any, rule returns_keeps_bind [OF unix_ioctl_keeps [OF assms]])
  apply (rule returns_pair, rule returns_prod1, rule returns_prod1)
  apply (rule returns_bind_if, rule returns_wr, simp, rule returns_Some, simp, assumption)
  apply (rule returns_bind_Some, rule returns_Some, simp_all)
  done

lemmas unix_keeps = unix_socket_op_keeps unix_bind_keeps unix_close_keeps unix_fcntl_keeps unix_select_keeps
  unix_getname_returns unix_ioctl_buf_returns

interpretation base: interface_contract "base_env os" "{UNIX_IF}" False for os :: "'w unix_os"
  by unfold_locales
    (auto simp: alloc_fd_free SOCKADDR_MAX_SIZE_def unix_getsockname_def unix_getpeername_def unix_listen_def
      unix_shutdown_def unix_getsockopt_def owned_heap
      intro!: unix_keeps returns_Some dest!: owned_consistent)

section \<open>accept\<close>

abbreviation accept_result_ok :: "int \<times> sockaddr \<times> nat \<Rightarrow> bool" where
  "accept_result_ok \<equiv> \<lambda>(r, a, n). length a = SOCKADDR_MAX_SIZE \<and> n \<le> SOCKADDR_MAX_SIZE \<and> (r = 0 \<or> r = -1)"

lemmas unix_rules_post = returns_None returns_Let returns_pair returns_prod returns_prod1 returns_if returns_case
  returns_bind_if returns_bind_case returns_bind_Some returns_bind_bind
  returns_keeps_bind [OF sys_keeps] returns_keeps_bind [OF sys2_keeps] returns_keeps_bind [OF random_keeps]
  returns_keeps_bind [OF read_into_keeps] returns_safe [OF upd_usock_safe]

lemma accept_reply_returns:
  assumes c: "consistent ifs s" and a: "length addr = SOCKADDR_MAX_SIZE" "n \<le> SOCKADDR_MAX_SIZE"
  shows "returns False ifs s accept_result_ok (accept_reply os q path h cli addr n s)"
  unfolding accept_reply_def
  by (insert c, (assumption | rule unix_rules_post | rule returns_memcpy | rule returns_any | rule returns_Some
      | (use a in \<open>simp add: SOCKADDR_MAX_SIZE_def SOCKADDR_UN_SIZE_def; fail\<close>))+)

lemma accept_open_returns:
  assumes c: "consistent ifs s" and a: "length addr = SOCKADDR_MAX_SIZE" "n \<le> SOCKADDR_MAX_SIZE"
  shows "returns False ifs s accept_result_ok (accept_open os p q req addr n s)"
  unfolding accept_open_def
  by (insert c, (assumption | rule unix_rules_post | rule accept_reply_returns [OF _ a] | rule returns_any | rule returns_Some
      | (use a in \<open>simp; fail\<close>))+)

lemma unix_accept_returns:
  assumes w: "wf_state ifs s" "idata_but (Some q) s" "sock_heap s q = Some m" and a: "length addr = SOCKADDR_MAX_SIZE"
  shows "returns False ifs s accept_result_ok (unix_accept os p q addr SOCKADDR_MAX_SIZE s)"
proof -
  let ?u = "(junk_usock os)\<lparr>us_peerpath := replicate SOCKADDR_UN_SIZE 0\<rparr>"
  note g = give_idata [OF w, of ?u] and d = drop_idata [OF w]
  have rest: "returns False ifs s' accept_result_ok (do {
         u \<leftarrow> usock_of p s';
         ((ret, req), st) \<leftarrow> read_into os (us_fd_r u) (junk os OPEN_SIZE) s';
         if ret = -1 then Some ((-1, addr, SOCKADDR_MAX_SIZE), st) else accept_open os p q req addr SOCKADDR_MAX_SIZE st
       })" if c: "consistent ifs s'" for s'
    by (insert c, (assumption | rule unix_rules_post | rule accept_open_returns [OF _ a] | rule returns_any | rule returns_Some
      | (use a in \<open>simp; fail\<close>))+)
  note rest = rest [OF g, THEN returns_step, OF set_idata_wf(2) [OF w(1,3)]]
  show ?thesis
    unfolding unix_accept_def Let_def
    using w(3) rest d set_idata_wf(2) [OF w(1,3), where h = "idata_heap s" and d = None] a
    by (simp add: returns_def fail_with_def SOCKADDR_MAX_SIZE_def SOCKADDR_UN_SIZE_def)
qed

section \<open>connect\<close>

lemma unbind_me_safe:
  assumes "consistent ifs s" "calm p s"
  shows "safe_state ifs s (unbind_me os b p s)"
proof -
  have "safe_state ifs s (upd_lsd p (\<lambda>l. l\<lparr>lsd_bound := False\<rparr>) s)"
    by (rule upd_lsd_safe [OF assms(1)]) (use assms(2) in \<open>auto simp: calm_def evolves_def evolves0_def wf_sock_def\<close>)
  then have "keeps False ifs s (do {
        st \<leftarrow> upd_lsd p (\<lambda>l. l\<lparr>lsd_bound := False\<rparr>) s;
        u \<leftarrow> usock_of p st;
        (_, st) \<leftarrow> sys (os_fdclose os (us_fd_r u)) st;
        Some ((), st)
      })"
    by - (erule returns_safe, (assumption | rule unix_rules | rule returns_any)+)
  then show ?thesis
    using assms(1) by (auto simp: unbind_me_def safe_state_def returns_def runs_def split_beta
        split: option.splits bind_splits)
qed

lemmas calm_rules = returns_None returns_Some [where P = "\<lambda>_. True", OF TrueI] returns_fail [where P = "\<lambda>_. True", OF TrueI]
  returns_Let returns_pair returns_prod returns_prod1 returns_if returns_case
  returns_bind_if returns_bind_case returns_bind_Some returns_bind_bind
  returns_calm_bind [OF _ sys_keeps] returns_calm_bind [OF _ random_keeps]
  returns_calm_bind [OF _ read_into_keeps] returns_calm_safe [OF _ upd_usock_safe]
  returns_calm_safe [OF _ unbind_me_safe]

lemma connect_reply_keeps: "consistent ifs s \<Longrightarrow> calm p s \<Longrightarrow> keeps False ifs s (connect_reply os p b r rep s)"
  unfolding connect_reply_def by (assumption | rule calm_rules | rule returns_any)+

lemma connect_request_keeps: "consistent ifs s \<Longrightarrow> calm p s \<Longrightarrow> keeps False ifs s (connect_request os p fd h b s)"
  unfolding connect_request_def
  by (assumption | rule calm_rules | rule connect_reply_keeps | rule returns_any)+

lemma bind_random_keeps: "consistent {UNIX_IF} s \<Longrightarrow> keeps False {UNIX_IF} s (bind_random os p s)"
  unfolding bind_random_def
  by (assumption | rule unix_rules | rule base.bind_keeps | rule returns_any | simp)+

lemma unix_connect_keeps:
  "consistent {UNIX_IF} s \<Longrightarrow> calm p s \<Longrightarrow> keeps False {UNIX_IF} s (unix_connect os p a n s)"
  unfolding unix_connect_def
  by (assumption | rule calm_rules | rule returns_calm_bind [OF _ bind_random_keeps] | rule connect_request_keeps | rule returns_any)+

section \<open>Data transfer, pairs and the start\<close>

lemma send_stream_loop_keeps:
  "consistent ifs s \<Longrightarrow> keeps False ifs s (send_stream_loop os p msg len n s)"
proof (induction "len - n" arbitrary: n s rule: less_induct)
  case less
  show ?case
    apply (subst send_stream_loop.simps)
    apply (insert less.prems)
    apply (assumption | rule unix_rules | rule less.hyps | rule returns_any
      | (auto simp: MAILSLOT_SENDSIZE_def HEADER_SIZE_def; fail))+
    done
qed

lemma send_dgram_loop_keeps:
  "consistent ifs s \<Longrightarrow> keeps False ifs s (send_dgram_loop os fd path msg len n s)"
proof (induction "len - n" arbitrary: n s rule: less_induct)
  case less
  show ?case
    apply (subst send_dgram_loop.simps)
    apply (insert less.prems)
    apply (assumption | rule unix_rules | rule less.hyps | rule returns_any
      | (auto simp: MAILSLOT_SENDSIZE_def OPEN_SIZE_def; fail))+
    done
qed

lemma send_stream_keeps: "consistent ifs s \<Longrightarrow> keeps False ifs s (send_stream os p msg len s)"
  unfolding send_stream_def by (rule returns_any) (rule send_stream_loop_keeps)

lemma send_dgram_keeps:
  "consistent {UNIX_IF} s \<Longrightarrow> keeps False {UNIX_IF} s (send_dgram os p msg len d n s)"
  unfolding send_dgram_def
  by (assumption | rule unix_rules | rule returns_keeps_bind [OF bind_random_keeps] | rule send_dgram_loop_keeps | rule returns_any)+

lemma unix_send_keeps: "consistent {UNIX_IF} s \<Longrightarrow> keeps False {UNIX_IF} s (unix_send os p msg len f s)"
  unfolding unix_send_def
  by (assumption | rule unix_rules | rule send_stream_keeps | rule send_dgram_keeps | rule returns_any)+

lemma unix_sendto_keeps: "consistent {UNIX_IF} s \<Longrightarrow> keeps False {UNIX_IF} s (unix_sendto os p msg len f d n s)"
  unfolding unix_sendto_def
  by (assumption | rule unix_rules | rule send_stream_keeps | rule send_dgram_keeps | rule returns_any)+

lemma set_peer_safe: "consistent ifs s \<Longrightarrow> safe_state ifs s (set_peer p path s)"
  by (auto simp: set_peer_def upd_usock_def safe_state_def bind_eq_Some_conv intro: consistent_idata_write)

lemma pair_writer_keeps: "consistent ifs s \<Longrightarrow> keeps False ifs s (pair_writer os p path s)"
  unfolding pair_writer_def by (assumption | rule unix_rules | rule returns_any)+

lemma pair_stream_keeps: "consistent ifs s \<Longrightarrow> keeps False ifs s (pair_stream os p q a b s)"
  unfolding pair_stream_def
  by (assumption | rule unix_rules | rule returns_safe [OF set_peer_safe] | rule returns_keeps_bind [OF pair_writer_keeps]
     | rule returns_any)+

lemma unix_socketpair_keeps: "consistent ifs s \<Longrightarrow> keeps False ifs s (unix_socketpair os p q s)"
  unfolding unix_socketpair_def
  by (assumption | rule unix_rules | rule returns_safe [OF set_peer_safe] | rule returns_keeps_bind [OF unix_bind_keeps]
     | rule pair_stream_keeps | rule returns_any)+

lemma read_message_keeps: "consistent ifs s \<Longrightarrow> keeps False ifs s (read_message os fd b buf s)"
  unfolding read_message_def by (assumption | rule unix_rules | rule returns_any)+

lemma returns_Let_world:
  "consistent ifs s \<Longrightarrow> (\<And>s'. consistent ifs s' \<Longrightarrow> returns t ifs s' P (f s')) \<Longrightarrow> returns t ifs s P (Let (s\<lparr>world := w\<rparr>) f)"
  unfolding Let_def by (rule returns_step [of t ifs "s\<lparr>world := w\<rparr>"]) simp_all

lemma recv_stream_loop_keeps:
  assumes c: "consistent ifs s"
  shows "keeps False ifs s (recv_stream_loop os p len pk r bp buf s)"
proof (rule keepsI)
  fix y assume y: "recv_stream_loop os p len pk r bp buf s = Some y"
  have "consistent ifs s \<longrightarrow> frame s (snd y) \<and> consistent ifs (snd y)"
  proof (rule recv_stream_loop.raw_induct [OF _ y, of "\<lambda>os p len pk r bp buf s y. consistent ifs s \<longrightarrow> frame s (snd y) \<and> consistent ifs (snd y)"],
      goal_cases)
    case (1 f os p len pk ret bp buf s y)
    have IH: "keeps False ifs s (f os p len pk ret bp buf s)" if "consistent ifs s" for os p len pk ret bp buf s
      using 1(1) that by (auto intro: keepsI)
    show ?case
      apply (rule impI, rule keepsD [OF 1(2)])
      apply (assumption | rule returns_Let_world | rule unix_rules | rule returns_keeps_bind [OF read_message_keeps]
         | rule returns_keeps_bind [OF unix_close_keeps] | rule IH | rule returns_any)+
      done
  qed
  with c show "frame s (snd y) \<and> consistent ifs (snd y)" by simp
qed

lemma recv_dgram_loop_keeps:
  assumes c: "consistent ifs s"
  shows "keeps False ifs s (recv_dgram_loop os p len pk r bp buf frm fl s)"
proof (rule keepsI)
  fix y assume y: "recv_dgram_loop os p len pk r bp buf frm fl s = Some y"
  have "consistent ifs s \<longrightarrow> frame s (snd y) \<and> consistent ifs (snd y)"
  proof (rule recv_dgram_loop.raw_induct [OF _ y, of "\<lambda>os p len pk r bp buf frm fl s y. consistent ifs s \<longrightarrow> frame s (snd y) \<and> consistent ifs (snd y)"],
      goal_cases)
    case (1 f os p len pk ret bp buf frm fl s y)
    have IH: "keeps False ifs s (f os p len pk ret bp buf frm fl s)" if "consistent ifs s" for os p len pk ret bp buf frm fl s
      using 1(1) that by (auto intro: keepsI)
    show ?case
      apply (rule impI, rule keepsD [OF 1(2)])
      apply (assumption | rule returns_Let_world
         | rule returns_None returns_Some [where P = "\<lambda>_. True", OF TrueI] returns_fail [where P = "\<lambda>_. True", OF TrueI]
             returns_pair returns_prod returns_prod1 returns_if
         | rule returns_keeps_bind [OF read_message_keeps] | rule IH | rule returns_any)+
      done
  qed
  with c show "frame s (snd y) \<and> consistent ifs (snd y)" by simp
qed

lemma recv_dgram_keeps: "consistent ifs s \<Longrightarrow> keeps False ifs s (recv_dgram os p buf len f frm fl s)"
  unfolding recv_dgram_def by (assumption | rule unix_rules | rule recv_dgram_loop_keeps | rule returns_any)+

lemma recv_stream_keeps: "consistent ifs s \<Longrightarrow> keeps False ifs s (recv_stream os p buf len f s)"
  unfolding recv_stream_def by (rule recv_stream_loop_keeps)

lemma unix_recv_keeps: "consistent ifs s \<Longrightarrow> keeps False ifs s (unix_recv os p buf len f s)"
  unfolding unix_recv_def
  by (assumption | rule unix_rules | rule recv_stream_keeps | rule returns_keeps_bind [OF recv_dgram_keeps] | rule returns_any)+

lemma unix_getpeername_keeps: "consistent ifs s \<Longrightarrow> keeps False ifs s (unix_getpeername os p a n s)"
  unfolding unix_getpeername_def by (rule returns_mono [OF unix_getname_returns]) simp_all

lemma unix_recvfrom_keeps: "consistent ifs s \<Longrightarrow> keeps False ifs s (unix_recvfrom os p buf len f frm fl s)"
  unfolding unix_recvfrom_def
  by (assumption | rule unix_rules | rule returns_keeps_bind [OF recv_stream_keeps] | rule returns_keeps_bind [OF unix_getpeername_keeps]
     | rule recv_dgram_keeps | rule returns_any)+

lemma unix_enabled_keeps:
  assumes "consistent ifs st"
  shows "keeps False ifs st (unix_enabled os st)"
proof (rule keepsI)
  fix y assume "unix_enabled os st = Some y"
  then obtain c where "snd y = st\<lparr>lsck_config := c, next_ptr := next_ptr st + 1\<rparr>"
    by (auto simp: unix_enabled_def bind_eq_Some_conv Let_def)
  then have "snd y = st\<lparr>next_ptr := next_ptr st + 1, lsck_config := c\<rparr>" by simp
  then show "frame st (snd y) \<and> consistent ifs (snd y)"
    using consistent_next_ptr [OF assms] by (simp add: frame_by_def)
qed

lemma unix_init_returns:
  assumes "consistent {UNIX_IF} st"
  shows "returns False {UNIX_IF} st (\<lambda>r. case r of None \<Rightarrow> True | Some i \<Rightarrow> i \<in> {UNIX_IF}) (unix_init os st)"
proof -
  have "returns False {UNIX_IF} s (\<lambda>r. case r of None \<Rightarrow> True | Some i \<Rightarrow> i \<in> {UNIX_IF}) (case os_install os (driver (world s)) of (ok, w) \<Rightarrow>
          let st = set_driver w s in
          if \<not> ok then Some (None, st)
          else Some (Some UNIX_IF, (set_driver (os_srandom os w) st)
                 \<lparr>world := (world (set_driver (os_srandom os w) st))\<lparr>unix_inited := True\<rparr>\<rparr>))"
    if "consistent {UNIX_IF} s" for s
    using that by (simp add: returns_def Let_def split: prod.split)
  note rest = this
  show ?thesis
  proof (cases "unix_inited (world st)")
    case True
    then show ?thesis using assms by (simp add: unix_init_def returns_Some)
  next
    case False
    show ?thesis
      unfolding unix_init_def if_not_P [OF False]
    proof (rule returns_bind [OF unix_enabled_keeps [OF assms]], goal_cases)
      case (1 e s)
      show ?case unfolding prod.case using rest [OF 1(3)] 1(3) by (simp add: returns_Some)
    qed
  qed
qed

section \<open>The contract of the whole table\<close>

lemma unix_handlers [simp]:
  "if_name (unix_if os) = Some ''Unix->mailslot''" "if_preuninit (unix_if os) = None"
  "if_uninit (unix_if os) = Some (\<lambda>st. Some (1, st))"
  "if_socket (unix_if os) = Some (unix_socket_op os)" "if_socketpair (unix_if os) = Some (unix_socketpair os)"
  "if_close (unix_if os) = Some (unix_close os)"
  "if_listen (unix_if os) = Some unix_listen" "if_accept (unix_if os) = Some (unix_accept os)"
  "if_connect (unix_if os) = Some (unix_connect os)"
  "if_recv (unix_if os) = Some (unix_recv os)" "if_recvfrom (unix_if os) = Some (unix_recvfrom os)"
  "if_send (unix_if os) = Some (unix_send os)" "if_sendto (unix_if os) = Some (unix_sendto os)"
  "if_getpeername (unix_if os) = Some (unix_getpeername os)" "if_getsockopt (unix_if os) = Some unix_getsockopt"
  "if_setsockopt (unix_if os) = None" "if_shutdown (unix_if os) = Some unix_shutdown"
  "if_fcntl (unix_if os) = Some (unix_fcntl os)" "if_ioctl (unix_if os) = Some (unix_ioctl_buf os)"
  "if_select (unix_if os) = Some (unix_select os)" "if_sockatmark (unix_if os) = None"
  by (simp_all add: unix_if_def)

lemma owned_calm: "owned ifs i p l s \<Longrightarrow> \<not> lsd_listening l \<Longrightarrow> calm p s"
  by (simp add: calm_def owned_def)

interpretation unix: interface_contract "unix_env os" "{UNIX_IF}" False for os :: "'w unix_os"
  by unfold_locales
    (auto simp: alloc_fd_free SOCKADDR_MAX_SIZE_def unix_getsockname_def unix_getpeername_def unix_listen_def
      unix_shutdown_def unix_getsockopt_def owned_heap
      intro!: unix_keeps unix_init_returns [simplified] unix_socketpair_keeps unix_accept_returns [simplified SOCKADDR_MAX_SIZE_def]
        unix_connect_keeps unix_recv_keeps unix_recvfrom_keeps unix_send_keeps unix_sendto_keeps returns_Some
      intro: owned_consistent owned_calm)

end
