(* ===== verification/Sock_Calls.thy ===== *)
theory Sock_Calls
  imports Unix_Contract
begin

text \<open>
  An application as a sequence of calls: the calls as a datatype, \<open>run_call\<close>, the step relation with the
  states an application can reach, and what holds in all of them. The calls close with
  \<open>close\<close>; the public \<open>closesocket\<close>, which leaves the file descriptor behind, is not one of them: what holds after it is in
  \<open>reachable_consistent\<close> and \<open>closesocket_dangling\<close>.
\<close>

section \<open>Calls\<close>

datatype call =
    Call_socket int int int
  | Call_socketpair int int int
  | Call_accept int "sockaddr option" "nat option"
  | Call_close int
  | Call_bind int "sockaddr option" nat
  | Call_connect int "sockaddr option" nat
  | Call_listen int int
  | Call_shutdown int int
  | Call_sendto int "u8 list option" nat u32 "sockaddr option" nat
  | Call_recv int "u8 list option" nat u32
  | Call_recvfrom int "u8 list option" nat u32 "sockaddr option" "nat option"
  | Call_getsockname int "sockaddr option" "nat option"
  | Call_getpeername int "sockaddr option" "nat option"
  | Call_getsockopt int int int "u8 list option" "nat option"
  | Call_setsockopt int int int "u8 list option" nat
  | Call_fcntl int fcntl_cmd int
  | Call_ioctl int int "u8 list option"
  | Call_select int int
  | Call_sockatmark int
  | Call_read int "u8 list option" int
  | Call_write int "u8 list option" int

definition run_call :: "('d, 'w) lsck_env \<Rightarrow> call \<Rightarrow> ('d, 'w, int) act" where
  "run_call env c st = (case c of
     Call_socket d t pr \<Rightarrow> socket env d t pr st
   | Call_socketpair d t pr \<Rightarrow> map_option (\<lambda>((r, _), s). (r, s)) (socketpair env d t pr st)
   | Call_accept s a n \<Rightarrow> map_option (\<lambda>((r, _), s). (r, s)) (accept env s a n st)
   | Call_close s \<Rightarrow> close_fd env s st
   | Call_bind s a n \<Rightarrow> bind_sock env s a n st
   | Call_connect s a n \<Rightarrow> connect env s a n st
   | Call_listen s k \<Rightarrow> listen env s k st
   | Call_shutdown s how \<Rightarrow> shutdown env s how st
   | Call_sendto s m n fl a tolen \<Rightarrow> sendto env s m n fl a tolen st
   | Call_recv s b n fl \<Rightarrow> map_option (\<lambda>((r, _), s). (r, s)) (recv env s b n fl st)
   | Call_recvfrom s b n fl a fl' \<Rightarrow> map_option (\<lambda>((r, _), s). (r, s)) (recvfrom env s b n fl a fl' st)
   | Call_getsockname s a n \<Rightarrow> map_option (\<lambda>((r, _), s). (r, s)) (getsockname env s a n st)
   | Call_getpeername s a n \<Rightarrow> map_option (\<lambda>((r, _), s). (r, s)) (getpeername env s a n st)
   | Call_getsockopt s lev opt v n \<Rightarrow> map_option (\<lambda>((r, _), s). (r, s)) (getsockopt env s lev opt v n st)
   | Call_setsockopt s lev opt v n \<Rightarrow> setsockopt env s lev opt v n st
   | Call_fcntl s cmd rq \<Rightarrow> fcntlsocket env s cmd rq st
   | Call_ioctl s rq v \<Rightarrow> map_option (\<lambda>((r, _), s). (r, s)) (ioctlsocket env s rq v st)
   | Call_select s ev \<Rightarrow> selectsocket env s ev st
   | Call_sockatmark s \<Rightarrow> sockatmark env s st
   | Call_read s b n \<Rightarrow> map_option (\<lambda>((r, _), s). (r, s)) (fsext_read env s b n st)
   | Call_write s b n \<Rightarrow> map_option (\<lambda>((r, _), s). (r, s)) (fsext_write env s b n st))"

text \<open>
  The lengths the caller passes are those of its objects, the table has room for new sockets, and
  where the library still has to start, reading its configuration goes well.
\<close>

definition args_ok :: "('d, 'w) lsck_env \<Rightarrow> call \<Rightarrow> ('d, 'w) lsck \<Rightarrow> bool" where
  "args_ok env c st \<longleftrightarrow> (case c of
     Call_socket d t pr \<Rightarrow> if inited st then None \<in> set (sock_table st) else init_debug env st \<noteq> None
   | Call_socketpair d t pr \<Rightarrow> if inited st then 2 \<le> count_list (sock_table st) None else init_debug env st \<noteq> None
   | Call_accept s a n \<Rightarrow> None \<in> set (sock_table st) \<and> (\<forall>x k. a = Some x \<longrightarrow> n = Some k \<longrightarrow> k \<le> length x)
   | Call_bind s a n \<Rightarrow> \<forall>x. a = Some x \<longrightarrow> 2 \<le> length x \<and> n \<le> length x
   | Call_connect s a n \<Rightarrow> \<forall>x. a = Some x \<longrightarrow> 2 \<le> length x \<and> n \<le> length x \<and> n \<le> SOCKADDR_MAX_SIZE
   | Call_sendto s m n fl a k \<Rightarrow> (\<forall>x. m = Some x \<longrightarrow> n \<le> length x) \<and> (\<forall>x. a = Some x \<longrightarrow> k \<le> length x)
   | Call_recv s b n fl \<Rightarrow> \<forall>x. b = Some x \<longrightarrow> n \<le> length x
   | Call_recvfrom s b n fl a k \<Rightarrow> (\<forall>x. b = Some x \<longrightarrow> n \<le> length x) \<and> (\<forall>x j. a = Some x \<longrightarrow> k = Some j \<longrightarrow> j \<le> length x)
   | Call_getsockname s a n \<Rightarrow> \<forall>x k. a = Some x \<longrightarrow> n = Some k \<longrightarrow> k \<le> length x
   | Call_getpeername s a n \<Rightarrow> \<forall>x k. a = Some x \<longrightarrow> n = Some k \<longrightarrow> k \<le> length x
   | Call_getsockopt s lev opt v n \<Rightarrow> \<forall>x k. v = Some x \<longrightarrow> n = Some k \<longrightarrow> k \<le> length x
   | Call_setsockopt s lev opt v n \<Rightarrow> \<forall>x. v = Some x \<longrightarrow> n \<le> length x
   | Call_ioctl s rq v \<Rightarrow> \<forall>x. v = Some x \<longrightarrow> 32 \<le> length x
   | Call_read s b n \<Rightarrow> \<forall>x. b = Some x \<longrightarrow> size_of_int n \<le> length x
   | Call_write s b n \<Rightarrow> \<forall>x. b = Some x \<longrightarrow> size_of_int n \<le> length x
   | _ \<Rightarrow> True)"

lemma returns_post:
  "returns t ifs st P m \<Longrightarrow> runs t m (\<lambda>(r, s'). consistent ifs s' \<and> later st s')"
  unfolding returns_def by (erule runs_mono) (auto intro: frame_later)

context interface_contract begin

lemma fsext_read_keeps:
  "consistent ifs st \<Longrightarrow> total \<longrightarrow> (\<forall>x. b = Some x \<longrightarrow> size_of_int n \<le> length x) \<Longrightarrow> keeps total ifs st (fsext_read env s b n st)"
  unfolding fsext_read_def
  by (rule returns_bind [OF recv_keeps]) (auto intro!: returns_if returns_fail returns_Some)

lemma fsext_write_keeps:
  "consistent ifs st \<Longrightarrow> total \<longrightarrow> (\<forall>x. b = Some x \<longrightarrow> size_of_int n \<le> length x) \<Longrightarrow> keeps total ifs st (fsext_write env s b n st)"
  unfolding fsext_write_def send_def
  by (rule returns_bind [OF sendto_keeps]) (auto simp: returns_def fail_with_def)

lemma close_any_keeps:
  assumes "consistent ifs st"
  shows "runs total (close_fd env fd st) (\<lambda>(r, s'). consistent ifs s' \<and> later st s')"
proof (cases "fd_is_socket fd st")
  case True
  show ?thesis by (rule runs_mono [OF close_fd_keeps [OF assms True]]) auto
next
  case False
  have "FSEXT_get_function fd st \<noteq> Some SocketFsext"
    using False by (auto simp: fd_is_socket_def)
  moreover have "consistent ifs (os_close fd st)"
  proof -
    have d: "wf_state ifs st" "idata_ok st" using assms by (simp_all add: consistent_def)
    have same: "fd_to_lsd k (os_close fd st) = fd_to_lsd k st" "fd_is_socket k (os_close fd st) = fd_is_socket k st" for k
      using False by (auto simp: os_close_def fd_to_lsd_alt)
    have "wf_state ifs (os_close fd st)"
      using d(1) unfolding wf_state_def same by (simp add: os_close_def)
    then show ?thesis using d(2) by (simp add: consistent_def os_close_def)
  qed
  ultimately show ?thesis
    using assms by (auto simp: close_fd_def fail_with_def later_def os_close_def)
qed

lemma run_call_post:
  assumes c: "consistent ifs st" and a: "total \<Longrightarrow> args_ok env c st"
  shows "runs total (run_call env c st) (\<lambda>(r, s'). consistent ifs s' \<and> later st s')"
proof -
  note ret = returns_post [THEN runs_mono]
  show ?thesis
  proof (cases c)
    case (Call_socket d t pr)
    then show ?thesis
      using a by (auto simp: run_call_def socket_def args_ok_def dest!: added_later frame_later started_later
        intro: later_trans intro!: runs_mono [OF socketx_full [OF c]])
  next
    case (Call_socketpair d t pr)
    then show ?thesis
      using a by (auto simp: run_call_def args_ok_def intro!: runs_mono [OF socketpair_keeps [OF c]])
  next
    case (Call_accept s x n)
    then show ?thesis
      using a by (auto simp: run_call_def args_ok_def dest!: added_later frame_later intro!: runs_mono [OF accept_post [OF c]])
  next
    case (Call_listen s k)
    then show ?thesis
      by (auto simp: run_call_def intro: frame0_later intro!: runs_mono [OF listen_keeps [OF c]])
  qed (use a close_any_keeps [OF c] in \<open>auto simp: run_call_def args_ok_def
        intro!: ret [OF bind_keeps [OF c]] ret [OF connect_keeps [OF c]] ret [OF shutdown_keeps [OF c]]
          ret [OF sendto_keeps [OF c]] ret [OF recv_keeps [OF c]] ret [OF recvfrom_keeps [OF c]]
          ret [OF getsockname_returns [OF c]] ret [OF getpeername_returns [OF c]] ret [OF getsockopt_keeps [OF c]]
          ret [OF setsockopt_keeps [OF c]] ret [OF fcntlsocket_keeps [OF c]] ret [OF ioctlsocket_keeps [OF c]]
          ret [OF selectsocket_keeps [OF c]] ret [OF sockatmark_keeps [OF c]]
          ret [OF fsext_read_keeps [OF c]] ret [OF fsext_write_keeps [OF c]]\<close>)
qed

end

section \<open>Runs of an application\<close>

text \<open>
  Besides its calls, the state of the driver and of other programs may change, and the application may
  open files that are not sockets.
\<close>

inductive step :: "('d, 'w) lsck_env \<Rightarrow> ('d, 'w) lsck \<Rightarrow> ('d, 'w) lsck \<Rightarrow> bool" for env where
  step_call: "run_call env c st = Some (r, st') \<Longrightarrow> step env st st'"
| step_world: "step env st (st\<lparr>world := w\<rparr>)"
| step_open: "fds st fd = None \<Longrightarrow> fd_function e \<noteq> Some SocketFsext \<Longrightarrow> step env st (st\<lparr>fds := (fds st)(fd \<mapsto> e)\<rparr>)"

inductive steps :: "('d, 'w) lsck_env \<Rightarrow> ('d, 'w) lsck \<Rightarrow> ('d, 'w) lsck \<Rightarrow> bool" for env st where
  steps_refl: "steps env st st"
| steps_step: "steps env st s \<Longrightarrow> step env s s' \<Longrightarrow> steps env st s'"

inductive_cases stepE: "step env st st'"

text \<open>The state a program starts in.\<close>

definition booted :: "('d, 'w) lsck \<Rightarrow> bool" where
  "booted st \<longleftrightarrow> \<not> inited st \<and> if_list st = [] \<and> sock_table st = replicate LSCK_NUM_SOCKET None
     \<and> (\<forall>p. sock_heap st p = None) \<and> (\<forall>fd. \<not> fd_is_socket fd st)"

lemma booted_consistent: "booted st \<Longrightarrow> consistent ifs st"
  by (auto simp: booted_def consistent_def wf_state_def slots_distinct_def idata_but_def)

lemma consistent_open:
  assumes "consistent ifs st" "fds st fd = None" "fd_function e \<noteq> Some SocketFsext"
  shows "consistent ifs (st\<lparr>fds := (fds st)(fd \<mapsto> e)\<rparr>)"
proof -
  let ?s = "st\<lparr>fds := (fds st)(fd \<mapsto> e)\<rparr>"
  have d: "wf_state ifs st" "idata_ok st" using assms(1) by (simp_all add: consistent_def)
  have same: "fd_to_lsd k ?s = fd_to_lsd k st" "fd_is_socket k ?s = fd_is_socket k st" for k
    using assms(2,3) by (auto simp: fd_to_lsd_alt)
  have "wf_state ifs ?s"
    using d(1) unfolding wf_state_def same by simp
  then show ?thesis using d(2) by (simp add: consistent_def)
qed

context interface_contract begin

lemma run_call_keeps:
  assumes "\<not> total" "consistent ifs st" "run_call env c st = Some (r, st')"
  shows "consistent ifs st' \<and> later st st'"
  using run_call_post [OF assms(2), of c] assms(1,3) by (simp add: runs_def)

lemma step_keeps:
  assumes "\<not> total" "consistent ifs st" "step env st st'"
  shows "consistent ifs st' \<and> later st st'"
  using assms(3) run_call_keeps [OF assms(1,2)] assms(2)
  by (cases rule: step.cases) (auto simp: consistent_open later_def)

lemma steps_keeps:
  assumes "steps env st st'" "\<not> total" "consistent ifs st"
  shows "consistent ifs st' \<and> later st st'"
  using assms(1)
proof induction
  case (steps_step s s')
  then show ?case using step_keeps [OF assms(2)] later_trans assms(3) by blast
qed (simp add: assms(3))

end

end
