(* ===== verification/Sock_Props.thy ===== *)
theory Sock_Props
  imports Sock_Calls
begin

text \<open>
  The properties of the socket layer, on the library with the Unix domain interface (\<open>unix_env\<close>) unless
  they hold for every interface; and a driver, \<open>quiet_os\<close>, on which their witnesses run.
\<close>

section \<open>A driver for the witnesses\<close>

text \<open>Every file opens, every write succeeds, and there is never anything to read.\<close>

definition quiet_os :: "nat unix_os" where
  "quiet_os = \<lparr>os_open = (\<lambda>path wr w. Some (int w, ENOERR, w + 1)), os_read = (\<lambda>fd n w. Some ((-1, []), EAGAIN, w)),
     os_write = (\<lambda>fd b w. Some (int (length b), ENOERR, w)), os_fdclose = (\<lambda>fd w. Some (0, ENOERR, w)),
     os_nonblock = (\<lambda>fd w. Some (0, ENOERR, w)), os_ioctl = (\<lambda>fd rq x w. Some ((0, x), ENOERR, w)),
     os_select = (\<lambda>fds k w. Some (0, ENOERR, w)), os_random = (\<lambda>w. (0, w)), os_srandom = (\<lambda>w. w),
     os_getcwd = (\<lambda>n w. None), os_install = (\<lambda>w. (True, w)), os_used = (\<lambda>w fd. False), os_getpid = 1,
     os_malloc = (\<lambda>n. True), os_getenv = (\<lambda>v. None), os_files = (\<lambda>f. None), os_time = 0,
     os_junk = (\<lambda>i. 0), os_O_NONBLOCK = 8\<rparr>"

definition boot_state :: "nat ustate" where
  "boot_state = \<lparr>errno = ENOERR, inited = False, if_list = [], if_names = None,
     sock_table = replicate LSCK_NUM_SOCKET None, sock_heap = (\<lambda>_. None), idata_heap = (\<lambda>_. None), next_ptr = 0,
     fds = (\<lambda>_. None), signals = [], debug_level = 0,
     lsck_config = \<lparr>configdir = None, configdirset = False, configfile = None, configfileset = False\<rparr>,
     world = \<lparr>unix_inited = False, stream_buf = [], dgram_buf = [], driver = 100\<rparr>\<rparr>"

text \<open>The states after the first socket of type \<open>t\<close> has been made, and after it has been closed.\<close>

definition one_socket :: "int \<Rightarrow> nat ustate" where
  "one_socket t = snd (the (socket (unix_env quiet_os) AF_UNIX t 0 boot_state))"

lemma boot_booted: "booted boot_state"
  by (simp add: booted_def boot_state_def fd_is_socket_def FSEXT_get_function_def)

lemma one_socket_made:
  assumes "t = SOCK_STREAM \<or> t = SOCK_DGRAM"
  shows "socket (unix_env quiet_os) AF_UNIX t 0 boot_state = Some (3, one_socket t)"
proof -
  have "(case socket (unix_env quiet_os) AF_UNIX SOCK_STREAM 0 boot_state of None \<Rightarrow> False | Some (r, s) \<Rightarrow> r = 3)"
    "(case socket (unix_env quiet_os) AF_UNIX SOCK_DGRAM 0 boot_state of None \<Rightarrow> False | Some (r, s) \<Rightarrow> r = 3)"
    by code_simp+
  with assms show ?thesis unfolding one_socket_def by (auto split: option.splits)
qed

lemma one_socket_steps:
  assumes "t = SOCK_STREAM \<or> t = SOCK_DGRAM"
  shows "steps (unix_env quiet_os) boot_state (one_socket t)"
  by (rule steps_step [OF steps_refl step_call [of _ "Call_socket AF_UNIX t 0"]])
    (simp add: run_call_def one_socket_made [OF assms])

lemma one_socket_consistent:
  "t = SOCK_STREAM \<or> t = SOCK_DGRAM \<Longrightarrow> consistent {UNIX_IF} (one_socket t)"
  using unix.steps_keeps [OF one_socket_steps _ booted_consistent [OF boot_booted]] by simp

section \<open>The invariant\<close>

text \<open>C1: in every state a program can reach with the calls of the datatype \<open>call\<close>, in which sockets are closed with
  \<open>close\<close> and not with \<open>closesocket\<close>, the table, the heap of socket descriptors and the file descriptors agree,
  every socket owns its interface data, and a listening socket is a bound stream socket. A call of \<open>closesocket\<close> in such
  a state either fails and leaves a state of this kind, or breaks the invariant only by the file descriptor it leaves
  open: with that one given back to DOS the state is of this kind. (What calls on that descriptor do is in
  \<open>closesocket_dangling\<close>.)\<close>

theorem reachable_consistent:
  assumes "booted st0" "steps (unix_env os) st0 st"
  shows "consistent {UNIX_IF} st \<and> (\<forall>fd r st'. closesocket (unix_env os) fd st = Some (r, st') \<longrightarrow>
    consistent {UNIX_IF} (if r = 0 then os_close fd st' else st'))"
proof -
  have "consistent {UNIX_IF} st"
    using unix.steps_keeps [OF assms(2) _ booted_consistent [OF assms(1)]] by simp
  with unix.closesocket_consistent [OF this] show ?thesis by blast
qed

theorem reachable_consistent_witness:
  "consistent {UNIX_IF} (one_socket SOCK_STREAM) \<and> fd_to_lsd 3 (one_socket SOCK_STREAM) \<noteq> None \<and>
   (\<exists>st'. closesocket (unix_env quiet_os) 3 (one_socket SOCK_STREAM) = Some (0, st') \<and> consistent {UNIX_IF} (os_close 3 st'))"
proof -
  note r = reachable_consistent [OF boot_booted one_socket_steps, of SOCK_STREAM]
  have "(case fd_to_lsd 3 (one_socket SOCK_STREAM) of None \<Rightarrow> False | Some _ \<Rightarrow> True)"
    "(case closesocket (unix_env quiet_os) 3 (one_socket SOCK_STREAM) of Some (r, st') \<Rightarrow> r = 0 | None \<Rightarrow> False)"
    by code_simp+
  then obtain st' where "fd_to_lsd 3 (one_socket SOCK_STREAM) \<noteq> None"
    "closesocket (unix_env quiet_os) 3 (one_socket SOCK_STREAM) = Some (0, st')"
    by (auto split: option.splits)
  with r show ?thesis by fastforce
qed

text \<open>A connected stream socket 3 without interface data, and the same shut down for writing.\<close>

definition conn_state :: "nat ustate" where
  "conn_state = with_new (boot_state\<lparr>inited := True, if_list := [UNIX_IF]\<rparr>) 0
     (zero_socket\<lparr>lsd_fd := 3, lsd_family := AF_UNIX, lsd_type := SOCK_STREAM, lsd_interface := Some UNIX_IF,
       lsd_connected := True, lsd_blocking := True, lsd_inbound := True, lsd_outbound := True\<rparr>)"

definition shut_state :: "nat ustate" where
  "shut_state = snd (the (shutdown (unix_env quiet_os) 3 SHUT_WR conn_state))"

lemma conn_consistent: "consistent {UNIX_IF} conn_state"
proof -
  have b: "consistent {UNIX_IF} (boot_state\<lparr>inited := True, if_list := [UNIX_IF]\<rparr>)"
    by (auto simp: consistent_def wf_state_def slots_distinct_def idata_but_def boot_state_def fd_is_socket_def
        FSEXT_get_function_def)
  show ?thesis
    unfolding conn_state_def consistent_def
    by (intro conjI with_new_wf [OF b] with_new_idata(2) [OF b])
      (simp_all add: boot_state_def LSCK_NUM_SOCKET_def wf_sock_def zero_socket_def)
qed

lemma shut_made: "shutdown (unix_env quiet_os) 3 SHUT_WR conn_state = Some (0, shut_state)"
proof -
  have "(case shutdown (unix_env quiet_os) 3 SHUT_WR conn_state of None \<Rightarrow> False | Some (r, s) \<Rightarrow> r = 0)"
    by code_simp
  then show ?thesis unfolding shut_state_def by (auto split: option.splits)
qed

lemma shut_step: "steps (unix_env quiet_os) conn_state shut_state"
  by (rule steps_step [OF steps_refl step_call [of _ "Call_shutdown 3 SHUT_WR"]]) (simp add: run_call_def shut_made)

lemma shut_consistent: "consistent {UNIX_IF} shut_state"
  using unix.steps_keeps [OF shut_step _ conn_consistent] by simp

text \<open>C16: across any calls a socket stays the same one: its descriptor, type, family and interface never change,
  and a direction that has been shut down is never opened again.\<close>

theorem shut_stays_shut:
  assumes "consistent {UNIX_IF} st" "steps (unix_env os) st st'"
    and "sock_heap st p = Some l" "sock_heap st' p = Some l'"
  shows "lsd_fd l' = lsd_fd l \<and> lsd_type l' = lsd_type l \<and> lsd_family l' = lsd_family l
    \<and> lsd_interface l' = lsd_interface l
    \<and> (\<not> lsd_inbound l \<longrightarrow> \<not> lsd_inbound l') \<and> (\<not> lsd_outbound l \<longrightarrow> \<not> lsd_outbound l')"
proof -
  have "p < next_ptr st" using assms(1,3) wf_sockD(2) by (auto simp: consistent_def)
  moreover have "later st st'" using unix.steps_keeps [OF assms(2) _ assms(1)] by simp
  ultimately show ?thesis using assms(3,4) unfolding later_def evolves0_def by fastforce
qed

theorem shut_stays_shut_witness:
  "\<exists>l l'. sock_heap conn_state 0 = Some l \<and> sock_heap shut_state 0 = Some l' \<and> lsd_outbound l
     \<and> \<not> lsd_outbound l' \<and> lsd_type l' = lsd_type l"
proof -
  have "(case sock_heap conn_state 0 of None \<Rightarrow> False | Some l \<Rightarrow> lsd_outbound l)"
    "(case sock_heap shut_state 0 of None \<Rightarrow> False | Some l \<Rightarrow> \<not> lsd_outbound l)"
    by code_simp+
  then obtain l l' where "sock_heap conn_state 0 = Some l" "lsd_outbound l" "sock_heap shut_state 0 = Some l'" "\<not> lsd_outbound l'"
    by (auto split: option.splits)
  then show ?thesis
    using shut_stays_shut [OF conn_consistent shut_step] by blast
qed

section \<open>Creating and closing\<close>

lemma rel_option_dom: "rel_option R x y \<Longrightarrow> (x = None) = (y = None)"
  by (cases x; cases y) simp_all

lemma frame_dom: "frame st s \<Longrightarrow> dom (sock_heap s) = dom (sock_heap st)"
  unfolding frame_by_def by (intro set_eqI) (simp add: domIff rel_option_dom [of evolves] del: not_None_eq, metis rel_option_dom)

lemma frame_same:
  "frame st s \<Longrightarrow> fds s = fds st \<and> sock_table s = sock_table st \<and> dom (sock_heap s) = dom (sock_heap st)"
  by (rule conjI, simp add: frame_by_def, rule conjI, simp add: frame_by_def, erule frame_dom)

lemma added_dom: "added st fd p s \<Longrightarrow> dom (sock_heap s) = insert p (dom (sock_heap st)) \<and> p \<notin> dom (sock_heap st)"
proof -
  assume a: "added st fd p s"
  have "sock_heap st q = None \<longleftrightarrow> sock_heap s q = None" if "q \<noteq> p" for q
    using a that rel_option_dom unfolding added_def by blast
  then have "q \<in> dom (sock_heap s) \<longleftrightarrow> q = p \<or> q \<in> dom (sock_heap st)" for q
    using a by (cases "q = p") (auto simp: added_def domIff simp del: not_None_eq)
  moreover have "sock_heap st p = None" using a by (auto simp: added_def)
  ultimately show ?thesis by (auto simp: domIff simp del: not_None_eq)
qed

lemma removed_dom: "removed st fd p s \<Longrightarrow> dom (sock_heap s) = dom (sock_heap st) - {p} \<and> p \<in> dom (sock_heap st)"
proof -
  assume a: "removed st fd p s"
  have "sock_heap st q = None \<longleftrightarrow> sock_heap s q = None" if "q \<noteq> p" for q
    using a that rel_option_dom unfolding removed_def by blast
  then have "q \<in> dom (sock_heap s) \<longleftrightarrow> q \<noteq> p \<and> q \<in> dom (sock_heap st)" for q
    using a by (cases "q = p") (auto simp: removed_def domIff simp del: not_None_eq)
  moreover have "sock_heap st p \<noteq> None" using a by (auto simp: removed_def)
  ultimately show ?thesis by (auto simp: domIff simp del: not_None_eq)
qed

lemma added_fds: "added st fd p s \<Longrightarrow> fds st fd = None \<and> (\<forall>k. k \<noteq> fd \<longrightarrow> fds s k = fds st k)"
  by (auto simp: added_def)

text \<open>C13: \<open>socket\<close> on an initialised library either fails with -1 and leaves sockets, table and file descriptors as
  they were, or returns a free descriptor, to which exactly one new socket of the type asked for belongs.\<close>

theorem socket_outcome:
  assumes "consistent {UNIX_IF} st" "inited st" "socket (unix_env os) domain type protocol st = Some (r, st')"
  shows "consistent {UNIX_IF} st' \<and> (if r = -1
     then fds st' = fds st \<and> sock_table st' = sock_table st \<and> dom (sock_heap st') = dom (sock_heap st)
     else fds st r = None \<and> (\<forall>fd. fd \<noteq> r \<longrightarrow> fds st' fd = fds st fd)
       \<and> (\<exists>p l. p \<notin> dom (sock_heap st) \<and> dom (sock_heap st') = insert p (dom (sock_heap st))
            \<and> fd_to_lsd r st' = Some p \<and> sock_heap st' p = Some l \<and> lsd_type l = type \<and> lsd_family l = domain))"
proof -
  have "runs False (socket (unix_env os) domain type protocol st)
    (\<lambda>(r, s'). consistent {UNIX_IF} s' \<and> (r = -1 \<and> frame st s'
        \<or> 0 \<le> r \<and> (\<exists>p. added st r p s' \<and> made_as domain type None p s')))"
    unfolding socket_def by (rule unix.socketx_post [OF assms(1,2)]) simp_all
  then have c: "consistent {UNIX_IF} st'"
    and o: "r = -1 \<and> frame st st' \<or> 0 \<le> r \<and> (\<exists>p. added st r p st' \<and> made_as domain type None p st')"
    using assms(3) by (simp_all add: runs_def)
  from o show ?thesis
  proof
    assume "r = -1 \<and> frame st st'"
    then show ?thesis using c frame_same [of st st'] by simp
  next
    assume "0 \<le> r \<and> (\<exists>p. added st r p st' \<and> made_as domain type None p st')"
    then obtain p where p: "0 \<le> r" "added st r p st'" "made_as domain type None p st'" by blast
    then show ?thesis
      using c unix.added_socket [OF p(2)] added_dom [OF p(2)] added_fds [OF p(2)] by (auto simp: made_as_def)
  qed
qed

text \<open>An initialised library without sockets.\<close>

definition ready_state :: "nat ustate" where
  "ready_state = boot_state\<lparr>inited := True, if_list := [UNIX_IF]\<rparr>"

lemma ready_consistent: "consistent {UNIX_IF} ready_state"
  by (auto simp: ready_state_def consistent_def wf_state_def slots_distinct_def idata_but_def boot_state_def
      fd_is_socket_def FSEXT_get_function_def)

theorem socket_outcome_witness:
  "\<exists>st' p. socket (unix_env quiet_os) AF_UNIX SOCK_DGRAM 0 ready_state = Some (3, st')
     \<and> dom (sock_heap st') = {p} \<and> fd_to_lsd 3 st' = Some p"
proof -
  have "(case socket (unix_env quiet_os) AF_UNIX SOCK_DGRAM 0 ready_state of None \<Rightarrow> False | Some (r, s) \<Rightarrow> r = 3)"
    by code_simp
  then obtain st' where s: "socket (unix_env quiet_os) AF_UNIX SOCK_DGRAM 0 ready_state = Some (3, st')"
    by (auto split: option.splits)
  have "dom (sock_heap ready_state) = {}" "inited ready_state" by (simp_all add: ready_state_def boot_state_def)
  then show ?thesis using s socket_outcome [OF ready_consistent _ s] by auto
qed

text \<open>C12: \<open>accept\<close> either fails with -1 and leaves sockets, table and file descriptors as they were, the new
  descriptor given back, or returns a free descriptor, to which exactly one new socket belongs.\<close>

theorem accept_outcome:
  assumes "consistent {UNIX_IF} st" "accept (unix_env os) fd addr len st = Some ((r, addr', len'), st')"
  shows "consistent {UNIX_IF} st' \<and> (if r = -1
     then fds st' = fds st \<and> sock_table st' = sock_table st \<and> dom (sock_heap st') = dom (sock_heap st)
     else fds st r = None \<and> (\<forall>k. k \<noteq> r \<longrightarrow> fds st' k = fds st k)
       \<and> (\<exists>p. p \<notin> dom (sock_heap st) \<and> dom (sock_heap st') = insert p (dom (sock_heap st)) \<and> fd_to_lsd r st' = Some p))"
proof -
  have "runs False (accept (unix_env os) fd addr len st)
    (\<lambda>((r, _, _), s'). consistent {UNIX_IF} s' \<and> (r = -1 \<and> frame st s' \<or> 0 \<le> r \<and> (\<exists>p. added st r p s')))"
    by (rule unix.accept_post [OF assms(1)]) simp_all
  then have c: "consistent {UNIX_IF} st'" and o: "r = -1 \<and> frame st st' \<or> 0 \<le> r \<and> (\<exists>p. added st r p st')"
    using assms(2) by (simp_all add: runs_def)
  from o show ?thesis
  proof
    assume "r = -1 \<and> frame st st'"
    then show ?thesis using c frame_same [of st st'] by simp
  next
    assume "0 \<le> r \<and> (\<exists>p. added st r p st')"
    then obtain p where p: "0 \<le> r" "added st r p st'" by blast
    then show ?thesis
      using c unix.added_socket [OF p(2)] added_dom [OF p(2)] added_fds [OF p(2)] by auto
  qed
qed

text \<open>C14: \<open>close\<close> of a socket either fails and leaves every socket, or removes exactly that one from the heap, the
  table and the file descriptors; the descriptor then is no socket, and a call on it fails with \<open>EBADF\<close>.\<close>

theorem close_outcome:
  assumes "consistent {UNIX_IF} st" "fd_to_lsd fd st = Some p" "close_fd (unix_env os) fd st = Some (r, st')"
  shows "consistent {UNIX_IF} st' \<and> (if r = 0
     then dom (sock_heap st') = dom (sock_heap st) - {p} \<and> Some p \<notin> set (sock_table st')
       \<and> (\<forall>k. fds st' k = (if k = fd then None else fds st k))
       \<and> shutdown (unix_env os) fd how st' = Some (-1, st'\<lparr>errno := EBADF\<rparr>)
     else dom (sock_heap st') = dom (sock_heap st) \<and> fds st' = fds st)"
proof -
  have sk: "fd_is_socket fd st" using assms(2) by (auto simp: fd_to_lsd_def split: if_splits)
  have "runs False (close_fd (unix_env os) fd st) (\<lambda>(r, s'). consistent {UNIX_IF} s' \<and>
     (if r = 0 then \<exists>p. fd_to_lsd fd st = Some p \<and> removed st fd p s' else frame st s'))"
    by (rule unix.close_fd_post [OF assms(1) sk])
  then have c: "consistent {UNIX_IF} st'" and o: "if r = 0 then removed st fd p st' else frame st st'"
    using assms(2,3) by (auto simp: runs_def split: if_splits)
  show ?thesis
  proof (cases "r = 0")
    case True
    then have rm: "removed st fd p st'" using o by simp
    then have f: "fds st' = (fds st)(fd := None)" by (auto simp: removed_def)
    then have "fd_to_lsd fd st' = None" "\<not> fd_is_valid fd st'"
      by (simp_all add: fd_to_lsd_alt fd_is_valid_def FSEXT_get_function_def)
    then have "shutdown (unix_env os) fd how st' = Some (-1, st'\<lparr>errno := EBADF\<rparr>)"
      by (simp add: shutdown_def lsck_enter_def isfdtype_def fail_with_def)
    moreover have "Some p \<notin> set (sock_table st')"
      using c rm by (auto simp: consistent_def wf_state_def removed_def)
    ultimately show ?thesis using True c f removed_dom [OF rm] by auto
  next
    case False
    then show ?thesis using c o frame_same [of st st'] by simp
  qed
qed

theorem close_outcome_witness:
  "\<exists>p st'. fd_to_lsd 3 (one_socket SOCK_STREAM) = Some p
     \<and> close_fd (unix_env quiet_os) 3 (one_socket SOCK_STREAM) = Some (0, st') \<and> Some p \<notin> set (sock_table st')
     \<and> shutdown (unix_env quiet_os) 3 0 st' = Some (-1, st'\<lparr>errno := EBADF\<rparr>)"
proof -
  have "(case fd_to_lsd 3 (one_socket SOCK_STREAM) of None \<Rightarrow> False | Some p \<Rightarrow>
     (case close_fd (unix_env quiet_os) 3 (one_socket SOCK_STREAM) of None \<Rightarrow> False | Some (r, s) \<Rightarrow> r = 0))"
    by code_simp
  then obtain p st' where "fd_to_lsd 3 (one_socket SOCK_STREAM) = Some p"
    "close_fd (unix_env quiet_os) 3 (one_socket SOCK_STREAM) = Some (0, st')"
    by (auto split: option.splits)
  then show ?thesis
    using close_outcome [OF one_socket_consistent, of SOCK_STREAM 3 p quiet_os 0 st' 0] by simp
qed

text \<open>A listening socket 3 on the local name \<open>/s\<close>, and the call to accept a connection on it.\<close>

definition name_s :: sockaddr where
  "name_s = [1, 0, 47, 115] @ replicate 106 0"

definition bound_state :: "nat ustate" where
  "bound_state = snd (the (bind_sock (unix_env quiet_os) 3 (Some name_s) SOCKADDR_UN_SIZE (one_socket SOCK_STREAM)))"

definition listen_state :: "nat ustate" where
  "listen_state = snd (the (listen (unix_env quiet_os) 3 1 bound_state))"

lemma listen_made:
  "bind_sock (unix_env quiet_os) 3 (Some name_s) SOCKADDR_UN_SIZE (one_socket SOCK_STREAM) = Some (0, bound_state)"
  "listen (unix_env quiet_os) 3 1 bound_state = Some (0, listen_state)"
proof -
  have "(case bind_sock (unix_env quiet_os) 3 (Some name_s) SOCKADDR_UN_SIZE (one_socket SOCK_STREAM) of
      None \<Rightarrow> False | Some (r, s) \<Rightarrow> r = 0)" by code_simp
  then show "bind_sock (unix_env quiet_os) 3 (Some name_s) SOCKADDR_UN_SIZE (one_socket SOCK_STREAM) = Some (0, bound_state)"
    unfolding bound_state_def by (auto split: option.splits)
  have "(case listen (unix_env quiet_os) 3 1 bound_state of None \<Rightarrow> False | Some (r, s) \<Rightarrow> r = 0)" by code_simp
  then show "listen (unix_env quiet_os) 3 1 bound_state = Some (0, listen_state)"
    unfolding listen_state_def by (auto split: option.splits)
qed

lemma listen_consistent: "consistent {UNIX_IF} listen_state"
proof -
  have "step (unix_env quiet_os) (one_socket SOCK_STREAM) bound_state"
    by (rule step_call [of _ "Call_bind 3 (Some name_s) SOCKADDR_UN_SIZE"]) (simp add: run_call_def listen_made)
  moreover have "step (unix_env quiet_os) bound_state listen_state"
    by (rule step_call [of _ "Call_listen 3 1"]) (simp add: run_call_def listen_made)
  ultimately show ?thesis
    using unix.step_keeps one_socket_consistent [of SOCK_STREAM] by blast
qed

theorem accept_outcome_witness:
  "\<exists>a n st'. accept (unix_env quiet_os) 3 (Some name_s) (Some 110) listen_state = Some ((-1, a, n), st')
     \<and> fds st' = fds listen_state \<and> dom (sock_heap st') = dom (sock_heap listen_state)"
proof -
  have "(case accept (unix_env quiet_os) 3 (Some name_s) (Some 110) listen_state of
      None \<Rightarrow> False | Some ((r, _), s) \<Rightarrow> r = -1)" by code_simp
  then obtain a n st' where "accept (unix_env quiet_os) 3 (Some name_s) (Some 110) listen_state = Some ((-1, a, n), st')"
    by (auto split: option.splits)
  then show ?thesis using accept_outcome [OF listen_consistent, of quiet_os 3 "Some name_s" "Some 110"] by force
qed

end
