(* ===== verification/Call_Props.thy ===== *)
theory Call_Props
  imports Sock_Props
begin

text \<open>
  What single calls of the socket layer do: where they are defined, what fails and how, and the corners in
  which the code does not do what its callers expect.
\<close>

section \<open>Definedness\<close>

text \<open>With an interface that is free of undefined behaviour itself, every call of the library returns from
  every consistent state, and keeps it consistent, when the lengths passed are those of the caller's objects,
  addresses fit \<open>sockaddr_un\<close>, and the table has room for a new socket.\<close>

theorem calls_defined:
  assumes "interface_contract env ifs True" "consistent ifs st" "args_ok env c st"
  shows "\<exists>r st'. run_call env c st = Some (r, st') \<and> consistent ifs st'"
  using interface_contract.run_call_post [OF assms(1,2), of c] assms(3) by (auto simp: runs_defined)

text \<open>An interface without a network: a connection succeeds, what is sent is gone.\<close>

definition sink_if :: "(unit, unit) lsck_if" where
  "sink_if = \<lparr>if_name = Some ''sink'', if_flags = 0, if_addr = None, if_preuninit = None, if_uninit = None,
     if_socket = Some (\<lambda>p st. Some (0, st)), if_socketpair = None, if_close = Some (\<lambda>p st. Some (0, st)),
     if_proto_check = Some (\<lambda>d t pr. True), if_addrlen_check = Some (\<lambda>l n. n \<le> 110),
     if_bind = None, if_listen = None, if_accept = None, if_connect = Some (\<lambda>p a n st. Some (0, st)),
     if_recv = None, if_recvfrom = None, if_send = Some (\<lambda>p b n fl st. Some (int n, st)), if_sendto = None,
     if_getsockname = None, if_getpeername = None, if_getsockopt = None, if_setsockopt = None,
     if_shutdown = Some (\<lambda>p how st. Some (0, st)), if_fcntl = None, if_ioctl = None, if_select = None,
     if_nonblocking_check = None, if_sockatmark = None\<rparr>"

definition sink_env :: "(unit, unit) lsck_env" where
  "sink_env = \<lparr>env_if = (\<lambda>_. sink_if), env_init_table = [\<lambda>st. Some (Some 0, st)], env_getpid = 1,
     env_alloc_fd = (\<lambda>st. if fds st 3 = None then 3 else -1), env_malloc = (\<lambda>n. True), env_getenv = (\<lambda>v. None),
     env_files = (\<lambda>f. None), env_time = 0, env_junk = replicate 110 0\<rparr>"

lemma sink_contract: "interface_contract sink_env {0} True"
  by unfold_locales
    (auto simp: sink_env_def sink_if_def SOCKADDR_MAX_SIZE_def returns_def owned_def)

definition sink_boot :: "(unit, unit) lsck" where
  "sink_boot = \<lparr>errno = ENOERR, inited = False, if_list = [], if_names = None,
     sock_table = replicate LSCK_NUM_SOCKET None, sock_heap = (\<lambda>_. None), idata_heap = (\<lambda>_. None), next_ptr = 0,
     fds = (\<lambda>_. None), signals = [], debug_level = 0,
     lsck_config = \<lparr>configdir = None, configdirset = False, configfile = None, configfileset = False\<rparr>, world = ()\<rparr>"

theorem calls_defined_witness:
  "\<exists>r st. run_call sink_env (Call_socket 2 1 0) sink_boot = Some (r, st) \<and> consistent {0} st"
proof -
  have "booted sink_boot"
    by (simp add: booted_def sink_boot_def fd_is_socket_def FSEXT_get_function_def)
  moreover have "(case init_debug sink_env sink_boot of None \<Rightarrow> False | Some _ \<Rightarrow> True)" by code_simp
  then have "args_ok sink_env (Call_socket 2 1 0) sink_boot"
    by (simp add: args_ok_def split: option.splits) (simp add: sink_boot_def)
  ultimately show ?thesis
    using calls_defined [OF sink_contract booted_consistent] by blast
qed

section \<open>Directions that are shut down\<close>

text \<open>The start of a call on the library with the Unix interface, which has no non-blocking check.\<close>

lemma unix_lsd_if:
  assumes "consistent {UNIX_IF} st" "sock_heap st p = Some l"
  shows "lsd_interface l = Some UNIX_IF" "lsd_if (unix_env os) l = Some (unix_if os)"
  using wf_sockD(1) [of "{UNIX_IF}" st p l] assms by (auto simp: consistent_def wf_sock_def lsd_if_def)

lemma unix_enter:
  assumes "consistent {UNIX_IF} st" "fd_to_lsd fd st = Some p"
  shows "lsck_enter (unix_env os) fd v k st = k p st"
proof -
  obtain l where "sock_heap st p = Some l" using assms by (auto simp: consistent_def elim: wf_fdD)
  then show ?thesis
    using assms(2) unix_lsd_if(2) [OF assms(1), of p l os] by (simp add: lsck_enter_def nonblocking_check_def)
qed

text \<open>On a connected stream socket that has been shut down for writing \<open>send\<close> fails with \<open>EPIPE\<close> and raises
  \<open>SIGPIPE\<close>; shut down for reading, \<open>recv\<close> reports the end of the stream and leaves the buffer alone.\<close>

theorem shutdown_effect:
  assumes "consistent {UNIX_IF} st" "fd_to_lsd fd st = Some p" "sock_heap st p = Some l"
    and "lsd_type l = SOCK_STREAM" "lsd_connected l"
  shows "(\<not> lsd_outbound l \<longrightarrow> send (unix_env os) fd (Some b) n fl st
        = Some (-1, st\<lparr>signals := SIGPIPE # signals st, errno := EPIPE\<rparr>))
    \<and> (\<not> lsd_inbound l \<longrightarrow> recv (unix_env os) fd (Some b) n fl st = Some ((0, Some b), st))"
  using assms(3-)
  by (simp add: send_def sendto_def recv_def unix_enter [OF assms(1,2)] fail_with_def)

theorem shutdown_effect_witness:
  "send (unix_env quiet_os) 3 (Some [1, 2]) 2 0 shut_state
     = Some (-1, shut_state\<lparr>signals := SIGPIPE # signals shut_state, errno := EPIPE\<rparr>)"
proof -
  have "(case fd_to_lsd 3 shut_state of Some p \<Rightarrow> (case sock_heap shut_state p of Some l \<Rightarrow>
      lsd_type l = SOCK_STREAM \<and> lsd_connected l \<and> \<not> lsd_outbound l | None \<Rightarrow> False) | None \<Rightarrow> False)"
    by code_simp
  then obtain p l where "fd_to_lsd 3 shut_state = Some p" "sock_heap shut_state p = Some l"
    "lsd_type l = SOCK_STREAM" "lsd_connected l" "\<not> lsd_outbound l"
    by (auto split: option.splits)
  then show ?thesis using shutdown_effect [OF shut_consistent] by blast
qed

text \<open>\<open>write\<close> on a socket never fails: whatever makes \<open>send\<close> return -1, the file system extension overwrites
  \<open>errno\<close> in its test and reports 0 bytes and \<open>EAGAIN\<close>.\<close>

theorem write_hides_error:
  assumes "send env fd b (size_of_int n) 0 st = Some (-1, st')"
  shows "fsext_write env fd b n st = Some ((0, NoOut), st'\<lparr>errno := EAGAIN\<rparr>)"
  by (simp add: fsext_write_def assms fail_with_def)

theorem write_hides_error_witness:
  "\<exists>st'. fsext_write (unix_env quiet_os) 3 (Some [1, 2]) 2 shut_state = Some ((0, NoOut), st'\<lparr>errno := EAGAIN\<rparr>)
     \<and> errno st' = EPIPE"
proof -
  have "(case send (unix_env quiet_os) 3 (Some [1, 2]) (size_of_int 2) 0 shut_state of
      Some (r, st') \<Rightarrow> r = -1 \<and> errno st' = EPIPE | None \<Rightarrow> False)"
    by code_simp
  then obtain st' where "send (unix_env quiet_os) 3 (Some [1, 2]) (size_of_int 2) 0 shut_state = Some (-1, st')"
    "errno st' = EPIPE"
    by (auto split: option.splits)
  then show ?thesis using write_hides_error by blast
qed

section \<open>Freed descriptors and full tables\<close>

lemma unix_close_never_fails: "runs False (unix_close os p st) (\<lambda>(r, _). r = 0)"
  by (auto simp: unix_close_def runs_def bind_eq_Some_conv Let_def split: option.splits)

text \<open>\<open>closesocket\<close> frees the socket but not its file descriptor, which still leads to the freed memory:
  the next call on it, \<open>close\<close> included, is undefined.\<close>

theorem closesocket_dangling:
  assumes "consistent {UNIX_IF} st" "fd_to_lsd fd st = Some p" "closesocket (unix_env os) fd st = Some (0, st')"
  shows "sock_heap st' p = None \<and> fd_to_lsd fd st' = Some p
    \<and> shutdown (unix_env os) fd how st' = None \<and> close_fd (unix_env os) fd st' = None"
proof -
  have "runs False (closesocket (unix_env os) fd st) (\<lambda>(r, s'). if r = 0
     then \<exists>p l s2 j h. fd_to_lsd fd st = Some p \<and> frame st s2 \<and> consistent {UNIX_IF} s2 \<and> sock_heap s2 p = Some l
       \<and> j < LSCK_NUM_SOCKET \<and> sock_table s2 ! j = Some p \<and> other_idata p h s2 \<and> s' = without j p h s2
     else frame st s' \<and> consistent {UNIX_IF} s')"
    by (rule unix.closesocket_post [OF assms(1)])
  then obtain s2 j h where s: "frame st s2" "st' = without j p h s2"
    using assms(2,3) by (auto simp: runs_def)
  then have fd: "fd_to_lsd fd st' = Some p" "sock_heap st' p = None"
    using assms(2) by (simp_all add: without_def)
  then have "lsck_enter (unix_env os) fd v k st' = None" for v :: int and k
    by (simp add: lsck_enter_def nonblocking_check_def)
  moreover have "FSEXT_get_function fd st' = Some SocketFsext"
    using fd(1) by (auto simp: fd_to_lsd_alt FSEXT_get_function_def split: if_splits)
  ultimately show ?thesis
    using fd by (simp add: shutdown_def close_fd_def fsext_close_def closesocket_def)
qed

theorem closesocket_dangling_witness:
  "\<exists>st'. closesocket (unix_env quiet_os) 3 (one_socket SOCK_STREAM) = Some (0, st')
     \<and> close_fd (unix_env quiet_os) 3 st' = None"
proof -
  have "(case closesocket (unix_env quiet_os) 3 (one_socket SOCK_STREAM) of Some (r, st') \<Rightarrow> r = 0 | None \<Rightarrow> False)"
    "(case fd_to_lsd 3 (one_socket SOCK_STREAM) of Some _ \<Rightarrow> True | None \<Rightarrow> False)"
    by code_simp+
  then obtain st' p where "closesocket (unix_env quiet_os) 3 (one_socket SOCK_STREAM) = Some (0, st')"
    "fd_to_lsd 3 (one_socket SOCK_STREAM) = Some p"
    by (auto split: option.splits)
  then show ?thesis
    using closesocket_dangling [OF one_socket_consistent] by blast
qed

text \<open>When all the slots of the table are in use, \<open>socket\<close> reads the slot behind its end before it looks at
  the index.\<close>

theorem full_table_over_read:
  assumes "inited st" "length (sock_table st) = LSCK_NUM_SOCKET" "None \<notin> set (sock_table st)"
    and "0 \<le> env_alloc_fd env st"
  shows "socket env domain type protocol st = None"
proof -
  have "scan_free (sock_table st) i = None" if "i \<le> LSCK_NUM_SOCKET" for i
    using that
  proof (induction "LSCK_NUM_SOCKET - i" arbitrary: i)
    case 0
    then show ?case using assms(2) by (subst scan_free.simps) (simp add: rd_def)
  next
    case (Suc n)
    then have i: "i < length (sock_table st)" using assms(2) by simp
    then have "sock_table st ! i \<noteq> None" using assms(3) by (metis nth_mem)
    then show ?case using Suc i assms(2) by (subst scan_free.simps) (simp add: rd_def)
  qed
  from this [of 0] show ?thesis
    using assms(1,4) by (simp add: socket_def socketx_def lsck_init_def FSEXT_alloc_fd_def Let_def free_index_def)
qed

theorem full_table_over_read_witness:
  "socket (unix_env quiet_os) AF_UNIX SOCK_DGRAM 0
     (ready_state\<lparr>sock_table := List.map Some [0..<LSCK_NUM_SOCKET]\<rparr>) = None"
proof -
  have "env_alloc_fd (unix_env quiet_os) (ready_state\<lparr>sock_table := List.map Some [0..<LSCK_NUM_SOCKET]\<rparr>) = 3"
    by (simp add: unix_env_def host_env_def alloc_fd_def ready_state_def boot_state_def quiet_os_def
        upt_rec [of 3 256])
  then show ?thesis
    by (intro full_table_over_read) (auto simp: ready_state_def)
qed

section \<open>Addresses\<close>

text \<open>The length of an address is only checked from below: \<open>connect\<close> on a datagram socket copies all the
  bytes it is told to into the 110 bytes of the peer name.\<close>

theorem connect_overflow:
  assumes "consistent {UNIX_IF} st" "fd_to_lsd fd st = Some p" "sock_heap st p = Some l"
    and "lsd_type l = SOCK_DGRAM" "lsd_family l = AF_UNIX" "lsd_blocking l" "sa_family a = Some AF_UNIX"
    and "SOCKADDR_MAX_SIZE < addrlen"
  shows "connect (unix_env os) fd (Some a) addrlen st = None"
proof -
  have "\<not> lsd_listening l" "length (lsd_peername l) = SOCKADDR_MAX_SIZE"
    using wf_sockD(1) [of _ st p l] assms(1,3,4) by (auto simp: consistent_def wf_sock_def)
  then show ?thesis
    using assms(3-) unix_lsd_if(2) [OF assms(1,3), of os]
    by (simp add: connect_def unix_enter [OF assms(1,2)] addrlen_ok_def unix_if_def unix_base_def unix_addrlen_check_def
        connect_dgram_def memcpy_def SOCKADDR_UN_SIZE_def SOCKADDR_MAX_SIZE_def)
qed

theorem connect_overflow_witness:
  "connect (unix_env quiet_os) 3 (Some name_s) 111 (one_socket SOCK_DGRAM) = None"
proof -
  have "(case fd_to_lsd 3 (one_socket SOCK_DGRAM) of Some p \<Rightarrow> (case sock_heap (one_socket SOCK_DGRAM) p of Some l \<Rightarrow>
      lsd_type l = SOCK_DGRAM \<and> lsd_family l = AF_UNIX \<and> lsd_blocking l | None \<Rightarrow> False) | None \<Rightarrow> False)"
    by code_simp
  moreover have "sa_family name_s = Some AF_UNIX" by (simp add: name_s_def sa_family_def rd_def)
  ultimately show ?thesis
    using connect_overflow [OF one_socket_consistent, of SOCK_DGRAM 3]
    by (auto simp: SOCKADDR_MAX_SIZE_def split: option.splits)
qed

section \<open>Starting and stopping the library\<close>

text \<open>A start that fails, because no interface could be used, is remembered as a success: the next call finds
  the library initialised, with an empty list in which no socket or pair finds an interface.\<close>

theorem init_failure_forgotten:
  assumes "consistent {UNIX_IF} st" "\<not> inited st" "lsck_init (unix_env os) st = Some (False, st')"
  shows "lsck_init (unix_env os) st' = Some (True, st') \<and> if_list st' = []
    \<and> find_pair_if (unix_env os) (if_list st') domain type protocol = None
    \<and> choose_if (unix_env os) (if_list st') domain type protocol None = None"
proof -
  have "runs False (lsck_init (unix_env os) st) (\<lambda>(ok, s'). consistent {UNIX_IF} s' \<and> inited s'
      \<and> (ok \<longleftrightarrow> if_list s' \<noteq> []) \<and> same_sockets (st\<lparr>inited := True\<rparr>) s')"
    by (rule unix.lsck_init_post [OF assms(1,2)]) simp
  then have "inited st'" "if_list st' = []" using assms(3) by (simp_all add: runs_def)
  then show ?thesis by (simp add: lsck_init_def find_pair_if_def choose_if_def)
qed

text \<open>A driver that refuses to be installed.\<close>

definition dead_os :: "nat unix_os" where
  "dead_os = quiet_os\<lparr>os_install := \<lambda>w. (False, w)\<rparr>"

theorem init_failure_forgotten_witness:
  "\<exists>st'. lsck_init (unix_env dead_os) boot_state = Some (False, st') \<and> lsck_init (unix_env dead_os) st' = Some (True, st')"
proof -
  have "(case lsck_init (unix_env dead_os) boot_state of Some (ok, st') \<Rightarrow> \<not> ok | None \<Rightarrow> False)" by code_simp
  then obtain st' where s: "lsck_init (unix_env dead_os) boot_state = Some (False, st')"
    by (auto split: option.splits)
  have "\<not> inited boot_state" by (simp add: boot_state_def)
  then show ?thesis
    using s init_failure_forgotten [OF booted_consistent [OF boot_booted] _ s] by blast
qed

text \<open>\<open>socketpair\<close> does not start the library: as the first call of a program it fails with \<open>EOPNOTSUPP\<close>,
  whatever the interfaces support.\<close>

lemma socketpair_uninitialised:
  assumes "booted st"
  shows "socketpair env domain type protocol st = Some ((-1, None), st\<lparr>errno := EOPNOTSUPP\<rparr>)"
  using assms by (simp add: booted_def socketpair_def find_pair_if_def fail_with_def)

text \<open>The loop of \<open>__lsck_uninit\<close> over the table: behind slot \<open>i\<close> nothing is left.\<close>

definition emptied :: "nat \<Rightarrow> ('d, 'w) lsck \<Rightarrow> bool" where
  "emptied i st \<longleftrightarrow> (\<forall>j < i. sock_table st ! j = None)"

lemma unix_close_fd_zero:
  assumes "consistent {UNIX_IF} st" "fd_is_socket fd st"
  shows "runs False (close_fd (unix_env os) fd st) (\<lambda>(r, s'). r = 0)"
proof -
  have c: "if_close (unix_if os) = Some (unix_close os)" by (simp add: unix_if_def unix_base_def)
  obtain p where p: "fd_to_lsd fd st = Some p" using assms by (auto simp: consistent_def wf_state_def)
  have "runs False (closesocket (unix_env os) fd st) (\<lambda>(r, s'). r = 0)"
  proof -
    obtain l where l: "sock_heap st p = Some l" using assms(1) p by (auto simp: consistent_def elim: wf_fdD)
    have "runs False (unix_close os p st) (\<lambda>x. runs False
        (case x of (ret, st) \<Rightarrow> if ret = 0 then do {
         lsd \<leftarrow> sock_heap st p; st \<leftarrow> free_idata (lsd_idata lsd) st;
         st \<leftarrow> upd_lsd p (\<lambda>l. l\<lparr>lsd_idata := None\<rparr>) st; st \<leftarrow> release_lsd p st; Some (ret, st)
       } else Some (ret, st)) (\<lambda>(r, s'). r = 0))"
      by (rule runs_mono [OF unix_close_never_fails]) (auto simp: runs_def bind_eq_Some_conv split: option.split)
    then show ?thesis
      using l unix_lsd_if(2) [OF assms(1) l, of os]
      by (simp add: closesocket_def unix_enter [OF assms(1) p] with_op_def c)
  qed
  then have "runs False (fsext_close (unix_env os) fd st) (\<lambda>(r, s'). r = 0)"
    unfolding fsext_close_def runs_simps by (rule runs_mono) auto
  then show ?thesis
    using assms(2) by (auto simp: close_fd_def fd_to_lsd_alt FSEXT_get_function_def)
qed

lemma close_all_empties:
  assumes "consistent {UNIX_IF} st" "emptied i st" "i + n = LSCK_NUM_SOCKET"
  shows "runs False (close_all (unix_env os) i n st)
    (\<lambda>s. consistent {UNIX_IF} s \<and> emptied LSCK_NUM_SOCKET s \<and> if_list s = if_list st)"
  using assms
proof (induction n arbitrary: i st)
  case 0
  then show ?case by simp
next
  case (Suc n)
  have len: "length (sock_table st) = LSCK_NUM_SOCKET" using Suc.prems(1) by (simp add: consistent_def wf_state_def)
  then have rd: "rd (sock_table st) i = Some (sock_table st ! i)" using Suc.prems(3) by (simp add: rd_def)
  have step: "emptied (i + 1) s" if "emptied i s" "sock_table s ! i = None" for s :: "'a ustate"
    using that by (auto simp: emptied_def less_Suc_eq)
  show ?case
  proof (cases "sock_table st ! i")
    case None
    then show ?thesis using Suc.IH [OF Suc.prems(1) step [OF Suc.prems(2) None]] Suc.prems(3) by (simp add: rd)
  next
    case (Some p)
    have "Some p \<in> set (sock_table st)" using Some len Suc.prems(3) by (metis add_lessD1 less_add_same_cancel1 nth_mem zero_less_Suc)
    then obtain l where l: "sock_heap st p = Some l" using Suc.prems(1) by (auto simp: consistent_def wf_state_def)
    then have fd: "fd_to_lsd (lsd_fd l) st = Some p" using wf_sockD(3) Suc.prems(1) by (auto simp: consistent_def)
    then have sk: "fd_is_socket (lsd_fd l) st" by (auto simp: fd_to_lsd_def split: if_splits)
    have "runs False (close_fd (unix_env os) (lsd_fd l) st) (\<lambda>(r, s). consistent {UNIX_IF} s \<and> removed st (lsd_fd l) p s)"
    proof -
      have a: "runs False (close_fd (unix_env os) (lsd_fd l) st) (\<lambda>(r, s'). consistent {UNIX_IF} s' \<and>
         (if r = 0 then \<exists>p. fd_to_lsd (lsd_fd l) st = Some p \<and> removed st (lsd_fd l) p s' else frame st s'))"
        by (rule unix.close_fd_post [OF Suc.prems(1) sk])
      show ?thesis using a unix_close_fd_zero [OF Suc.prems(1) sk, of os] fd
        by (auto simp: runs_def split: option.splits)
    qed
    moreover have "runs False (do { q \<leftarrow> rd (sock_table s) i; s \<leftarrow> free_lsd q s; close_all (unix_env os) (i + 1) n s })
        (\<lambda>s. consistent {UNIX_IF} s \<and> emptied LSCK_NUM_SOCKET s \<and> if_list s = if_list st)"
      if s: "consistent {UNIX_IF} s" "removed st (lsd_fd l) p s" for s
    proof -
      obtain j where j: "j < LSCK_NUM_SOCKET" "sock_table st ! j = Some p" "sock_table s = (sock_table st)[j := None]"
        "if_list s = if_list st" using s(2) by (auto simp: removed_def)
      have "j = i" using slots_distinctD [of "sock_table st" j i p] j Some len Suc.prems(1,3)
        by (auto simp: consistent_def wf_state_def)
      then have e: "sock_table s ! i = None" "emptied i s" "rd (sock_table s) i = Some None"
        using j len Suc.prems(2,3) by (auto simp: emptied_def rd_def)
      show ?thesis
        using Suc.IH [OF s(1) step [OF e(2,1)]] Suc.prems(3) j(4) by (simp add: e(3) free_lsd_def)
    qed
    ultimately show ?thesis
      by (auto simp: rd Some l elim!: runs_mono)
  qed
qed

text \<open>C17: \<open>__lsck_uninit\<close> closes every socket: no descriptor, no slot and no socket file descriptor is left, and
  nothing is freed twice on the way.\<close>

theorem uninit_closes_all:
  assumes "consistent {UNIX_IF} st" "inited st" "lsck_uninit (unix_env os) st = Some st'"
  shows "consistent {UNIX_IF} st' \<and> dom (sock_heap st') = {} \<and> sock_table st' = replicate LSCK_NUM_SOCKET None
    \<and> (\<forall>fd. \<not> fd_is_socket fd st')"
proof -
  have ci: "call_ifs (unix_env os) if_preuninit is s = Some s" "call_ifs (unix_env os) if_uninit is s = Some s" for "is" s
    by (induction "is") (simp_all add: unix_if_def unix_base_def)
  have "runs False (lsck_uninit (unix_env os) st)
      (\<lambda>s. consistent {UNIX_IF} s \<and> emptied LSCK_NUM_SOCKET s \<and> if_list s = if_list st)"
    using close_all_empties [OF assms(1), of 0 LSCK_NUM_SOCKET os] assms(2)
    by (simp add: lsck_uninit_def ci emptied_def)
  then have c: "consistent {UNIX_IF} st'" and e: "emptied LSCK_NUM_SOCKET st'" using assms(3) by (simp_all add: runs_def)
  then have t: "sock_table st' = replicate LSCK_NUM_SOCKET None"
    by (intro nth_equalityI) (simp_all add: emptied_def consistent_def wf_state_def)
  then have "sock_heap st' p = None" for p
    using c LSCK_NUM_SOCKET_def by (auto simp: consistent_def wf_state_def)
  moreover have "\<not> fd_is_socket fd st'" for fd
    using c calculation by (auto simp: consistent_def wf_state_def)
  ultimately show ?thesis using c t by auto
qed

lemma close_all_free:
  "(\<And>j. i \<le> j \<Longrightarrow> j < i + n \<Longrightarrow> rd (sock_table st) j = Some None) \<Longrightarrow> close_all env i n st = Some st"
  by (induction n arbitrary: i) (simp_all add: free_lsd_def)

theorem uninit_closes_all_witness:
  "\<exists>st'. lsck_uninit (unix_env quiet_os) (one_socket SOCK_STREAM) = Some st'
     \<and> (\<forall>fd. \<not> fd_is_socket fd st') \<and> fd_is_socket 3 (one_socket SOCK_STREAM)"
proof -
  let ?st = "one_socket SOCK_STREAM" and ?env = "unix_env quiet_os"
  have i: "inited ?st \<and> fd_is_socket 3 ?st" "fd_to_lsd 3 ?st = Some 2"
    "sock_table ?st = Some 2 # replicate 255 None"
    by code_simp+
  have "(case close_fd ?env 3 ?st of Some (r, s) \<Rightarrow> r = 0 | None \<Rightarrow> False)" by code_simp
  then obtain s where s: "close_fd ?env 3 ?st = Some (0, s)" by (auto split: option.splits)
  have "runs False (close_fd ?env 3 ?st) (\<lambda>(r, s'). consistent {UNIX_IF} s' \<and>
     (if r = 0 then \<exists>p. fd_to_lsd 3 ?st = Some p \<and> removed ?st 3 p s' else frame ?st s'))"
    using i by (intro unix.close_fd_post one_socket_consistent) simp_all
  then have r: "removed ?st 3 2 s" using s i(2) by (simp add: runs_def)
  then obtain l j where l: "sock_heap ?st 2 = Some l" "lsd_fd l = 3" and j: "j < LSCK_NUM_SOCKET"
    "sock_table ?st ! j = Some 2" "sock_table s = (sock_table ?st)[j := None]" by (auto simp: removed_def)
  have "j = 0" using j(1,2) unfolding i(3) by (cases j) (simp_all add: LSCK_NUM_SOCKET_def)
  then have t: "sock_table s = replicate 256 None" using j(3) i(3) by (simp add: numeral_eq_Suc)
  have "close_all ?env 1 255 s = Some s" by (rule close_all_free) (simp add: t rd_def)
  then have "close_all ?env 0 (Suc 255) ?st = Some s"
    using l s by (subst close_all.simps) (simp add: i(3) rd_def t free_lsd_def)
  moreover have "call_ifs ?env if_preuninit is s = Some s" "call_ifs ?env if_uninit is s = Some s" for "is" s
    by (induction "is") (simp_all add: unix_if_def unix_base_def)
  ultimately have "lsck_uninit ?env ?st = Some s"
    using i(1) by (simp add: lsck_uninit_def LSCK_NUM_SOCKET_def)
  then show ?thesis
    using uninit_closes_all [OF one_socket_consistent, of SOCK_STREAM quiet_os] i(1) by auto
qed

section \<open>Owners and interface names\<close>

text \<open>The owner of a socket cannot be set or read with the Unix interface: \<open>F_SETOWN\<close> looks at the process
  id where it should look at the command, and both calls fail with \<open>EINVAL\<close>. \<open>F_GETFL\<close> reports \<open>O_NONBLOCK\<close>
  for exactly the sockets that block.\<close>

theorem fcntl_on_unix:
  assumes "consistent {UNIX_IF} st" "fd_to_lsd fd st = Some p" "sock_heap st p = Some l"
    and "pid \<notin> {F_GETOWN_num, F_SETOWN_num}"
  shows "fcntlsocket (unix_env os) fd F_SETOWN pid st = Some (-1, st\<lparr>errno := EINVAL\<rparr>)
    \<and> fcntlsocket (unix_env os) fd F_GETOWN 0 st = Some (-1, st\<lparr>errno := EINVAL\<rparr>)
    \<and> fcntlsocket (unix_env os) fd F_GETFL 0 st = Some (if lsd_blocking l then os_O_NONBLOCK os else 0, st)"
  using assms(3,4) unix_lsd_if(2) [OF assms(1,3), of os]
  by (simp add: fcntlsocket_def unix_enter [OF assms(1,2)] unix_if_def unix_base_def unix_fcntl_def
      fcntlsocket_emulated_def fail_with_def)

theorem fcntl_on_unix_witness:
  "fcntlsocket (unix_env quiet_os) 3 F_SETOWN 1 conn_state = Some (-1, conn_state\<lparr>errno := EINVAL\<rparr>)
   \<and> fcntlsocket (unix_env quiet_os) 3 F_GETFL 0 conn_state = Some (8, conn_state)"
proof -
  have "(case fd_to_lsd 3 conn_state of Some p \<Rightarrow> (case sock_heap conn_state p of Some l \<Rightarrow> lsd_blocking l | None \<Rightarrow> False)
     | None \<Rightarrow> False)" by code_simp
  moreover have "os_O_NONBLOCK quiet_os = 8" by (simp add: quiet_os_def)
  ultimately show ?thesis
    using fcntl_on_unix [OF conn_consistent, of 3 _ _ 1 quiet_os] by (auto split: option.splits)
qed

lemma name_index_found:
  "name_index ns i n = k \<Longrightarrow> k \<noteq> 0 \<Longrightarrow> i \<le> k \<and> k < i + length ns \<and> ns ! (k - i) = Some n"
proof (induction ns i n rule: name_index.induct)
  case (3 m ns i n)
  then show ?case by (cases "m = n") (auto simp: nth_Cons' Suc_diff_le)
qed auto

text \<open>A name that \<open>if_nametoindex\<close> finds comes back from \<open>if_indextoname\<close> with its index, and index 0 or one
  above the number of interfaces has no name.\<close>

theorem if_name_index:
  assumes "if_nametoindex env (Some n) st = Some (i, st')" "i \<noteq> 0" "length n < room"
    and "if_names st = None" "length (if_list st) \<le> LSCK_MAX_IF"
  shows "if_indextoname env i room st' = Some (Some n, st')
    \<and> if_indextoname env 0 room st' = Some (None, st'\<lparr>errno := ENXIO\<rparr>)
    \<and> (\<forall>k. of_nat (length (if_list st)) < k \<longrightarrow> if_indextoname env k room st' = Some (None, st'\<lparr>errno := ENXIO\<rparr>))"
proof -
  let ?ns = "List.map (\<lambda>i. if_name (env_if env i)) (if_list st)"
  have st': "st' = st\<lparr>if_names := Some ?ns\<rparr>" and i: "i = of_nat (name_index ?ns 1 n)"
    using assms(1,4) by (auto simp: if_nametoindex_def build_if_nameindex_def Let_def)
  have b: "build_if_nameindex env st' = (?ns, st')" by (simp add: build_if_nameindex_def st')
  have nz: "name_index ?ns 1 n \<noteq> 0"
  proof
    assume z: "name_index ?ns 1 n = 0"
    have "i = 0" unfolding i z by simp
    then show False using assms(2) by blast
  qed
  have f: "name_index ?ns 1 n \<le> length ?ns" "?ns ! (name_index ?ns 1 n - 1) = Some n"
    using name_index_found [OF refl nz] by auto
  have m: "length ?ns < 2 ^ 32" using assms(5) by (simp add: LSCK_MAX_IF_def)
  have ui: "unat i = name_index ?ns 1 n"
    unfolding i unat_of_nat using f(1) m by simp
  have "if_indextoname env i room st' = Some (Some n, st')"
    using f assms(2,3) by (simp add: if_indextoname_def b ui)
  moreover have "if_indextoname env k room st' = Some (None, st'\<lparr>errno := ENXIO\<rparr>)"
    if "k = 0 \<or> of_nat (length (if_list st)) < k" for k
  proof -
    have "length (if_list st) < unat k" if "of_nat (length (if_list st)) < k"
      using that m by (simp add: word_less_nat_alt unat_of_nat)
    then show ?thesis using that by (auto simp: if_indextoname_def b fail_with_def)
  qed
  ultimately show ?thesis by blast
qed

theorem if_name_index_witness:
  "\<exists>st'. if_nametoindex (unix_env quiet_os) (Some ''Unix->mailslot'') ready_state = Some (1, st')
     \<and> if_indextoname (unix_env quiet_os) 1 16 st' = Some (Some ''Unix->mailslot'', st')"
proof -
  have "(case if_nametoindex (unix_env quiet_os) (Some ''Unix->mailslot'') ready_state of
      Some (i, st') \<Rightarrow> i = 1 | None \<Rightarrow> False)" by code_simp
  then obtain st' where "if_nametoindex (unix_env quiet_os) (Some ''Unix->mailslot'') ready_state = Some (1, st')"
    by (auto split: option.splits)
  then show ?thesis
    using if_name_index [of "unix_env quiet_os" "''Unix->mailslot''" ready_state 1 st' 16]
    by (auto simp: ready_state_def boot_state_def LSCK_MAX_IF_def)
qed

section \<open>Vectors\<close>

lemma scatter_fills:
  assumes "length d = (\<Sum>x\<leftarrow>iov. unat (snd x))" "length d < 2 ^ 32"
    and "\<forall>x \<in> set iov. unat (snd x) \<le> length (fst x)"
  shows "\<exists>r. scatter d (of_nat (length d)) iov = Some r \<and> gather r = Some d \<and> List.map snd r = List.map snd iov"
  using assms
proof (induction iov arbitrary: d)
  case Nil
  then show ?case by simp
next
  case (Cons x iov)
  obtain b n where x: "x = (b, n)" by (cases x)
  have len: "unat n + (\<Sum>x\<leftarrow>iov. unat (snd x)) = length d" using Cons.prems(1) by (simp add: x)
  then have le: "unat n \<le> length d" by simp
  then have w: "\<not> of_nat (length d) < n" using Cons.prems(2)
    by (simp add: word_less_nat_alt unat_of_nat not_less)
  then have m: "(if n < of_nat (length d) then n else of_nat (length d)) = n" by auto
  have rest: "of_nat (length d) - n = of_nat (length (drop (unat n) d))"
    using le by (simp add: of_nat_diff)
  have nb: "unat n \<le> length b" using Cons.prems(3) by (simp add: x)
  obtain r where r: "scatter (drop (unat n) d) (of_nat (length (drop (unat n) d))) iov = Some r"
    "gather r = Some (drop (unat n) d)" "List.map snd r = List.map snd iov"
    using Cons.IH [of "drop (unat n) d"] len Cons.prems by auto
  have "memcpy b d (unat n) = Some (take (unat n) d @ drop (unat n) b)"
    using nb le by (simp add: memcpy_def)
  then show ?case
    using r nb le by (auto simp: x m rest Let_def simp del: of_nat_diff length_drop)
qed

lemma iov_total_sum:
  "(\<Sum>x\<leftarrow>iov. unat (snd x)) < 2 ^ 32 \<Longrightarrow> unat (iov_total iov) = (\<Sum>x\<leftarrow>iov. unat (snd x))"
proof -
  have "foldl (\<lambda>n b. n + snd b) w iov = w + of_nat ((\<Sum>x\<leftarrow>iov. unat (snd x)))" for w :: u32
    by (induction iov arbitrary: w) auto
  then show "(\<Sum>x\<leftarrow>iov. unat (snd x)) < 2 ^ 32 \<Longrightarrow> ?thesis"
    by (simp add: iov_total_def unat_of_nat)
qed

lemma gather_concat:
  "\<forall>x \<in> set iov. unat (snd x) \<le> length (fst x)
   \<Longrightarrow> gather iov = Some (concat (List.map (\<lambda>(b, n). take (unat n) b) iov))"
proof (induction iov)
  case (Cons x iov)
  then show ?case by (cases x) simp
qed simp

lemma readv_and_writev:
  assumes "iov \<noteq> []" "length iov \<le> m" "\<forall>x \<in> set iov. unat (snd x) \<le> length (fst x)"
    and "(\<Sum>x\<leftarrow>iov. unat (snd x)) = sz" "sz \<le> SSIZE_MAX"
    and "malloc_ptr env st = (Some q, s)"
  shows "writev env m write fd iov (int (length iov)) st
       = write fd (concat (List.map (\<lambda>(b, n). take (unat n) b) iov)) sz s"
    and "read fd sz s = Some ((int sz, d), s') \<Longrightarrow> length d = sz
       \<Longrightarrow> \<exists>r. readv env m read fd iov (int (length iov)) st = Some ((int sz, r), s')
             \<and> List.map snd r = List.map snd iov \<and> concat (List.map (\<lambda>(b, n). take (unat n) b) r) = d"
proof -
  have b: "sz < 2 ^ 32" using assms(5) by (simp add: SSIZE_MAX_def)
  then have t: "unat (iov_total iov) = sz" using iov_total_sum [of iov] assms(4) by simp
  have len: "length (concat (List.map (\<lambda>(b, n). take (unat n) b) iov)) \<le> sz"
  proof -
    have "length (concat (List.map (\<lambda>(b, n). take (unat n) b) v)) \<le> (\<Sum>x\<leftarrow>v. unat (snd x))" for v :: "(u8 list \<times> u32) list"
      by (induction v) (auto simp: min_def)
    from this [of iov] show ?thesis unfolding assms(4) .
  qed
  show "writev env m write fd iov (int (length iov)) st
       = write fd (concat (List.map (\<lambda>(b, n). take (unat n) b) iov)) sz s"
    using assms(1,2,5,6) gather_concat [OF assms(3)] len
    by (simp add: writev_def t Let_def not_less)
  assume d: "read fd sz s = Some ((int sz, d), s')" "length d = sz"
  obtain r where r: "scatter d (of_nat (length d)) iov = Some r" "gather r = Some d" "List.map snd r = List.map snd iov"
    using scatter_fills [of d iov] assms(3,4) b d(2) by auto
  have "gather r = Some g \<Longrightarrow> g = concat (List.map (\<lambda>(b, n). take (unat n) b) r)" for g r
    by (induction r arbitrary: g rule: gather.induct) (auto simp: bind_eq_Some_conv split: if_splits)
  then have "concat (List.map (\<lambda>(b, n). take (unat n) b) r) = d" using r(2) by simp
  moreover have "readv env m read fd iov (int (length iov)) st = Some ((int sz, r), s')"
    using assms(1,2,5,6) d r(1) by (simp add: readv_def t Let_def)
  ultimately show "\<exists>r. readv env m read fd iov (int (length iov)) st = Some ((int sz, r), s')
             \<and> List.map snd r = List.map snd iov \<and> concat (List.map (\<lambda>(b, n). take (unat n) b) r) = d"
    using r(3) by blast
qed

text \<open>C34: \<open>writev\<close> hands the buffers of a vector to \<open>write\<close> as one, in order; and when \<open>read\<close> returns that many
  bytes, \<open>readv\<close> distributes them so that the buffers hold them in order.\<close>

theorem readv_writev:
  assumes "iov \<noteq> []" "length iov \<le> m" "\<forall>x \<in> set iov. unat (snd x) \<le> length (fst x)"
    and "(\<Sum>x\<leftarrow>iov. unat (snd x)) = sz" "sz \<le> SSIZE_MAX"
    and "malloc_ptr env st = (Some q, s)"
  shows "writev env m write fd iov (int (length iov)) st
       = write fd (concat (List.map (\<lambda>(b, n). take (unat n) b) iov)) sz s
    \<and> (read fd sz s = Some ((int sz, d), s') \<and> length d = sz
       \<longrightarrow> (\<exists>r. readv env m read fd iov (int (length iov)) st = Some ((int sz, r), s')
             \<and> List.map snd r = List.map snd iov \<and> concat (List.map (\<lambda>(b, n). take (unat n) b) r) = d))"
  using readv_and_writev [OF assms] by blast

theorem readv_writev_witness:
  "\<exists>r. readv sink_env 16 (\<lambda>fd n st. Some ((int n, [1, 2, 3]), st)) 3 [([9, 9, 9], 2), ([8], 1)] 2 sink_boot
       = Some ((3, r), sink_boot\<lparr>next_ptr := 1\<rparr>) \<and> concat (List.map (\<lambda>(b, n). take (unat n) b) r) = [1, 2, 3]"
  using readv_writev [of "[([9, 9, 9], 2), ([8], 1)]" 16 3 sink_env sink_boot 0 "sink_boot\<lparr>next_ptr := 1\<rparr>" _ 3
      "\<lambda>fd n st. Some ((int n, [1, 2, 3]), st)" "[1, 2, 3]" "sink_boot\<lparr>next_ptr := 1\<rparr>"]
  by (auto simp: malloc_ptr_def sink_env_def sink_boot_def SSIZE_MAX_def)

end
