(* ===== verification/Unix_Props.thy ===== *)
theory Unix_Props
  imports Call_Props
begin

text \<open>
  The properties of the Unix domain interface: its contract, the messages on a mailslot, what the two sides
  of a stream make of them, and names.
\<close>

section \<open>The contract\<close>

text \<open>C8: the Unix domain interface keeps the contract of the library, on every operation: whatever the driver
  does, no operation breaks the agreement of table, heap and file descriptors or the ownership of interface
  data, and none changes a socket other than as a call on it may.\<close>

theorem unix_contract: "interface_contract (unix_env os) {UNIX_IF} False"
  by (rule unix.interface_contract_axioms)

section \<open>Headers\<close>

lemma le16_le16_bytes: "le16 (a @ le16_bytes w @ b) (length a) = Some w"
proof -
  have "(ucast (ucast w :: u8) OR push_bit 8 (ucast (ucast (drop_bit 8 w) :: u8)) :: u16) = w"
    by (rule bit_word_eqI) (auto simp: bit_simps)
  then show ?thesis
    by (simp add: le16_def le16_bytes_def nth_append rd_def)
qed

lemma bytes_length [simp]:
  "length (le32_bytes w) = 4" "length (le16_bytes v) = 2" "length (secret_bytes s) = 8" "length (header_bytes h) = 20"
  by (simp_all add: le32_bytes_def le16_bytes_def secret_bytes_def header_bytes_def)

lemma header_bytes_read: "header_of (header_bytes h @ x) = Some h"
proof -
  let ?b = "header_bytes h @ x"
  have "le32 ?b 2 = Some (secret_n (hd_secret h))"
    using le32_le32_bytes [of "[hd_version h, hd_type h]" "secret_n (hd_secret h)"]
    by (simp add: header_bytes_def secret_bytes_def numeral_eq_Suc)
  moreover have "le32 ?b 6 = Some (secret_pid (hd_secret h))"
    using le32_le32_bytes [of "[hd_version h, hd_type h] @ le32_bytes (secret_n (hd_secret h))" "secret_pid (hd_secret h)"]
    by (simp add: header_bytes_def secret_bytes_def numeral_eq_Suc)
  moreover have "le32 ?b 10 = Some (hd_seq_start h)"
    using le32_le32_bytes [of "[hd_version h, hd_type h] @ secret_bytes (hd_secret h)" "hd_seq_start h"]
    by (simp add: header_bytes_def numeral_eq_Suc)
  moreover have "le32 ?b 14 = Some (hd_seq_end h)"
    using le32_le32_bytes [of "[hd_version h, hd_type h] @ secret_bytes (hd_secret h) @ le32_bytes (hd_seq_start h)" "hd_seq_end h"]
    by (simp add: header_bytes_def numeral_eq_Suc)
  moreover have "le16 ?b 18 = Some (hd_offset h)"
    using le16_le16_bytes [of "[hd_version h, hd_type h] @ secret_bytes (hd_secret h) @ le32_bytes (hd_seq_start h)
        @ le32_bytes (hd_seq_end h)" "hd_offset h"]
    by (simp add: header_bytes_def numeral_eq_Suc)
  moreover have "rd ?b 0 = Some (hd_version h)" "rd ?b 1 = Some (hd_type h)"
    by (simp_all add: header_bytes_def rd_def)
  ultimately show ?thesis by (simp add: header_of_def)
qed

text \<open>The header of a message is 20 bytes and is read back from them, whatever follows; so two headers have
  the same bytes only when they are equal.\<close>

theorem header_roundtrip:
  "length (header_bytes h) = HEADER_SIZE \<and> header_of (header_bytes h @ x) = Some h
   \<and> (header_bytes h = header_bytes g \<longleftrightarrow> h = g)"
proof -
  have "h = g" if "header_bytes h = header_bytes g"
    using that header_bytes_read [of h "[]"] header_bytes_read [of g "[]"] by simp
  then show ?thesis by (auto simp: header_bytes_read HEADER_SIZE_def)
qed

section \<open>Names of local mailslots\<close>

lemma hex_digit_code: "n < 16 \<Longrightarrow> unat (hex_digit n) = (if unat n < 10 then unat n + 48 else unat n + 87)"
  by (simp add: hex_digit_def word_less_nat_alt unat_word_ariths unsigned_ucast_eq take_bit_nat_eq_self)

lemma hex_digit_inj: "a < 16 \<Longrightarrow> b < 16 \<Longrightarrow> hex_digit a = hex_digit b \<Longrightarrow> a = b"
  using hex_digit_code [of a] hex_digit_code [of b]
  by (auto simp: word_less_nat_alt word_unat_eq_iff split: if_splits)

text \<open>The eight hexadecimal digits that end the name of a local mailslot determine the random number they
  are made of, so two random names are equal only when the numbers are; no digit is a slash or a nul.\<close>

lemma hex08_distinct:
  "length (hex08 a) = 8 \<and> (hex08 a = hex08 b \<longleftrightarrow> a = b) \<and> 0 \<notin> set (hex08 a) \<and> 47 \<notin> set (hex08 a)"
proof -
  have lt: "drop_bit k w AND 0xf < (16 :: u32)" for k w
    by (rule le_less_trans [OF word_and_le1]) simp
  have inj: "a = b" if "hex08 a = hex08 b"
  proof (rule bit_word_eqI)
    fix n assume n: "n < LENGTH(32)"
    have "hex08 w ! (7 - n div 4) = hex_digit (drop_bit (4 * (n div 4)) w AND 0xf)" for w
    proof -
      have d: "n div 4 \<le> 7" using n by simp
      then have "[0..<8] ! (7 - n div 4) = 7 - n div 4" by (subst nth_upt) simp_all
      moreover have "28 - 4 * (7 - n div 4) = 4 * (n div 4)" using d by simp
      ultimately show ?thesis by (simp add: hex08_def)
    qed
    then have "drop_bit (4 * (n div 4)) a AND 0xf = drop_bit (4 * (n div 4)) b AND 0xf"
      using hex_digit_inj [OF lt lt] that by metis
    then have "bit (drop_bit (4 * (n div 4)) a AND 0xf) (n mod 4) = bit (drop_bit (4 * (n div 4)) b AND 0xf) (n mod 4)" by simp
    moreover have "(0xf :: u32) = mask 4" by (simp add: mask_eq_exp_minus_1)
    moreover have "n mod 4 < 32" by (rule less_le_trans [OF mod_less_divisor]) simp_all
    ultimately show "bit a n = bit b n" using n by (simp add: bit_simps)
  qed
  have "x \<noteq> 0 \<and> x \<noteq> 47" if "x \<in> set (hex08 a)" for x
  proof -
    have "\<exists>i. x = hex_digit (drop_bit (28 - 4 * i) a AND 0xf)"
      using that unfolding hex08_def set_map image_iff by blast
    then obtain d where d: "x = hex_digit d" "d < 16" using lt by blast
    then have "48 \<le> unat x" using hex_digit_code [of d] by simp
    then show ?thesis by auto
  qed
  then show ?thesis using inj by (auto simp: hex08_def)
qed

section \<open>Sending on a stream\<close>

lemma usock_of_simps [simp]:
  "usock_of p (set_driver w st) = usock_of p st"
  "usock_of p (st\<lparr>errno := e\<rparr>) = usock_of p st"
  "usock_of p (st\<lparr>world := wd\<rparr>) = usock_of p st"
  by (simp_all add: usock_of_def set_driver_def)

lemma driver_simps [simp]:
  "driver (world (set_driver w st)) = w" "driver (world (st\<lparr>errno := e\<rparr>)) = driver (world st)"
  "stream_buf (world (set_driver w st)) = stream_buf (world st)" "sock_heap (set_driver w st) = sock_heap st"
  by (simp_all add: set_driver_def)

text \<open>Two sockets with data of their own.\<close>

definition apart :: "nat \<Rightarrow> nat \<Rightarrow> 'w ustate \<Rightarrow> bool" where
  "apart p q st \<longleftrightarrow> (\<exists>l m d e. sock_heap st p = Some l \<and> sock_heap st q = Some m \<and> lsd_idata l = Some d
     \<and> lsd_idata m = Some e \<and> d \<noteq> e)"

text \<open>What I/O on the socket \<open>p\<close> leaves as it is.\<close>

definition same_but :: "nat \<Rightarrow> 'w ustate \<Rightarrow> 'w ustate \<Rightarrow> bool" where
  "same_but p st st' \<longleftrightarrow> sock_heap st' = sock_heap st \<and> (\<forall>q. apart p q st \<longrightarrow> usock_of q st' = usock_of q st)"

lemma apart_same: "sock_heap st' = sock_heap st \<Longrightarrow> apart p q st' = apart p q st"
  by (simp add: apart_def)

lemma same_but_trans: "same_but p st s \<Longrightarrow> same_but p s st' \<Longrightarrow> same_but p st st'"
  using apart_same [of s st] by (auto simp: same_but_def)

lemma same_but_driver: "same_but p st (set_driver w st)"
  by (simp add: same_but_def)

lemma upd_usock_Some:
  assumes "usock_of p st = Some u"
  shows "\<exists>st'. upd_usock p f st = Some st' \<and> usock_of p st' = Some (f u) \<and> world st' = world st \<and> same_but p st st'"
proof -
  obtain l d where "sock_heap st p = Some l" "lsd_idata l = Some d" "idata_heap st d = Some u"
    using assms by (auto simp: usock_of_def bind_eq_Some_conv)
  then show ?thesis
    by (intro exI [of _ "st\<lparr>idata_heap := (idata_heap st)(d \<mapsto> f u)\<rparr>"])
      (auto simp: upd_usock_def usock_of_def same_but_def apart_def)
qed

text \<open>
  The calls of \<open>write\<close> a run has made on the descriptor \<open>fd\<close>, each with the bytes handed over and the result, and
  the states of the driver before the first and after the last of them.
\<close>

inductive written :: "'w unix_os \<Rightarrow> int \<Rightarrow> (u8 list \<times> int) list \<Rightarrow> 'w \<Rightarrow> 'w \<Rightarrow> bool"
  for os fd where
  none: "written os fd [] w w"
| call: "os_write os fd b w = Some (r, e, w') \<Longrightarrow> written os fd bs w' w'' \<Longrightarrow> written os fd ((b, r) # bs) w w''"

text \<open>
  The messages of a stream, the first of them with the sequence number \<open>s\<close>: each fits a mailslot message, carries
  the secret \<open>c\<close>, the numbers of its first and its last byte and at least one byte, and is followed by the next number.
\<close>

fun numbered :: "unix_secret \<Rightarrow> u32 \<Rightarrow> u8 list list \<Rightarrow> bool" where
  "numbered c s [] = True"
| "numbered c s (b # bs) = (HEADER_SIZE < length b \<and> length b \<le> MAILSLOT_SENDSIZE
     \<and> header_of b = Some (zero_header\<lparr>hd_version := UNIX_MSG_VERSION, hd_type := UNIX_MSG_DATA, hd_secret := c,
         hd_seq_start := s, hd_seq_end := seq_add (s - 1) (length b - HEADER_SIZE), hd_offset := 20\<rparr>)
     \<and> numbered c (seq_add s (length b - HEADER_SIZE)) bs)"

definition whole :: "u8 list \<times> int \<Rightarrow> bool" where
  "whole x \<longleftrightarrow> snd x = int (length (fst x))"

definition stream_data :: "(u8 list \<times> int) list \<Rightarrow> u8 list" where
  "stream_data log = concat (List.map (drop HEADER_SIZE \<circ> fst) log)"

text \<open>What the loop, entered with \<open>xs\<close> still to send, has done when it ends with \<open>r\<close>.\<close>

definition sent_so :: "'w unix_os \<Rightarrow> unix_socket \<Rightarrow> u8 list \<Rightarrow> int \<Rightarrow> 'w ustate \<Rightarrow> (int \<times> 'w ustate) option \<Rightarrow> bool" where
  "sent_so os u xs n st res \<longleftrightarrow> (case res of
     None \<Rightarrow> (\<exists>log w b. written os (us_fd_w u) log (driver (world st)) w \<and> (\<forall>x \<in> set log. whole x)
       \<and> numbered (us_secret u) (us_seq_w u) (List.map fst log @ [b]) \<and> os_write os (us_fd_w u) b w = None)
   | Some (r, st') \<Rightarrow> (\<exists>log. written os (us_fd_w u) log (driver (world st)) (driver (world st'))
       \<and> numbered (us_secret u) (us_seq_w u) (List.map fst log)
       \<and> (\<forall>x \<in> set (butlast log). whole x)
       \<and> (if \<forall>x \<in> set log. whole x then r = n \<and> stream_data log = xs
          else r = -1 \<and> errno st' = EIO \<and> (\<exists>ys. xs = stream_data log @ ys))))"

lemma sent_so_step:
  assumes "os_write os (us_fd_w u) b (driver (world st)) = Some (int (length b), e, w)"
    and "numbered (us_secret u) (us_seq_w u) [b]"
    and "sent_so os (u\<lparr>us_seq_w := seq_add (us_seq_w u) (length b - HEADER_SIZE)\<rparr>) xs n s res" "driver (world s) = w"
  shows "sent_so os u (drop HEADER_SIZE b @ xs) n st res"
proof (cases res)
  case None
  then obtain log v c where "written os (us_fd_w u) log w v" "\<forall>x \<in> set log. whole x"
    "numbered (us_secret u) (seq_add (us_seq_w u) (length b - HEADER_SIZE)) (List.map fst log @ [c])"
    "os_write os (us_fd_w u) c v = None"
    using assms(3,4) by (auto simp: sent_so_def)
  then show ?thesis
    using None assms(1,2) unfolding sent_so_def
    by (auto intro!: exI [of _ "(b, int (length b)) # log"] exI [of _ v] exI [of _ c] written.call simp: whole_def)
next
  case (Some x)
  obtain r st' where x: "x = (r, st')" by (cases x)
  then obtain log where l: "written os (us_fd_w u) log w (driver (world st'))"
    "numbered (us_secret u) (seq_add (us_seq_w u) (length b - HEADER_SIZE)) (List.map fst log)"
    "\<forall>x \<in> set (butlast log). whole x"
    "if \<forall>x \<in> set log. whole x then r = n \<and> stream_data log = xs
     else r = -1 \<and> errno st' = EIO \<and> (\<exists>ys. xs = stream_data log @ ys)"
    using Some assms(3,4) by (auto simp: sent_so_def)
  let ?l = "(b, int (length b)) # log"
  have "written os (us_fd_w u) ?l (driver (world st)) (driver (world st'))" by (rule written.call [OF assms(1) l(1)])
  moreover have "numbered (us_secret u) (us_seq_w u) (List.map fst ?l)" using l(2) assms(2) by simp
  moreover have "\<forall>x \<in> set (butlast ?l). whole x" "(\<forall>x \<in> set ?l. whole x) \<longleftrightarrow> (\<forall>x \<in> set log. whole x)"
    using l(3) by (auto simp: whole_def)
  moreover have "stream_data ?l = drop HEADER_SIZE b @ stream_data log" by (simp add: stream_data_def)
  ultimately show ?thesis
    using l(4) Some x unfolding sent_so_def by (auto intro!: exI [of _ ?l] split: if_splits)
qed

text \<open>One packet: its bytes, and what becomes of the call that writes it.\<close>

lemma data_packet:
  assumes "0 < length d" "length d \<le> MAILSLOT_SENDSIZE - HEADER_SIZE"
  shows "numbered (us_secret u) (us_seq_w u) [header_bytes (data_header u (length d)) @ d]"
    and "length (header_bytes (data_header u (length d)) @ d) = HEADER_SIZE + length d"
    and "drop HEADER_SIZE (header_bytes (data_header u (length d)) @ d) = d"
  using assms header_bytes_read [of "data_header u (length d)" d]
  by (simp_all add: data_header_def HEADER_SIZE_def MAILSLOT_SENDSIZE_def)

lemma send_packet_step:
  assumes "usock_of p st = Some u" "sent < len" "len \<le> length msg" "d = take (min (len - sent) (MAILSLOT_SENDSIZE - HEADER_SIZE)) (drop sent msg)"
    and "b = header_bytes (data_header u (length d)) @ d"
  shows "os_write os (us_fd_w u) b (driver (world st)) = None \<Longrightarrow> send_stream_loop os p msg len sent st = None"
    and "os_write os (us_fd_w u) b (driver (world st)) = Some (r, e, w) \<Longrightarrow> r \<noteq> int (length b)
      \<Longrightarrow> \<exists>st'. send_stream_loop os p msg len sent st = Some (-1, st') \<and> errno st' = EIO \<and> driver (world st') = w"
    and "os_write os (us_fd_w u) b (driver (world st)) = Some (int (length b), e, w) \<Longrightarrow>
      \<exists>s. send_stream_loop os p msg len sent st = send_stream_loop os p msg len (sent + length d) s
        \<and> usock_of p s = Some (u\<lparr>us_seq_w := seq_add (us_seq_w u) (length d)\<rparr>) \<and> driver (world s) = w
        \<and> same_but p st s \<and> stream_buf (world s) = stream_buf (world st)"
proof -
  let ?k = "if len - sent > MAILSLOT_SENDSIZE - HEADER_SIZE then MAILSLOT_SENDSIZE - HEADER_SIZE else len - sent"
  have k: "?k = length d" using assms(2-4) by auto
  have fit: "\<not> length msg < sent + length d" and d: "take (length d) (drop sent msg) = d"
    using assms(2-4) by auto
  have lb: "length b = HEADER_SIZE + length d" by (simp add: assms(5) HEADER_SIZE_def)
  have loop: "send_stream_loop os p msg len sent st = Option.bind (sys (os_write os (us_fd_w u) b) st) (\<lambda>(ret, st).
      if ret = -1 \<or> ret - int HEADER_SIZE \<noteq> int (length d) then fail EIO st
      else Option.bind (upd_usock p (\<lambda>u. u\<lparr>us_seq_w := seq_add (us_seq_w u) (length d)\<rparr>) st)
        (\<lambda>st. send_stream_loop os p msg len (sent + length d) st))"
    using assms(1,2) fit by (subst send_stream_loop.simps) (simp add: k d assms(5) [symmetric] Let_def)
  show "send_stream_loop os p msg len sent st = None" if "os_write os (us_fd_w u) b (driver (world st)) = None"
    using that by (simp add: loop sys_def)
  show "\<exists>st'. send_stream_loop os p msg len sent st = Some (-1, st') \<and> errno st' = EIO \<and> driver (world st') = w"
    if "os_write os (us_fd_w u) b (driver (world st)) = Some (r, e, w)" "r \<noteq> int (length b)"
    using that lb by (auto simp: loop sys_def fail_with_def)
  let ?f = "\<lambda>u. u\<lparr>us_seq_w := seq_add (us_seq_w u) (length d)\<rparr>"
  show "\<exists>s. send_stream_loop os p msg len sent st = send_stream_loop os p msg len (sent + length d) s
        \<and> usock_of p s = Some (u\<lparr>us_seq_w := seq_add (us_seq_w u) (length d)\<rparr>) \<and> driver (world s) = w
        \<and> same_but p st s \<and> stream_buf (world s) = stream_buf (world st)"
    if w: "os_write os (us_fd_w u) b (driver (world st)) = Some (int (length b), e, w)"
  proof -
    have y: "sys (os_write os (us_fd_w u) b) st = Some (int (length b), set_driver w st)" using w by (simp add: sys_def)
    have "usock_of p (set_driver w st) = Some u" using assms(1) by simp
    from upd_usock_Some [OF this, of ?f] obtain s where "upd_usock p ?f (set_driver w st) = Some s"
      "usock_of p s = Some (?f u)" "world s = world (set_driver w st)" "same_but p (set_driver w st) s"
      by blast
    then show ?thesis
      using y lb same_but_trans [OF same_but_driver] by (intro exI [of _ s]) (simp add: loop)
  qed
qed

lemma send_loop_so:
  assumes "usock_of p st = Some u" "sent \<le> len" "len \<le> length msg"
  shows "sent_so os u (take (len - sent) (drop sent msg)) (int len) st (send_stream_loop os p msg len sent st)"
  using assms(1,2)
proof (induction "len - sent" arbitrary: sent st u rule: less_induct)
  case less
  show ?case
  proof (cases "sent < len")
    case False
    then show ?thesis
      using less.prems(2)
      by (subst send_stream_loop.simps) (auto simp: sent_so_def stream_data_def intro!: exI [of _ "[]"] written.none)
  next
    case True
    define d where "d = take (min (len - sent) (MAILSLOT_SENDSIZE - HEADER_SIZE)) (drop sent msg)"
    define b where "b = header_bytes (data_header u (length d)) @ d"
    have ld: "length d = min (len - sent) (MAILSLOT_SENDSIZE - HEADER_SIZE)" using True assms(3) by (simp add: d_def)
    have d: "0 < length d" "length d \<le> MAILSLOT_SENDSIZE - HEADER_SIZE" "length d \<le> len - sent"
      using True unfolding ld by (simp_all add: MAILSLOT_SENDSIZE_def HEADER_SIZE_def)
    note pk = data_packet [OF d(1,2), of u, folded b_def]
    note step = send_packet_step [OF less.prems(1) True assms(3) d_def b_def, of os]
    have xs: "take (len - sent) (drop sent msg) = d @ take (len - (sent + length d)) (drop (sent + length d) msg)"
    proof -
      have "take (len - sent) (drop sent msg) = take (length d + (len - (sent + length d))) (drop sent msg)"
        using d(3) True by (intro arg_cong2 [where f = take]) simp_all
      also have "\<dots> = take (length d) (drop sent msg) @ take (len - (sent + length d)) (drop (length d) (drop sent msg))"
        by (rule take_add)
      also have "take (length d) (drop sent msg) = d" using True assms(3) by (auto simp: d_def)
      finally show ?thesis by (simp add: add.commute)
    qed
    show ?thesis
    proof (cases "os_write os (us_fd_w u) b (driver (world st))")
      case None
      have "written os (us_fd_w u) [] (driver (world st)) (driver (world st))" by (rule written.none)
      then show ?thesis using None step(1) [OF None] pk(1) unfolding sent_so_def by fastforce
    next
      case (Some x)
      obtain r e w where x: "os_write os (us_fd_w u) b (driver (world st)) = Some (r, e, w)" using Some by (cases x) auto
      show ?thesis
      proof (cases "r = int (length b)")
        case False
        have "written os (us_fd_w u) [(b, r)] (driver (world st)) w" by (intro written.call [OF x] written.none)
        then show ?thesis
          using step(2) [OF x False] False pk(1,3) unfolding sent_so_def xs
          by (auto intro!: exI [of _ "[(b, r)]"] simp: whole_def stream_data_def)
      next
        case True
        note x = x [unfolded True]
        obtain s where s: "send_stream_loop os p msg len sent st = send_stream_loop os p msg len (sent + length d) s"
          "usock_of p s = Some (u\<lparr>us_seq_w := seq_add (us_seq_w u) (length d)\<rparr>)" "driver (world s) = w"
          using step(3) [OF x] by blast
        have "len - (sent + length d) < len - sent" "sent + length d \<le> len" using d \<open>sent < len\<close> by linarith+
        from less.hyps [OF this(1) s(2) this(2)]
        have "sent_so os (u\<lparr>us_seq_w := seq_add (us_seq_w u) (length b - HEADER_SIZE)\<rparr>)
            (take (len - (sent + length d)) (drop (sent + length d) msg)) (int len) s
            (send_stream_loop os p msg len (sent + length d) s)"
          using pk(2) by simp
        from sent_so_step [OF x pk(1) this s(3)] show ?thesis
          unfolding s(1) xs pk(3) .
      qed
    qed
  qed
qed

text \<open>C32: what \<open>send\<close> on a stream socket writes, whatever the calls of \<open>write\<close> answer. They are data messages with
  the secret of the socket, numbered one behind the other from its sequence number, that fit a mailslot message, and
  every one but the last has been taken whole. When all have been taken whole their bytes are the data and \<open>send\<close> returns its
  length; otherwise they are a part at the start of it and \<open>send\<close> fails with \<open>EIO\<close>. It does not return only
  where a call of \<open>write\<close> for such a message does not.\<close>

theorem send_stream_packets:
  assumes "usock_of p st = Some u" "len \<le> length msg"
  shows "case send_stream os p msg len st of
      None \<Rightarrow> (\<exists>log w b. written os (us_fd_w u) log (driver (world st)) w \<and> (\<forall>x \<in> set log. whole x)
        \<and> numbered (us_secret u) (us_seq_w u) (List.map fst log @ [b]) \<and> os_write os (us_fd_w u) b w = None)
    | Some (r, st') \<Rightarrow> (\<exists>log. written os (us_fd_w u) log (driver (world st)) (driver (world st'))
        \<and> numbered (us_secret u) (us_seq_w u) (List.map fst log)
        \<and> (\<forall>x \<in> set (butlast log). whole x)
        \<and> (if \<forall>x \<in> set log. whole x then r = int len \<and> stream_data log = take len msg
           else r = -1 \<and> errno st' = EIO \<and> (\<exists>ys. take len msg = stream_data log @ ys)))"
  using send_loop_so [OF assms(1) _ assms(2), of 0 os] assms(1) by (simp add: send_stream_def sent_so_def)

section \<open>Receiving on a stream\<close>

text \<open>A read that finds the message \<open>m\<close> and leaves the driver in the state \<open>w\<close>.\<close>

definition offers :: "'w unix_os \<Rightarrow> int \<Rightarrow> 'w \<Rightarrow> u8 list \<Rightarrow> 'w \<Rightarrow> bool" where
  "offers os fd w m w' \<longleftrightarrow> (\<forall>n. length m \<le> n \<longrightarrow> (\<exists>e. os_read os fd n w = Some ((int (length m), m), e, w')))"

lemma read_message_offered:
  assumes "offers os fd (driver (world st)) m w" "length m \<le> length b"
  shows "read_message os fd False b st = Some ((int (length m), m @ drop (length m) b), set_driver w st)"
proof -
  obtain e where "os_read os fd (length b) (driver (world st)) = Some ((int (length m), m), e, w)"
    using assms unfolding offers_def by blast
  then show ?thesis
    using assms(2) by (simp add: read_message_def read_into_def sys2_def overlay_def)
qed

text \<open>The state after the message \<open>m\<close> has been read.\<close>

definition after_read :: "u8 list \<Rightarrow> 'w \<Rightarrow> 'w ustate \<Rightarrow> 'w ustate" where
  "after_read m w st = (set_driver w st)\<lparr>world := (world (set_driver w st))\<lparr>stream_buf :=
     m @ drop (length m) (stream_buf (world st))\<rparr>\<rparr>"

lemma after_read_simps [simp]:
  "usock_of p (after_read m w st) = usock_of p st" "sock_heap (after_read m w st) = sock_heap st"
  "driver (world (after_read m w st)) = w"
  "length m \<le> length (stream_buf (world st)) \<Longrightarrow> length (stream_buf (world (after_read m w st))) = length (stream_buf (world st))"
  by (simp_all add: after_read_def usock_of_def set_driver_def)

lemma seq_span:
  assumes "unat s + k < unat MAXINT" "0 < k"
  shows "unat (seq_add (s - 1) k - s + 1) = k" "unat (seq_add s k) = unat s + k"
proof -
  have m: "unat MAXINT = 2 ^ 31 - 1" by (simp add: MAXINT_def)
  have small: "w mod MAXINT = w" if "unat w < unat MAXINT" for w :: u32
    using that by (simp add: word_unat_eq_iff unat_mod_distrib)
  obtain j where j: "k = Suc j" using assms(2) by (cases k) simp_all
  have "unat (s + of_nat j) = unat s + j"
    using assms m j by (simp add: unat_word_ariths unat_of_nat)
  then have "seq_add (s - 1) k = s + of_nat j"
    using assms j by (simp add: seq_add_def small)
  then have "seq_add (s - 1) k - s + 1 = of_nat k" by (simp add: j)
  then show "unat (seq_add (s - 1) k - s + 1) = k"
    using assms m by (simp add: unat_of_nat)
  have "unat (s + of_nat k) = unat s + k"
    using assms m by (simp add: unat_word_ariths unat_of_nat)
  then show "unat (seq_add s k) = unat s + k"
    using assms by (simp add: seq_add_def small)
qed

lemma data_header_simps [simp]:
  "hd_type (data_header u k) = UNIX_MSG_DATA" "hd_secret (data_header u k) = us_secret u"
  "hd_offset (data_header u k) = 20" "hd_seq_start (data_header u k) = us_seq_w u"
  "hd_seq_end (data_header u k) = seq_add (us_seq_w u - 1) k"
  by (simp_all add: data_header_def zero_header_def HEADER_SIZE_def)

text \<open>A data message is delivered, and what follows it in the same read (\<open>x\<close>) is dropped.\<close>

lemma recv_packet:
  assumes "usock_of q st = Some v" "us_secret v = us_secret u" "0 < length d" "length d \<le> length buf" "length d \<le> len"
    and "unat (us_seq_w u) + length d < unat MAXINT" "HEADER_SIZE + length d + length x \<le> length (stream_buf (world st))"
    and "offers os (us_fd_r v) (driver (world st)) (header_bytes (data_header u (length d)) @ d @ x) w"
  shows "\<exists>st'. recv_stream os q buf len 0 st = Some ((int (length d), d @ drop (length d) buf), st')
     \<and> usock_of q st' = Some (v\<lparr>us_seq_r := seq_add (us_seq_r v) (length d)\<rparr>) \<and> same_but q st st'
     \<and> driver (world st') = w \<and> length (stream_buf (world st')) = length (stream_buf (world st))"
proof -
  let ?h = "data_header u (length d)"
  let ?m = "header_bytes ?h @ d @ x"
  let ?b = "?m @ drop (length ?m) (stream_buf (world st))"
  let ?s = "after_read ?m w st"
  have lm: "length ?m \<le> length (stream_buf (world st))" using assms(7) by (simp add: HEADER_SIZE_def)
  obtain l where l: "sock_heap st q = Some l" using assms(1) by (auto simp: usock_of_def bind_eq_Some_conv)
  have rl: "recv_len len ?h = length d" "unat (hd_seq_end ?h - hd_seq_start ?h + 1) = length d"
    using seq_span(1) [OF assms(6,3)] assms(5) by (simp_all add: recv_len_def)
  have data: "message_data ?b ?h (length d) = Some d" by (simp add: message_data_def)
  have hd: "header_of ?b = Some ?h" using header_bytes_read [of ?h] by simp
  have ty: "UNIX_MSG_DATA AND UNIX_MSG_DATA \<noteq> 0" "UNIX_MSG_DATA AND UNIX_MSG_DGRAM_BIT = 0" "\<not> peer_closes l v ?h"
    by (simp_all add: UNIX_MSG_DATA_def UNIX_MSG_DGRAM_BIT_def peer_closes_def UNIX_MSG_SERVER_CLOSE_def UNIX_MSG_CLIENT_CLOSE_def)
  have "usock_of q ?s = Some v" using assms(1) by simp
  then obtain st' where st': "upd_usock q (\<lambda>v. v\<lparr>us_seq_r := seq_add (us_seq_r v) (length d)\<rparr>) ?s = Some st'"
    "usock_of q st' = Some (v\<lparr>us_seq_r := seq_add (us_seq_r v) (length d)\<rparr>)" "world st' = world ?s" "same_but q ?s st'"
    using upd_usock_Some [of q ?s v "\<lambda>v. v\<lparr>us_seq_r := seq_add (us_seq_r v) (length d)\<rparr>"] by blast
  have loop: "recv_stream_loop os q len pk (int (length d)) bp z y = Some ((int (length d), z), y)" for pk bp z y
    using assms(3) by (subst recv_stream_loop.simps) simp
  have "recv_stream os q buf len 0 st = Some ((int (length d), d @ drop (length d) buf), st')"
    unfolding recv_stream_def
    using assms(1,2,4) l ty hd data read_message_offered [OF assms(8) lm] st'(1)
    by (subst recv_stream_loop.simps)
      (simp add: peeks_def rl seq_span(1) [OF assms(6,3)] loop memcpy_def after_read_def)
  moreover have "same_but q st ?s" by (simp add: same_but_def)
  ultimately show ?thesis
    using st' lm same_but_trans by (auto simp: after_read_def set_driver_def)
qed

text \<open>A driver with one queue, and two stream sockets 0 and 1 that write to and read from it.\<close>

definition queue_os :: "u8 list list unix_os" where
  "queue_os = \<lparr>os_open = (\<lambda>path wr w. Some (5, ENOERR, w)),
     os_read = (\<lambda>fd n w. case w of [] \<Rightarrow> Some ((-1, []), EAGAIN, []) | m # ms \<Rightarrow> Some ((int (length m), m), ENOERR, ms)),
     os_write = (\<lambda>fd b w. Some (int (length b), ENOERR, w @ [b])), os_fdclose = (\<lambda>fd w. Some (0, ENOERR, w)),
     os_nonblock = (\<lambda>fd w. Some (0, ENOERR, w)), os_ioctl = (\<lambda>fd rq x w. Some ((0, x), ENOERR, w)),
     os_select = (\<lambda>fds k w. Some (0, ENOERR, w)), os_random = (\<lambda>w. (0, w)), os_srandom = (\<lambda>w. w),
     os_getcwd = (\<lambda>n w. None), os_install = (\<lambda>w. (True, w)), os_used = (\<lambda>w fd. False), os_getpid = 1,
     os_malloc = (\<lambda>n. True), os_getenv = (\<lambda>v. None), os_files = (\<lambda>f. None), os_time = 0,
     os_junk = (\<lambda>i. 0), os_O_NONBLOCK = 8\<rparr>"

definition ends_sock :: "int \<Rightarrow> nat \<Rightarrow> lsck_socket" where
  "ends_sock fd d = zero_socket\<lparr>lsd_fd := fd, lsd_family := AF_UNIX, lsd_type := SOCK_STREAM, lsd_interface := Some UNIX_IF,
     lsd_connected := True, lsd_blocking := True, lsd_inbound := True, lsd_outbound := True, lsd_idata := Some d\<rparr>"

definition ends_state :: "u8 list list \<Rightarrow> u8 list list ustate" where
  "ends_state w = \<lparr>errno = ENOERR, inited = True, if_list = [UNIX_IF], if_names = None,
     sock_table = [Some 0, Some 1] @ replicate (LSCK_NUM_SOCKET - 2) None,
     sock_heap = [0 \<mapsto> ends_sock 3 2, 1 \<mapsto> ends_sock 4 3],
     idata_heap = [2 \<mapsto> zero_usock\<lparr>us_fd_w := 5, us_fd_r := -1\<rparr>, 3 \<mapsto> zero_usock\<lparr>us_fd_w := -1, us_fd_r := 5\<rparr>], next_ptr = 4,
     fds = (\<lambda>fd. if fd = 3 then Some (sock_entry 0) else if fd = 4 then Some (sock_entry 1) else None),
     signals = [], debug_level = 0,
     lsck_config = \<lparr>configdir = None, configdirset = False, configfile = None, configfileset = False\<rparr>,
     world = \<lparr>unix_inited = True, stream_buf = replicate MAILSLOT_SENDSIZE 0, dgram_buf = replicate MAILSLOT_SENDSIZE 0, driver = w\<rparr>\<rparr>"

lemma ends_simps [simp]:
  "usock_of 0 (ends_state w) = Some (zero_usock\<lparr>us_fd_w := 5, us_fd_r := -1\<rparr>)"
  "usock_of 1 (ends_state w) = Some (zero_usock\<lparr>us_fd_w := -1, us_fd_r := 5\<rparr>)"
  "usock_of (Suc 0) (ends_state w) = Some (zero_usock\<lparr>us_fd_w := -1, us_fd_r := 5\<rparr>)"
  "apart 0 1 (ends_state w)" "apart 0 (Suc 0) (ends_state w)" "driver (world (ends_state w)) = w"
  "stream_buf (world (ends_state w)) = replicate MAILSLOT_SENDSIZE 0"
  by (simp_all add: usock_of_def ends_state_def apart_def ends_sock_def)

lemma written_queue: "written queue_os fd log w w' \<Longrightarrow> w' = w @ List.map fst log \<and> (\<forall>x \<in> set log. whole x)"
proof (induction rule: written.induct)
  case (call b w r e w' bs w'')
  then have "r = int (length b)" "w' = w @ [b]" by (simp_all add: queue_os_def)
  then show ?case using call.IH by (simp add: whole_def)
qed simp

text \<open>5000 bytes over \<open>queue_os\<close>, which keeps every message.\<close>

theorem send_stream_packets_witness:
  "\<exists>st'. send_stream queue_os 0 (replicate 5000 7) 5000 (ends_state []) = Some (5000, st')
     \<and> numbered \<lparr>secret_n = 0, secret_pid = 0\<rparr> 0 (driver (world st'))
     \<and> concat (List.map (drop HEADER_SIZE) (driver (world st'))) = replicate 5000 7"
proof -
  let ?u = "zero_usock\<lparr>us_fd_w := 5, us_fd_r := -1\<rparr>"
  have never: "os_write queue_os fd b w \<noteq> None" for fd b w by (simp add: queue_os_def)
  note so = send_stream_packets [OF ends_simps(1), of 5000 "replicate 5000 7" queue_os "[]"]
  have z: "us_secret ?u = \<lparr>secret_n = 0, secret_pid = 0\<rparr>" "us_seq_w ?u = 0" by (simp_all add: zero_usock_def)
  obtain r st' where r: "send_stream queue_os 0 (replicate 5000 7) 5000 (ends_state []) = Some (r, st')"
    using so never by (cases "send_stream queue_os 0 (replicate 5000 7) 5000 (ends_state [])") auto
  then obtain log where l: "written queue_os (us_fd_w ?u) log [] (driver (world st'))"
    "numbered (us_secret ?u) (us_seq_w ?u) (List.map fst log)"
    "if \<forall>x \<in> set log. whole x then r = int 5000 \<and> stream_data log = take 5000 (replicate 5000 7)
     else r = -1 \<and> errno st' = EIO \<and> (\<exists>ys. take 5000 (replicate 5000 7) = stream_data log @ ys)"
    using so by auto
  have q: "driver (world st') = List.map fst log" "\<forall>x \<in> set log. whole x" using written_queue [OF l(1)] by simp_all
  show ?thesis using l(2,3) q r unfolding z by (auto simp: stream_data_def)
qed

section \<open>Messages that are not data\<close>

text \<open>A message that is rejected, for its type or a secret that is not the socket's, still ends \<open>recv\<close>: it
  returns the size of that message as if so many bytes had been received, and has stored nothing.\<close>

theorem rejected_message_counted:
  assumes "usock_of q st = Some v" "sock_heap st q = Some l" "offers os (us_fd_r v) (driver (world st)) m w"
    and "length m \<le> length (stream_buf (world st))" "header_of m = Some h"
    and "hd_type h AND UNIX_MSG_DATA = 0 \<or> hd_type h AND UNIX_MSG_DGRAM_BIT = 0 \<and> hd_secret h \<noteq> us_secret v"
    and "\<not> peer_closes l v h"
  shows "recv_stream os q buf len 0 st = Some ((int (length m), buf), after_read m w st)"
proof -
  let ?b = "m @ drop (length m) (stream_buf (world st))"
  have lm: "0 < length m" using assms(5) by (auto simp: header_of_def bind_eq_Some_conv rd_def split: if_splits)
  have hd: "header_of ?b = Some h"
  proof -
    have rd: "rd ?b i = Some c" if "rd m i = Some c" for i c
      using that by (auto simp: rd_def nth_append split: if_splits)
    show ?thesis using assms(5) by (auto simp: header_of_def le32_def le16_def bind_eq_Some_conv dest!: rd)
  qed
  have loop: "recv_stream_loop os q len pk (int (length m)) bp x y = Some ((int (length m), x), y)" for pk bp x y
    using lm by (subst recv_stream_loop.simps) simp
  show ?thesis
    unfolding recv_stream_def
    using assms(1,2,6,7) hd read_message_offered [OF assms(3,4)]
    by (subst recv_stream_loop.simps) (auto simp: loop after_read_def Let_def peeks_def [of 0])
qed

definition wrong_packet :: "u8 list" where
  "wrong_packet = header_bytes (data_header (zero_usock\<lparr>us_secret := \<lparr>secret_n = 9, secret_pid = 9\<rparr>\<rparr>) 2) @ [1, 2]"

theorem rejected_message_counted_witness:
  "\<exists>s. recv_stream queue_os 1 [0, 0, 0] 3 0 (ends_state [wrong_packet]) = Some ((22, [0, 0, 0]), s)"
proof -
  let ?u = "zero_usock\<lparr>us_secret := \<lparr>secret_n = 9, secret_pid = 9\<rparr>\<rparr>"
  have "offers queue_os 5 [wrong_packet] wrong_packet []" by (simp add: offers_def queue_os_def)
  moreover have "\<not> peer_closes l v (data_header ?u 2)" for l v
    by (simp add: peer_closes_def UNIX_MSG_DATA_def UNIX_MSG_SERVER_CLOSE_def UNIX_MSG_CLIENT_CLOSE_def)
  moreover have "sock_heap (ends_state [wrong_packet]) 1 = Some (ends_sock 4 3)" by (simp add: ends_state_def)
  ultimately show ?thesis
    using rejected_message_counted [of 1 "ends_state [wrong_packet]" _ "ends_sock 4 3" queue_os wrong_packet "[]"
        "data_header ?u 2" "[0, 0, 0]" 3]
    by (simp add: wrong_packet_def header_bytes_read MAILSLOT_SENDSIZE_def zero_usock_def UNIX_MSG_DATA_def UNIX_MSG_DGRAM_BIT_def)
qed

lemma sys_only:
  "sys f s = Some (r, s') \<Longrightarrow> usock_of q s' = usock_of q s \<and> sock_heap s' = sock_heap s"
  by (auto simp: sys_def usock_of_def set_driver_def bind_eq_Some_conv)

lemma unix_close_closes:
  assumes "usock_of q s = Some v" "unix_close os q s = Some (r, st')"
  shows "r = 0 \<and> usock_of q st' = Some (v\<lparr>us_seq_w := us_seq_w v + 1, us_fd_r := -1, us_fd_w := -1\<rparr>)"
proof -
  have upd: "usock_of q s' = Some (f u)" if "usock_of q s = Some u" "upd_usock q f s = Some s'" for f u and s s' :: "'a ustate"
    using upd_usock_Some [OF that(1), of f] that(2) by auto
  obtain x r1 s1 r2 s2 s3 r4 s4 r5 s5 where
    "sys (os_nonblock os (us_fd_w v)) s = Some (r1, s1)" "sys (os_write os (us_fd_w v) x) s1 = Some (r2, s2)"
    and u: "upd_usock q (\<lambda>u. u\<lparr>us_seq_w := us_seq_w u + 1\<rparr>) s2 = Some s3"
    and "sys (os_fdclose os (us_fd_r v)) s3 = Some (r4, s4)" "sys (os_fdclose os (us_fd_w v)) s4 = Some (r5, s5)"
    and e: "upd_usock q (\<lambda>u. u\<lparr>us_fd_r := -1, us_fd_w := -1\<rparr>) s5 = Some st'" "r = 0"
    using assms by (auto simp: unix_close_def Let_def bind_eq_Some_conv)
  then have "usock_of q s2 = Some v" "usock_of q s5 = usock_of q s3" using sys_only [of _ _ _ _ q] assms(1) by metis+
  then show ?thesis using upd [OF _ u] upd [OF _ e(1)] e(2) by simp
qed

text \<open>When the close message of the other end arrives, \<open>recv\<close> closes this end and, if closing returns, fails
  with \<open>ECONNRESET\<close>.\<close>

theorem peer_close_resets:
  assumes "usock_of q st = Some v" "sock_heap st q = Some l"
    and "h = zero_header\<lparr>hd_type := (if lsd_accepted l then UNIX_MSG_CLIENT_CLOSE else UNIX_MSG_SERVER_CLOSE), hd_secret := us_secret v\<rparr>"
    and "offers os (us_fd_r v) (driver (world st)) (header_bytes h) w" "HEADER_SIZE \<le> length (stream_buf (world st))"
  shows "case unix_close os q (after_read (header_bytes h) w st) of
      None \<Rightarrow> recv_stream os q buf len 0 st = None
    | Some (r, st') \<Rightarrow> recv_stream os q buf len 0 st = Some ((-1, buf), st'\<lparr>errno := ECONNRESET\<rparr>)
        \<and> usock_of q st' = Some (v\<lparr>us_seq_w := us_seq_w v + 1, us_fd_r := -1, us_fd_w := -1\<rparr>)"
proof -
  have "peer_closes l v h" using assms(3) by (simp add: peer_closes_def zero_header_def)
  moreover have "header_of (header_bytes h @ x) = Some h" for x by (rule header_bytes_read)
  ultimately have "recv_stream os q buf len 0 st
      = Option.bind (unix_close os q (after_read (header_bytes h) w st)) (\<lambda>(_, st). fail_with ECONNRESET (-1, buf) st)"
    unfolding recv_stream_def
    using assms(1,2) read_message_offered [OF assms(4)] assms(5)
    by (subst recv_stream_loop.simps) (simp add: peeks_def after_read_def HEADER_SIZE_def Let_def)
  then show ?thesis
    using unix_close_closes [of q "after_read (header_bytes h) w st" v os] assms(1)
    by (auto simp: fail_with_def split: option.split)
qed

definition bye :: unix_header where
  "bye = zero_header\<lparr>hd_type := UNIX_MSG_SERVER_CLOSE\<rparr>"

theorem peer_close_resets_witness:
  "\<exists>st'. recv_stream queue_os 1 [0] 1 0 (ends_state [header_bytes bye]) = Some ((-1, [0]), st'\<lparr>errno := ECONNRESET\<rparr>)"
proof -
  let ?v = "zero_usock\<lparr>us_fd_w := -1, us_fd_r := 5\<rparr>" and ?st = "ends_state [header_bytes bye]"
  have "bye = zero_header\<lparr>hd_type := (if lsd_accepted (ends_sock 4 3) then UNIX_MSG_CLIENT_CLOSE else UNIX_MSG_SERVER_CLOSE),
      hd_secret := us_secret ?v\<rparr>"
    by (simp add: bye_def zero_header_def zero_usock_def ends_sock_def zero_socket_def)
  moreover have "offers queue_os (us_fd_r ?v) (driver (world ?st)) (header_bytes bye) []"
    by (simp add: offers_def queue_os_def)
  moreover have "sock_heap ?st 1 = Some (ends_sock 4 3)" by (simp add: ends_state_def)
  moreover have "usock_of 1 ?st = Some ?v" by simp
  moreover have "HEADER_SIZE \<le> length (stream_buf (world ?st))" by (simp add: HEADER_SIZE_def MAILSLOT_SENDSIZE_def)
  moreover have "unix_close queue_os 1 (after_read (header_bytes bye) [] ?st) \<noteq> None"
    by (simp add: unix_close_def sys_def queue_os_def upd_usock_def usock_of_def set_driver_def after_read_def ends_state_def
        ends_sock_def zero_socket_def Let_def)
  ultimately show ?thesis
    using peer_close_resets [of 1 ?st ?v "ends_sock 4 3" bye queue_os "[]" "[0]" 1] by (auto split: option.splits)
qed

text \<open>Where the sequence numbers wrap around, the length of a packet can no longer be told from its header:
  the receiver takes it for longer than any buffer and delivers bytes the packet does not contain.\<close>

theorem seq_wrap_over_length:
  assumes "us_seq_w u < MAXINT" "unat MAXINT \<le> unat (us_seq_w u) + k - 1" "0 < k" "k \<le> MAILSLOT_SENDSIZE - HEADER_SIZE"
    and "len \<le> 2 ^ 31"
  shows "recv_len len (data_header u k) = len"
proof -
  define S where "S = unat (us_seq_w u)"
  have m: "unat MAXINT = 2147483647" by (simp add: MAXINT_def)
  have S: "S < 2147483647" using assms(1) m by (simp add: word_less_nat_alt S_def)
  have k: "k \<le> 4060" using assms(4) by (simp add: MAILSLOT_SENDSIZE_def HEADER_SIZE_def)
  obtain j where j: "k = Suc j" using assms(3) by (cases k) simp_all
  have w: "us_seq_w u = of_nat S" by (simp add: S_def)
  have "seq_add (us_seq_w u - 1) k = of_nat (S + j) mod MAXINT"
    by (simp add: seq_add_def j w)
  moreover have "unat (of_nat (S + j) mod MAXINT :: u32) = (S + j) mod 2147483647"
    unfolding unat_mod_distrib m unat_of_nat using S k j by simp
  moreover have "(S + j) mod 2147483647 = S + j - 2147483647"
    using assms(2) S k j unfolding m S_def [symmetric] by (simp add: le_mod_geq)
  ultimately have "seq_add (us_seq_w u - 1) k = of_nat (S + j - 2147483647)"
    by (metis of_nat_unat ucast_id)
  moreover have "of_nat (S + j - 2147483647) = (of_nat S + of_nat j - 2147483647 :: u32)"
    using assms(2) j unfolding m S_def [symmetric] by (simp add: of_nat_diff)
  ultimately have "seq_add (us_seq_w u - 1) k - us_seq_w u + 1 = (of_nat j - 2147483646 :: u32)"
    by (simp add: w)
  also have "\<dots> = of_nat (j + 2147483650)" by simp
  finally have "unat (seq_add (us_seq_w u - 1) k - us_seq_w u + 1) = (j + 2147483650) mod 2 ^ 32"
    by (simp only: unat_of_nat) simp
  then have "unat (seq_add (us_seq_w u - 1) k - us_seq_w u + 1) = j + 2147483650" using k j by simp
  then show ?thesis using assms(5) by (simp add: recv_len_def)
qed

theorem seq_wrap_over_length_witness:
  "recv_len 1000 (data_header (zero_usock\<lparr>us_seq_w := 0x7ffffffe\<rparr>) 2) = 1000"
  by (rule seq_wrap_over_length) (simp_all add: MAXINT_def MAILSLOT_SENDSIZE_def HEADER_SIZE_def)

section \<open>Names\<close>

lemma cstring_put:
  assumes "put_string b i path = Some b'" "0 \<notin> set path"
  shows "cstring_at b' i = Some path"
proof -
  have "b' = take i b @ path @ [0] @ drop (i + length path + 1) b" "i + length path + 1 \<le> length b"
    using assms(1) by (auto simp: put_string_def wr_def split: if_splits)
  then have "drop i b' = path @ [0] @ drop (i + length path + 1) b" by simp
  moreover have "takeWhile (\<lambda>c. c \<noteq> 0) (path @ 0 # r) = path" for r
    using assms(2) by (induction path) auto
  ultimately show ?thesis by (simp add: cstring_at_def)
qed

lemma cstring_no_nul: "cstring_at b i = Some path \<Longrightarrow> 0 \<notin> set path"
  by (auto simp: cstring_at_def Let_def dest: set_takeWhileD split: if_splits)

lemma un_name_reads:
  assumes "un_name os path = Some sun" "0 \<notin> set path"
  shows "length sun = SOCKADDR_UN_SIZE" "sa_family sun = Some AF_UNIX" "cstring_at sun 2 = Some path"
proof -
  obtain b where b: "wr (junk os SOCKADDR_UN_SIZE) 0 (le16_bytes 1) = Some b" "put_string b 2 path = Some sun"
    using assms(1) by (auto simp: un_name_def bind_eq_Some_conv)
  then have lb: "length b = SOCKADDR_UN_SIZE" using wr_length by fastforce
  then show "length sun = SOCKADDR_UN_SIZE" using b(2) wr_length by (fastforce simp: put_string_def)
  then have l2: "2 \<le> length sun" by (simp add: SOCKADDR_UN_SIZE_def)
  have "b ! 0 = 1" "b ! 1 = 0" using b(1) by (auto simp: wr_def le16_bytes_def split: if_splits)
  moreover have "take 2 sun = take 2 b" using b(2) wr_take by (fastforce simp: put_string_def)
  then have "take 2 sun ! 0 = take 2 b ! 0" "take 2 sun ! 1 = take 2 b ! 1" by simp_all
  then have "sun ! 0 = b ! 0" "sun ! 1 = b ! 1" by simp_all
  ultimately show "sa_family sun = Some AF_UNIX" using l2 by (auto simp: sa_family_def rd_def)
  show "cstring_at sun 2 = Some path" by (rule cstring_put [OF b(2) assms(2)])
qed

lemma unix_bind_path:
  assumes "unix_bind os p a n st = Some (0, s)"
  obtains u path where "usock_of p s = Some u" "cstring_at a 2 = Some path" "cstring_at (us_sockpath u) 0 = Some path"
proof -
  have ret: "ret \<noteq> -1 \<longleftrightarrow> (if ret = -1 then -1 else 0) = (0::int)" for ret :: int by simp
  obtain sun_path path ret s1 s2 u sockpath where
    c: "cstring_at a 2 = Some sun_path" and "upd_usock p (\<lambda>u. u\<lparr>us_fd_r := ret\<rparr>) s1 = Some s2"
    and u: "usock_of p s2 = Some u" and sp: "put_string (us_sockpath u) 0 sun_path = Some sockpath"
    and s: "upd_usock p (\<lambda>u. u\<lparr>us_sockpath := sockpath\<rparr>) s2 = Some s"
    using assms by (auto simp: unix_bind_def fail_with_def bind_eq_Some_conv split: if_splits option.splits)
  obtain s' where "upd_usock p (\<lambda>u. u\<lparr>us_sockpath := sockpath\<rparr>) s2 = Some s'" "usock_of p s' = Some (u\<lparr>us_sockpath := sockpath\<rparr>)"
    using upd_usock_Some [OF u] by blast
  then show thesis
    using that [of "u\<lparr>us_sockpath := sockpath\<rparr>" sun_path] c cstring_put [OF sp cstring_no_nul [OF c]] s by simp
qed

lemma unix_getsockname_call:
  assumes "consistent {UNIX_IF} st" "fd_to_lsd fd st = Some p"
  shows "getsockname (unix_env os) fd (Some nm) (Some n) st
     = Option.bind (unix_getsockname os p nm n st) (\<lambda>((ret, n1, l1), st). Some ((ret, Some n1, Some l1), st))"
proof -
  obtain l where "sock_heap st p = Some l" using assms by (auto simp: consistent_def elim: wf_fdD)
  then show ?thesis
    using unix_lsd_if(2) [OF assms(1), of p l os]
    by (simp add: getsockname_def unix_enter [OF assms] with_op_def unix_base_def)
qed

lemma unix_getsockname_path:
  assumes "usock_of p s = Some u" "cstring_at (us_sockpath u) 0 = Some path" "un_name os path = Some sun"
    and "length nm = SOCKADDR_UN_SIZE"
  shows "unix_getsockname os p nm SOCKADDR_UN_SIZE s = Some ((0, sun, SOCKADDR_UN_SIZE), s)"
  using assms un_name_reads(1) [OF assms(3) cstring_no_nul [OF assms(2)]]
  by (simp add: unix_getsockname_def unix_getname_def memcpy_def)

lemma bind_then_getsockname:
  assumes "consistent {UNIX_IF} st" "fd_to_lsd fd st = Some p"
    and "bind_sock (unix_env os) fd (Some a) n st = Some (0, st')" "length nm = SOCKADDR_UN_SIZE"
  shows "\<exists>sun. getsockname (unix_env os) fd (Some nm) (Some SOCKADDR_UN_SIZE) st' = Some ((0, Some sun, Some SOCKADDR_UN_SIZE), st')
      \<and> sa_family sun = Some AF_UNIX \<and> cstring_at sun 2 = cstring_at a 2"
    and "bind_sock (unix_env os) fd (Some b) m st' = Some (-1, st'\<lparr>errno := EINVAL\<rparr>)"
proof -
  obtain l where l: "sock_heap st p = Some l" using assms(1,2) by (auto simp: consistent_def elim: wf_fdD)
  have keep: "keeps False {UNIX_IF} st (bind_sock (unix_env os) fd (Some a) n st)"
    by (rule unix.bind_keeps [OF assms(1)]) simp
  then have c': "consistent {UNIX_IF} st'" and f': "fd_to_lsd fd st' = Some p"
    using assms(2,3) by (auto simp: returns_def runs_def)
  obtain s1 where s1: "unix_bind os p a n st = Some (0, s1)" "bind_done (unix_env os) p 0 s1 = Some (0, st')"
    using assms(3) unix_lsd_if(2) [OF assms(1) l, of os] l
    by (auto simp: bind_sock_def unix_enter [OF assms(1,2)] with_op_def unix_base_def bind_eq_Some_conv fail_with_def
        bind_done_def split: if_splits)
  have k1: "consistent {UNIX_IF} s1" "fd_to_lsd fd s1 = Some p"
    using unix_bind_keeps [OF assms(1), of os p a n] s1(1) assms(2) by (auto simp: returns_def runs_def)
  obtain l1 where l1: "sock_heap s1 p = Some l1" "lsd_fd l1 = fd" using k1 by (auto simp: consistent_def elim: wf_fdD)
  obtain u path where u: "usock_of p s1 = Some u" "cstring_at a 2 = Some path" "cstring_at (us_sockpath u) 0 = Some path"
    using unix_bind_path [OF s1(1)] by blast
  have j: "length (env_junk (unix_env os)) = SOCKADDR_UN_SIZE" by (simp add: SOCKADDR_MAX_SIZE_def SOCKADDR_UN_SIZE_def)
  have sz: "SOCKADDR_MAX_SIZE = SOCKADDR_UN_SIZE" by (simp add: SOCKADDR_MAX_SIZE_def SOCKADDR_UN_SIZE_def)
  obtain sun where sun: "un_name os path = Some sun"
    using s1(2) l1 u unix_getsockname_call [OF k1]
    by (cases "un_name os path") (auto simp: bind_done_def unix_getsockname_def unix_getname_def Let_def)
  note nm1 = unix_getsockname_path [OF u(1,3) sun]
  obtain a' where st': "st' = s1\<lparr>sock_heap := (sock_heap s1)(p \<mapsto> l1\<lparr>lsd_sockname := a', lsd_socknamelen := SOCKADDR_UN_SIZE, lsd_bound := True\<rparr>)\<rparr>"
    using s1(2) l1 unix_getsockname_call [OF k1] nm1 [of "env_junk (unix_env os)"] j
    by (auto simp: bind_done_def bind_eq_Some_conv sz)
  have "usock_of p st' = Some u" using u(1) l1 by (auto simp: st' usock_of_def bind_eq_Some_conv)
  then show "\<exists>sun. getsockname (unix_env os) fd (Some nm) (Some SOCKADDR_UN_SIZE) st' = Some ((0, Some sun, Some SOCKADDR_UN_SIZE), st')
      \<and> sa_family sun = Some AF_UNIX \<and> cstring_at sun 2 = cstring_at a 2"
    using unix_getsockname_path [OF _ u(3) sun assms(4)] un_name_reads [OF sun cstring_no_nul [OF u(3)]] u(2)
    by (simp add: unix_getsockname_call [OF c' f'])
  have "lsd_bound (the (sock_heap st' p))" "sock_heap st' p \<noteq> None" by (simp_all add: st')
  then show "bind_sock (unix_env os) fd (Some b) m st' = Some (-1, st'\<lparr>errno := EINVAL\<rparr>)"
    by (auto simp: bind_sock_def unix_enter [OF c' f'] fail_with_def)
qed

text \<open>C33: after \<open>bind\<close> has succeeded, \<open>getsockname\<close> returns the path the socket was bound to, and the socket is
  bound; a second \<open>bind\<close> fails with \<open>EINVAL\<close>.\<close>

theorem bind_getsockname:
  assumes "consistent {UNIX_IF} st" "fd_to_lsd fd st = Some p"
    and "bind_sock (unix_env os) fd (Some a) n st = Some (0, st')" "length nm = SOCKADDR_UN_SIZE"
  shows "(\<exists>sun. getsockname (unix_env os) fd (Some nm) (Some SOCKADDR_UN_SIZE) st' = Some ((0, Some sun, Some SOCKADDR_UN_SIZE), st')
      \<and> sa_family sun = Some AF_UNIX \<and> cstring_at sun 2 = cstring_at a 2)
    \<and> bind_sock (unix_env os) fd (Some b) m st' = Some (-1, st'\<lparr>errno := EINVAL\<rparr>)"
  using bind_then_getsockname [OF assms] by blast

theorem bind_getsockname_witness:
  "bind_sock (unix_env quiet_os) 3 (Some name_s) 110 bound_state = Some (-1, bound_state\<lparr>errno := EINVAL\<rparr>)"
proof -
  have "(case fd_to_lsd 3 (one_socket SOCK_STREAM) of Some _ \<Rightarrow> True | None \<Rightarrow> False)" by code_simp
  then obtain p where "fd_to_lsd 3 (one_socket SOCK_STREAM) = Some p" by (auto split: option.splits)
  then show ?thesis
    using bind_getsockname [OF one_socket_consistent _ listen_made(1), of p "replicate 110 0" "name_s" 110]
    by (simp add: SOCKADDR_UN_SIZE_def)
qed

end
