(* ===== verification/Mailslot.thy ===== *)
theory Mailslot
  imports Unix_State
begin

text \<open>
  The driver below the Unix domain interface: mailslots of LAN Manager (\<open>src/unix/mailslot.c\<close>) and the file
  descriptors made of them (\<open>src/unix/mail_fse.c\<close>). LAN Manager itself, reached by DOS interrupt 0x21, is the
  parameter \<open>dos_api\<close>, with the memory and descriptors DOS and the C library give out. Strings are without
  their nul.
\<close>

section \<open>State\<close>

definition MAILSLOT_MINSIZE :: int where "MAILSLOT_MINSIZE = 0x1000"
definition MAILSLOT_MAXSIZE :: int where "MAILSLOT_MAXSIZE = 0xFFF6"
definition MAILSLOT_MAX :: nat where "MAILSLOT_MAX = 256"

record mailslot =
  slot_name :: "u8 list option"
  slot_handle :: int
  slot_sel :: int
  slot_seg :: int
  slot_off :: int
  slot_len :: int
  slot_maxlen :: int

record mail_info =
  info_maxlen :: int
  info_slotlen :: int
  info_nextlen :: int
  info_nextpriority :: int
  info_queued :: int

record mail_fse =
  me_fd :: int
  me_handle :: int
  me_name :: "u8 list option"
  me_blocking :: bool
  me_peeking :: bool

text \<open>
  The registers after a call, and the parameter: whether LAN Manager is there, memory below 1 MB (segment and
  selector, segment -1 on failure), the mailslot calls, and the C library. Reading and peeking also give the contents of the
  buffer. A descriptor of the driver is \<open>Some\<close> of its FSEXT data.
\<close>

record dos_regs =
  rx_carry :: bool
  rx_ax :: u16
  rx_bx :: u16
  rx_cx :: u16
  rx_dx :: u16
  rx_si :: u16

record 'l dos_api =
  dos_lan :: bool
  dos_alloc :: "nat \<Rightarrow> 'l \<Rightarrow> (int \<times> int) \<times> 'l"
  dos_free :: "int \<Rightarrow> 'l \<Rightarrow> 'l"
  lan_create :: "u8 list \<Rightarrow> int \<Rightarrow> int \<Rightarrow> 'l \<Rightarrow> dos_regs \<times> 'l"
  lan_destroy :: "int \<Rightarrow> 'l \<Rightarrow> dos_regs \<times> 'l"
  lan_write :: "u8 list \<Rightarrow> u8 list \<Rightarrow> 'l \<Rightarrow> dos_regs \<times> 'l"
  lan_read :: "int \<Rightarrow> int \<Rightarrow> 'l \<Rightarrow> (dos_regs \<times> u8 list) \<times> 'l"
  lan_peek :: "int \<Rightarrow> 'l \<Rightarrow> (dos_regs \<times> u8 list) \<times> 'l"
  lan_info :: "int \<Rightarrow> 'l \<Rightarrow> dos_regs \<times> 'l"
  dos_errno :: "u16 \<Rightarrow> errno_t"
  dos_malloc :: "nat \<Rightarrow> bool"
  dos_alloc_fd :: "(int \<Rightarrow> bool) \<Rightarrow> 'l \<Rightarrow> int"

record 'l mail =
  mail_errno :: errno_t
  mail_inited :: bool
  mail_slots :: "mailslot option list"
  mail_seg :: int
  mail_sel :: int
  mail_size :: int
  fse_inited :: bool
  fse_slots :: "nat option list"
  fse_heap :: "nat \<Rightarrow> mail_fse option"
  mail_next :: nat
  mail_fds :: "int \<Rightarrow> nat option option"
  lan :: 'l

type_synonym ('l, 'a) mact = "'l mail \<Rightarrow> ('a \<times> 'l mail) option"

definition mail_fail :: "errno_t \<Rightarrow> 'a \<Rightarrow> ('l, 'a) mact" where
  "mail_fail e v st = Some (v, st\<lparr>mail_errno := e\<rparr>)"

text \<open>The result of a DOS call that returns a count in \<open>ax\<close>.\<close>

definition dos_count :: "dos_regs \<Rightarrow> int" where
  "dos_count r = (if rx_carry r then -1 else uint (rx_ax r))"

definition backslashify :: "u8 list \<Rightarrow> u8 list" where
  "backslashify s = List.map (\<lambda>c. if c = 47 then 92 else c) s"

text \<open>A loop over a table that reads a field of each entry up to the one it looks for; an empty entry is a null pointer.\<close>

fun scan_slots :: "('a \<Rightarrow> bool option) \<Rightarrow> 'a option list \<Rightarrow> nat \<Rightarrow> nat option option" where
  "scan_slots P [] i = Some None"
| "scan_slots P (None # ys) i = None"
| "scan_slots P (Some y # ys) i = do { b \<leftarrow> P y; if b then Some (Some i) else scan_slots P ys (i + 1) }"

section \<open>Mailslots\<close>

definition mailslot_init :: "'l dos_api \<Rightarrow> ('l, bool) mact" where
  "mailslot_init dos st =
     (if mail_inited st then Some (True, st)
      else if \<not> dos_lan dos then Some (False, st)
      else do {
        let st = st\<lparr>mail_slots := replicate MAILSLOT_MAX None\<rparr>;
        let paras = nat (MAILSLOT_MAXSIZE + 15) div 16;
        ((seg, sel), l) \<leftarrow> Some (dos_alloc dos paras (lan st));
        let st = st\<lparr>mail_seg := seg, mail_sel := sel, lan := l\<rparr>;
        if seg = -1 then Some (False, st)
        else Some (True, st\<lparr>mail_size := 16 * int paras, mail_inited := True\<rparr>)
      })"

definition mailslot_create :: "'l dos_api \<Rightarrow> u8 list option \<Rightarrow> int \<Rightarrow> ('l, int) mact" where
  "mailslot_create dos name len st = do {
     (ok, st) \<leftarrow> mailslot_init dos st;
     if \<not> ok then Some (-1, st)
     else (case name of
        None \<Rightarrow> mail_fail EINVAL (-1) st
      | Some name \<Rightarrow>
          if len < MAILSLOT_MINSIZE \<or> len > MAILSLOT_MAXSIZE then mail_fail EINVAL (-1) st
          else do {
            name \<leftarrow> fits MAXPATH name;
            let newname = backslashify name;
            let paras = nat (len + 9 + 15) div 16;
            ((seg, sel), l) \<leftarrow> Some (dos_alloc dos paras (lan st));
            let st = st\<lparr>lan := l\<rparr>;
            if seg = -1 then Some (-1, st)
            else do {
              (r, l) \<leftarrow> Some (lan_create dos newname len seg (lan st));
              let st = st\<lparr>lan := l\<rparr>;
              let hMailslot = dos_count r;
              if hMailslot = -1 then mail_fail (dos_errno dos (rx_ax r)) (-1) st
              else (case find_slot None (mail_slots st) of
                 None \<Rightarrow> Some (hMailslot, st)
               | Some i \<Rightarrow> do {
                   let n = mail_next st;
                   let st = st\<lparr>mail_next := n + 2\<rparr>;
                   if \<not> dos_malloc dos n then Some (-1, st)
                   else do {
                     let m = \<lparr>slot_name = (if dos_malloc dos (n + 1) then Some newname else None),
                           slot_handle = hMailslot, slot_sel = sel, slot_seg = seg, slot_off = 0,
                           slot_len = len + 9, slot_maxlen = len\<rparr>;
                     Some (hMailslot, st\<lparr>mail_slots := (mail_slots st)[i := Some m]\<rparr>)
                   }
                 })
            }
          })
   }"

definition mailslot_destroy :: "'l dos_api \<Rightarrow> int \<Rightarrow> ('l, int) mact" where
  "mailslot_destroy dos hMailslot st = do {
     (ok, st) \<leftarrow> mailslot_init dos st;
     if \<not> ok then Some (-1, st)
     else if hMailslot = -1 then mail_fail EINVAL (-1) st
     else do {
       (r, l) \<leftarrow> Some (lan_destroy dos hMailslot (lan st));
       let st = st\<lparr>lan := l\<rparr>;
       if rx_carry r then mail_fail (dos_errno dos (rx_ax r)) (-1) st
       else do {
         i \<leftarrow> scan_slots (\<lambda>m. Some (slot_handle m = hMailslot)) (mail_slots st) 0;
         let sel = (case i of None \<Rightarrow> 0 | Some i \<Rightarrow> (case mail_slots st ! i of None \<Rightarrow> 0 | Some m \<Rightarrow> slot_sel m));
         if sel \<noteq> 0 then Some (0, st\<lparr>lan := dos_free dos sel (lan st), mail_slots := (mail_slots st)[the i := None]\<rparr>)
         else Some (-1, st)
       }
     }
   }"

text \<open>\<open>n\<close> is the number of slots of the table that are left; an empty slot is skipped.\<close>

fun destroy_all :: "'l dos_api \<Rightarrow> nat \<Rightarrow> nat \<Rightarrow> 'l mail \<Rightarrow> 'l mail option" where
  "destroy_all dos i 0 st = Some st"
| "destroy_all dos i (Suc n) st = do {
     q \<leftarrow> rd (mail_slots st) i;
     st \<leftarrow> (case q of None \<Rightarrow> Some st
           | Some m \<Rightarrow> do { (_, st) \<leftarrow> mailslot_destroy dos (slot_handle m) st; Some st });
     destroy_all dos (i + 1) n st
   }"

definition mailslot_uninit :: "'l dos_api \<Rightarrow> 'l mail \<Rightarrow> 'l mail option" where
  "mailslot_uninit dos st =
     (if \<not> mail_inited st then Some st
      else do {
        let st = st\<lparr>lan := dos_free dos (mail_sel st) (lan st), mail_seg := 0, mail_sel := 0, mail_size := 0\<rparr>;
        st \<leftarrow> destroy_all dos 0 MAILSLOT_MAX st;
        Some (st\<lparr>mail_inited := False\<rparr>)
      })"

text \<open>Bytes \<open>i\<close> to \<open>i + n\<close> of an object.\<close>

definition bytes_at :: "u8 list \<Rightarrow> int \<Rightarrow> int \<Rightarrow> u8 list option" where
  "bytes_at b i n = (if i < 0 \<or> n < 0 \<or> int (length b) < i + n then None else Some (take (nat n) (drop (nat i) b)))"

partial_function (option) write_loop :: "'l dos_api \<Rightarrow> u8 list \<Rightarrow> u8 list \<Rightarrow> int \<Rightarrow> int \<Rightarrow> int \<Rightarrow> int \<Rightarrow> 'l mail
    \<Rightarrow> (int \<times> 'l mail) option" where
  "write_loop dos newname msg len maxlen i sent st =
     (if i < len then do {
        let sendlen = (if len - i > maxlen then maxlen else len - i);
        data \<leftarrow> bytes_at msg i sendlen;
        (r, l) \<leftarrow> Some (lan_write dos newname data (lan st));
        write_loop dos newname msg len maxlen (i + maxlen) (if rx_carry r then sent else sent + sendlen)
          (st\<lparr>lan := l, mail_errno := (if rx_carry r \<and> sent = 0 then dos_errno dos (rx_ax r) else mail_errno st)\<rparr>)
      } else Some (sent, st))"

definition mailslot_write :: "'l dos_api \<Rightarrow> u8 list option \<Rightarrow> u8 list option \<Rightarrow> int \<Rightarrow> ('l, int) mact" where
  "mailslot_write dos name msg len st = do {
     (ok, st) \<leftarrow> mailslot_init dos st;
     if \<not> ok then Some (-1, st)
     else (case (name, msg) of
        (Some name, Some msg) \<Rightarrow>
          if len < 0 then mail_fail EINVAL (-1) st
          else if len = 0 then Some (0, st)
          else do {
            name \<leftarrow> fits MAXPATH name;
            let newname = backslashify name;
            let headersize = 4 + 4 + int (length newname) + 1;
            let maxlen = (if mail_size st - headersize > int MAILSLOT_SENDSIZE then int MAILSLOT_SENDSIZE
                          else mail_size st - headersize);
            (sent, st) \<leftarrow> write_loop dos newname msg len maxlen 0 0 st;
            Some (if sent = 0 then -1 else sent, st)
          }
      | _ \<Rightarrow> mail_fail EINVAL (-1) st)
   }"

text \<open>
  Reading into an object of \<open>room\<close> bytes; the result includes what has been stored in it. The loop goes on
  while there are further messages.
\<close>

partial_function (option) read_loop :: "'l dos_api \<Rightarrow> int \<Rightarrow> nat \<Rightarrow> int \<Rightarrow> u8 list \<Rightarrow> 'l mail
    \<Rightarrow> ((int \<times> u8 list) \<times> 'l mail) option" where
  "read_loop dos hMailslot room timeout data st = do {
     ((r, mem), l) \<leftarrow> Some (lan_read dos hMailslot timeout (lan st));
     if dos_count r > 0 \<and> (length mem < unat (rx_ax r) \<or> room < length data + unat (rx_ax r)) then None
     else if dos_count r = -1 then Some ((-1, data), st\<lparr>lan := l, mail_errno := dos_errno dos (rx_ax r)\<rparr>)
     else if rx_cx r = 0 \<or> dos_count r = 0
       then Some ((int (length data) + dos_count r, data @ take (unat (rx_ax r)) mem), st\<lparr>lan := l\<rparr>)
     else read_loop dos hMailslot room timeout (data @ take (unat (rx_ax r)) mem) (st\<lparr>lan := l\<rparr>)
   }"

definition mailslot_read :: "'l dos_api \<Rightarrow> int \<Rightarrow> nat option \<Rightarrow> int \<Rightarrow> int \<Rightarrow> ('l, int \<times> u8 list) mact" where
  "mailslot_read dos hMailslot msg len timeout st = do {
     (ok, st) \<leftarrow> mailslot_init dos st;
     if \<not> ok then Some ((-1, []), st)
     else (case msg of
        None \<Rightarrow> mail_fail EINVAL (-1, []) st
      | Some room \<Rightarrow>
          if len < 0 \<or> hMailslot = -1 then mail_fail EINVAL (-1, []) st
          else if len = 0 then Some ((0, []), st)
          else read_loop dos hMailslot room timeout [] st)
   }"

definition mailslot_peek :: "'l dos_api \<Rightarrow> int \<Rightarrow> nat option \<Rightarrow> int \<Rightarrow> ('l, int \<times> u8 list) mact" where
  "mailslot_peek dos hMailslot msg len st = do {
     (ok, st) \<leftarrow> mailslot_init dos st;
     if \<not> ok then Some ((-1, []), st)
     else (case msg of
        None \<Rightarrow> mail_fail EINVAL (-1, []) st
      | Some room \<Rightarrow>
          if len < 0 \<or> hMailslot = -1 then mail_fail EINVAL (-1, []) st
          else if len = 0 then Some ((0, []), st)
          else do {
            ((r, mem), l) \<leftarrow> Some (lan_peek dos hMailslot (lan st));
            let st = st\<lparr>lan := l\<rparr>;
            if dos_count r = -1 then mail_fail (dos_errno dos (rx_ax r)) (-1, []) st
            else if length mem < unat (rx_ax r) \<or> room < unat (rx_ax r) then None
            else Some ((dos_count r, take (unat (rx_ax r)) mem), st)
          })
   }"

definition mailslot_info :: "'l dos_api \<Rightarrow> int \<Rightarrow> ('l, mail_info option) mact" where
  "mailslot_info dos hMailslot st =
     (if hMailslot = -1 then mail_fail EINVAL None st
      else (case lan_info dos hMailslot (lan st) of (r, l) \<Rightarrow>
        if rx_carry r then mail_fail (dos_errno dos (rx_ax r)) None (st\<lparr>lan := l\<rparr>)
        else Some (Some \<lparr>info_maxlen = uint (rx_ax r), info_slotlen = uint (rx_bx r), info_nextlen = uint (rx_cx r),
               info_nextpriority = uint (rx_dx r), info_queued = uint (rx_si r)\<rparr>, st\<lparr>lan := l\<rparr>)))"

end
