(* ===== verification/Mail_Fse.thy ===== *)
theory Mail_Fse
  imports Mailslot
begin

text \<open>
  Mailslots as file descriptors (\<open>src/unix/mail_fse.c\<close>): the open files, the handler of the file system
  extension with all its calls, and the C library of the Unix domain interface with this driver, \<open>mail_os\<close>.
\<close>

section \<open>Names\<close>

definition MAILSLOT_DEV :: "u8 list" where "MAILSLOT_DEV = string_bytes ''/dev/mailslot/''"
definition MAILSLOT_LOCAL :: "u8 list" where "MAILSLOT_LOCAL = string_bytes ''local/''"
definition MAILSLOT_BROADCAST :: "u8 list" where "MAILSLOT_BROADCAST = string_bytes ''bcast/''"

text \<open>\<open>strstr (s, pre) == s\<close>, and what comes behind the prefix.\<close>

definition behind :: "u8 list \<Rightarrow> u8 list \<Rightarrow> u8 list option" where
  "behind pre s = (if take (length pre) s = pre then Some (drop (length pre) s) else None)"

definition slashify_path :: "u8 list \<Rightarrow> u8 list" where
  "slashify_path s = List.map (\<lambda>c. if c = 92 then 47 else c) s"

text \<open>The mailslot a file is opened for writing on; \<open>newname\<close> has \<open>MAXPATH\<close> bytes.\<close>

definition write_name :: "u8 list \<Rightarrow> u8 list option" where
  "write_name p = (case behind MAILSLOT_LOCAL p of
     Some q \<Rightarrow> fits MAXPATH (string_bytes ''/mailslot/'' @ q)
   | None \<Rightarrow> (case behind MAILSLOT_BROADCAST p of
       Some q \<Rightarrow> fits MAXPATH (string_bytes ''//*/mailslot/'' @ q)
     | None \<Rightarrow> do {
         _ \<leftarrow> fits MAXPATH (string_bytes ''//'' @ p);
         let host = string_bytes ''//'' @ takeWhile (\<lambda>c. c \<noteq> 47) p;
         let path = dropWhile (\<lambda>c. c \<noteq> 47) p;
         if path = [] then Some host else fits MAXPATH (host @ string_bytes ''/mailslot'' @ path)
       }))"

section \<open>Opening and closing\<close>

abbreviation (input) O_WRONLY :: int where "O_WRONLY \<equiv> 1"
abbreviation (input) O_RDWR :: int where "O_RDWR \<equiv> 2"
abbreviation (input) S_IWUSR :: int where "S_IWUSR \<equiv> 128"

definition get_fse :: "int \<Rightarrow> 'l mail \<Rightarrow> nat option" where
  "get_fse fd st = (case mail_fds st fd of None \<Rightarrow> None | Some d \<Rightarrow> d)"

text \<open>The end of both kinds of open: a descriptor and its structure in slot \<open>msd\<close>. A name is copied with \<open>strdup\<close>.\<close>

definition open_slot :: "'l dos_api \<Rightarrow> nat \<Rightarrow> int \<Rightarrow> u8 list option \<Rightarrow> ('l, int) mact" where
  "open_slot dos msd handle name st =
     (let fd = dos_alloc_fd dos (\<lambda>fd. mail_fds st fd \<noteq> None) (lan st) in
      if fd = -1 then Some (-1, st)
      else (let n = mail_next st in
        if \<not> dos_malloc dos n
        then mail_fail ENOMEM (-1) (st\<lparr>mail_next := n + 2, fse_slots := (fse_slots st)[msd := None],
               mail_fds := (mail_fds st)(fd := None)\<rparr>)
        else (let me = \<lparr>me_fd = fd, me_handle = handle, me_name = (if dos_malloc dos (n + 1) then name else None),
                me_blocking = True, me_peeking = False\<rparr> in
          Some (fd, st\<lparr>mail_next := n + 2, fse_slots := (fse_slots st)[msd := Some n],
            fse_heap := (fse_heap st)(n \<mapsto> me), mail_fds := (mail_fds st)(fd \<mapsto> Some n)\<rparr>))))"

definition open_writer :: "'l dos_api \<Rightarrow> u8 list \<Rightarrow> ('l, int) mact" where
  "open_writer dos p st = (case find_slot None (fse_slots st) of
     None \<Rightarrow> mail_fail EAGAIN (-1) st
   | Some msd \<Rightarrow> do { newname \<leftarrow> write_name p; open_slot dos msd (-1) (Some newname) st })"

definition open_reader :: "'l dos_api \<Rightarrow> u8 list \<Rightarrow> ('l, int) mact" where
  "open_reader dos p st = (case behind MAILSLOT_LOCAL p of
     None \<Rightarrow> mail_fail EINVAL (-1) st
   | Some q \<Rightarrow> do {
       newname \<leftarrow> fits MAXPATH (string_bytes ''/mailslot/'' @ q);
       (hMailslot, st) \<leftarrow> mailslot_create dos (Some newname) MAILSLOT_MAXSIZE st;
       if hMailslot = -1 then Some (-1, st)
       else (case find_slot None (fse_slots st) of
          None \<Rightarrow> mail_fail EAGAIN (-1) st
        | Some msd \<Rightarrow> open_slot dos msd hMailslot None st)
     })"

text \<open>\<open>None\<close> as the result is a file that is not a mailslot, which the handler passes on.\<close>

definition mail_open :: "'l dos_api \<Rightarrow> u8 list \<Rightarrow> int \<Rightarrow> ('l, int option) mact" where
  "mail_open dos file mode st = (let n = mail_next st; st = st\<lparr>mail_next := n + 1\<rparr> in
     if \<not> dos_malloc dos n then Some (None, st)
     else (case behind MAILSLOT_DEV (slashify_path file) of
        None \<Rightarrow> Some (None, st)
      | Some p \<Rightarrow>
          if mode AND O_RDWR = O_RDWR then mail_fail EPERM (Some (-1)) st
          else do {
            (fd, st) \<leftarrow> (if mode AND O_WRONLY = O_WRONLY then open_writer dos p st else open_reader dos p st);
            Some (Some fd, st)
          }))"

definition mail_creat :: "'l dos_api \<Rightarrow> u8 list \<Rightarrow> int \<Rightarrow> ('l, int option) mact" where
  "mail_creat dos file perm = mail_open dos file (if perm AND S_IWUSR = S_IWUSR then O_WRONLY else 0)"

definition mail_close :: "'l dos_api \<Rightarrow> int \<Rightarrow> ('l, int) mact" where
  "mail_close dos fd st = (case get_fse fd st of
     None \<Rightarrow> mail_fail EBADF (-1) st
   | Some p \<Rightarrow> do {
       let st = st\<lparr>mail_fds := (mail_fds st)(fd := None)\<rparr>;
       me \<leftarrow> fse_heap st p;
       (_, st) \<leftarrow> (if me_handle me \<noteq> -1 then mailslot_destroy dos (me_handle me) st else Some (0, st));
       msd \<leftarrow> scan_slots (\<lambda>q. map_option (\<lambda>m. me_fd m = fd) (fse_heap st q)) (fse_slots st) 0;
       (case msd of
          None \<Rightarrow> Some (0, st)
        | Some i \<Rightarrow> do {
            q \<leftarrow> fse_slots st ! i;
            Some (0, st\<lparr>fse_heap := (fse_heap st)(q := None), fse_slots := (fse_slots st)[i := None]\<rparr>)
          })
     })"

section \<open>Reading and writing\<close>

text \<open>A blocking write is repeated until it has written something, a blocking read until there is data.\<close>

partial_function (option) write_until :: "'l dos_api \<Rightarrow> u8 list option \<Rightarrow> u8 list \<Rightarrow> int \<Rightarrow> 'l mail \<Rightarrow> (int \<times> 'l mail) option" where
  "write_until dos name buf len st = do {
     (ret, st) \<leftarrow> mailslot_write dos name (Some buf) len st;
     if ret \<le> 0 then write_until dos name buf len st else Some (ret, st)
   }"

definition mail_write :: "'l dos_api \<Rightarrow> int \<Rightarrow> u8 list option \<Rightarrow> int \<Rightarrow> ('l, int) mact" where
  "mail_write dos fd buf len st = (case get_fse fd st of
     None \<Rightarrow> mail_fail EBADF (-1) st
   | Some p \<Rightarrow> do {
       me \<leftarrow> fse_heap st p;
       (if me_name me = None then mail_fail EPERM (-1) st
        else (case buf of
           None \<Rightarrow> mail_fail EINVAL (-1) st
         | Some b \<Rightarrow>
             if len \<le> 0 then mail_fail EINVAL (-1) st
             else if me_blocking me then write_until dos (me_name me) b len st
             else mailslot_write dos (me_name me) (Some b) len st))
     })"

definition read_once :: "'l dos_api \<Rightarrow> mail_fse \<Rightarrow> nat \<Rightarrow> int \<Rightarrow> ('l, int \<times> u8 list) mact" where
  "read_once dos me room len st =
     (if me_peeking me then mailslot_peek dos (me_handle me) (Some room) len st
      else mailslot_read dos (me_handle me) (Some room) len 0 st)"

text \<open>\<open>old\<close> is what earlier rounds have stored at the start of the object.\<close>

partial_function (option) read_until :: "'l dos_api \<Rightarrow> mail_fse \<Rightarrow> nat \<Rightarrow> int \<Rightarrow> u8 list \<Rightarrow> 'l mail
    \<Rightarrow> ((int \<times> u8 list) \<times> 'l mail) option" where
  "read_until dos me room len old st = do {
     ((ret, data), st) \<leftarrow> read_once dos me room len st;
     if ret \<le> 0 then read_until dos me room len (data @ drop (length data) old) st
     else Some ((ret, data @ drop (length data) old), st)
   }"

definition mail_read :: "'l dos_api \<Rightarrow> int \<Rightarrow> nat option \<Rightarrow> int \<Rightarrow> ('l, int \<times> u8 list) mact" where
  "mail_read dos fd buf len st = (case get_fse fd st of
     None \<Rightarrow> mail_fail EBADF (-1, []) st
   | Some p \<Rightarrow> do {
       me \<leftarrow> fse_heap st p;
       (if me_handle me = -1 then mail_fail EPERM (-1, []) st
        else (case buf of
           None \<Rightarrow> mail_fail EINVAL (-1, []) st
         | Some room \<Rightarrow>
             if len \<le> 0 then mail_fail EINVAL (-1, []) st
             else if me_blocking me then read_until dos me room len [] st
             else read_once dos me room len st))
     })"

section \<open>Status and controls\<close>

text \<open>The descriptor is not taken from the arguments: the local \<open>fd\<close> still is -1.\<close>

definition mail_ready :: "'l dos_api \<Rightarrow> int \<Rightarrow> ('l, int) mact" where
  "mail_ready dos fd_arg st = (case get_fse (-1) st of
     None \<Rightarrow> mail_fail EBADF 0 st
   | Some p \<Rightarrow> do {
       me \<leftarrow> fse_heap st p;
       let rv = (if me_name me \<noteq> None then FSEXT_ready_write else 0);
       if me_handle me \<noteq> -1 then do {
         (info, st) \<leftarrow> mailslot_info dos (me_handle me) st;
         Some (case info of None \<Rightarrow> rv | Some mi \<Rightarrow> if info_queued mi > 0 then rv OR FSEXT_ready_read else rv, st)
       } else Some (rv, st)
     })"

text \<open>\<open>F_SETFL\<close> sets the flag and leaves the result at -1.\<close>

definition mail_fcntl :: "int \<Rightarrow> int \<Rightarrow> fcntl_cmd \<Rightarrow> int \<Rightarrow> ('l, int) mact" where
  "mail_fcntl o_nonblock fd cmd flags st = (case get_fse fd st of
     None \<Rightarrow> mail_fail EBADF (-1) st
   | Some p \<Rightarrow> do {
       me \<leftarrow> fse_heap st p;
       if cmd = F_SETFL
       then Some (-1, st\<lparr>fse_heap := (fse_heap st)(p \<mapsto> me\<lparr>me_blocking := (flags AND o_nonblock \<noteq> o_nonblock)\<rparr>)\<rparr>)
       else if cmd = F_GETFL then Some (if me_blocking me then 0 else o_nonblock, st)
       else mail_fail EINVAL (-1) st
     })"

text \<open>With the parameter as a value; the result includes what is left in it.\<close>

definition mail_ioctl :: "'l dos_api \<Rightarrow> int \<Rightarrow> int \<Rightarrow> u32 \<Rightarrow> ('l, int \<times> u32) mact" where
  "mail_ioctl dos fd cmd param st = (case get_fse fd st of
     None \<Rightarrow> mail_fail EBADF (-1, param) st
   | Some p \<Rightarrow> do {
       me \<leftarrow> fse_heap st p;
       if cmd = FIONBIO
       then Some ((0, param), st\<lparr>fse_heap := (fse_heap st)(p \<mapsto> me\<lparr>me_blocking := (param = 0)\<rparr>)\<rparr>)
       else if cmd = FIONREAD then do {
         (info, st) \<leftarrow> mailslot_info dos (me_handle me) st;
         Some (case info of None \<Rightarrow> (-1, param) | Some mi \<Rightarrow> (0, word_of_int (info_nextlen mi)), st)
       }
       else if cmd = MIOPEEK then
         (if me_handle me = -1 then mail_fail EPERM (-1, param) st
          else Some ((0, param), st\<lparr>fse_heap := (fse_heap st)(p \<mapsto> me\<lparr>me_peeking := (param \<noteq> 0)\<rparr>)\<rparr>))
       else mail_fail EINVAL (-1, param) st
     })"

section \<open>The handler\<close>

datatype mail_call =
    MF_creat "u8 list" int
  | MF_open "u8 list" int
  | MF_close int
  | MF_write int "u8 list option" int
  | MF_read int "nat option" int
  | MF_ready int
  | MF_fcntl int fcntl_cmd int
  | MF_ioctl int int u32
  | MF_other

datatype mail_out = MNone | MBytes "u8 list" | MParam u32

definition mail_handler :: "'l dos_api \<Rightarrow> int \<Rightarrow> mail_call \<Rightarrow> ('l, int option \<times> mail_out) mact" where
  "mail_handler dos o_nonblock call st = (case call of
     MF_creat file perm \<Rightarrow> do { (r, st) \<leftarrow> mail_creat dos file perm st; Some ((r, MNone), st) }
   | MF_open file mode \<Rightarrow> do { (r, st) \<leftarrow> mail_open dos file mode st; Some ((r, MNone), st) }
   | MF_close fd \<Rightarrow> do { (r, st) \<leftarrow> mail_close dos fd st; Some ((Some r, MNone), st) }
   | MF_write fd buf len \<Rightarrow> do { (r, st) \<leftarrow> mail_write dos fd buf len st; Some ((Some r, MNone), st) }
   | MF_read fd buf len \<Rightarrow> do { ((r, b), st) \<leftarrow> mail_read dos fd buf len st; Some ((Some r, MBytes b), st) }
   | MF_ready fd \<Rightarrow> do { (r, st) \<leftarrow> mail_ready dos fd st; Some ((Some r, MNone), st) }
   | MF_fcntl fd cmd flags \<Rightarrow> do { (r, st) \<leftarrow> mail_fcntl o_nonblock fd cmd flags st; Some ((Some r, MNone), st) }
   | MF_ioctl fd cmd param \<Rightarrow> do { ((r, x), st) \<leftarrow> mail_ioctl dos fd cmd param st; Some ((Some r, MParam x), st) }
   | MF_other \<Rightarrow> Some ((None, MNone), st))"

definition mailslot_install_handler :: "'l dos_api \<Rightarrow> ('l, bool) mact" where
  "mailslot_install_handler dos st =
     (if fse_inited st then Some (True, st)
      else do {
        (ok, st) \<leftarrow> mailslot_init dos st;
        if \<not> ok then Some (False, st)
        else Some (True, st\<lparr>fse_slots := replicate MAILSLOT_MAX None, fse_inited := True\<rparr>)
      })"

text \<open>\<open>n\<close> is the number of slots that are left.\<close>

fun close_slots :: "'l dos_api \<Rightarrow> nat \<Rightarrow> nat \<Rightarrow> 'l mail \<Rightarrow> 'l mail option" where
  "close_slots dos i 0 st = Some st"
| "close_slots dos i (Suc n) st = do {
     q \<leftarrow> rd (fse_slots st) i;
     st \<leftarrow> (case q of None \<Rightarrow> Some st
           | Some p \<Rightarrow> do { me \<leftarrow> fse_heap st p; (_, st) \<leftarrow> mail_close dos (me_fd me) st; Some st });
     close_slots dos (i + 1) n st
   }"

definition mailslot_uninstall_handler :: "'l dos_api \<Rightarrow> 'l mail \<Rightarrow> 'l mail option" where
  "mailslot_uninstall_handler dos = close_slots dos 0 MAILSLOT_MAX"

section \<open>The driver of the Unix domain interface\<close>

text \<open>
  The calls \<open>u_*.c\<close> make on paths and descriptors of mailslots, with the rest of the C library from \<open>base\<close>.
\<close>

definition mail_os :: "'l dos_api \<Rightarrow> 'l mail unix_os \<Rightarrow> 'l mail unix_os" where
  "mail_os dos base = base\<lparr>
     os_open := (\<lambda>path wr w. do {
       (r, w') \<leftarrow> mail_open dos path (if wr then O_WRONLY else 0) w;
       (case r of None \<Rightarrow> os_open base path wr w' | Some fd \<Rightarrow> Some (fd, mail_errno w', w')) }),
     os_read := (\<lambda>fd n w. do { ((r, b), w) \<leftarrow> mail_read dos fd (Some n) (int n) w; Some ((r, b), mail_errno w, w) }),
     os_write := (\<lambda>fd b w. do { (r, w) \<leftarrow> mail_write dos fd (Some b) (int (length b)) w; Some (r, mail_errno w, w) }),
     os_fdclose := (\<lambda>fd w. do { (r, w) \<leftarrow> mail_close dos fd w; Some (r, mail_errno w, w) }),
     os_nonblock := (\<lambda>fd w. do {
       (r, w) \<leftarrow> mail_fcntl (os_O_NONBLOCK base) fd F_SETFL (os_O_NONBLOCK base) w; Some (r, mail_errno w, w) }),
     os_ioctl := (\<lambda>fd rq x w. do { ((r, y), w) \<leftarrow> mail_ioctl dos fd rq x w; Some ((r, y), mail_errno w, w) }),
     os_used := (\<lambda>w fd. mail_fds w fd \<noteq> None \<or> os_used base w fd),
     os_install := (\<lambda>w. case mailslot_install_handler dos w of None \<Rightarrow> (False, w) | Some (ok, w) \<Rightarrow> (ok, w))\<rparr>"

end
