(* ===== verification/Driver_Props.thy ===== *)
theory Driver_Props
  imports Unix_Props Mail_Fse
begin

text \<open>
  The properties of the mailslot driver: the calls of LAN Manager a write is cut into and what a read makes of the
  pieces it is given, and the composition of the driver with the Unix domain interface above it. LAN Manager is the
  parameter \<open>dos_api\<close>, and nothing is supposed of it: mailslots may be full and may lose messages. The
  statements are about the answers a run does get.
\<close>

section \<open>Reading\<close>

text \<open>
  The calls a read makes through the handle \<open>h\<close> and what they give: the pieces, in order, and the error that has ended
  them, if one has. The state of LAN Manager is \<open>l\<close> before and \<open>l'\<close> after. A piece has the length in \<open>ax\<close>;
  \<open>cx\<close> tells whether another one waits.
\<close>

inductive lan_reads :: "'l dos_api \<Rightarrow> int \<Rightarrow> int \<Rightarrow> 'l \<Rightarrow> u8 list list \<Rightarrow> errno_t option \<Rightarrow> 'l \<Rightarrow> bool"
  for dos h t where
  fails: "lan_read dos h t l = ((r, mem), l') \<Longrightarrow> rx_carry r \<Longrightarrow> lan_reads dos h t l [] (Some (dos_errno dos (rx_ax r))) l'"
| last: "lan_read dos h t l = ((r, mem), l') \<Longrightarrow> \<not> rx_carry r \<Longrightarrow> unat (rx_ax r) \<le> length mem \<Longrightarrow> rx_cx r = 0 \<or> rx_ax r = 0
    \<Longrightarrow> lan_reads dos h t l [take (unat (rx_ax r)) mem] None l'"
| more: "lan_read dos h t l = ((r, mem), l') \<Longrightarrow> \<not> rx_carry r \<Longrightarrow> unat (rx_ax r) \<le> length mem \<Longrightarrow> rx_cx r \<noteq> 0 \<Longrightarrow> rx_ax r \<noteq> 0
    \<Longrightarrow> lan_reads dos h t l' ms e l'' \<Longrightarrow> lan_reads dos h t l (take (unat (rx_ax r)) mem # ms) e l''"

definition read_errno :: "errno_t option \<Rightarrow> 'l mail \<Rightarrow> errno_t" where
  "read_errno e st = (case e of None \<Rightarrow> mail_errno st | Some e \<Rightarrow> e)"

lemma dos_count_ok: "\<not> rx_carry r \<Longrightarrow> unat (rx_ax r) = n \<Longrightarrow> dos_count r = int n"
  by (auto simp: dos_count_def)

text \<open>All pieces are put together behind \<open>data\<close>; the length asked for is not looked at, and where they do not fit
  the object the loop is undefined.\<close>

lemma read_loop_pieces:
  assumes "lan_reads dos h t (lan st) ms e l"
  shows "length data \<le> room \<Longrightarrow> read_loop dos h room t data st = (if room < length data + length (concat ms) then None
     else Some ((if e = None then int (length data + length (concat ms)) else -1, data @ concat ms),
       st\<lparr>lan := l, mail_errno := read_errno e st\<rparr>))"
  using assms
proof (induction "lan st" ms e l arbitrary: data st rule: lan_reads.induct)
  case (fails r mem l')
  then show ?case by (subst read_loop.simps) (simp add: dos_count_def read_errno_def)
next
  case (last r mem l')
  have s: "st\<lparr>lan := l', mail_errno := mail_errno st\<rparr> = st\<lparr>lan := l'\<rparr>" by simp
  obtain n where n: "unat (rx_ax r) = n" by simp
  have "rx_ax r = 0 \<longleftrightarrow> n = 0" using n by (auto simp: unat_eq_zero)
  then show ?case
    using last n by (subst read_loop.simps) (auto simp: dos_count_ok [OF last(2) n] read_errno_def s)
next
  case (more r mem l' ms e l'')
  obtain n where n: "unat (rx_ax r) = n" by simp
  let ?d = "data @ take n mem"
  have ax: "0 < n" using more(5) n by (auto simp: unat_gt_0)
  have step: "read_loop dos h room t data st = (if room < length ?d then None else read_loop dos h room t ?d (st\<lparr>lan := l'\<rparr>))"
    using more(1-5) n ax by (subst read_loop.simps) (simp add: dos_count_ok [OF more(2) n])
  have e: "read_errno e (st\<lparr>lan := l'\<rparr>) = read_errno e st" by (simp add: read_errno_def split: option.split)
  show ?case
  proof (cases "room < length ?d")
    case True
    then show ?thesis using more(3) n by (simp add: step)
  next
    case False
    then have "length ?d \<le> room" by simp
    from more(7) [of "st\<lparr>lan := l'\<rparr>", OF _ this] show ?thesis
      using False more(3) n by (simp add: step e add.assoc)
  qed
qed

section \<open>Writing\<close>

text \<open>The messages a write is cut into.\<close>

function chunks :: "u8 list \<Rightarrow> u8 list list" where
  "chunks xs = (if xs = [] then [] else take MAILSLOT_SENDSIZE xs # chunks (drop MAILSLOT_SENDSIZE xs))"
  by pat_completeness auto
termination
  by (relation "measure length") (auto simp: MAILSLOT_SENDSIZE_def)

declare chunks.simps [simp del]

lemma chunks_content: "concat (chunks xs) = xs \<and> (\<forall>m \<in> set (chunks xs). m \<noteq> [] \<and> length m \<le> MAILSLOT_SENDSIZE)"
proof (induction xs rule: chunks.induct)
  case (1 xs)
  then show ?case by (subst (1 2) chunks.simps) (auto simp: MAILSLOT_SENDSIZE_def)
qed

lemma chunks_single: "xs \<noteq> [] \<Longrightarrow> length xs \<le> MAILSLOT_SENDSIZE \<Longrightarrow> chunks xs = [xs]"
  by (simp add: chunks.simps)

text \<open>What LAN Manager answers when it is handed the messages one after the other.\<close>

fun lan_writes :: "'l dos_api \<Rightarrow> u8 list \<Rightarrow> u8 list list \<Rightarrow> 'l \<Rightarrow> (u8 list \<times> dos_regs) list \<times> 'l" where
  "lan_writes dos name [] l = ([], l)"
| "lan_writes dos name (b # bs) l = (let (r, l') = lan_write dos name b l; (rs, l'') = lan_writes dos name bs l'
     in ((b, r) # rs, l''))"

definition taken :: "(u8 list \<times> dos_regs) list \<Rightarrow> nat" where
  "taken rs = sum_list (List.map (\<lambda>(b, r). if rx_carry r then 0 else length b) rs)"

text \<open>\<open>errno\<close> is that of the last message refused before the first one taken.\<close>

definition write_errno :: "'l dos_api \<Rightarrow> (u8 list \<times> dos_regs) list \<Rightarrow> errno_t \<Rightarrow> errno_t" where
  "write_errno dos rs e = foldl (\<lambda>e (b, r). dos_errno dos (rx_ax r)) e (takeWhile (\<lambda>(b, r). rx_carry r) rs)"

lemma write_errno_Cons:
  "write_errno dos ((b, r) # rs) e = (if rx_carry r then write_errno dos rs (dos_errno dos (rx_ax r)) else e)"
  by (simp add: write_errno_def)

lemma taken_simps [simp]: "taken [] = 0" "taken ((b, r) # rs) = (if rx_carry r then 0 else length b) + taken rs"
  by (simp_all add: taken_def)

lemma lan_writes_fst: "lan_writes dos name bs l = (rs, l') \<Longrightarrow> List.map fst rs = bs"
  by (induction bs arbitrary: l rs) (auto split: prod.splits)

lemma write_loop_step:
  assumes "i < len" "k = min (len - i) m" "len \<le> length msg" "d = take k (drop i msg)"
    and "lan_write dos name d (lan st) = (r, l)"
  shows "write_loop dos name msg (int len) (int m) (int i) sent st
    = write_loop dos name msg (int len) (int m) (int (i + m)) (if rx_carry r then sent else sent + int (length d))
        (st\<lparr>lan := l, mail_errno := (if rx_carry r \<and> sent = 0 then dos_errno dos (rx_ax r) else mail_errno st)\<rparr>)"
proof -
  have k: "(if int len - int i > int m then int m else int len - int i) = int k" "length d = k" "i + k \<le> length msg"
    using assms(1-4) by (auto simp: min_def)
  have d: "bytes_at msg (int i) (int k) = Some d" using k(3) by (simp add: bytes_at_def assms(4))
  show ?thesis
    using assms(1) by (subst write_loop.simps) (simp add: k(1,2) d assms(5) Let_def)
qed

lemma write_loop_pieces:
  assumes "len \<le> length msg" "0 \<le> sent" "lan_writes dos name (chunks (take (len - i) (drop i msg))) (lan st) = (rs, l)"
  shows "write_loop dos name msg (int len) (int MAILSLOT_SENDSIZE) (int i) sent st = Some (sent + int (taken rs),
     st\<lparr>lan := l, mail_errno := (if sent = 0 then write_errno dos rs (mail_errno st) else mail_errno st)\<rparr>)"
  using assms(2,3)
proof (induction "len - i" arbitrary: i sent st rs rule: less_induct)
  case less
  show ?case
  proof (cases "i < len")
    case False
    then show ?thesis
      using less.prems(2) by (subst write_loop.simps) (auto simp: chunks.simps write_errno_def)
  next
    case True
    let ?xs = "take (len - i) (drop i msg)" and ?j = "i + MAILSLOT_SENDSIZE"
    define k where "k = min (len - i) MAILSLOT_SENDSIZE"
    define b where "b = take k (drop i msg)"
    have k: "0 < k" "i + k \<le> len" using True by (auto simp: k_def MAILSLOT_SENDSIZE_def)
    have lb: "length b = k" using k(2) assms(1) by (simp add: b_def)
    have "take MAILSLOT_SENDSIZE ?xs = b" "drop MAILSLOT_SENDSIZE ?xs = take (len - ?j) (drop ?j msg)" "?xs \<noteq> []"
      using True assms(1) by (simp_all add: b_def k_def drop_take min.commute add.commute)
    then have c: "chunks ?xs = b # chunks (take (len - ?j) (drop ?j msg))" by (subst chunks.simps) simp
    obtain r l1 rs' where r: "lan_write dos name b (lan st) = (r, l1)" "rs = (b, r) # rs'"
      "lan_writes dos name (chunks (take (len - ?j) (drop ?j msg))) l1 = (rs', l)"
      using less.prems(2) unfolding c by (auto split: prod.splits)
    have j: "len - ?j < len - i" using True by (simp add: MAILSLOT_SENDSIZE_def)
    let ?s = "st\<lparr>lan := l1, mail_errno := (if rx_carry r \<and> sent = 0 then dos_errno dos (rx_ax r) else mail_errno st)\<rparr>"
    let ?n = "if rx_carry r then sent else sent + int (length b)"
    have "0 \<le> ?n" "lan_writes dos name (chunks (take (len - ?j) (drop ?j msg))) (lan ?s) = (rs', l)"
      using less.prems(1) r(3) by simp_all
    note ih = less.hyps [OF j this]
    show ?thesis
      unfolding write_loop_step [OF True k_def assms(1) b_def r(1)] ih r(2)
      using less.prems(1) k(1) lb by (simp add: write_errno_Cons)
  qed
qed

text \<open>A driver that has been started: the transfer buffer has its size.\<close>

definition slots_started :: "'l mail \<Rightarrow> bool" where
  "slots_started st \<longleftrightarrow> mail_inited st \<and> mail_size st = 65536"

lemma init_started: "slots_started st \<Longrightarrow> mailslot_init dos st = Some (True, st)"
  by (simp add: slots_started_def mailslot_init_def)

text \<open>Starting the driver makes it so.\<close>

lemma init_starts:
  assumes "\<not> mail_inited st" "mailslot_init dos st = Some (True, st')"
  shows "slots_started st'"
proof -
  have "nat (MAILSLOT_MAXSIZE + 15) div 16 = 4096" by (simp add: MAILSLOT_MAXSIZE_def)
  then show ?thesis
    using assms by (auto simp: mailslot_init_def slots_started_def Let_def split: if_splits prod.splits)
qed

section \<open>Messages through the driver\<close>

lemma mailslot_write_eq:
  assumes "slots_started st" "length name < MAXPATH" "0 < len" "len \<le> length msg"
    and "lan_writes dos (backslashify name) (chunks (take len msg)) (lan st) = (rs, l)"
  shows "mailslot_write dos (Some name) (Some msg) (int len) st
    = Some (if taken rs = 0 then -1 else int (taken rs), st\<lparr>lan := l, mail_errno := write_errno dos rs (mail_errno st)\<rparr>)"
proof -
  have h: "length (backslashify name) = length name" by (simp add: backslashify_def)
  have m: "int MAILSLOT_SENDSIZE < mail_size st - (9 + int (length (backslashify name)))"
    using assms(1,2) by (auto simp: h slots_started_def MAXPATH_def MAILSLOT_SENDSIZE_def)
  have "write_loop dos (backslashify name) msg (int len) (int MAILSLOT_SENDSIZE) 0 0 st
      = Some (int (taken rs), st\<lparr>lan := l, mail_errno := write_errno dos rs (mail_errno st)\<rparr>)"
    using write_loop_pieces [OF assms(4), of 0 dos "backslashify name" 0 st rs l] assms(5) by simp
  then show ?thesis
    using assms(2,3) m init_started [OF assms(1)] by (simp add: mailslot_write_def fits_def Let_def)
qed


lemma mailslot_read_loop:
  assumes "slots_started st" "h \<noteq> -1" "0 < len"
  shows "mailslot_read dos h (Some room) len t st = read_loop dos h room t [] st"
  using assms by (simp add: mailslot_read_def init_started)

text \<open>C19: a read puts the pieces LAN Manager gives it together in order, all that wait and not only as many as
  were asked for, and returns their length, or -1 and \<open>errno\<close> when one of the calls fails. Where the
  pieces do not fit the object of the caller they are stored behind it.\<close>

theorem mailslot_read_pieces:
  assumes "slots_started st" "h \<noteq> -1" "0 < len" "lan_reads dos h t (lan st) ms e l"
  shows "mailslot_read dos h (Some room) len t st = (if room < length (concat ms) then None
     else Some ((if e = None then int (length (concat ms)) else -1, concat ms), st\<lparr>lan := l, mail_errno := read_errno e st\<rparr>))"
  using read_loop_pieces [OF assms(4), of "[]" room] by (simp add: mailslot_read_loop [OF assms(1-3)])

text \<open>An instance with one mailslot, whose state is the queue.\<close>

definition regs :: "bool \<Rightarrow> nat \<Rightarrow> nat \<Rightarrow> dos_regs" where
  "regs c ax cx = \<lparr>rx_carry = c, rx_ax = of_nat ax, rx_bx = 0, rx_cx = of_nat cx, rx_dx = 0, rx_si = 0\<rparr>"

definition next_length :: "u8 list list \<Rightarrow> nat" where
  "next_length ms = (case ms of [] \<Rightarrow> 0 | m # _ \<Rightarrow> length m)"

definition queue_dos :: "u8 list list dos_api" where
  "queue_dos = \<lparr>dos_lan = True, dos_alloc = (\<lambda>n l. ((100, 7), l)), dos_free = (\<lambda>s l. l),
     lan_create = (\<lambda>name len seg l. (regs False 5 0, l)), lan_destroy = (\<lambda>h l. (regs False 0 0, l)),
     lan_write = (\<lambda>name b l. if length b < 65536 then (regs False 0 0, l @ [b]) else (regs True 1 0, l)),
     lan_read = (\<lambda>h t l. case l of [] \<Rightarrow> ((regs True 1 0, []), []) | m # ms \<Rightarrow> ((regs False (length m) (next_length ms), m), ms)),
     lan_peek = (\<lambda>h l. case l of [] \<Rightarrow> ((regs True 1 0, []), []) | m # ms \<Rightarrow> ((regs False (length m) (next_length ms), m), l)),
     lan_info = (\<lambda>h l. (regs False 0 (next_length l), l)), dos_errno = (\<lambda>e. EIO), dos_malloc = (\<lambda>n. True),
     dos_alloc_fd = (\<lambda>used l. if \<not> used 3 then 3 else if \<not> used 4 then 4 else -1)\<rparr>"

text \<open>A driver with two open files on the same mailslot, 3 to write and 4 to read.\<close>

definition two_files :: "u8 list list \<Rightarrow> u8 list list mail" where
  "two_files l = \<lparr>mail_errno = ENOERR, mail_inited = True, mail_slots = replicate MAILSLOT_MAX None, mail_seg = 100,
     mail_sel = 7, mail_size = 65536, fse_inited = True, fse_slots = [Some 0, Some 1] @ replicate (MAILSLOT_MAX - 2) None,
     fse_heap = [0 \<mapsto> \<lparr>me_fd = 3, me_handle = -1, me_name = Some (string_bytes ''/mailslot/a''), me_blocking = True,
                   me_peeking = False\<rparr>,
                 1 \<mapsto> \<lparr>me_fd = 4, me_handle = 5, me_name = None, me_blocking = True, me_peeking = False\<rparr>],
     mail_next = 2, mail_fds = (\<lambda>fd. if fd = 3 then Some (Some 0) else if fd = 4 then Some (Some 1) else None), lan = l\<rparr>"

lemma two_files_simps [simp]: "slots_started (two_files l)" "lan (two_files l) = l"
  by (simp_all add: slots_started_def two_files_def)

lemma two_files_lan: "(two_files k)\<lparr>lan := l\<rparr> = two_files l"
  by (simp add: two_files_def)

lemma small_u16: "n \<le> MAILSLOT_SENDSIZE \<Longrightarrow> unat (of_nat n :: u16) = n" "0 < n \<Longrightarrow> n \<le> MAILSLOT_SENDSIZE \<Longrightarrow> (of_nat n :: u16) \<noteq> 0"
proof -
  show u: "unat (of_nat n :: u16) = n" if "n \<le> MAILSLOT_SENDSIZE"
    using that by (simp add: unat_of_nat MAILSLOT_SENDSIZE_def)
  show "(of_nat n :: u16) \<noteq> 0" if "0 < n" "n \<le> MAILSLOT_SENDSIZE"
    using u [OF that(2)] that(1) by (metis less_irrefl unat_0)
qed

lemma queue_reads:
  assumes "m \<noteq> []" "length m \<le> MAILSLOT_SENDSIZE"
  shows "lan_reads queue_dos h t [m] [m] None []"
    and "lan_reads queue_dos h t ms ms' e l \<Longrightarrow> 0 < next_length ms \<Longrightarrow> next_length ms \<le> MAILSLOT_SENDSIZE
      \<Longrightarrow> lan_reads queue_dos h t (m # ms) (m # ms') e l"
proof -
  let ?r = "\<lambda>n. regs False (length m) n"
  have r: "\<not> rx_carry (?r n)" "unat (rx_ax (?r n)) = length m" "rx_ax (?r n) \<noteq> 0" "rx_cx (?r n) = of_nat n" for n
    using assms by (simp_all add: regs_def small_u16)
  have "lan_read queue_dos h t [m] = ((?r 0, m), [])" by (simp add: queue_dos_def next_length_def)
  from lan_reads.last [OF this r(1)] show "lan_reads queue_dos h t [m] [m] None []" by (simp add: r)
  assume ms: "lan_reads queue_dos h t ms ms' e l" "0 < next_length ms" "next_length ms \<le> MAILSLOT_SENDSIZE"
  have a: "lan_read queue_dos h t (m # ms) = ((?r (next_length ms), m), ms)" by (simp add: queue_dos_def)
  have b: "rx_cx (?r (next_length ms)) \<noteq> 0" using ms(2,3) by (simp add: r small_u16)
  from lan_reads.more [OF a r(1) _ b r(3) ms(1)] show "lan_reads queue_dos h t (m # ms) (m # ms') e l" by (simp add: r)
qed


text \<open>The two pieces of that message, read into an object for 6000 bytes and into one that is too small.\<close>

theorem mailslot_read_pieces_witness:
  "mailslot_read queue_dos 5 (Some 6000) 1 0 (two_files [replicate 4080 7, replicate 920 7])
     = Some ((5000, replicate 5000 7), two_files [])
   \<and> mailslot_read queue_dos 5 (Some 4999) 1 0 (two_files [replicate 4080 7, replicate 920 7]) = None"
proof -
  let ?a = "replicate 4080 (7 :: u8)" and ?b = "replicate 920 (7 :: u8)"
  have r: "lan_reads queue_dos 5 0 [?a, ?b] [?a, ?b] None []"
    by (intro queue_reads) (simp_all add: next_length_def MAILSLOT_SENDSIZE_def)
  then have "lan_reads queue_dos 5 0 (lan (two_files [?a, ?b])) [?a, ?b] None []" by simp
  note mailslot_read_pieces [OF two_files_simps(1) _ _ this, of 1]
  then show ?thesis
    by (simp add: read_errno_def two_files_def replicate_add [symmetric])
qed

section \<open>Files\<close>

definition writer :: "int \<Rightarrow> u8 list \<Rightarrow> 'l mail \<Rightarrow> bool" where
  "writer fd name w \<longleftrightarrow> (\<exists>p me. get_fse fd w = Some p \<and> fse_heap w p = Some me \<and> me_name me = Some name)"

definition reader :: "int \<Rightarrow> int \<Rightarrow> 'l mail \<Rightarrow> bool" where
  "reader fd h w \<longleftrightarrow> (\<exists>p me. get_fse fd w = Some p \<and> fse_heap w p = Some me \<and> me_handle me = h \<and> \<not> me_peeking me)"

text \<open>A driver that has been started, with a file to write to the mailslot \<open>name\<close> and one to read through its handle.\<close>

definition linked :: "int \<Rightarrow> u8 list \<Rightarrow> int \<Rightarrow> int \<Rightarrow> 'l mail \<Rightarrow> bool" where
  "linked fw name fr h w \<longleftrightarrow> slots_started w \<and> writer fw name w \<and> reader fr h w \<and> length name < MAXPATH \<and> h \<noteq> -1"

lemma linked_lan [simp]: "linked fw name fr h (w\<lparr>lan := l\<rparr>) = linked fw name fr h w"
  by (simp add: linked_def slots_started_def writer_def reader_def get_fse_def)

text \<open>Writing a message that LAN Manager takes, and reading what it gives.\<close>

lemma mail_write_taken:
  assumes "linked fw name fr h w" "b \<noteq> []" "length b \<le> MAILSLOT_SENDSIZE"
    and "lan_write dos (backslashify name) b (lan w) = (r, l)" "\<not> rx_carry r"
  shows "os_write (mail_os dos base) fw b w = Some (int (length b), mail_errno w, w\<lparr>lan := l\<rparr>)"
proof -
  obtain p me where f: "get_fse fw w = Some p" "fse_heap w p = Some me" "me_name me = Some name"
    and w: "slots_started w" "length name < MAXPATH"
    using assms(1) by (auto simp: linked_def writer_def)
  have s: "w\<lparr>lan := l, mail_errno := mail_errno w\<rparr> = w\<lparr>lan := l\<rparr>" by simp
  have "lan_writes dos (backslashify name) (chunks (take (length b) b)) (lan w) = ([(b, r)], l)"
    using assms(2-4) by (simp add: chunks_single)
  from mailslot_write_eq [OF w _ _ this] assms(2,5)
  have once: "mailslot_write dos (Some name) (Some b) (int (length b)) w = Some (int (length b), w\<lparr>lan := l\<rparr>)"
    by (simp add: write_errno_def s)
  then have "write_until dos (Some name) b (int (length b)) w = Some (int (length b), w\<lparr>lan := l\<rparr>)"
    using assms(2) by (subst write_until.simps) simp
  then show ?thesis using once f assms(2) by (simp add: mail_os_def mail_write_def)
qed

lemma mail_read_pieces:
  assumes "linked fw name fr h w" "lan_reads dos h 0 (lan w) ms None l" "0 < length (concat ms)" "0 < n"
  shows "os_read (mail_os dos base) fr n w = (if n < length (concat ms) then None
    else Some ((int (length (concat ms)), concat ms), mail_errno w, w\<lparr>lan := l\<rparr>))"
proof -
  obtain p me where f: "get_fse fr w = Some p" "fse_heap w p = Some me" "me_handle me = h" "\<not> me_peeking me" "h \<noteq> -1"
    and w: "slots_started w"
    using assms(1) by (auto simp: linked_def reader_def)
  define c where "c = concat ms"
  have s: "w\<lparr>lan := l, mail_errno := mail_errno w\<rparr> = w\<lparr>lan := l\<rparr>" by simp
  have n: "0 < int n" "0 < length c" using assms(3,4) by (simp_all add: c_def)
  have once: "read_once dos me n (int n) w = (if n < length c then None else Some ((int (length c), c), w\<lparr>lan := l\<rparr>))"
    using read_loop_pieces [OF assms(2), of "[]" n] f(3,4)
    by (simp add: read_once_def mailslot_read_loop [OF w f(5) n(1)] c_def read_errno_def s)
  then have "read_until dos me n (int n) [] w = (if n < length c then None else Some ((int (length c), c), w\<lparr>lan := l\<rparr>))"
    using n(2) by (subst read_until.simps) simp
  then have "mail_read dos fr (Some n) (int n) w = (if n < length c then None else Some ((int (length c), c), w\<lparr>lan := l\<rparr>))"
    using f n(1) once by (simp add: mail_read_def)
  then show ?thesis unfolding c_def [symmetric] by (simp add: mail_os_def)
qed

lemma mail_offers:
  assumes "linked fw name fr h w" "lan_reads dos h 0 (lan w) ms None l" "0 < length (concat ms)"
  shows "offers (mail_os dos base) fr w (concat ms) (w\<lparr>lan := l\<rparr>)"
  using mail_read_pieces [OF assms] assms(3) by (simp add: offers_def del: length_greater_0_conv)

section \<open>Streams over mailslots\<close>

text \<open>The packet a socket with data \<open>u\<close> makes of the bytes \<open>d\<close>.\<close>

definition packet :: "unix_socket \<Rightarrow> u8 list \<Rightarrow> u8 list" where
  "packet u d = header_bytes (data_header u (length d)) @ d"

text \<open>A short message travels in one packet.\<close>

lemma send_one:
  assumes "usock_of p st = Some u" "d \<noteq> []" "length d \<le> MAILSLOT_SENDSIZE - HEADER_SIZE"
    and "os_write os (us_fd_w u) (packet u d) (driver (world st)) = Some (int (length (packet u d)), e, w)"
  shows "\<exists>s. send_stream os p d (length d) st = Some (int (length d), s)
     \<and> usock_of p s = Some (u\<lparr>us_seq_w := seq_add (us_seq_w u) (length d)\<rparr>) \<and> same_but p st s
     \<and> stream_buf (world s) = stream_buf (world st) \<and> driver (world s) = w"
proof -
  have "d = take (min (length d - 0) (MAILSLOT_SENDSIZE - HEADER_SIZE)) (drop 0 d)" using assms(3) by simp
  from send_packet_step(3) [OF assms(1) _ order_refl this refl, of os e w] assms(2,4)
  obtain s where s: "send_stream_loop os p d (length d) 0 st = send_stream_loop os p d (length d) (length d) s"
    "usock_of p s = Some (u\<lparr>us_seq_w := seq_add (us_seq_w u) (length d)\<rparr>)" "driver (world s) = w"
    "same_but p st s" "stream_buf (world s) = stream_buf (world st)"
    by (auto simp: packet_def)
  have "send_stream_loop os p d (length d) (length d) s = Some (int (length d), s)"
    by (subst send_stream_loop.simps) simp
  then show ?thesis using s assms(1) by (simp add: send_stream_def)
qed

text \<open>The two sockets of a connection: \<open>p\<close> writes to the mailslot and \<open>q\<close> reads from it.\<close>

definition stream_ends :: "nat \<Rightarrow> nat \<Rightarrow> unix_socket \<Rightarrow> unix_socket \<Rightarrow> int \<Rightarrow> int \<Rightarrow> 'w ustate \<Rightarrow> bool" where
  "stream_ends p q u v fw fr st \<longleftrightarrow> usock_of p st = Some u \<and> usock_of q st = Some v \<and> apart p q st
     \<and> us_fd_w u = fw \<and> us_fd_r v = fr \<and> us_secret v = us_secret u \<and> length (stream_buf (world st)) = MAILSLOT_SENDSIZE"

lemma recv_one:
  assumes "usock_of q st = Some v" "us_secret v = us_secret u" "length (stream_buf (world st)) = MAILSLOT_SENDSIZE"
    and "linked fw name (us_fd_r v) h (driver (world st))" "d \<noteq> []" "HEADER_SIZE + length d + length x \<le> MAILSLOT_SENDSIZE"
    and "unat (us_seq_w u) + length d < unat MAXINT" "length d \<le> len" "length d \<le> length buf"
    and "lan_reads dos h 0 (lan (driver (world st))) ms None l" "concat ms = packet u d @ x"
  shows "\<exists>st'. recv_stream (mail_os dos base) q buf len 0 st = Some ((int (length d), d @ drop (length d) buf), st')
    \<and> driver (world st') = (driver (world st))\<lparr>lan := l\<rparr>"
proof -
  have "0 < length (concat ms)" using assms(5) by (simp add: assms(11) packet_def)
  from mail_offers [OF assms(4,10) this, of base]
  have off: "offers (mail_os dos base) (us_fd_r v) (driver (world st))
      (header_bytes (data_header u (length d)) @ d @ x) ((driver (world st))\<lparr>lan := l\<rparr>)"
    by (simp add: assms(11) packet_def)
  have "0 < length d" "HEADER_SIZE + length d + length x \<le> length (stream_buf (world st))" using assms(3,5,6) by simp_all
  from recv_packet [OF assms(1,2) this(1) assms(9,8,7) this(2) off] show ?thesis by blast
qed

text \<open>C5: on a connection through mailslots, sending a message of at most 4060 bytes hands LAN Manager one packet;
  if it is taken \<open>send\<close> returns the length, and a receiver to whom LAN Manager gives just this packet, at any later
  time, gets exactly the message. Nothing is said of a packet that LAN Manager loses, or joins to others.\<close>

theorem stream_message:
  assumes "stream_ends p q u v fw fr st" "linked fw name fr h (driver (world st))"
    and "d \<noteq> []" "length d \<le> MAILSLOT_SENDSIZE - HEADER_SIZE" "unat (us_seq_w u) + length d < unat MAXINT"
    and "lan_write dos (backslashify name) (packet u d) (lan (driver (world st))) = (r, l)" "\<not> rx_carry r"
  shows "\<exists>s. send_stream (mail_os dos base) p d (length d) st = Some (int (length d), s)
    \<and> driver (world s) = (driver (world st))\<lparr>lan := l\<rparr>
    \<and> (\<forall>l1 l2 len buf. lan_reads dos h 0 l1 [packet u d] None l2 \<and> length d \<le> len \<and> length d \<le> length buf \<longrightarrow>
        (\<exists>st'. recv_stream (mail_os dos base) q buf len 0 (set_driver ((driver (world s))\<lparr>lan := l1\<rparr>) s)
             = Some ((int (length d), d @ drop (length d) buf), st')
           \<and> driver (world st') = (driver (world st))\<lparr>lan := l2\<rparr>))"
proof -
  have e: "usock_of p st = Some u" "usock_of q st = Some v" "apart p q st" "us_fd_w u = fw" "us_fd_r v = fr"
    "us_secret v = us_secret u" "length (stream_buf (world st)) = MAILSLOT_SENDSIZE"
    using assms(1) by (simp_all add: stream_ends_def)
  have "packet u d \<noteq> []" "length (packet u d) \<le> MAILSLOT_SENDSIZE"
    using assms(3,4) by (simp_all add: packet_def HEADER_SIZE_def MAILSLOT_SENDSIZE_def)
  from mail_write_taken [OF assms(2) this assms(6,7), of base]
  obtain s where s: "send_stream (mail_os dos base) p d (length d) st = Some (int (length d), s)" "same_but p st s"
    "stream_buf (world s) = stream_buf (world st)" "driver (world s) = (driver (world st))\<lparr>lan := l\<rparr>"
    using send_one [OF e(1) assms(3,4), of "mail_os dos base"] unfolding e(4) by blast
  have "usock_of q s = Some v" using s(2) e(2,3) by (simp add: same_but_def)
  moreover have "HEADER_SIZE + length d + length [] \<le> MAILSLOT_SENDSIZE"
    using assms(4) by (simp add: HEADER_SIZE_def MAILSLOT_SENDSIZE_def)
  ultimately have "\<exists>st'. recv_stream (mail_os dos base) q buf len 0 (set_driver ((driver (world s))\<lparr>lan := l1\<rparr>) s)
      = Some ((int (length d), d @ drop (length d) buf), st') \<and> driver (world st') = (driver (world st))\<lparr>lan := l2\<rparr>"
    if "lan_reads dos h 0 l1 [packet u d] None l2" "length d \<le> len" "length d \<le> length buf" for l1 l2 len buf
    using recv_one [of q "set_driver ((driver (world s))\<lparr>lan := l1\<rparr>) s" v u fw name h d "[]" len buf dos "[packet u d]" l2 base]
      that assms(2,3,5) e(5-7) by (simp add: s(3,4))
  then show ?thesis using s(1,4) by blast
qed

text \<open>Two stream sockets 0 and 1 over the files of \<open>two_files\<close>.\<close>

definition mail_ends :: "u8 list list mail ustate" where
  "mail_ends = \<lparr>errno = ENOERR, inited = True, if_list = [UNIX_IF], if_names = None,
     sock_table = [Some 0, Some 1] @ replicate (LSCK_NUM_SOCKET - 2) None,
     sock_heap = [0 \<mapsto> ends_sock 5 2, 1 \<mapsto> ends_sock 6 3],
     idata_heap = [2 \<mapsto> zero_usock\<lparr>us_fd_w := 3, us_fd_r := -1\<rparr>, 3 \<mapsto> zero_usock\<lparr>us_fd_w := -1, us_fd_r := 4\<rparr>], next_ptr = 4,
     fds = (\<lambda>fd. if fd = 5 then Some (sock_entry 0) else if fd = 6 then Some (sock_entry 1) else None),
     signals = [], debug_level = 0,
     lsck_config = \<lparr>configdir = None, configdirset = False, configfile = None, configfileset = False\<rparr>,
     world = \<lparr>unix_inited = True, stream_buf = replicate MAILSLOT_SENDSIZE 0, dgram_buf = replicate MAILSLOT_SENDSIZE 0,
       driver = two_files []\<rparr>\<rparr>"

definition mail_base :: "u8 list list mail unix_os" where
  "mail_base = \<lparr>os_open = (\<lambda>path wr w. Some (-1, EINVAL, w)), os_read = (\<lambda>fd n w. Some ((-1, []), EBADF, w)),
     os_write = (\<lambda>fd b w. Some (-1, EBADF, w)), os_fdclose = (\<lambda>fd w. Some (-1, EBADF, w)),
     os_nonblock = (\<lambda>fd w. Some (0, ENOERR, w)), os_ioctl = (\<lambda>fd rq x w. Some ((0, x), ENOERR, w)),
     os_select = (\<lambda>fds k w. Some (0, ENOERR, w)), os_random = (\<lambda>w. (0, w)), os_srandom = (\<lambda>w. w),
     os_getcwd = (\<lambda>n w. None), os_install = (\<lambda>w. (True, w)), os_used = (\<lambda>w fd. False), os_getpid = 1,
     os_malloc = (\<lambda>n. True), os_getenv = (\<lambda>v. None), os_files = (\<lambda>f. None), os_time = 0,
     os_junk = (\<lambda>i. 0), os_O_NONBLOCK = 8\<rparr>"

lemma mail_ends_simps:
  "stream_ends 0 1 (zero_usock\<lparr>us_fd_w := 3, us_fd_r := -1\<rparr>) (zero_usock\<lparr>us_fd_w := -1, us_fd_r := 4\<rparr>) 3 4 mail_ends"
  "driver (world mail_ends) = two_files []" "usock_of 0 mail_ends = Some (zero_usock\<lparr>us_fd_w := 3, us_fd_r := -1\<rparr>)"
  by (simp_all add: stream_ends_def mail_ends_def usock_of_def apart_def ends_sock_def)

lemma two_files_linked: "linked 3 (string_bytes ''/mailslot/a'') 4 5 (two_files l)"
  by (simp add: linked_def writer_def reader_def get_fse_def two_files_def slots_started_def MAXPATH_def string_bytes_def)

lemma zero_usock_seq [simp]: "us_seq_w zero_usock = 0" "us_secret zero_usock = \<lparr>secret_n = 0, secret_pid = 0\<rparr>"
  by (simp_all add: zero_usock_def)

lemma unat_MAXINT: "unat MAXINT = 2147483647"
  by (simp add: MAXINT_def)

theorem stream_message_witness:
  "\<exists>s st'. send_stream (mail_os queue_dos mail_base) 0 [1, 2, 3] 3 mail_ends = Some (3, s)
     \<and> recv_stream (mail_os queue_dos mail_base) 1 [0, 0, 0, 0] 4 0 (set_driver (driver (world s)) s) = Some ((3, [1, 2, 3, 0]), st')"
proof -
  let ?u = "zero_usock\<lparr>us_fd_w := 3, us_fd_r := -1\<rparr>" and ?n = "string_bytes ''/mailslot/a''"
  define P where "P = packet ?u [1, 2, 3]"
  have P: "P \<noteq> []" "length P \<le> MAILSLOT_SENDSIZE" "length P < 65536" by (simp_all add: P_def packet_def MAILSLOT_SENDSIZE_def)
  have w: "lan_write queue_dos (backslashify ?n) P (lan (driver (world mail_ends))) = (regs False 0 0, [P])"
    using P(3) by (simp add: queue_dos_def mail_ends_simps)
  have lk: "linked 3 ?n 4 5 (driver (world mail_ends))" by (simp add: mail_ends_simps two_files_linked)
  obtain s where s: "send_stream (mail_os queue_dos mail_base) 0 [1, 2, 3] (length [1, 2, 3 :: u8]) mail_ends
      = Some (int (length [1, 2, 3 :: u8]), s)"
    "driver (world s) = (driver (world mail_ends))\<lparr>lan := [P]\<rparr>"
    "\<forall>l1 l2 len buf. lan_reads queue_dos 5 0 l1 [P] None l2 \<and> length [1, 2, 3 :: u8] \<le> len \<and> length [1, 2, 3 :: u8] \<le> length buf
      \<longrightarrow> (\<exists>st'. recv_stream (mail_os queue_dos mail_base) 1 buf len 0 (set_driver ((driver (world s))\<lparr>lan := l1\<rparr>) s)
          = Some ((int (length [1, 2, 3 :: u8]), [1, 2, 3] @ drop (length [1, 2, 3 :: u8]) buf), st')
        \<and> driver (world st') = (driver (world mail_ends))\<lparr>lan := l2\<rparr>)"
    using stream_message [OF mail_ends_simps(1) lk, of "[1, 2, 3]" queue_dos, folded P_def, OF _ _ _ w, of mail_base]
    by (auto simp: regs_def MAILSLOT_SENDSIZE_def HEADER_SIZE_def unat_MAXINT)
  have "(driver (world s))\<lparr>lan := [P]\<rparr> = driver (world s)" by (simp add: s(2))
  then show ?thesis using s(1) s(3) [rule_format, of "[P]" "[]" 4 "[0, 0, 0, 0]"] queue_reads(1) [OF P(1,2)] by (auto simp: numeral_3_eq_3)
qed

text \<open>When more than one packet waits that together are longer than the buffer for a message, receiving reads them all at
  once and runs over its end, whatever length the caller asks for.\<close>

theorem long_message_overflows:
  assumes "usock_of q st = Some v" "length (stream_buf (world st)) = MAILSLOT_SENDSIZE"
    and "linked fw name (us_fd_r v) h (driver (world st))"
    and "lan_reads dos h 0 (lan (driver (world st))) ms None l" "MAILSLOT_SENDSIZE < length (concat ms)"
  shows "recv_stream (mail_os dos base) q buf len 0 st = None"
proof -
  have z: "0 < MAILSLOT_SENDSIZE" by (simp add: MAILSLOT_SENDSIZE_def)
  have none: "os_read (mail_os dos base) (us_fd_r v) MAILSLOT_SENDSIZE (driver (world st)) = None"
    using mail_read_pieces [OF assms(3,4) less_trans [OF z assms(5)] z] assms(5) by simp
  obtain l where "sock_heap st q = Some l" using assms(1) by (auto simp: usock_of_def bind_eq_Some_conv)
  moreover have "read_message (mail_os dos base) (us_fd_r v) False (stream_buf (world st)) st = None"
    using none by (simp add: read_message_def read_into_def sys2_def assms(2))
  ultimately show ?thesis
    unfolding recv_stream_def using assms(1) by (subst recv_stream_loop.simps) (simp add: peeks_def)
qed

text \<open>When a second packet waits behind the first, the receiver gets the first message and the second is gone: both
  have been read.\<close>

theorem second_message_lost:
  assumes "usock_of q st = Some v" "us_secret v = us_secret u" "length (stream_buf (world st)) = MAILSLOT_SENDSIZE"
    and "linked fw name (us_fd_r v) h (driver (world st))" "d \<noteq> []"
    and "HEADER_SIZE + length d + length x \<le> MAILSLOT_SENDSIZE"
    and "unat (us_seq_w u) + length d < unat MAXINT" "length d \<le> len" "length d \<le> length buf"
    and "lan_reads dos h 0 (lan (driver (world st))) [packet u d, x] None l"
  shows "\<exists>st'. recv_stream (mail_os dos base) q buf len 0 st = Some ((int (length d), d @ drop (length d) buf), st')
    \<and> driver (world st') = (driver (world st))\<lparr>lan := l\<rparr>"
  by (rule recv_one [OF assms]) simp

text \<open>Two packets of 4080 bytes in the slot, and two short ones.\<close>

definition waiting :: "u8 list list \<Rightarrow> u8 list list mail ustate" where
  "waiting ms = set_driver (two_files ms) mail_ends"

lemma waiting_simps:
  "usock_of 1 (waiting ms) = Some (zero_usock\<lparr>us_fd_w := -1, us_fd_r := 4\<rparr>)"
  "length (stream_buf (world (waiting ms))) = MAILSLOT_SENDSIZE" "driver (world (waiting ms)) = two_files ms"
  using mail_ends_simps(1) by (simp_all add: waiting_def stream_ends_def)

theorem long_message_overflows_witness:
  "recv_stream (mail_os queue_dos mail_base) 1 [0] 1 0 (waiting [replicate 4080 7, replicate 4080 7]) = None"
proof -
  have "lan_reads queue_dos 5 0 [replicate 4080 7, replicate 4080 7] [replicate 4080 7, replicate 4080 7] None []"
    by (intro queue_reads) (simp_all add: next_length_def MAILSLOT_SENDSIZE_def)
  moreover have "MAILSLOT_SENDSIZE < length (concat [replicate 4080 7, replicate 4080 (7 :: u8)])"
    by (simp add: MAILSLOT_SENDSIZE_def)
  ultimately show ?thesis
    using long_message_overflows [OF waiting_simps(1,2), of 3 "string_bytes ''/mailslot/a''" 5
        "[replicate 4080 7, replicate 4080 7]" queue_dos "[replicate 4080 7, replicate 4080 7]"]
    by (simp add: waiting_simps two_files_linked)
qed

theorem second_message_lost_witness:
  "\<exists>st'. recv_stream (mail_os queue_dos mail_base) 1 [0, 0, 0] 3 0 (waiting [packet zero_usock [1, 2], [9]])
     = Some ((2, [1, 2, 0]), st') \<and> lan (driver (world st')) = []"
proof -
  let ?P = "packet zero_usock [1, 2]"
  have "lan_reads queue_dos 5 0 [?P, [9]] [?P, [9]] None []"
    by (intro queue_reads) (simp_all add: next_length_def MAILSLOT_SENDSIZE_def packet_def)
  then show ?thesis
    using second_message_lost [OF waiting_simps(1) _ waiting_simps(2), of zero_usock 3 "string_bytes ''/mailslot/a''" 5
        "[?P, [9]]" "[1, 2]" "[9]" 3 "[0, 0, 0]" queue_dos "[]" mail_base]
    by (simp add: waiting_simps two_files_linked MAILSLOT_SENDSIZE_def HEADER_SIZE_def unat_MAXINT zero_usock_def two_files_lan)
      auto
qed

end
