(* ===== verification/Preserves.thy ===== *)
theory Preserves
  imports Lsck_Prelude
begin

text \<open>
  Reasoning about what a call preserves: rules that follow the structure of its definition.
\<close>

text \<open>A call that, when it returns, ends in a state with \<open>Q\<close>; the rules follow the structure of its definition.\<close>

definition preserves :: "('s \<Rightarrow> bool) \<Rightarrow> ('a \<times> 's) option \<Rightarrow> bool" where
  "preserves Q m \<longleftrightarrow> (\<forall>r s. m = Some (r, s) \<longrightarrow> Q s)"

named_theorems keeps_rules \<open>what a call preserves, by its structure\<close>

lemma keeps_basic [keeps_rules]: "preserves Q None" "Q s \<Longrightarrow> preserves Q (Some (r, s))"
  by (simp_all add: preserves_def)

lemma keeps_if [keeps_rules]: "(b \<Longrightarrow> preserves Q x) \<Longrightarrow> (\<not> b \<Longrightarrow> preserves Q y) \<Longrightarrow> preserves Q (if b then x else y)"
  by simp

lemma keeps_case [keeps_rules]:
  "(m = None \<Longrightarrow> preserves Q x) \<Longrightarrow> (\<And>v. m = Some v \<Longrightarrow> preserves Q (f v)) \<Longrightarrow> preserves Q (case m of None \<Rightarrow> x | Some v \<Rightarrow> f v)"
  by (cases m) simp_all

lemma keeps_value: "(\<And>x. m = Some x \<Longrightarrow> preserves Q (f x)) \<Longrightarrow> preserves Q (Option.bind m f)"
  by (cases m) (simp_all add: preserves_def)

lemma keeps_bind: "preserves R m \<Longrightarrow> (\<And>r s. R s \<Longrightarrow> preserves Q (f (r, s))) \<Longrightarrow> preserves Q (Option.bind m f)"
  by (cases m) (auto simp: preserves_def)

lemma keeps_weak: "preserves R m \<Longrightarrow> (\<And>s. R s \<Longrightarrow> Q s) \<Longrightarrow> preserves Q m"
  by (simp add: preserves_def)

lemma preservesI: "(\<And>x. m = Some x \<Longrightarrow> Q (snd x)) \<Longrightarrow> preserves Q m"
  by (auto simp: preserves_def)

lemma preservesD: "preserves Q m \<Longrightarrow> m = Some x \<Longrightarrow> Q (snd x)"
  by (cases x) (simp add: preserves_def)

end
