(* ===== verification/Driver_Files.thy ===== *)
theory Driver_Files
  imports Driver_Props Preserves
begin

text \<open>
  The tables of the mailslot driver: the invariant that ties open files to their slots, kept by every call of the
  handler, what closing a file does, and how a file that blocks repeats a write.
\<close>

section \<open>The tables\<close>

lemma scan_slots_hit:
  assumes "i < length xs" "xs ! i = Some y" "P y = Some True" "\<forall>j<i. \<exists>z. xs ! j = Some z \<and> P z = Some False"
  shows "scan_slots P xs k = Some (Some (k + i))"
  using assms
proof (induction xs arbitrary: i k)
  case (Cons x xs)
  show ?case
  proof (cases i)
    case 0
    then show ?thesis using Cons.prems by simp
  next
    case (Suc n)
    moreover from this obtain z where "x = Some z" "P z = Some False" using Cons.prems(4) by fastforce
    moreover have "\<forall>j<n. \<exists>z. xs ! j = Some z \<and> P z = Some False" using Cons.prems(4) Suc by fastforce
    ultimately show ?thesis using Cons.IH [of n "k + 1"] Cons.prems by simp
  qed
qed simp

lemma scan_slots_hole:
  assumes "j < length xs" "xs ! j = None" "\<forall>m<j. \<forall>z. xs ! m = Some z \<longrightarrow> P z = Some False"
  shows "scan_slots P xs k = None"
  using assms
proof (induction xs arbitrary: j k)
  case (Cons x xs)
  show ?case
  proof (cases x)
    case (Some z)
    then obtain n where n: "j = Suc n" using Cons.prems(2) by (cases j) simp_all
    have "P z = Some False" "\<forall>m<n. \<forall>z. xs ! m = Some z \<longrightarrow> P z = Some False" using Cons.prems(3) n Some by fastforce+
    then show ?thesis using Cons.IH [of n] Cons.prems n Some by simp
  qed simp
qed simp

lemma scan_slots_SomeD:
  "scan_slots P xs k = Some (Some i) \<Longrightarrow> k \<le> i \<and> i < k + length xs \<and> (\<exists>y. xs ! (i - k) = Some y \<and> P y = Some True)"
proof (induction xs arbitrary: k)
  case (Cons x xs)
  then show ?case
    by (cases x) (fastforce simp: nth_Cons' bind_eq_Some_conv split: if_splits)+
qed simp

lemma scan_slots_NoneD:
  "scan_slots P xs k = Some None \<Longrightarrow> i < length xs \<Longrightarrow> \<exists>y. xs ! i = Some y \<and> P y = Some False"
proof (induction xs arbitrary: i k)
  case (Cons x xs)
  then show ?case
    by (cases x; cases i) (auto simp: bind_eq_Some_conv split: if_splits)
qed simp

text \<open>
  Every open file has its structure, and the structure its slot; no two slots hold the same one. Addresses from
  \<open>mail_next\<close> on have not been given out.
\<close>

definition files_ok :: "'l mail \<Rightarrow> bool" where
  "files_ok st \<longleftrightarrow>
     (\<forall>i p. i < length (fse_slots st) \<and> fse_slots st ! i = Some p \<longrightarrow>
        p < mail_next st \<and> (\<exists>me. fse_heap st p = Some me \<and> get_fse (me_fd me) st = Some p))
   \<and> (\<forall>fd p. get_fse fd st = Some p \<longrightarrow>
        (\<exists>i me. i < length (fse_slots st) \<and> fse_slots st ! i = Some p \<and> fse_heap st p = Some me \<and> me_fd me = fd))
   \<and> (\<forall>i j p. i < length (fse_slots st) \<and> j < length (fse_slots st) \<and> fse_slots st ! i = Some p \<and> fse_slots st ! j = Some p
        \<longrightarrow> i = j)"

text \<open>What a call leaves as it is when it does not touch the files.\<close>

definition same_files :: "'l mail \<Rightarrow> 'l mail \<Rightarrow> bool" where
  "same_files st st' \<longleftrightarrow> fse_slots st' = fse_slots st \<and> fse_heap st' = fse_heap st \<and> mail_fds st' = mail_fds st
     \<and> mail_next st \<le> mail_next st'"

lemma same_files_ok:
  assumes "same_files st st'" "files_ok st"
  shows "files_ok st'"
proof -
  have e: "fse_slots st' = fse_slots st" "fse_heap st' = fse_heap st" "\<And>fd. get_fse fd st' = get_fse fd st" "mail_next st \<le> mail_next st'"
    using assms(1) by (simp_all add: same_files_def get_fse_def)
  show ?thesis
    using assms(2) e(4) unfolding files_ok_def e by (meson order_less_le_trans)
qed

lemma same_files_refl [simp]: "same_files st st"
  by (simp add: same_files_def)

lemma same_files_upd [simp]:
  "same_files st (s\<lparr>lan := l\<rparr>) = same_files st s" "same_files st (s\<lparr>mail_errno := e\<rparr>) = same_files st s"
  "same_files st (s\<lparr>mail_slots := x\<rparr>) = same_files st s" "same_files st (s\<lparr>mail_inited := b\<rparr>) = same_files st s"
  "same_files st (s\<lparr>mail_seg := i\<rparr>) = same_files st s" "same_files st (s\<lparr>mail_sel := i\<rparr>) = same_files st s"
  "same_files st (s\<lparr>mail_size := i\<rparr>) = same_files st s"
  "same_files st s \<Longrightarrow> mail_next s \<le> n \<Longrightarrow> same_files st (s\<lparr>mail_next := n\<rparr>)"
  by (simp_all add: same_files_def)

lemma same_files_trans: "same_files st s \<Longrightarrow> same_files s st' \<Longrightarrow> same_files st st'"
  by (simp add: same_files_def)

lemma keeps_fail [keeps_rules]: "Q (s\<lparr>mail_errno := e\<rparr>) \<Longrightarrow> preserves Q (mail_fail e v s)"
  by (simp add: preserves_def mail_fail_def)

section \<open>Mailslot calls leave the files alone\<close>

lemma init_keeps: "preserves (same_files st) (mailslot_init dos st)"
  unfolding mailslot_init_def Let_def
  by (auto intro!: keeps_rules keeps_value split: prod.split)

lemma init_keeps' [keeps_rules]: "same_files st s \<Longrightarrow> preserves (same_files st) (mailslot_init dos s)"
  by (rule keeps_weak [OF init_keeps]) (rule same_files_trans)

lemma create_keeps [keeps_rules]: "same_files st s \<Longrightarrow> preserves (same_files st) (mailslot_create dos name len s)"
  unfolding mailslot_create_def Let_def
  by (rule keeps_bind [OF init_keeps'])
    (auto intro!: keeps_rules keeps_value split: prod.split)

lemma destroy_keeps [keeps_rules]: "same_files st s \<Longrightarrow> preserves (same_files st) (mailslot_destroy dos h s)"
  unfolding mailslot_destroy_def Let_def
  by (rule keeps_bind [OF init_keeps'])
    (auto intro!: keeps_rules keeps_value split: prod.split)

lemma read_loop_same: "read_loop dos h room t data s = Some x \<Longrightarrow> same_files s (snd x)"
proof (induction rule: read_loop.raw_induct [rotated, consumes 1, case_names 1])
  case (1 f dos h room t data s x)
  have step: "same_files s s' \<Longrightarrow> preserves (same_files s) (f dos h room t d s')" for d s'
    by (rule preservesI) (rule same_files_trans [OF _ 1(1)])
  show ?case
    by (rule preservesD [OF _ 1(2)]) (auto intro!: keeps_rules step split: prod.split)
qed

lemma write_loop_same: "write_loop dos name msg len maxlen i sent s = Some x \<Longrightarrow> same_files s (snd x)"
proof (induction rule: write_loop.raw_induct [rotated, consumes 1, case_names 1])
  case (1 f dos name msg len maxlen i sent s x)
  have step: "same_files s s' \<Longrightarrow> preserves (same_files s) (f dos name msg len maxlen j k s')" for j k s'
    by (rule preservesI) (rule same_files_trans [OF _ 1(1)])
  show ?case
    by (rule preservesD [OF _ 1(2)]) (auto simp: Let_def intro!: keeps_rules keeps_value step split: prod.split)
qed

lemma loop_keeps [keeps_rules]:
  "same_files st s \<Longrightarrow> preserves (same_files st) (read_loop dos h room t data s)"
  "same_files st s \<Longrightarrow> preserves (same_files st) (write_loop dos name msg len maxlen i sent s)"
  by (rule preservesI, blast intro: same_files_trans read_loop_same write_loop_same)+

lemmas keeps_values = keeps_value [where m = "fits n x" for n x] keeps_value [where m = "fse_heap s p" for s p]
  keeps_value [where m = "scan_slots P xs k" for P xs k] keeps_value [where m = "slots ! i" for slots i]

lemmas keeps_calls = keeps_bind [OF init_keeps'] keeps_bind [OF loop_keeps(1)] keeps_bind [OF loop_keeps(2)]
  keeps_bind [OF create_keeps] keeps_bind [OF destroy_keeps]

lemma transfer_keeps [keeps_rules]:
  "same_files st s \<Longrightarrow> preserves (same_files st) (mailslot_write dos name msg len s)"
  "same_files st s \<Longrightarrow> preserves (same_files st) (mailslot_read dos h room len t s)"
  "same_files st s \<Longrightarrow> preserves (same_files st) (mailslot_peek dos h room len s)"
  "same_files st s \<Longrightarrow> preserves (same_files st) (mailslot_info dos h s)"
  unfolding mailslot_write_def mailslot_read_def mailslot_peek_def mailslot_info_def Let_def
  by (auto intro!: keeps_rules keeps_values keeps_calls split: prod.split)

section \<open>Opening, closing and controls\<close>

lemma files_okD:
  assumes "files_ok st"
  shows "i < length (fse_slots st) \<Longrightarrow> fse_slots st ! i = Some p \<Longrightarrow>
      p < mail_next st \<and> (\<exists>me. fse_heap st p = Some me \<and> get_fse (me_fd me) st = Some p)"
    and "get_fse fd st = Some p \<Longrightarrow>
      \<exists>i me. i < length (fse_slots st) \<and> fse_slots st ! i = Some p \<and> fse_heap st p = Some me \<and> me_fd me = fd"
    and "i < length (fse_slots st) \<Longrightarrow> j < length (fse_slots st) \<Longrightarrow> fse_slots st ! i = Some p \<Longrightarrow> fse_slots st ! j = Some p \<Longrightarrow> i = j"
  using assms unfolding files_ok_def by blast+

lemma files_ok_add:
  assumes "files_ok st" "msd < length (fse_slots st)" "fse_slots st ! msd = None" "mail_fds st (me_fd me) = None" "n = mail_next st" "n < k"
  shows "files_ok (st\<lparr>mail_next := k, fse_slots := (fse_slots st)[msd := Some n], fse_heap := (fse_heap st)(n \<mapsto> me),
      mail_fds := (mail_fds st)(me_fd me \<mapsto> Some n)\<rparr>)"
proof -
  note ok = files_okD [OF assms(1)]
  have fresh: "fse_slots st ! i \<noteq> Some n" if "i < length (fse_slots st)" for i
    using ok(1) [OF that, of n] assms(5) by blast
  have other: "p < k \<and> p \<noteq> n \<and> (\<exists>m. fse_heap st p = Some m \<and> get_fse (me_fd m) st = Some p \<and> me_fd m \<noteq> me_fd me)"
    if "i < length (fse_slots st)" "fse_slots st ! i = Some p" for i p
    using ok(1) [OF that] assms(4,5,6) by (force simp: get_fse_def)
  have mine: "\<exists>i m. i < length (fse_slots st) \<and> fse_slots st ! i = Some p \<and> i \<noteq> msd \<and> p \<noteq> n \<and> fse_heap st p = Some m \<and> me_fd m = fd"
    if "get_fse fd st = Some p" for fd p
    using ok(2) [OF that] fresh assms(3) by (metis option.distinct(1))
  show ?thesis
    unfolding files_ok_def
  proof (intro conjI allI impI, goal_cases)
    case (1 i p)
    then show ?case using other [of i p] assms(2,6) by (auto simp: nth_list_update get_fse_def split: if_splits)
  next
    case (2 i p)
    then show ?case using other [of i p] assms(2) by (cases "i = msd") (auto simp: get_fse_def)
  next
    case (3 fd p)
    then show ?case
      using mine [of fd p] assms(2) by (cases "fd = me_fd me") (fastforce simp: get_fse_def nth_list_update)+
  next
    case (4 i j p)
    then have l: "i < length (fse_slots st)" "j < length (fse_slots st)" by simp_all
    then show ?case
      using 4 ok(3) [OF l, of p] fresh [OF l(1)] fresh [OF l(2)] by (cases "i = msd"; cases "j = msd") auto
  qed
qed

lemma files_ok_remove:
  assumes "files_ok st" "get_fse fd st = Some p" "i < length (fse_slots st)" "fse_slots st ! i = Some p"
  shows "files_ok (st\<lparr>mail_fds := (mail_fds st)(fd := None), fse_heap := (fse_heap st)(p := None), fse_slots := (fse_slots st)[i := None]\<rparr>)"
proof -
  note ok = files_okD [OF assms(1)]
  have same: "q = p" if "get_fse fd st = Some q" for q using that assms(2) by simp
  have other: "fse_slots st ! j \<noteq> Some p" if "j < length (fse_slots st)" "j \<noteq> i" for j
    using ok(3) [OF assms(3) that(1) assms(4)] that(2) by blast
  have mfd: "me_fd m = fd" if "fse_heap st p = Some m" for m using ok(2) [OF assms(2)] that by auto
  show ?thesis
    unfolding files_ok_def
  proof (intro conjI allI impI, goal_cases)
    case (1 j q)
    then show ?case using ok(1) [of j q] assms(3) by (auto simp: nth_list_update split: if_splits)
  next
    case (2 j q)
    then have j: "j < length (fse_slots st)" "fse_slots st ! j = Some q" "j \<noteq> i"
      using assms(3) by (auto simp: nth_list_update split: if_splits)
    then have "q \<noteq> p" using other by blast
    moreover obtain m where m: "q < mail_next st" "fse_heap st q = Some m" "get_fse (me_fd m) st = Some q"
      using ok(1) [OF j(1,2)] by blast
    moreover have "me_fd m \<noteq> fd" using m(3) assms(2) \<open>q \<noteq> p\<close> by auto
    ultimately show ?case by (auto simp: get_fse_def)
  next
    case (3 f q)
    then have f: "f \<noteq> fd" "get_fse f st = Some q" by (auto simp: get_fse_def split: if_splits)
    then obtain j m where j: "j < length (fse_slots st)" "fse_slots st ! j = Some q" "fse_heap st q = Some m" "me_fd m = f"
      using ok(2) by blast
    then have "q \<noteq> p" using mfd f(1) by auto
    then have "j \<noteq> i" using j(2) assms(4) by auto
    then show ?case using j \<open>q \<noteq> p\<close> by (intro exI [of _ j] exI [of _ m]) simp
  next
    case (4 j k q)
    then have l: "j < length (fse_slots st)" "k < length (fse_slots st)" by simp_all
    then show ?case using 4 ok(3) [OF l, of q] by (cases "j = i"; cases "k = i") auto
  qed
qed

text \<open>Changing the flags of a file.\<close>

lemma files_ok_flags:
  assumes "files_ok st" "fse_heap st p = Some me" "me_fd me' = me_fd me"
  shows "files_ok (st\<lparr>fse_heap := (fse_heap st)(p \<mapsto> me')\<rparr>)"
proof -
  have g: "get_fse fd (st\<lparr>fse_heap := h\<rparr>) = get_fse fd st" for fd h by (simp add: get_fse_def)
  show ?thesis
    using assms unfolding files_ok_def g
    by (auto; metis option.inject)
qed

lemmas open_keeps_calls = keeps_calls keeps_values keeps_value [where m = "write_name p" for p]

definition fresh_fds :: "'l dos_api \<Rightarrow> bool" where
  "fresh_fds dos \<longleftrightarrow> (\<forall>used l. dos_alloc_fd dos used l = -1 \<or> \<not> used (dos_alloc_fd dos used l))"

lemma open_slot_keeps:
  assumes "fresh_fds dos" "files_ok st" "find_slot None (fse_slots st) = Some msd"
  shows "preserves files_ok (open_slot dos msd handle name st)"
proof -
  have msd: "msd < length (fse_slots st)" "fse_slots st ! msd = None" using find_slot_Some [OF assms(3)] by simp_all
  define fd where "fd = dos_alloc_fd dos (\<lambda>fd. mail_fds st fd \<noteq> None) (lan st)"
  have fd: "fd = -1 \<or> mail_fds st fd = None" using assms(1) by (auto simp: fresh_fds_def fd_def)
  have same: "(fse_slots st)[msd := None] = fse_slots st" using msd by (metis list_update_id)
  have drop: "files_ok (st\<lparr>mail_next := mail_next st + 2, fse_slots := fse_slots st, mail_fds := (mail_fds st)(fd := None)\<rparr>)"
    if "fd \<noteq> -1"
    by (rule same_files_ok [OF _ assms(2)]) (use that fd in \<open>auto simp: same_files_def\<close>)
  have err: "files_ok (s\<lparr>mail_errno := e\<rparr>)" if "files_ok s" for s :: "'a mail" and e
    by (rule same_files_ok [OF _ that]) (simp add: same_files_def)
  have add: "files_ok (st\<lparr>mail_next := mail_next st + 2, fse_slots := (fse_slots st)[msd := Some (mail_next st)],
      fse_heap := (fse_heap st)(mail_next st \<mapsto> me), mail_fds := (mail_fds st)(fd \<mapsto> Some (mail_next st))\<rparr>)"
    if "fd \<noteq> -1" "me_fd me = fd" for me
    using files_ok_add [OF assms(2) msd _ refl, of me "mail_next st + 2"] fd that by simp
  show ?thesis
    unfolding open_slot_def Let_def fd_def [symmetric] same
    by (intro keeps_rules err drop add assms(2)) simp_all
qed

lemma files_ok_errno: "files_ok (s\<lparr>mail_errno := e\<rparr>) = files_ok s"
  by (simp add: files_ok_def get_fse_def)

lemma mail_open_keeps:
  assumes "fresh_fds dos" "files_ok st"
  shows "preserves files_ok (mail_open dos file mode st)"
proof -
  let ?s = "st\<lparr>mail_next := mail_next st + 1\<rparr>"
  have s: "files_ok ?s" by (rule same_files_ok [OF _ assms(2)]) simp
  have slot: "preserves files_ok (open_slot dos msd h name s)" if "find_slot None (fse_slots s) = Some msd" "same_files ?s s" for msd h name s
    using open_slot_keeps [OF assms(1) same_files_ok [OF that(2) s] that(1)] .
  have ok: "files_ok s'" if "same_files ?s s'" for s' by (rule same_files_ok [OF that s])
  have w: "preserves files_ok (open_writer dos p ?s)" for p
    unfolding open_writer_def
    by (intro keeps_rules keeps_value slot) (simp_all add: ok)
  have r: "preserves files_ok (open_reader dos p ?s)" for p
    unfolding open_reader_def
    by (auto intro!: keeps_rules keeps_bind [OF create_keeps] keeps_values slot simp: ok)
  show ?thesis
    unfolding mail_open_def Let_def
    by (intro keeps_rules keeps_bind [where R = files_ok] w r) (use s in \<open>simp_all add: files_ok_errno preserves_def\<close>)
qed

lemma mail_close_keeps:
  assumes "files_ok st"
  shows "preserves files_ok (mail_close dos fd st)"
proof (cases "get_fse fd st")
  case None
  then show ?thesis using assms by (auto simp: mail_close_def files_ok_errno intro!: keeps_rules)
next
  case (Some p)
  let ?s = "st\<lparr>mail_fds := (mail_fds st)(fd := None)\<rparr>"
  have tail: "preserves files_ok (do {
       msd \<leftarrow> scan_slots (\<lambda>q. map_option (\<lambda>m. me_fd m = fd) (fse_heap s q)) (fse_slots s) 0;
       (case msd of
          None \<Rightarrow> Some (0, s)
        | Some i \<Rightarrow> do {
            q \<leftarrow> fse_slots s ! i;
            Some (0, s\<lparr>fse_heap := (fse_heap s)(q := None), fse_slots := (fse_slots s)[i := None]\<rparr>)
          })})" if s: "same_files ?s s" for s
  proof (rule keeps_value)
    fix m assume m: "scan_slots (\<lambda>q. map_option (\<lambda>m. me_fd m = fd) (fse_heap s q)) (fse_slots s) 0 = Some m"
    have e: "fse_slots s = fse_slots st" "fse_heap s = fse_heap st" using s by (simp_all add: same_files_def)
    show "preserves files_ok (case m of None \<Rightarrow> Some (0, s) | Some i \<Rightarrow> do {
            q \<leftarrow> fse_slots s ! i;
            Some (0, s\<lparr>fse_heap := (fse_heap s)(q := None), fse_slots := (fse_slots s)[i := None]\<rparr>)
          })"
    proof (cases m)
      case None
      obtain i me where i: "i < length (fse_slots st)" "fse_slots st ! i = Some p" "fse_heap st p = Some me" "me_fd me = fd"
        using files_okD(2) [OF assms Some] by blast
      then show ?thesis using scan_slots_NoneD [OF m [unfolded None], of i] by (auto simp: e)
    next
      case i: (Some i)
      obtain q me where q: "i < length (fse_slots st)" "fse_slots st ! i = Some q" "fse_heap st q = Some me" "me_fd me = fd"
        using scan_slots_SomeD [OF m [unfolded i]] by (auto simp: e)
      then have "q = p" using files_okD(1) [OF assms q(1,2)] Some by auto
      then have ok: "files_ok (st\<lparr>mail_fds := (mail_fds st)(fd := None), fse_heap := (fse_heap st)(p := None),
          fse_slots := (fse_slots st)[i := None]\<rparr>)"
        using files_ok_remove [OF assms Some q(1)] q(2) by simp
      have "files_ok (s\<lparr>fse_heap := (fse_heap s)(p := None), fse_slots := (fse_slots s)[i := None]\<rparr>)"
        by (rule same_files_ok [OF _ ok]) (use s in \<open>simp add: same_files_def\<close>)
      then show ?thesis using i q(2) \<open>q = p\<close> by (simp add: e preserves_def)
    qed
  qed
  have call: "preserves (same_files ?s) (if me_handle me \<noteq> -1 then mailslot_destroy dos (me_handle me) ?s else Some (0, ?s))" for me
    by (auto intro!: keeps_rules same_files_refl)
  show ?thesis
    unfolding mail_close_def Let_def Some option.case
    by (rule keeps_value, rule keeps_bind [OF call], simp only: prod.case, rule tail)
qed

lemma files_keeps: "files_ok st \<Longrightarrow> preserves (same_files st) m \<Longrightarrow> preserves files_ok m"
  using same_files_ok by (blast intro: keeps_weak)

lemma write_until_same: "write_until dos name b len s = Some x \<Longrightarrow> same_files s (snd x)"
proof (induction rule: write_until.raw_induct [rotated, consumes 1, case_names 1])
  case (1 f dos name b len s x)
  have step: "same_files s s' \<Longrightarrow> preserves (same_files s) (f dos name b len s')" for s'
    by (rule preservesI) (rule same_files_trans [OF _ 1(1)])
  show ?case
    by (rule preservesD [OF _ 1(2)]) (rule keeps_bind [OF transfer_keeps(1)]; auto intro!: keeps_rules step)
qed

lemma read_once_keeps: "same_files st s \<Longrightarrow> preserves (same_files st) (read_once dos me room len s)"
  by (simp add: read_once_def keeps_rules)

lemma read_until_same: "read_until dos me room len old s = Some x \<Longrightarrow> same_files s (snd x)"
proof (induction rule: read_until.raw_induct [rotated, consumes 1, case_names 1])
  case (1 f dos me room len old s x)
  have step: "same_files s s' \<Longrightarrow> preserves (same_files s) (f dos me room len old' s')" for s' old'
    by (rule preservesI) (rule same_files_trans [OF _ 1(1)])
  show ?case
    by (rule preservesD [OF _ 1(2)]) (rule keeps_bind [OF read_once_keeps]; auto intro!: keeps_rules step)
qed

lemma until_keeps [keeps_rules]:
  "same_files st s \<Longrightarrow> preserves (same_files st) (write_until dos name b len s)"
  "same_files st s \<Longrightarrow> preserves (same_files st) (read_until dos me room len old s)"
  by (rule preservesI, blast intro: same_files_trans write_until_same read_until_same)+

lemma mail_io_keeps:
  "preserves (same_files st) (mail_write dos fd buf len st)"
  "preserves (same_files st) (mail_read dos fd room len st)"
  "preserves (same_files st) (mail_ready dos fd st)"
  unfolding mail_write_def mail_read_def mail_ready_def Let_def
  by (auto intro!: keeps_rules keeps_values read_once_keeps keeps_bind [OF transfer_keeps(4)])

lemma mail_flags_keep:
  assumes "files_ok st"
  shows "preserves files_ok (mail_fcntl nb fd cmd flags st)" "preserves files_ok (mail_ioctl dos fd c x st)"
proof -
  have upd: "files_ok (st\<lparr>fse_heap := (fse_heap st)(p \<mapsto> me')\<rparr>)" if "fse_heap st p = Some me" "me_fd me' = me_fd me" for p me me'
    by (rule files_ok_flags [OF assms that])
  show "preserves files_ok (mail_fcntl nb fd cmd flags st)"
    unfolding mail_fcntl_def
    by (auto intro!: keeps_rules keeps_values upd simp: files_ok_errno assms)
  have info: "preserves (same_files st) (mailslot_info dos h st)" for h by (rule transfer_keeps) simp
  have ok: "files_ok s" if "same_files st s" for s by (rule same_files_ok [OF that assms])
  show "preserves files_ok (mail_ioctl dos fd c x st)"
    unfolding mail_ioctl_def
    by (auto intro!: keeps_rules keeps_values upd keeps_bind [OF info] simp: files_ok_errno assms ok)
qed

section \<open>Runs of the driver\<close>

text \<open>The states the handler can bring the driver to, from a start without files.\<close>

inductive driver_run :: "'l dos_api \<Rightarrow> int \<Rightarrow> 'l mail \<Rightarrow> bool" for dos nb where
  start: "\<not> fse_inited st0 \<Longrightarrow> mail_fds st0 = Map.empty \<Longrightarrow> mailslot_install_handler dos st0 = Some (True, st) \<Longrightarrow> driver_run dos nb st"
| call: "driver_run dos nb st \<Longrightarrow> mail_handler dos nb c st = Some (r, st') \<Longrightarrow> driver_run dos nb st'"

lemma handler_keeps:
  assumes "fresh_fds dos" "files_ok st"
  shows "preserves files_ok (mail_handler dos nb c st)"
proof -
  note io = mail_io_keeps [THEN files_keeps [OF assms(2)]] mail_flags_keep [OF assms(2)] mail_close_keeps [OF assms(2)]
    mail_open_keeps [OF assms]
  have creat: "preserves files_ok (mail_creat dos path perm st)" for path perm by (simp add: mail_creat_def io)
  show ?thesis
    unfolding mail_handler_def
    by (cases c) (auto intro!: keeps_rules keeps_bind [OF creat] io [THEN keeps_bind] assms(2))
qed

text \<open>C24: whatever sequence of calls an application makes, the tables of the driver agree: every open file descriptor
  has exactly one slot and a live structure with its number, and every slot belongs to an open descriptor. The C
  library is only assumed not to give out a descriptor that is in use.\<close>

theorem driver_files_consistent:
  assumes "driver_run dos nb st" "fresh_fds dos"
  shows "files_ok st"
  using assms(1)
proof induction
  case (start st0 st)
  have "same_files st0 s" if "mailslot_init dos st0 = Some (True, s)" for s
    using init_keeps [of st0 dos] that unfolding preserves_def by blast
  then show ?case
    using start by (auto simp: mailslot_install_handler_def files_ok_def get_fse_def same_files_def bind_eq_Some_conv
        split: if_splits)
next
  case (call st c r st')
  then show ?case using preservesD [OF handler_keeps [OF assms(2) call(3)] call(2)] by simp
qed

text \<open>The driver as the program starts it, with \<open>queue_dos\<close>.\<close>

definition boot :: "u8 list list mail" where
  "boot = \<lparr>mail_errno = ENOERR, mail_inited = False, mail_slots = [], mail_seg = 0, mail_sel = 0, mail_size = 0,
     fse_inited = False, fse_slots = [], fse_heap = Map.empty, mail_next = 0, mail_fds = Map.empty, lan = []\<rparr>"

definition path_a :: "u8 list" where "path_a = string_bytes ''/dev/mailslot/local/a''"

lemma behind_append [simp]: "behind p (p @ x) = Some x"
  by (simp add: behind_def)

lemma path_a_local: "slashify_path path_a = MAILSLOT_DEV @ MAILSLOT_LOCAL @ string_bytes ''a''"
  by (simp add: path_a_def slashify_path_def MAILSLOT_DEV_def MAILSLOT_LOCAL_def string_bytes_def)

theorem driver_files_consistent_witness:
  "\<exists>st. driver_run queue_dos 8 st \<and> mail_fds st 3 \<noteq> None \<and> files_ok st"
proof -
  obtain s where s: "mailslot_install_handler queue_dos boot = Some (True, s)" "mail_fds s = Map.empty"
    "fse_slots s = replicate MAILSLOT_MAX None"
    by (simp add: mailslot_install_handler_def mailslot_init_def boot_def queue_dos_def Let_def)
  have fresh: "fresh_fds queue_dos"
    by (simp add: fresh_fds_def queue_dos_def)
  have run: "driver_run queue_dos 8 s"
    by (rule driver_run.start [OF _ _ s(1)]) (simp_all add: boot_def)
  have slot: "find_slot None (fse_slots s) = Some 0" by (simp add: s(3) MAILSLOT_MAX_def numeral_eq_Suc)
  have dev: "behind MAILSLOT_DEV (slashify_path path_a) = Some (MAILSLOT_LOCAL @ string_bytes ''a'')"
    by (simp add: path_a_local)
  have name: "write_name (MAILSLOT_LOCAL @ string_bytes ''a'') \<noteq> None"
    by (simp add: write_name_def fits_def MAXPATH_def string_bytes_def)
  obtain st where st: "mail_handler queue_dos 8 (MF_open path_a 1) s = Some ((Some 3, MNone), st)" "mail_fds st 3 \<noteq> None"
    using name slot by (auto simp: mail_handler_def mail_open_def dev open_writer_def open_slot_def s(2) Let_def queue_dos_def)
  have "driver_run queue_dos 8 st" by (rule driver_run.call [OF run st(1)])
  then show ?thesis using driver_files_consistent [OF _ fresh] st(2) by blast
qed

section \<open>Closing\<close>

text \<open>Closing a file that was opened for writing returns only when no slot before its own is empty; the scan
  of the table reads through every entry up to the one it looks for, so after a file has been closed no file in a
  later slot can be. When it returns, exactly this file is gone.\<close>

theorem close_needs_full_prefix:
  assumes "files_ok st" "get_fse fd st = Some p" "fse_heap st p = Some me" "me_handle me = -1"
    and "i < length (fse_slots st)" "fse_slots st ! i = Some p"
  shows "mail_close dos fd st = (if None \<in> set (take i (fse_slots st)) then None
    else Some (0, st\<lparr>mail_fds := (mail_fds st)(fd := None), fse_heap := (fse_heap st)(p := None),
      fse_slots := (fse_slots st)[i := None]\<rparr>))"
proof -
  let ?P = "\<lambda>q. map_option (\<lambda>m. me_fd m = fd) (fse_heap st q)"
  have miss: "?P q = Some False" if j: "j < i" "fse_slots st ! j = Some q" for j q
  proof -
    have l: "j < length (fse_slots st)" using j(1) assms(5) by simp
    have "q \<noteq> p" using files_okD(3) [OF assms(1) l assms(5)] j assms(6) by auto
    moreover obtain m where m: "fse_heap st q = Some m" "get_fse (me_fd m) st = Some q"
      using files_okD(1) [OF assms(1) l j(2)] by blast
    ultimately show ?thesis using assms(2) by auto
  qed
  have mfd: "me_fd me = fd" using files_okD(2) [OF assms(1,2)] assms(3) by auto
  show ?thesis
  proof (cases "None \<in> set (take i (fse_slots st))")
    case True
    then obtain j where j: "j < i" "fse_slots st ! j = None" by (auto simp: in_set_conv_nth)
    define k where "k = (LEAST j. fse_slots st ! j = None)"
    have "fse_slots st ! k = None" "k \<le> j" unfolding k_def using j(2) by (rule LeastI, rule Least_le)
    moreover have "\<forall>m<k. \<forall>z. fse_slots st ! m = Some z \<longrightarrow> ?P z = Some False"
      using miss j(1) \<open>k \<le> j\<close> by (meson less_le_trans less_trans)
    ultimately have "scan_slots ?P (fse_slots st) 0 = None"
      using j(1) assms(5) by (intro scan_slots_hole [of k]) simp_all
    then show ?thesis using assms(2-4) True by (simp add: mail_close_def)
  next
    case False
    have "\<exists>z. fse_slots st ! j = Some z \<and> ?P z = Some False" if "j < i" for j
    proof -
      have "fse_slots st ! j \<in> set (take i (fse_slots st))" using that assms(5) by (auto simp: in_set_conv_nth)
      then have "fse_slots st ! j \<noteq> None" using False by metis
      then obtain z where "fse_slots st ! j = Some z" by blast
      then show ?thesis using miss [OF that] by blast
    qed
    then have "scan_slots ?P (fse_slots st) 0 = Some (Some i)"
      using scan_slots_hit [of i "fse_slots st" p ?P 0] assms(3,5,6) mfd by simp
    then show ?thesis using assms(2-4,6) False by (simp add: mail_close_def)
  qed
qed

text \<open>\<open>two_files\<close> after its first file, the writer, has been joined by a second writer and closed.\<close>

definition three_files :: "u8 list list mail" where
  "three_files = (two_files [])\<lparr>fse_slots := [None, Some 1, Some 2] @ replicate (MAILSLOT_MAX - 3) None,
     fse_heap := [1 \<mapsto> \<lparr>me_fd = 4, me_handle = 5, me_name = None, me_blocking = True, me_peeking = False\<rparr>,
       2 \<mapsto> \<lparr>me_fd = 6, me_handle = -1, me_name = Some (string_bytes ''/mailslot/a''), me_blocking = True, me_peeking = False\<rparr>],
     mail_next := 3, mail_fds := [4 \<mapsto> Some 1, 6 \<mapsto> Some 2]\<rparr>"

lemma three_files_ok: "files_ok three_files"
proof -
  have n: "i = 1 \<and> p = 1 \<or> i = 2 \<and> p = 2" if "i < 256" "fse_slots three_files ! i = Some p" for i p
    using that by (cases i; cases "i - 1"; cases "i - 2") (auto simp: three_files_def MAILSLOT_MAX_def nth_append)
  have l: "length (fse_slots three_files) = 256" by (simp add: three_files_def MAILSLOT_MAX_def)
  have s: "fse_slots three_files ! 1 = Some 1" "fse_slots three_files ! 2 = Some 2" by (simp_all add: three_files_def)
  have h: "fse_heap three_files 1 \<noteq> None" "fse_heap three_files 2 \<noteq> None" by (simp_all add: three_files_def)
  show ?thesis
    unfolding files_ok_def l
  proof (intro conjI allI impI, goal_cases)
    case (1 i p)
    then show ?case using n [of i p] by (auto simp: three_files_def)
  next
    case (2 i p)
    then show ?case using n [of i p] by (auto simp: three_files_def get_fse_def)
  next
    case (3 fd p)
    then have "fd = 4 \<and> p = 1 \<or> fd = 6 \<and> p = 2" by (auto simp: three_files_def get_fse_def split: if_splits)
    then show ?case
      by (elim disjE; intro exI [of _ p]) (auto simp: three_files_def)
  next
    case (4 i j p)
    then show ?case using n [of i p] n [of j p] by auto
  qed
qed

theorem close_needs_full_prefix_witness: "mail_close queue_dos 6 three_files = None"
proof -
  have "get_fse 6 three_files = Some 2" "2 < length (fse_slots three_files)" "fse_slots three_files ! 2 = Some 2"
    "None \<in> set (take 2 (fse_slots three_files))"
    by (simp_all add: three_files_def get_fse_def MAILSLOT_MAX_def numeral_2_eq_2)
  moreover obtain me where "fse_heap three_files 2 = Some me" "me_handle me = -1" by (simp add: three_files_def)
  ultimately show ?thesis using close_needs_full_prefix [OF three_files_ok, of 6 2 me 2 queue_dos] by simp
qed

section \<open>Blocking\<close>

text \<open>A mailslot nobody has made: every write is refused.\<close>

definition refused :: "'l dos_api \<Rightarrow> u8 list \<Rightarrow> bool" where
  "refused dos newname \<longleftrightarrow> (\<forall>b l. rx_carry (fst (lan_write dos newname b l)))"

lemma refused_none: "refused dos name \<Longrightarrow> lan_writes dos name bs l = (rs, l') \<Longrightarrow> taken rs = 0"
proof (induction bs arbitrary: l rs)
  case (Cons b bs)
  obtain r l1 rs' where r: "lan_write dos name b l = (r, l1)" "rs = (b, r) # rs'" "lan_writes dos name bs l1 = (rs', l')"
    using Cons.prems(2) by (auto split: prod.splits)
  have "rx_carry r" using Cons.prems(1) r(1) unfolding refused_def by (metis fst_conv)
  then show ?case using Cons.IH [OF Cons.prems(1) r(3)] r(2) by simp
qed simp

text \<open>One attempt returns, and leaves everything but the state of LAN Manager and \<open>errno\<close>.\<close>

lemma refused_attempt:
  assumes "refused dos (backslashify name)" "slots_started st" "length name < MAXPATH" "0 < len" "len \<le> length msg"
  obtains l e where "mailslot_write dos (Some name) (Some msg) (int len) st = Some (-1, st\<lparr>lan := l, mail_errno := e\<rparr>)"
proof -
  obtain rs l where "lan_writes dos (backslashify name) (chunks (take len msg)) (lan st) = (rs, l)" by fastforce
  from mailslot_write_eq [OF assms(2-5) this] refused_none [OF assms(1) this] show thesis by (auto intro: that)
qed

lemma write_until_refused:
  "write_until dos name b len st = Some x \<Longrightarrow> name = Some n \<Longrightarrow> refused dos (backslashify n) \<Longrightarrow> slots_started st
    \<Longrightarrow> length n < MAXPATH \<Longrightarrow> 0 < k \<Longrightarrow> k \<le> length b \<Longrightarrow> len = int k \<Longrightarrow> False"
proof (induction rule: write_until.raw_induct [rotated, consumes 1, case_names 1])
  case (1 f dos name b len st x)
  obtain l e where w: "mailslot_write dos name (Some b) len st = Some (-1, st\<lparr>lan := l, mail_errno := e\<rparr>)"
    using refused_attempt [OF 1(4,5,6,7,8)] unfolding 1(3,9) by blast
  then have "f dos name b len (st\<lparr>lan := l, mail_errno := e\<rparr>) = Some x" using 1(2) by simp
  moreover have "slots_started (st\<lparr>lan := l, mail_errno := e\<rparr>)" using 1(5) by (simp add: slots_started_def)
  ultimately show ?case using 1(1) 1(3,4,6-9) by blast
qed

text \<open>C37: a file that blocks, as files do when they are opened, repeats a write for as long as LAN Manager refuses it.
  To a mailslot that never takes a message there is no end of this: every attempt returns -1, with no access
  outside of the buffer or the table, and is followed by another one, and the call does not return.\<close>

theorem blocking_write_repeats:
  assumes "refused dos (backslashify name)" "slots_started st" "length name < MAXPATH" "0 < len" "len \<le> length msg"
    and "get_fse fd st = Some p" "fse_heap st p = Some me" "me_name me = Some name" "me_blocking me"
  shows "(\<exists>run. run 0 = st \<and> (\<forall>i. mailslot_write dos (Some name) (Some msg) (int len) (run i) = Some (-1, run (Suc i))))
    \<and> mail_write dos fd (Some msg) (int len) st = None"
proof -
  define run where "run = rec_nat st (\<lambda>_ s. snd (the (mailslot_write dos (Some name) (Some msg) (int len) s)))"
  have run: "run 0 = st" "run (Suc i) = snd (the (mailslot_write dos (Some name) (Some msg) (int len) (run i)))" for i
    by (simp_all add: run_def)
  have "slots_started (run i) \<and> mailslot_write dos (Some name) (Some msg) (int len) (run i) = Some (-1, run (Suc i))" for i
  proof (induction i)
    case 0
    obtain l e where "mailslot_write dos (Some name) (Some msg) (int len) (run 0) = Some (-1, (run 0)\<lparr>lan := l, mail_errno := e\<rparr>)"
      using refused_attempt [OF assms(1) _ assms(3-5), of "run 0"] assms(2) run(1) by metis
    then show ?case using assms(2) by (simp add: run)
  next
    case (Suc i)
    obtain l e where "mailslot_write dos (Some name) (Some msg) (int len) (run i) = Some (-1, (run i)\<lparr>lan := l, mail_errno := e\<rparr>)"
      using refused_attempt [OF assms(1) _ assms(3-5), of "run i"] Suc.IH by metis
    then have s: "slots_started (run (Suc i))" using Suc.IH by (auto simp: slots_started_def)
    obtain l e where "mailslot_write dos (Some name) (Some msg) (int len) (run (Suc i))
        = Some (-1, (run (Suc i))\<lparr>lan := l, mail_errno := e\<rparr>)"
      using refused_attempt [OF assms(1) s assms(3-5)] by metis
    then show ?case using s by (simp add: run(2) [of "Suc i"])
  qed
  moreover have "write_until dos (Some name) msg (int len) st = None"
    using write_until_refused [OF _ refl assms(1-5) refl] by (metis option.exhaust)
  then have "mail_write dos fd (Some msg) (int len) st = None" using assms(4,6-9) by (simp add: mail_write_def)
  ultimately show ?thesis using run(1) by blast
qed

theorem blocking_write_repeats_witness:
  "(\<exists>run. run 0 = two_files [] \<and> (\<forall>i. mailslot_write (queue_dos\<lparr>lan_write := (\<lambda>name b l. (regs True 53 0, l))\<rparr>)
      (Some (string_bytes ''/mailslot/a'')) (Some [1]) 1 (run i) = Some (-1, run (Suc i))))
   \<and> mail_write (queue_dos\<lparr>lan_write := (\<lambda>name b l. (regs True 53 0, l))\<rparr>) 3 (Some [1]) 1 (two_files []) = None"
proof -
  let ?d = "queue_dos\<lparr>lan_write := (\<lambda>name b l. (regs True 53 0, l))\<rparr>"
  have "refused ?d (backslashify (string_bytes ''/mailslot/a''))"
    by (simp add: refused_def regs_def)
  moreover obtain me where "fse_heap (two_files []) 0 = Some me" "me_name me = Some (string_bytes ''/mailslot/a'')" "me_blocking me"
    by (simp add: two_files_def)
  moreover have "get_fse 3 (two_files []) = Some 0" by (simp add: two_files_def get_fse_def)
  ultimately show ?thesis
    using blocking_write_repeats [of ?d "string_bytes ''/mailslot/a''" "two_files []" 1 "[1]" 3 0 me]
    by (simp add: MAXPATH_def string_bytes_def)
qed

end
