(* ===== verification/Csock_State.thy ===== *)
theory Csock_State
  imports Sock_Life Addr_Config
begin

text \<open>
  The Internet interface over the virtual device driver SOCK.VXD (\<open>src/csock/csock.h\<close>, \<open>c_errors.c\<close>): its state,
  the error codes, and the calls of the driver. The driver is reached through a far call with registers; it is the
  parameter \<open>csock_os\<close>, with the C library and Windows around it.
\<close>

section \<open>Constants\<close>

definition CSOCK_ERR_INVALID_PARAM :: int where "CSOCK_ERR_INVALID_PARAM = 0x100"
definition CSOCK_ERR_NO_MEMORY :: int where "CSOCK_ERR_NO_MEMORY = 0x200"
definition CSOCK_ERR_INVALID_SOCKET :: int where "CSOCK_ERR_INVALID_SOCKET = 0x300"
definition CSOCK_ERR_ALREADY_BOUND :: int where "CSOCK_ERR_ALREADY_BOUND = 0x400"
definition CSOCK_ERR_NOT_BOUND :: int where "CSOCK_ERR_NOT_BOUND = 0x500"
definition CSOCK_ERR_ACCESS :: int where "CSOCK_ERR_ACCESS = 0x600"
definition CSOCK_ERR_INTERNAL :: int where "CSOCK_ERR_INTERNAL = 0x700"
definition CSOCK_ERR_FD_INUSE :: int where "CSOCK_ERR_FD_INUSE = 0x800"
definition CSOCK_ERR_INFINITE_WAIT :: int where "CSOCK_ERR_INFINITE_WAIT = 0x900"
definition CSOCK_ERR_NOT_CONNECTED :: int where "CSOCK_ERR_NOT_CONNECTED = 0xa00"
definition CSOCK_ERR_WOULD_BLOCK :: int where "CSOCK_ERR_WOULD_BLOCK = 0xb00"
definition CSOCK_ERR_MIN :: int where "CSOCK_ERR_MIN = CSOCK_ERR_INVALID_PARAM"
definition CSOCK_RECV_BUFSIZE :: u32 where "CSOCK_RECV_BUFSIZE = 32768"
definition CSOCK_SEND_LOWWATER :: u32 where "CSOCK_SEND_LOWWATER = 1024"

lemmas csock_errs = CSOCK_ERR_INVALID_PARAM_def CSOCK_ERR_NO_MEMORY_def CSOCK_ERR_INVALID_SOCKET_def
  CSOCK_ERR_ALREADY_BOUND_def CSOCK_ERR_NOT_BOUND_def CSOCK_ERR_ACCESS_def CSOCK_ERR_INTERNAL_def CSOCK_ERR_FD_INUSE_def
  CSOCK_ERR_INFINITE_WAIT_def CSOCK_ERR_NOT_CONNECTED_def CSOCK_ERR_WOULD_BLOCK_def CSOCK_ERR_MIN_def

text \<open>
  The driver's own errors are negative, those it passes through from TDI are positive (\<open>tdistat.h\<close>). An unknown
  error leaves \<open>errno\<close> as it was, which is the argument \<open>e\<close>.
\<close>

definition csock_errno :: "int \<Rightarrow> errno_t \<Rightarrow> errno_t" where
  "csock_errno i e =
     (if i = - CSOCK_ERR_INVALID_PARAM then EINVAL
      else if i = - CSOCK_ERR_NO_MEMORY then ENOBUFS
      else if i = - CSOCK_ERR_INVALID_SOCKET then ENOTSOCK
      else if i = - CSOCK_ERR_ALREADY_BOUND then EINVAL
      else if i = - CSOCK_ERR_NOT_BOUND then EINVAL
      else if i = - CSOCK_ERR_ACCESS then EACCES
      else if i = - CSOCK_ERR_INTERNAL then EAGAIN
      else if i = - CSOCK_ERR_FD_INUSE then EBUSY
      else if i = - CSOCK_ERR_INFINITE_WAIT then EBUSY
      else if i = - CSOCK_ERR_NOT_CONNECTED then ENOTCONN
      else if i = - CSOCK_ERR_WOULD_BLOCK then EWOULDBLOCK
      else if i = 0 then ENOERR
      else if i = 1 then ENOBUFS
      else if i = 2 then EADDRINUSE
      else if i = 14 then ECONNREFUSED
      else if i = 15 then ENOTCONN
      else if i = 18 then EISCONN
      else if i = 19 then ECONNREFUSED
      else if i = 20 then ECONNRESET
      else if i = 21 then ETIMEDOUT
      else if i = 22 then ECONNRESET
      else if i = 27 then ENETUNREACH
      else if i = 28 \<or> i = 30 then EHOSTUNREACH
      else e)"

section \<open>State\<close>

record csock_socket =
  cs_fd :: int

text \<open>
  The registers of a call, with the bytes at \<open>ds:esi\<close>, and after it, with the bytes the driver has stored there.
\<close>

record vxd_regs =
  vr_ebx :: u32
  vr_ecx :: u32
  vr_edx :: u32
  vr_edi :: u32
  vr_mem :: "u8 list"

record vxd_out =
  vo_carry :: bool
  vo_eax :: u32
  vo_ebx :: u32
  vo_ecx :: u32
  vo_edx :: u32
  vo_mem :: "u8 list"

text \<open>
  \<open>vx_call\<close> is the entry point of the driver, \<open>None\<close> when it does not return. \<open>vx_load\<close> loads it (the result and
  \<open>errno\<close>), \<open>vx_entry\<close> is its address and \<open>vx_windows\<close> the \<open>bh\<close> register of the Windows check and the DOS version.
  \<open>vx_win9x\<close> is the address table the Windows registry gives.
\<close>

record 'w csock_os =
  vx_call :: "nat \<Rightarrow> vxd_regs \<Rightarrow> 'w \<Rightarrow> (vxd_out \<times> 'w) option"
  vx_load :: "'w \<Rightarrow> (int \<times> errno_t) \<times> 'w"
  vx_entry :: "'w \<Rightarrow> int \<times> int"
  vx_windows :: "nat \<times> nat"
  vx_win9x :: "addr_table option"
  vx_malloc :: "nat \<Rightarrow> bool"
  vx_getenv :: "string \<Rightarrow> string option"
  vx_files :: "string \<Rightarrow> string option"
  vx_time :: int
  vx_getpid :: int
  vx_junk :: "nat \<Rightarrow> u8"
  vx_used :: "'w \<Rightarrow> int \<Rightarrow> bool"
  vx_O_NONBLOCK :: int

record 'w csock_world =
  csock_inited :: bool
  csock_version :: u32
  csock_fd_table :: u32
  csock_addr :: "addr_table option"
  vxd :: 'w

type_synonym 'w cstate = "(csock_socket, 'w csock_world) lsck"
type_synonym ('w, 'a) cact = "(csock_socket, 'w csock_world, 'a) act"

definition no_regs :: vxd_regs where
  "no_regs = \<lparr>vr_ebx = 0, vr_ecx = 0, vr_edx = 0, vr_edi = 0, vr_mem = []\<rparr>"

definition vcall :: "'w csock_os \<Rightarrow> nat \<Rightarrow> vxd_regs \<Rightarrow> ('w, vxd_out) cact" where
  "vcall os f r st = do {
     (out, w) \<leftarrow> vx_call os f r (vxd (world st));
     Some (out, st\<lparr>world := (world st)\<lparr>vxd := w\<rparr>\<rparr>)
   }"

text \<open>\<open>jc 1f; xorl %eax, %eax; 1:\<close>\<close>

definition vxd_ret :: "vxd_out \<Rightarrow> int" where
  "vxd_ret out = (if vo_carry out then sint (vo_eax out) else 0)"

definition csock_fail :: "int \<Rightarrow> 'a \<Rightarrow> ('w, 'a) cact" where
  "csock_fail ret v st = Some (v, st\<lparr>errno := csock_errno ret (errno st)\<rparr>)"

definition csock_of :: "nat \<Rightarrow> 'w cstate \<Rightarrow> csock_socket option" where
  "csock_of p st = do { l \<leftarrow> sock_heap st p; d \<leftarrow> lsd_idata l; idata_heap st d }"

definition vjunk :: "'w csock_os \<Rightarrow> nat \<Rightarrow> u8 list" where
  "vjunk os n = List.map (vx_junk os) [0..<n]"

definition AF_INET_bytes :: "u8 list" where "AF_INET_bytes = [2, 0]"

text \<open>The fields of a \<open>struct sockaddr_in\<close>, in network order; the padding is not touched.\<close>

definition put_sin :: "sockaddr \<Rightarrow> u16 \<Rightarrow> u32 \<Rightarrow> sockaddr option" where
  "put_sin a port addr = wr a 0 (AF_INET_bytes @ le16_bytes port @ le32_bytes addr)"

end
