(* ===== verification/Csock_If.thy ===== *)
theory Csock_If
  imports Csock_State
begin

text \<open>
  The operations of the interface, \<open>src/csock/c_*.c\<close>, its table \<open>csock_if\<close> and the library over it, \<open>csock_env\<close>.
\<close>

section \<open>The file descriptors of the driver (\<open>c_socket.c\<close>)\<close>

text \<open>A word with bit \<open>n\<close> set; shifts of the processor count modulo 32.\<close>

definition fd_bit :: "int \<Rightarrow> u32" where
  "fd_bit fd = push_bit (nat (fd mod 32)) 1"

definition csock_fd_set_usage :: "int \<Rightarrow> bool \<Rightarrow> 'w cstate \<Rightarrow> 'w cstate" where
  "csock_fd_set_usage fd flag st = st\<lparr>world := (world st)\<lparr>csock_fd_table :=
     (if flag then csock_fd_table (world st) OR fd_bit fd else csock_fd_table (world st) XOR fd_bit fd)\<rparr>\<rparr>"

text \<open>A descriptor that is not in the table is probed by making and closing a socket with it.\<close>

definition csock_probe :: "'w csock_os \<Rightarrow> int \<Rightarrow> ('w, int) cact" where
  "csock_probe os fd st = do {
     (out, st) \<leftarrow> vcall os 1 (no_regs\<lparr>vr_ebx := 6, vr_edi := word_of_int fd\<rparr>) st;
     if vo_carry out then Some (1, st)
     else do {
       (out, st) \<leftarrow> vcall os 2 (no_regs\<lparr>vr_edi := word_of_int fd\<rparr>) st;
       Some (if vo_carry out then 1 else 0, st)
     }
   }"

definition csock_fd_lookup :: "'w csock_os \<Rightarrow> int \<Rightarrow> ('w, bool) cact" where
  "csock_fd_lookup os fd st =
     (if csock_fd_table (world st) AND fd_bit fd \<noteq> 0 then Some (True, st)
      else do {
        (ret, st) \<leftarrow> csock_probe os fd st;
        if ret \<noteq> 0 then Some (True, csock_fd_set_usage fd True st) else Some (False, st)
      })"

definition csock_fd_get_usage :: "'w csock_os \<Rightarrow> int \<Rightarrow> ('w, bool) cact" where
  "csock_fd_get_usage os fd st =
     (if csock_version (world st) > 0 then do {
        (out, st) \<leftarrow> vcall os 16 no_regs st;
        let ret = sint (vo_eax out);
        if ret = -1 then Some (False, st)
        else csock_fd_lookup os fd (if ret > 0
          then st\<lparr>world := (world st)\<lparr>csock_fd_table := vo_eax out\<rparr>\<rparr> else st)
      } else csock_fd_lookup os fd st)"

section \<open>Controls (\<open>c_ioctl.c\<close>, \<open>c_fcntl.c\<close>)\<close>

definition FIONBIO_num :: int where "FIONBIO_num = 0x8004667E"
definition FIONREAD_num :: int where "FIONREAD_num = 0x4004667F"

text \<open>
  The result is whether the request was handled, the value of \<open>*rv\<close> (of which \<open>rv\<close> is the old one) and what is
  stored in the parameter.
\<close>

definition csock_ioctl :: "'w csock_os \<Rightarrow> nat \<Rightarrow> int \<Rightarrow> int \<Rightarrow> u32 \<Rightarrow> ('w, bool \<times> int \<times> u32 option) cact" where
  "csock_ioctl os p rv request param st =
     (if request = FIONBIO_num then do {
        c \<leftarrow> csock_of p st;
        let nonblocking = (param = 1);
        (out, st) \<leftarrow> vcall os 15 (no_regs\<lparr>vr_edi := word_of_int (cs_fd c), vr_ecx := 1,
          vr_edx := (if nonblocking then 1 else 0)\<rparr>) st;
        if vxd_ret out \<noteq> 0 then csock_fail (vxd_ret out) (True, -1, None) st
        else do {
          st \<leftarrow> upd_lsd p (\<lambda>l. l\<lparr>lsd_blocking := \<not> nonblocking\<rparr>) st;
          Some ((True, 0, None), st)
        }
      } else if request = FIONREAD_num then do {
        l \<leftarrow> sock_heap st p;
        if lsd_type l = SOCK_STREAM then Some ((True, 0, Some CSOCK_RECV_BUFSIZE), st)
        else fail_with EINVAL (True, rv, None) st
      } else Some ((False, rv, None), st))"

text \<open>For the library, whose \<open>rv\<close> is not initialised; the parameter is an integer in memory.\<close>

definition csock_ioctl_buf :: "'w csock_os \<Rightarrow> nat \<Rightarrow> int \<Rightarrow> u8 list \<Rightarrow> ('w, bool \<times> int \<times> u8 list) cact" where
  "csock_ioctl_buf os p request v st = do {
     x \<leftarrow> (if request = FIONBIO_num then le32 v 0 else Some 0);
     ((handled, rv, y), st) \<leftarrow> csock_ioctl os p (uint (vx_junk os 0)) request x st;
     v \<leftarrow> (case y of None \<Rightarrow> Some v | Some y \<Rightarrow> wr v 0 (le32_bytes y));
     Some ((handled, rv, v), st)
   }"

definition csock_fcntl :: "'w csock_os \<Rightarrow> nat \<Rightarrow> fcntl_cmd \<Rightarrow> int \<Rightarrow> ('w, bool \<times> int) cact" where
  "csock_fcntl os p command request st =
     (if command = F_SETFL then do {
        let x = (if request AND vx_O_NONBLOCK os = vx_O_NONBLOCK os then 1 else 0);
        ((handled, rv, _), st) \<leftarrow> csock_ioctl os p (uint (vx_junk os 0)) FIONBIO_num x st;
        Some ((handled, rv), st)
      } else if command = F_GETFL then do {
        l \<leftarrow> sock_heap st p;
        Some ((True, if lsd_blocking l then vx_O_NONBLOCK os else 0), st)
      } else Some ((False, uint (vx_junk os 0)), st))"

section \<open>Creating and closing\<close>

text \<open>The loop over the descriptors: the result is \<open>csock->fd\<close> and \<open>ret\<close>.\<close>

fun csock_socket_scan :: "'w csock_os \<Rightarrow> u32 \<Rightarrow> int list \<Rightarrow> int \<Rightarrow> ('w, int \<times> int) cact" where
  "csock_socket_scan os protocol [] ret st = Some ((-1, ret), st)"
| "csock_socket_scan os protocol (i # is) ret st = do {
     (used, st) \<leftarrow> csock_fd_get_usage os i st;
     if used then csock_socket_scan os protocol is ret st
     else do {
       (out, st) \<leftarrow> vcall os 1 (no_regs\<lparr>vr_ebx := protocol, vr_edi := word_of_int i\<rparr>) st;
       let ret = vxd_ret out;
       if ret = 0 then Some ((i, ret), st)
       else if ret \<noteq> - CSOCK_ERR_FD_INUSE then Some ((-1, ret), st)
       else csock_socket_scan os protocol is ret (csock_fd_set_usage i True st)
     }
   }"

text \<open>Behind the loop: the data of the socket, at \<open>n\<close>, gets the descriptor, and the socket blocks.\<close>

definition csock_socket_done :: "'w csock_os \<Rightarrow> nat \<Rightarrow> nat \<Rightarrow> int \<Rightarrow> int \<Rightarrow> ('w, int) cact" where
  "csock_socket_done os p n fd ret st =
     (if fd = -1 then fail EMFILE st
      else if ret \<noteq> 0 then csock_fail ret (-1) st
      else do {
        (_, st) \<leftarrow> csock_ioctl os p 0 FIONBIO_num 0
          (csock_fd_set_usage fd True (st\<lparr>idata_heap := (idata_heap st)(n \<mapsto> \<lparr>cs_fd = fd\<rparr>)\<rparr>));
        Some (0, st)
      })"

definition csock_socket_make :: "'w csock_os \<Rightarrow> nat \<Rightarrow> nat \<Rightarrow> ('w, int) cact" where
  "csock_socket_make os p n st = do {
     l \<leftarrow> sock_heap st p;
     ((fd, ret), st) \<leftarrow> csock_socket_scan os (word_of_int (lsd_protocol l)) (List.map int [1..<32]) (-1) st;
     csock_socket_done os p n fd ret st
   }"

definition csock_socket_op :: "'w csock_os \<Rightarrow> nat \<Rightarrow> ('w, int) cact" where
  "csock_socket_op os p st = (let n = next_ptr st; st = st\<lparr>next_ptr := n + 1\<rparr> in
     if \<not> vx_malloc os n then do {
       st \<leftarrow> upd_lsd p (\<lambda>l. l\<lparr>lsd_idata := None\<rparr>) st;
       fail ENOMEM st
     } else do {
       st \<leftarrow> upd_lsd p (\<lambda>l. l\<lparr>lsd_idata := Some n\<rparr>) (st\<lparr>idata_heap := (idata_heap st)(n \<mapsto> \<lparr>cs_fd = -1\<rparr>)\<rparr>);
       csock_socket_make os p n st
     })"

definition csock_socketpair :: "nat \<Rightarrow> nat \<Rightarrow> ('w, int) cact" where
  "csock_socketpair p q st = fail EAFNOSUPPORT st"

definition csock_close :: "'w csock_os \<Rightarrow> nat \<Rightarrow> ('w, int) cact" where
  "csock_close os p st = do {
     c \<leftarrow> csock_of p st;
     (out, st) \<leftarrow> vcall os 2 (no_regs\<lparr>vr_edi := word_of_int (cs_fd c)\<rparr>) st;
     if vxd_ret out \<noteq> 0 then csock_fail (vxd_ret out) (-1) st
     else Some (0, csock_fd_set_usage (cs_fd c) False st)
   }"

section \<open>Names and connections\<close>

definition csock_bind :: "'w csock_os \<Rightarrow> nat \<Rightarrow> sockaddr \<Rightarrow> nat \<Rightarrow> ('w, int) cact" where
  "csock_bind os p my_addr addrlen st = do {
     c \<leftarrow> csock_of p st;
     addr \<leftarrow> le32 my_addr 4;
     port \<leftarrow> le16 my_addr 2;
     (out, st) \<leftarrow> vcall os 3 (no_regs\<lparr>vr_edi := word_of_int (cs_fd c), vr_ebx := addr, vr_edx := ucast port\<rparr>) st;
     if vxd_ret out \<noteq> 0 then csock_fail (vxd_ret out) (-1) st else Some (0, st)
   }"

definition csock_listen :: "'w csock_os \<Rightarrow> nat \<Rightarrow> int \<Rightarrow> ('w, int) cact" where
  "csock_listen os p backlog st = do {
     c \<leftarrow> csock_of p st;
     (out, st) \<leftarrow> vcall os 10 (no_regs\<lparr>vr_edi := word_of_int (cs_fd c), vr_ecx := word_of_int backlog\<rparr>) st;
     if vxd_ret out \<noteq> 0 then csock_fail (vxd_ret out) (-1) st else Some (0, st)
   }"

definition csock_connect :: "'w csock_os \<Rightarrow> nat \<Rightarrow> sockaddr \<Rightarrow> nat \<Rightarrow> ('w, int) cact" where
  "csock_connect os p serv_addr addrlen st = do {
     l \<leftarrow> sock_heap st p;
     if \<not> lsd_blocking l then fail EOPNOTSUPP st
     else do {
       c \<leftarrow> csock_of p st;
       addr \<leftarrow> le32 serv_addr 4;
       port \<leftarrow> le16 serv_addr 2;
       (out, st) \<leftarrow> vcall os 7 (no_regs\<lparr>vr_edi := word_of_int (cs_fd c), vr_ebx := addr, vr_edx := ucast port\<rparr>) st;
       if vxd_ret out \<noteq> 0 then csock_fail (vxd_ret out) (-1) st else Some (0, st)
     }
   }"

text \<open>A blocking \<open>accept\<close> asks again, with a non-blocking call, until there is a connection or an error.\<close>

partial_function (option) csock_accept_call :: "'w csock_os \<Rightarrow> int \<Rightarrow> int \<Rightarrow> bool \<Rightarrow> 'w cstate \<Rightarrow> (vxd_out \<times> 'w cstate) option" where
  "csock_accept_call os fd i blocking st = do {
     (out, st) \<leftarrow> vcall os 12 (no_regs\<lparr>vr_edi := word_of_int fd, vr_edx := word_of_int i\<rparr>) st;
     if blocking \<and> vxd_ret out = - CSOCK_ERR_WOULD_BLOCK then csock_accept_call os fd i blocking st
     else Some (out, st)
   }"

text \<open>The result is \<open>ncsock->fd\<close>, \<open>ret\<close>, \<open>dest_port\<close> and \<open>dest_addr\<close>.\<close>

fun csock_accept_scan :: "'w csock_os \<Rightarrow> int \<Rightarrow> bool \<Rightarrow> int list \<Rightarrow> int \<times> u32 \<times> u32 \<Rightarrow> ('w, int \<times> int \<times> u32 \<times> u32) cact" where
  "csock_accept_scan os fd blocking [] r st = Some ((-1, r), st)"
| "csock_accept_scan os fd blocking (i # is) r st = do {
     (used, st) \<leftarrow> csock_fd_get_usage os i st;
     if used then csock_accept_scan os fd blocking is r st
     else do {
       (out, st) \<leftarrow> csock_accept_call os fd i blocking st;
       let ret = vxd_ret out;
       let r = (ret, vo_ebx out, vo_ecx out);
       if ret = 0 then Some ((i, r), st)
       else if ret \<noteq> - CSOCK_ERR_FD_INUSE then Some ((-1, r), st)
       else csock_accept_scan os fd blocking is r (csock_fd_set_usage i True st)
     }
   }"

text \<open>The behaviour of a socket that blocks is changed for the call and back again.\<close>

definition csock_set_blocking :: "'w csock_os \<Rightarrow> nat \<Rightarrow> bool \<Rightarrow> u32 \<Rightarrow> 'w cstate \<Rightarrow> 'w cstate option" where
  "csock_set_blocking os p blocking flag st =
     (if blocking then do { (_, st) \<leftarrow> csock_ioctl os p 0 FIONBIO_num flag st; Some st } else Some st)"

text \<open>The part from the loop over the descriptors on; the data of the new socket is at \<open>n\<close>.\<close>

definition csock_accept_open :: "'w csock_os \<Rightarrow> nat \<Rightarrow> nat \<Rightarrow> bool \<Rightarrow> sockaddr \<Rightarrow> nat \<Rightarrow> ('w, int \<times> sockaddr \<times> nat) cact" where
  "csock_accept_open os p n blocking addr addrlen st = do {
     c \<leftarrow> csock_of p st;
     ((fd, ret, port, dest), st) \<leftarrow> csock_accept_scan os (cs_fd c) blocking (List.map int [1..<32]) (-1, 0, 0) st;
     st \<leftarrow> csock_set_blocking os p blocking 0 (st\<lparr>idata_heap := (idata_heap st)(n \<mapsto> \<lparr>cs_fd = fd\<rparr>)\<rparr>);
     if ret \<noteq> 0 then csock_fail ret (-1, addr, addrlen) st
     else do {
       addr \<leftarrow> put_sin addr (ucast port) dest;
       Some ((0, addr, SOCKADDR_IN_SIZE), csock_fd_set_usage fd True st)
     }
   }"

text \<open>After \<open>malloc\<close> the data of the listening socket is tested where that of the new one is meant.\<close>

definition csock_accept :: "'w csock_os \<Rightarrow> nat \<Rightarrow> nat \<Rightarrow> sockaddr \<Rightarrow> nat \<Rightarrow> ('w, int \<times> sockaddr \<times> nat) cact" where
  "csock_accept os p q addr addrlen st =
     (if addrlen < SOCKADDR_IN_SIZE then fail_with EINVAL (-1, addr, addrlen) st
      else do {
        let n = next_ptr st;
        let ok = vx_malloc os n;
        let st = st\<lparr>next_ptr := n + 1\<rparr>;
        st \<leftarrow> (if ok then upd_lsd q (\<lambda>l. l\<lparr>lsd_idata := Some n\<rparr>) (st\<lparr>idata_heap := (idata_heap st)(n \<mapsto> \<lparr>cs_fd = -1\<rparr>)\<rparr>)
              else upd_lsd q (\<lambda>l. l\<lparr>lsd_idata := None\<rparr>) st);
        l \<leftarrow> sock_heap st p;
        if lsd_idata l = None then fail_with ENOMEM (-1, addr, addrlen) st
        else do {
          st \<leftarrow> csock_set_blocking os p (lsd_blocking l) 1 st;
          if \<not> ok then None else csock_accept_open os p n (lsd_blocking l) addr addrlen st
        }
      })"

definition csock_getpeername :: "'w csock_os \<Rightarrow> nat \<Rightarrow> sockaddr \<Rightarrow> nat \<Rightarrow> ('w, int \<times> sockaddr \<times> nat) cact" where
  "csock_getpeername os p name namelen st =
     (if namelen < SOCKADDR_IN_SIZE then fail_with ENOBUFS (-1, name, namelen) st
      else do {
        c \<leftarrow> csock_of p st;
        (out, st) \<leftarrow> vcall os 14 (no_regs\<lparr>vr_edi := word_of_int (cs_fd c)\<rparr>) st;
        if vxd_ret out \<noteq> 0 then csock_fail (vxd_ret out) (-1, name, namelen) st
        else do {
          name \<leftarrow> put_sin name (ucast (vo_ebx out)) (vo_ecx out);
          Some ((0, name, SOCKADDR_IN_SIZE), st)
        }
      })"

text \<open>
  The address the driver gives is replaced by that of the interface on the network of the peer, or else of the
  last one with a gateway.
\<close>

fun local_address :: "u32 \<Rightarrow> addr_inet list \<Rightarrow> u32 \<Rightarrow> u32" where
  "local_address peer [] addr = addr"
| "local_address peer (i # is) addr =
     (if peer AND inet_netmask i = inet_address i AND inet_netmask i then inet_address i
      else local_address peer is (if inet_gw_present i then inet_address i else addr))"

definition csock_getsockname :: "'w csock_os \<Rightarrow> nat \<Rightarrow> sockaddr \<Rightarrow> nat \<Rightarrow> ('w, int \<times> sockaddr \<times> nat) cact" where
  "csock_getsockname os p name namelen st =
     (if namelen < SOCKADDR_IN_SIZE then fail_with ENOBUFS (-1, name, namelen) st
      else do {
        c \<leftarrow> csock_of p st;
        l \<leftarrow> sock_heap st p;
        (out, st) \<leftarrow> vcall os 13 (no_regs\<lparr>vr_edi := word_of_int (cs_fd c)\<rparr>) st;
        if vxd_ret out \<noteq> 0 then csock_fail (vxd_ret out) (-1, name, namelen) st
        else do {
          tab \<leftarrow> csock_addr (world st);
          peer \<leftarrow> le32 (lsd_peername l) 4;
          name \<leftarrow> put_sin name (ucast (vo_ebx out)) (local_address peer (table_inet tab) 0);
          Some ((0, name, SOCKADDR_IN_SIZE), st)
        }
      })"

section \<open>Transfer\<close>

definition csock_recv :: "'w csock_os \<Rightarrow> nat \<Rightarrow> u8 list \<Rightarrow> nat \<Rightarrow> u32 \<Rightarrow> ('w, int \<times> u8 list) cact" where
  "csock_recv os p buf len flags st =
     (if flags \<noteq> 0 then fail_with EINVAL (-1, buf) st
      else do {
        c \<leftarrow> csock_of p st;
        (out, st) \<leftarrow> vcall os 9 (no_regs\<lparr>vr_edi := word_of_int (cs_fd c), vr_ecx := of_nat len, vr_mem := buf\<rparr>) st;
        buf \<leftarrow> memcpy buf (vo_mem out) (length (vo_mem out));
        if vxd_ret out < 0 then csock_fail (vxd_ret out) (-1, buf) st
        else Some ((sint (vo_ecx out), buf), st)
      })"

text \<open>Version 0 of the driver blocks where it should not, so the behaviour is inverted for the call.\<close>

definition csock_invert :: "'w csock_os \<Rightarrow> nat \<Rightarrow> bool \<Rightarrow> 'w cstate \<Rightarrow> 'w cstate option" where
  "csock_invert os p flag st =
     (if csock_version (world st) < 1 then do {
        (_, st) \<leftarrow> csock_ioctl os p 0 FIONBIO_num (if flag then 1 else 0) st;
        Some st
      } else Some st)"

definition csock_recvfrom :: "'w csock_os \<Rightarrow> nat \<Rightarrow> u8 list \<Rightarrow> nat \<Rightarrow> u32 \<Rightarrow> sockaddr option \<Rightarrow> nat option
    \<Rightarrow> ('w, int \<times> u8 list \<times> sockaddr option \<times> nat option) cact" where
  "csock_recvfrom os p buf len flags frm fromlen st = do {
     short \<leftarrow> (case frm of None \<Rightarrow> Some False | Some _ \<Rightarrow> map_option (\<lambda>n. n < SOCKADDR_IN_SIZE) fromlen);
     if short then fail_with EINVAL (-1, buf, frm, fromlen) st
     else if flags \<noteq> 0 \<and> flags AND NOT 2 \<noteq> 0 then fail_with EINVAL (-1, buf, frm, fromlen) st
     else do {
       l \<leftarrow> sock_heap st p;
       st \<leftarrow> csock_invert os p (lsd_blocking l) st;
       c \<leftarrow> csock_of p st;
       (out, st) \<leftarrow> vcall os 5 (no_regs\<lparr>vr_edi := word_of_int (cs_fd c), vr_ecx := of_nat len, vr_mem := buf\<rparr>) st;
       buf \<leftarrow> memcpy buf (vo_mem out) (length (vo_mem out));
       st \<leftarrow> csock_invert os p (\<not> lsd_blocking l) st;
       (frm, fromlen) \<leftarrow> (case frm of
           None \<Rightarrow> Some (frm, fromlen)
         | Some a \<Rightarrow> do {
             n \<leftarrow> fromlen;
             let n = (if n > SOCKADDR_IN_SIZE then SOCKADDR_IN_SIZE else n);
             sin \<leftarrow> put_sin (vjunk os SOCKADDR_IN_SIZE) (ucast (vo_edx out)) (vo_ebx out);
             a \<leftarrow> memcpy a sin n;
             Some (Some a, Some n)
           });
       if vxd_ret out < 0 then csock_fail (vxd_ret out) (-1, buf, frm, fromlen) st
       else Some ((sint (vo_ecx out), buf, frm, fromlen), st)
     }
   }"

text \<open>Errors of the driver are told from those of TDI by their size; both are negative here.\<close>

definition csock_send_result :: "vxd_out \<Rightarrow> int \<Rightarrow> ('w, int) cact" where
  "csock_send_result out len st =
     (if vxd_ret out < 0
      then csock_fail (if - vxd_ret out < CSOCK_ERR_MIN then - vxd_ret out else vxd_ret out) (-1) st
      else Some (len, st))"

definition csock_send :: "'w csock_os \<Rightarrow> nat \<Rightarrow> u8 list \<Rightarrow> nat \<Rightarrow> u32 \<Rightarrow> ('w, int) cact" where
  "csock_send os p msg len flags st =
     (if flags \<noteq> 0 then fail EINVAL st
      else do {
        c \<leftarrow> csock_of p st;
        (out, st) \<leftarrow> vcall os 8 (no_regs\<lparr>vr_edi := word_of_int (cs_fd c), vr_ecx := of_nat len, vr_mem := msg\<rparr>) st;
        csock_send_result out (vxd_ret out) st
      })"

text \<open>A datagram socket without a name is bound to any local address first.\<close>

definition csock_bind_any_done :: "'w csock_os \<Rightarrow> nat \<Rightarrow> int \<Rightarrow> sockaddr \<Rightarrow> ('w, int) cact" where
  "csock_bind_any_done os p ret sin st = do {
     l \<leftarrow> sock_heap st p;
     if ret = 0 then do {
       ((_, sin, n), st) \<leftarrow> csock_getsockname os p sin SOCKADDR_IN_SIZE st;
       name \<leftarrow> memcpy (lsd_sockname l) sin n;
       st \<leftarrow> upd_lsd p (\<lambda>l. l\<lparr>lsd_sockname := name, lsd_socknamelen := n, lsd_bound := True\<rparr>) st;
       Some (ret, st)
     } else do {
       name \<leftarrow> bzero (lsd_sockname l) SOCKADDR_COMMON_SIZE;
       st \<leftarrow> upd_lsd p (\<lambda>l. l\<lparr>lsd_sockname := name, lsd_socknamelen := 0, lsd_bound := False\<rparr>) st;
       Some (ret, st)
     }
   }"

definition csock_bind_any :: "'w csock_os \<Rightarrow> nat \<Rightarrow> ('w, int) cact" where
  "csock_bind_any os p st = do {
     sin \<leftarrow> put_sin (replicate SOCKADDR_IN_SIZE 0) 0 0;
     (ret, st) \<leftarrow> csock_bind os p sin SOCKADDR_IN_SIZE st;
     csock_bind_any_done os p ret sin st
   }"

definition csock_sendto :: "'w csock_os \<Rightarrow> nat \<Rightarrow> u8 list \<Rightarrow> nat \<Rightarrow> u32 \<Rightarrow> sockaddr option \<Rightarrow> nat \<Rightarrow> ('w, int) cact" where
  "csock_sendto os p msg len flags dest tolen st = do {
     a \<leftarrow> dest;
     addr \<leftarrow> le32 a 4;
     port \<leftarrow> le16 a 2;
     l \<leftarrow> sock_heap st p;
     (ret, st) \<leftarrow> (if lsd_type l = SOCK_DGRAM \<and> \<not> lsd_bound l then csock_bind_any os p st else Some (0, st));
     if ret = -1 then Some (-1, st)
     else if flags \<noteq> 0 then fail EINVAL st
     else do {
       c \<leftarrow> csock_of p st;
       (out, st) \<leftarrow> vcall os 4 (no_regs\<lparr>vr_edi := word_of_int (cs_fd c), vr_ecx := of_nat len, vr_ebx := addr,
         vr_edx := ucast port, vr_mem := msg\<rparr>) st;
       csock_send_result out (sint (vo_ecx out)) st
     }
   }"

section \<open>Options and readiness\<close>

abbreviation (input) SOL_SOCKET :: int where "SOL_SOCKET \<equiv> 0xffff"
abbreviation (input) SO_REUSEADDR :: int where "SO_REUSEADDR \<equiv> 0x0004"
abbreviation (input) SO_SNDBUF :: int where "SO_SNDBUF \<equiv> 0x1001"
abbreviation (input) SO_RCVBUF :: int where "SO_RCVBUF \<equiv> 0x1002"
abbreviation (input) SO_SNDLOWAT :: int where "SO_SNDLOWAT \<equiv> 0x1003"
abbreviation (input) SO_RCVLOWAT :: int where "SO_RCVLOWAT \<equiv> 0x1004"
abbreviation (input) SO_SNDTIMEO :: int where "SO_SNDTIMEO \<equiv> 0x1005"
abbreviation (input) SO_RCVTIMEO :: int where "SO_RCVTIMEO \<equiv> 0x1006"

text \<open>The value of an integer option.\<close>

definition csock_int_option :: "int \<Rightarrow> u32 option" where
  "csock_int_option optname =
     (if optname = SO_REUSEADDR then Some 1
      else if optname = SO_RCVBUF then Some CSOCK_RECV_BUFSIZE
      else if optname = SO_RCVLOWAT then Some 1
      else if optname = SO_SNDBUF then Some CSOCK_RECV_BUFSIZE
      else if optname = SO_SNDLOWAT then Some CSOCK_SEND_LOWWATER
      else None)"

text \<open>The time values leave \<open>*optlen\<close> alone.\<close>

definition csock_getsockopt :: "'w csock_os \<Rightarrow> nat \<Rightarrow> int \<Rightarrow> int \<Rightarrow> u8 list \<Rightarrow> nat \<Rightarrow> ('w, bool \<times> int \<times> u8 list \<times> nat) cact" where
  "csock_getsockopt os p level optname optval optlen st =
     (if level \<noteq> SOL_SOCKET then fail_with EINVAL (True, -1, optval, optlen) st
      else if csock_int_option optname \<noteq> None \<and> optlen < 4 then fail_with ENOBUFS (True, -1, optval, optlen) st
      else if (optname = SO_RCVTIMEO \<or> optname = SO_SNDTIMEO) \<and> optlen < 8
        then fail_with ENOBUFS (True, -1, optval, optlen) st
      else (case csock_int_option optname of
          Some x \<Rightarrow> do { v \<leftarrow> wr optval 0 (le32_bytes x); Some ((True, 0, v, 4), st) }
        | None \<Rightarrow>
            if optname = SO_RCVTIMEO \<or> optname = SO_SNDTIMEO
            then do { v \<leftarrow> wr optval 0 (replicate 8 0); Some ((True, 0, v, optlen), st) }
            else Some ((False, uint (vx_junk os 0), optval, optlen), st)))"

definition csock_shutdown :: "nat \<Rightarrow> int \<Rightarrow> ('w, int) cact" where
  "csock_shutdown p how st = Some (0, st)"

definition csock_select :: "'w csock_os \<Rightarrow> nat \<Rightarrow> int \<Rightarrow> ('w, int) cact" where
  "csock_select os p event st = do {
     c \<leftarrow> csock_of p st;
     let bit = fd_bit (cs_fd c);
     let r = no_regs;
     let r = (if event = FD_READ then r\<lparr>vr_ebx := bit\<rparr> else if event = FD_WRITE then r\<lparr>vr_ecx := bit\<rparr> else r\<lparr>vr_edx := bit\<rparr>);
     (out, st) \<leftarrow> vcall os 6 r st;
     if vxd_ret out \<noteq> 0 then csock_fail (vxd_ret out) (-1) st
     else Some (if vo_ebx out AND bit = bit \<or> vo_ecx out AND bit = bit \<or> vo_edx out AND bit = bit then 1 else 0, st)
   }"

partial_function (option) csock_select_wait :: "'w csock_os \<Rightarrow> nat \<Rightarrow> int \<Rightarrow> 'w cstate \<Rightarrow> (int \<times> 'w cstate) option" where
  "csock_select_wait os p event st = do {
     (ret, st) \<leftarrow> csock_select os p event st;
     if ret = 0 then csock_select_wait os p event st else Some (ret, st)
   }"

definition csock_nonblocking_check :: "'w csock_os \<Rightarrow> nat \<Rightarrow> ('w, int) cact" where
  "csock_nonblocking_check os p st = do {
     l \<leftarrow> sock_heap st p;
     if lsd_connecting l \<and> \<not> lsd_connected l then do {
       (r, st) \<leftarrow> csock_select os p FD_WRITE st;
       st \<leftarrow> (if r > 0 then upd_lsd p (\<lambda>l. l\<lparr>lsd_connecting := False, lsd_connected := True\<rparr>) st else Some st);
       Some (0, st)
     } else Some (0, st)
   }"

section \<open>Initialisation (\<open>c_initnt.c\<close>, \<open>windows.c\<close>)\<close>

abbreviation (input) CSOCK_IF :: nat where "CSOCK_IF \<equiv> 5"

datatype windows_version = WIN_NONE | WIN_311 | WIN_95 | WIN_98 | WIN_NT

definition get_windows_version :: "nat \<times> nat \<Rightarrow> windows_version" where
  "get_windows_version regs = (case regs of (bh, dos) \<Rightarrow>
     let win = (if bh = 3 then WIN_311 else if bh > 3 then WIN_95 else WIN_NONE) in
     if win = WIN_NONE \<and> dos = 0x532 then WIN_NT else win)"

definition csock_enabled :: "'w csock_os \<Rightarrow> 'w cstate \<Rightarrow> ((bool \<times> string option) \<times> 'w cstate) option" where
  "csock_enabled os st = do {
     (cfg, c) \<leftarrow> config_getfile (vx_getenv os) (vx_malloc os (next_ptr st)) (lsck_config st);
     let st = st\<lparr>lsck_config := c, next_ptr := next_ptr st + 1\<rparr>;
     buf \<leftarrow> (case cfg of
        None \<Rightarrow> Some ''true''
      | Some f \<Rightarrow> do {
          (_, d) \<leftarrow> GetPrivateProfileString (vx_files os) (Some ''csock'') (Some ''Enabled'') (Some ''true'') 6 f;
          d
        });
     Some ((\<not> (stricmp_eq buf ''false'' \<or> stricmp_eq buf ''no'' \<or> buf = ''0''), cfg), st)
   }"

text \<open>
  The addresses of the interface: those of the configuration file behind the loopback device, or else those of
  Windows. A null pointer for the loopback device ends the table.
\<close>

definition csock_addresses :: "'w csock_os \<Rightarrow> string option \<Rightarrow> 'w cstate \<Rightarrow> 'w cstate option" where
  "csock_addresses os cfg st = do {
     let n = next_ptr st;
     let st = st\<lparr>next_ptr := n + 3\<rparr>;
     inet \<leftarrow> if_addr_inet_getconfig (vx_files os) (vx_malloc os n) cfg ''csock'';
     let st = (case inet of
         None \<Rightarrow> st
       | Some a \<Rightarrow> if \<not> vx_malloc os (n + 1) then st\<lparr>world := (world st)\<lparr>csock_addr := None\<rparr>\<rparr>
           else st\<lparr>world := (world st)\<lparr>csock_addr := Some \<lparr>table_family = AF_INET4, table_inet =
             (case if_addr_inet_loopback (vx_malloc os (n + 2)) of None \<Rightarrow> [] | Some lo \<Rightarrow> [lo, a])\<rparr>\<rparr>\<rparr>);
     Some (if csock_addr (world st) = None then st\<lparr>world := (world st)\<lparr>csock_addr := vx_win9x os\<rparr>\<rparr> else st)
   }"

definition csock_uninit :: "('w, int) cact" where
  "csock_uninit st = (if \<not> csock_inited (world st) then Some (1, st)
     else Some (1, st\<lparr>world := (world st)\<lparr>csock_inited := False\<rparr>\<rparr>))"

definition csock_start :: "'w csock_os \<Rightarrow> string option \<Rightarrow> ('w, nat option) cact" where
  "csock_start os cfg st = (case vx_load os (vxd (world st)) of ((r, e), w) \<Rightarrow>
     let st = st\<lparr>world := (world st)\<lparr>vxd := w\<rparr>\<rparr> in
     if r \<noteq> 0 then Some (None, if r = -1 then st\<lparr>errno := e\<rparr> else st)
     else if vx_entry os w = (0, 0) then fail_with ENODEV None st
     else do {
       (out, st) \<leftarrow> vcall os 0 (no_regs\<lparr>vr_edi := 0xFFFF\<rparr>) st;
       let ret = sint (vo_eax out);
       let st = st\<lparr>world := (world st)\<lparr>csock_version := (if ret < 0 then 0 else vo_eax out)\<rparr>\<rparr>;
       st \<leftarrow> csock_addresses os cfg st;
       if csock_addr (world st) = None then do {
         (_, st) \<leftarrow> csock_uninit (st\<lparr>world := (world st)\<lparr>csock_inited := True\<rparr>\<rparr>);
         Some (None, st)
       }
       else Some (Some CSOCK_IF, st\<lparr>world := (world st)\<lparr>csock_inited := True\<rparr>\<rparr>)
     })"

definition csock_init :: "'w csock_os \<Rightarrow> ('w, nat option) cact" where
  "csock_init os st =
     (if csock_inited (world st) then Some (Some CSOCK_IF, st)
      else do {
        ((enabled, cfg), st) \<leftarrow> csock_enabled os st;
        if \<not> enabled then Some (None, st)
        else if get_windows_version (vx_windows os) = WIN_NONE \<or> get_windows_version (vx_windows os) = WIN_NT
          then Some (None, st)
        else csock_start os cfg st
      })"

definition csock_proto_check :: "bool \<Rightarrow> int \<Rightarrow> int \<Rightarrow> int \<Rightarrow> bool" where
  "csock_proto_check ready domain type protocol =
     (if \<not> ready then False
      else if domain \<noteq> AF_INET4 then False
      else type = SOCK_STREAM \<and> protocol = IPPROTO_TCP \<or> type = SOCK_DGRAM \<and> protocol = IPPROTO_UDP)"

definition csock_addrlen_check :: "lsck_socket \<Rightarrow> nat \<Rightarrow> bool" where
  "csock_addrlen_check lsd addrlen =
     (if lsd_family lsd \<noteq> AF_INET4 then False
      else if lsd_type lsd \<noteq> SOCK_STREAM \<and> lsd_type lsd \<noteq> SOCK_DGRAM then False
      else if addrlen < SOCKADDR_IN_SIZE then False
      else True)"

section \<open>The table and the library\<close>

text \<open>
  The library asks an interface only after its initialisation has put it into the list, so that \<open>csock_inited\<close> is
  true in \<open>__csock_proto_check\<close>. \<open>tab\<close> is the address table that initialisation has left in the interface.
\<close>

definition csock_if :: "'w csock_os \<Rightarrow> addr_table option \<Rightarrow> (csock_socket, 'w csock_world) lsck_if" where
  "csock_if os tab = \<lparr>if_name = Some ''Coda SOCK.VXD'', if_flags = 1, if_addr = tab,
     if_preuninit = None, if_uninit = Some csock_uninit,
     if_socket = Some (csock_socket_op os), if_socketpair = Some csock_socketpair, if_close = Some (csock_close os),
     if_proto_check = Some (csock_proto_check True), if_addrlen_check = Some csock_addrlen_check,
     if_bind = Some (csock_bind os), if_listen = Some (csock_listen os), if_accept = Some (csock_accept os),
     if_connect = Some (csock_connect os), if_recv = Some (csock_recv os), if_recvfrom = Some (csock_recvfrom os),
     if_send = Some (csock_send os), if_sendto = Some (csock_sendto os),
     if_getsockname = Some (csock_getsockname os), if_getpeername = Some (csock_getpeername os),
     if_getsockopt = Some (csock_getsockopt os), if_setsockopt = None, if_shutdown = Some csock_shutdown,
     if_fcntl = Some (csock_fcntl os), if_ioctl = Some (csock_ioctl_buf os), if_select = Some (csock_select os),
     if_nonblocking_check = Some (csock_nonblocking_check os), if_sockatmark = None\<rparr>"

definition csock_alloc_fd :: "'w csock_os \<Rightarrow> 'w cstate \<Rightarrow> int" where
  "csock_alloc_fd os st = (case List.find (\<lambda>fd. fds st fd = None \<and> \<not> vx_used os (vxd (world st)) fd)
      (List.map int [3..<256]) of None \<Rightarrow> -1 | Some fd \<Rightarrow> fd)"

definition csock_env :: "'w csock_os \<Rightarrow> addr_table option \<Rightarrow> (csock_socket, 'w csock_world) lsck_env" where
  "csock_env os tab = \<lparr>env_if = (\<lambda>_. csock_if os tab), env_init_table = [csock_init os], env_getpid = vx_getpid os,
     env_alloc_fd = csock_alloc_fd os, env_malloc = vx_malloc os, env_getenv = vx_getenv os, env_files = vx_files os,
     env_time = vx_time os, env_junk = vjunk os SOCKADDR_MAX_SIZE\<rparr>"

end
