(* ===== verification/Csock_Contract.thy ===== *)
theory Csock_Contract
  imports Csock_If Contract_Rules
begin

text \<open>
  The interface over SOCK.VXD keeps the contract of \<open>Lsck_Contract\<close>, whatever the driver answers: the second
  interpretation of the locale.
\<close>

section \<open>Steps of the interface\<close>

lemma usage_simps [simp]:
  "consistent ifs (csock_fd_set_usage fd b s) = consistent ifs s"
  "frame_by R s (csock_fd_set_usage fd b s') = frame_by R s s'"
  "sock_heap (csock_fd_set_usage fd b s) = sock_heap s" "idata_heap (csock_fd_set_usage fd b s) = idata_heap s"
  by (simp_all add: csock_fd_set_usage_def)

lemma vcall_keeps: "consistent ifs s \<Longrightarrow> keeps False ifs s (vcall os f r s)"
  by (auto simp: vcall_def returns_def split: prod.split)

lemma csock_fail_returns: "P v \<Longrightarrow> consistent ifs s \<Longrightarrow> returns t ifs s P (csock_fail r v s)"
  by (simp add: returns_def csock_fail_def)

lemma blocking_safe: "consistent ifs s \<Longrightarrow> safe_state ifs s (upd_lsd p (\<lambda>l. l\<lparr>lsd_blocking := b\<rparr>) s)"
  by (rule upd_lsd_safe; simp add: evolves_def evolves0_def wf_sock_def)

lemma returns_usage:
  "consistent ifs s \<Longrightarrow> (\<And>s'. consistent ifs s' \<Longrightarrow> returns t ifs s' P (f s')) \<Longrightarrow> returns t ifs s P (f (csock_fd_set_usage fd b s))"
  by (rule returns_step [of t ifs "csock_fd_set_usage fd b s"]) simp_all

lemma returns_usage_Some: "P r \<Longrightarrow> consistent ifs s \<Longrightarrow> returns t ifs s P (Some (r, csock_fd_set_usage fd b s))"
  by (simp add: returns_def)

lemmas csock_rules_post = returns_None returns_Let returns_pair returns_prod returns_prod1 returns_if returns_case
  returns_bind_if returns_bind_case returns_bind_Some returns_bind_bind returns_keeps_bind [OF vcall_keeps]
  returns_safe [OF blocking_safe]

lemmas csock_rules = csock_rules_post returns_Some [where P = "\<lambda>_. True", OF TrueI] returns_fail [where P = "\<lambda>_. True", OF TrueI]
  csock_fail_returns [where P = "\<lambda>_. True", OF TrueI] returns_usage_Some [where P = "\<lambda>_. True", OF TrueI]

lemma csock_probe_keeps: "consistent ifs s \<Longrightarrow> keeps False ifs s (csock_probe os fd s)"
  unfolding csock_probe_def by (assumption | rule csock_rules | rule returns_any)+

lemma csock_fd_lookup_keeps: "consistent ifs s \<Longrightarrow> keeps False ifs s (csock_fd_lookup os fd s)"
  unfolding csock_fd_lookup_def by (assumption | rule csock_rules | rule returns_keeps_bind [OF csock_probe_keeps] | rule returns_any)+

lemma csock_fd_get_usage_keeps: "consistent ifs s \<Longrightarrow> keeps False ifs s (csock_fd_get_usage os fd s)"
proof -
  assume c: "consistent ifs s"
  have upd: "keeps False ifs s (csock_fd_lookup os fd (if b then s\<lparr>world := w\<rparr> else s))" if "consistent ifs s" for s b w
  proof (rule returns_step)
    show "keeps False ifs (if b then s\<lparr>world := w\<rparr> else s) (csock_fd_lookup os fd (if b then s\<lparr>world := w\<rparr> else s))"
      by (rule csock_fd_lookup_keeps) (simp add: that)
  qed simp
  show ?thesis
    unfolding csock_fd_get_usage_def using c
    by - (assumption | rule csock_rules | rule upd | rule csock_fd_lookup_keeps | rule returns_any)+
qed

lemma csock_ioctl_keeps: "consistent ifs s \<Longrightarrow> keeps False ifs s (csock_ioctl os p rv r x s)"
  unfolding csock_ioctl_def by (assumption | rule csock_rules | rule returns_any)+

lemma csock_fcntl_keeps: "consistent ifs s \<Longrightarrow> keeps False ifs s (csock_fcntl os p c r s)"
  unfolding csock_fcntl_def by (assumption | rule csock_rules | rule returns_keeps_bind [OF csock_ioctl_keeps] | rule returns_any)+

lemma csock_ioctl_buf_returns:
  assumes "consistent ifs s"
  shows "returns False ifs s (\<lambda>(h, rv, v'). length v' = length v) (csock_ioctl_buf os p k v s)"
  unfolding csock_ioctl_buf_def
  apply (rule returns_any, rule returns_keeps_bind [OF csock_ioctl_keeps [OF assms]])
  apply (rule returns_pair, rule returns_prod1, rule returns_prod1)
  apply (rule returns_bind_case, rule returns_bind_Some, rule returns_Some, simp, assumption)
  apply (rule returns_wr, simp, rule returns_Some, simp_all)
  done

section \<open>Creating and closing\<close>

lemma csock_socket_scan_keeps: "consistent ifs s \<Longrightarrow> keeps False ifs s (csock_socket_scan os pr is r s)"
proof (induction "is" arbitrary: r s)
  case (Cons i "is")
  show ?case
    unfolding csock_socket_scan.simps using Cons.prems
    by - (assumption | rule csock_rules | rule returns_keeps_bind [OF csock_fd_get_usage_keeps] | rule Cons.IH
      | rule returns_usage [where f = "csock_socket_scan os pr is r" for pr r] | rule returns_any)+
qed (simp add: returns_def)

lemma consistent_idata_add:
  assumes "consistent ifs s"
  shows "consistent ifs (s\<lparr>idata_heap := (idata_heap s)(d \<mapsto> u)\<rparr>)"
proof -
  have "idata_but None (s\<lparr>idata_heap := (idata_heap s)(d \<mapsto> u)\<rparr>)"
    using assms unfolding consistent_def idata_but_def by simp metis
  then show ?thesis using assms by (simp add: consistent_def)
qed

lemma socket_done_keeps:
  assumes "consistent ifs s"
  shows "keeps False ifs s (csock_socket_done os p n fd ret s)"
proof -
  let ?s = "csock_fd_set_usage fd True (s\<lparr>idata_heap := (idata_heap s)(n \<mapsto> \<lparr>cs_fd = fd\<rparr>)\<rparr>)"
  have cs: "consistent ifs ?s" using consistent_idata_add [OF assms] by simp
  have "keeps False ifs ?s (do { (_, st) \<leftarrow> csock_ioctl os p 0 FIONBIO_num 0 ?s; Some (0, st) })"
    by (insert cs, (assumption | rule csock_rules | rule returns_keeps_bind [OF csock_ioctl_keeps])+)
  then have "keeps False ifs s (do { (_, st) \<leftarrow> csock_ioctl os p 0 FIONBIO_num 0 ?s; Some (0 :: int, st) })"
    by (rule returns_step) simp
  then show ?thesis
    unfolding csock_socket_done_def using assms by (auto intro!: returns_if returns_fail csock_fail_returns)
qed

lemma socket_make_keeps: "consistent ifs s \<Longrightarrow> keeps False ifs s (csock_socket_make os p n s)"
  unfolding csock_socket_make_def
  by (assumption | rule returns_pair returns_prod returns_prod1 | rule returns_keeps_bind [OF csock_socket_scan_keeps] | rule socket_done_keeps
    | rule returns_any)+

lemma csock_socket_op_keeps:
  assumes "consistent ifs s"
  shows "keeps False ifs s (csock_socket_op os p s)"
proof (cases "sock_heap s p")
  case (Some l)
  have w: "wf_state ifs s" "idata_but (Some p) s" using assms idata_but_any by (auto simp: consistent_def)
  note g = give_idata [OF w Some, of "\<lparr>cs_fd = -1\<rparr>"] and d = drop_idata [OF w Some]
  note k = socket_make_keeps [OF g, THEN returns_step, OF set_idata_wf(2) [OF w(1) Some]]
  show ?thesis
    unfolding csock_socket_op_def Let_def
    using Some k d set_idata_wf(2) [OF w(1) Some, where h = "idata_heap s" and d = None]
    by (simp add: returns_def fail_with_def)
qed (simp add: csock_socket_op_def Let_def returns_def upd_lsd_def)

lemma csock_close_keeps: "consistent ifs s \<Longrightarrow> keeps False ifs s (csock_close os p s)"
  unfolding csock_close_def by (assumption | rule csock_rules | rule returns_any)+

section \<open>Names and connections\<close>

lemma csock_bind_keeps: "consistent ifs s \<Longrightarrow> keeps False ifs s (csock_bind os p a n s)"
  unfolding csock_bind_def by (assumption | rule csock_rules | rule returns_any)+

lemma csock_listen_keeps: "consistent ifs s \<Longrightarrow> keeps False ifs s (csock_listen os p k s)"
  unfolding csock_listen_def by (assumption | rule csock_rules | rule returns_any)+

lemma csock_connect_keeps: "consistent ifs s \<Longrightarrow> keeps False ifs s (csock_connect os p a n s)"
  unfolding csock_connect_def by (assumption | rule csock_rules | rule returns_any)+

lemma put_sin_length: "put_sin a port addr = Some b \<Longrightarrow> length b = length a"
  by (auto simp: put_sin_def dest: wr_length)

lemma returns_put_sin:
  "(\<And>b. length b = length a \<Longrightarrow> returns False ifs s P (k b)) \<Longrightarrow> returns False ifs s P (Option.bind (put_sin a port addr) k)"
  by (cases "put_sin a port addr") (auto simp: returns_None dest: put_sin_length)

lemma csock_getpeername_returns:
  assumes "consistent ifs s"
  shows "returns False ifs s (\<lambda>(r, a', n'). length a' = length a \<and> n' \<le> n) (csock_getpeername os p a n s)"
  unfolding csock_getpeername_def using assms
  by - (assumption | rule csock_rules_post | rule returns_fail csock_fail_returns returns_Some returns_put_sin
    | rule returns_any | simp)+

lemma csock_getsockname_returns:
  assumes "consistent ifs s"
  shows "returns False ifs s (\<lambda>(r, a', n'). length a' = length a \<and> n' \<le> n) (csock_getsockname os p a n s)"
  unfolding csock_getsockname_def using assms
  by - (assumption | rule csock_rules_post | rule returns_fail csock_fail_returns returns_Some returns_put_sin
    | rule returns_any | simp)+

section \<open>accept\<close>

lemma csock_accept_call_keeps:
  assumes c: "consistent ifs s"
  shows "keeps False ifs s (csock_accept_call os fd i b s)"
proof (rule keepsI)
  fix y assume y: "csock_accept_call os fd i b s = Some y"
  have "consistent ifs s \<longrightarrow> frame s (snd y) \<and> consistent ifs (snd y)"
  proof (rule csock_accept_call.raw_induct [OF _ y, of "\<lambda>os fd i b s y. consistent ifs s \<longrightarrow> frame s (snd y) \<and> consistent ifs (snd y)"],
      goal_cases)
    case (1 f os fd i b s y)
    have IH: "keeps False ifs s (f os fd i b s)" if "consistent ifs s" for os fd i b s
      using 1(1) that by (auto intro: keepsI)
    show ?case
      by (rule impI, rule keepsD [OF 1(2)]) (assumption | rule csock_rules | rule IH)+
  qed
  with c show "frame s (snd y) \<and> consistent ifs (snd y)" by simp
qed

lemma csock_accept_scan_keeps: "consistent ifs s \<Longrightarrow> keeps False ifs s (csock_accept_scan os fd b is r s)"
proof (induction "is" arbitrary: r s)
  case (Cons i "is")
  show ?case
    unfolding csock_accept_scan.simps using Cons.prems
    by - (assumption | rule csock_rules | rule returns_keeps_bind [OF csock_fd_get_usage_keeps]
      | rule returns_keeps_bind [OF csock_accept_call_keeps] | rule Cons.IH
      | rule returns_usage [where f = "csock_accept_scan os fd b is r" for fd b r] | rule returns_any)+
qed (simp add: returns_def)

lemma set_blocking_safe: "consistent ifs s \<Longrightarrow> safe_state ifs s (csock_set_blocking os p b x s)"
  using csock_ioctl_keeps [of ifs s os p 0 FIONBIO_num x]
  by (cases "csock_ioctl os p 0 FIONBIO_num x s") (auto simp: csock_set_blocking_def safe_state_def returns_def)

lemma csock_accept_open_returns:
  assumes "consistent ifs s" "length addr = SOCKADDR_MAX_SIZE" "addrlen \<le> SOCKADDR_MAX_SIZE"
  shows "returns False ifs s (\<lambda>(r, a, n). length a = SOCKADDR_MAX_SIZE \<and> n \<le> SOCKADDR_MAX_SIZE \<and> (r = 0 \<or> r = -1))
    (csock_accept_open os p n b addr addrlen s)"
proof -
  have rest: "returns False ifs s (\<lambda>(r, a, n). length a = SOCKADDR_MAX_SIZE \<and> n \<le> SOCKADDR_MAX_SIZE \<and> (r = 0 \<or> r = -1))
     (do {
       st \<leftarrow> csock_set_blocking os p b 0 (s\<lparr>idata_heap := (idata_heap s)(n \<mapsto> \<lparr>cs_fd = fd\<rparr>)\<rparr>);
       if ret \<noteq> 0 then csock_fail ret (-1, addr, addrlen) st
       else do {
         addr \<leftarrow> put_sin addr (ucast port) dest;
         Some ((0, addr, SOCKADDR_IN_SIZE), csock_fd_set_usage fd True st)
       }
     })" if c: "consistent ifs s" for s fd ret dest and port :: u32
  proof (rule returns_step, rule returns_safe [OF set_blocking_safe])
    show "consistent ifs (s\<lparr>idata_heap := (idata_heap s)(n \<mapsto> \<lparr>cs_fd = fd\<rparr>)\<rparr>)" by (rule consistent_idata_add [OF c])
    show "returns False ifs s' (\<lambda>(r, a, n). length a = SOCKADDR_MAX_SIZE \<and> n \<le> SOCKADDR_MAX_SIZE \<and> (r = 0 \<or> r = -1))
       (if ret \<noteq> 0 then csock_fail ret (-1, addr, addrlen) s'
       else do {
         addr \<leftarrow> put_sin addr (ucast port) dest;
         Some ((0, addr, SOCKADDR_IN_SIZE), csock_fd_set_usage fd True s')
       })" if "consistent ifs s'" for s'
      using that assms(2,3)
      by (auto intro!: csock_fail_returns returns_put_sin returns_usage_Some simp: SOCKADDR_IN_SIZE_def SOCKADDR_MAX_SIZE_def)
  qed simp
  show ?thesis
    unfolding csock_accept_open_def
    by (rule returns_any, rule returns_keeps_bind [OF csock_accept_scan_keeps [OF assms(1)]]) (auto intro: rest split: prod.split)
qed

lemma csock_accept_returns:
  assumes w: "wf_state ifs s" "idata_but (Some q) s" "sock_heap s q = Some m" and a: "length addr = SOCKADDR_MAX_SIZE"
  shows "returns False ifs s (\<lambda>(r, a, n). length a = SOCKADDR_MAX_SIZE \<and> n \<le> SOCKADDR_MAX_SIZE \<and> (r = 0 \<or> r = -1))
    (csock_accept os p q addr SOCKADDR_MAX_SIZE s)"
proof -
  note g = give_idata [OF w, of "\<lparr>cs_fd = -1\<rparr>"] and d = drop_idata [OF w]
  have rest: "returns False ifs s (\<lambda>(r, a, n). length a = SOCKADDR_MAX_SIZE \<and> n \<le> SOCKADDR_MAX_SIZE \<and> (r = 0 \<or> r = -1))
    (do {
        l \<leftarrow> sock_heap s p;
        if lsd_idata l = None then fail_with ENOMEM (-1, addr, SOCKADDR_MAX_SIZE) s
        else do {
          st \<leftarrow> csock_set_blocking os p (lsd_blocking l) 1 s;
          if \<not> ok then None else csock_accept_open os p n (lsd_blocking l) addr SOCKADDR_MAX_SIZE st
        }
      })" if "consistent ifs s" for s ok n
    by (insert that a, rule returns_any, rule returns_if, rule returns_fail, simp, assumption, rule returns_safe [OF set_blocking_safe], assumption)
      (auto intro!: returns_None csock_accept_open_returns)
  note f = set_idata_wf(2) [OF w(1,3)]
  have f0: "frame s (s\<lparr>next_ptr := Suc (next_ptr s), sock_heap := (sock_heap s)(q \<mapsto> m\<lparr>lsd_idata := None\<rparr>)\<rparr>)"
    using f [where h = "idata_heap s" and d = None] by simp
  show ?thesis
    unfolding csock_accept_def Let_def
    using w(3) rest [OF g, THEN returns_step, OF f] rest [OF d, THEN returns_step, OF f0]
    by (simp add: SOCKADDR_IN_SIZE_def SOCKADDR_MAX_SIZE_def)
qed

section \<open>Transfer\<close>

lemma csock_recv_keeps: "consistent ifs s \<Longrightarrow> keeps False ifs s (csock_recv os p b n f s)"
  unfolding csock_recv_def by (assumption | rule csock_rules | rule returns_any)+

lemma invert_safe: "consistent ifs s \<Longrightarrow> safe_state ifs s (csock_invert os p b s)"
  using csock_ioctl_keeps [of ifs s os p 0 FIONBIO_num "if b then 1 else 0"]
  by (cases "csock_ioctl os p 0 FIONBIO_num (if b then 1 else 0) s") (auto simp: csock_invert_def safe_state_def returns_def)

lemma csock_recvfrom_keeps: "consistent ifs s \<Longrightarrow> keeps False ifs s (csock_recvfrom os p b n f frm fl s)"
  unfolding csock_recvfrom_def
  by (assumption | rule returns_None returns_Let returns_pair returns_prod returns_prod1 returns_if returns_keeps_bind [OF vcall_keeps]
      returns_safe [OF invert_safe] returns_fail [where P = "\<lambda>_. True", OF TrueI] csock_fail_returns [where P = "\<lambda>_. True", OF TrueI]
      returns_Some [where P = "\<lambda>_. True", OF TrueI] | rule returns_any)+

lemma csock_send_result_keeps: "consistent ifs s \<Longrightarrow> keeps False ifs s (csock_send_result out len s)"
  unfolding csock_send_result_def by (assumption | rule csock_rules)+

lemma csock_send_keeps: "consistent ifs s \<Longrightarrow> keeps False ifs s (csock_send os p b n f s)"
  unfolding csock_send_def by (assumption | rule csock_rules | rule csock_send_result_keeps | rule returns_any)+

lemma csock_getsockname_in:
  assumes "consistent ifs s"
  shows "returns False ifs s (\<lambda>(r, a', n'). length a' = length a \<and> n' \<le> SOCKADDR_IN_SIZE) (csock_getsockname os p a SOCKADDR_IN_SIZE s)"
  using csock_getsockname_returns [OF assms, of a SOCKADDR_IN_SIZE] .

text \<open>Binding leaves a socket that does not listen well-formed.\<close>

lemma bind_name_safe:
  assumes "consistent ifs s" "calm p s" "length nm = SOCKADDR_MAX_SIZE" "n \<le> SOCKADDR_MAX_SIZE"
  shows "safe_state ifs s (upd_lsd p (\<lambda>l. l\<lparr>lsd_sockname := nm, lsd_socknamelen := n, lsd_bound := b\<rparr>) s)"
  by (rule upd_lsd_safe [OF assms(1)]) (use assms(2-4) in \<open>auto simp: calm_def evolves_def evolves0_def wf_sock_def\<close>)

lemma consistent_names:
  "consistent ifs s \<Longrightarrow> sock_heap s p = Some l \<Longrightarrow> length (lsd_sockname l) = SOCKADDR_MAX_SIZE"
  by (auto simp: consistent_def wf_sock_def dest: wf_sockD(1))

lemma returns_memcpy_any:
  "(\<And>r. length r = length d \<Longrightarrow> returns False ifs s P (k r)) \<Longrightarrow> returns False ifs s P (Option.bind (memcpy d x n) k)"
  by (cases "memcpy d x n") (auto simp: returns_None dest: memcpy_length)

lemma returns_bzero_any:
  "(\<And>r. length r = length d \<Longrightarrow> returns False ifs s P (k r)) \<Longrightarrow> returns False ifs s P (Option.bind (bzero d n) k)"
  by (cases "bzero d n") (auto simp: returns_None dest: bzero_length)

lemma csock_bind_any_done_keeps:
  assumes c: "consistent ifs s" "calm p s"
  shows "keeps False ifs s (csock_bind_any_done os p ret sin s)"
proof (cases "sock_heap s p")
  case (Some l)
  have len: "length (lsd_sockname l) = SOCKADDR_MAX_SIZE" by (rule consistent_names [OF c(1) Some])
  have put: "keeps False ifs s' (do {
       st \<leftarrow> upd_lsd p (\<lambda>l. l\<lparr>lsd_sockname := nm, lsd_socknamelen := n, lsd_bound := b\<rparr>) s';
       Some (r, st)
     })" if "consistent ifs s'" "calm p s'" "length nm = SOCKADDR_MAX_SIZE" "n \<le> SOCKADDR_MAX_SIZE" for s' nm n b and r :: int
    by (rule returns_safe [OF bind_name_safe [OF that]]) (simp add: returns_Some)
  have name: "keeps False ifs s (do {
       ((_, sin, n), st) \<leftarrow> csock_getsockname os p sin SOCKADDR_IN_SIZE s;
       name \<leftarrow> memcpy (lsd_sockname l) sin n;
       st \<leftarrow> upd_lsd p (\<lambda>l. l\<lparr>lsd_sockname := name, lsd_socknamelen := n, lsd_bound := True\<rparr>) st;
       Some (ret, st)
     })"
    by (rule returns_bind [OF csock_getsockname_in [OF c(1)]])
      (auto simp: len SOCKADDR_IN_SIZE_def SOCKADDR_MAX_SIZE_def dest: calm_frame [OF c(2)] intro!: returns_memcpy_any put split: prod.split)
  show ?thesis
    unfolding csock_bind_any_done_def Some
    by (rule returns_bind_Some, rule returns_if, rule name, rule returns_bzero_any, rule put [OF c]) (simp_all add: len)
qed (simp add: csock_bind_any_done_def returns_None)

lemma csock_bind_any_keeps:
  assumes c: "consistent ifs s" "calm p s"
  shows "keeps False ifs s (csock_bind_any os p s)"
  unfolding csock_bind_any_def
  by (rule returns_any, rule returns_calm_bind [OF c(2) csock_bind_keeps [OF c(1)]]) (auto intro: csock_bind_any_done_keeps)

lemma datagram_calm: "consistent ifs s \<Longrightarrow> sock_heap s p = Some l \<Longrightarrow> lsd_type l = SOCK_DGRAM \<Longrightarrow> calm p s"
  by (auto simp: calm_def consistent_def wf_sock_def dest!: wf_sockD(1))

lemma csock_sendto_keeps:
  assumes "consistent ifs s"
  shows "keeps False ifs s (csock_sendto os p msg len f d n s)"
proof -
  have rest: "keeps False ifs s' (if ret = -1 then Some (-1, s')
     else if f \<noteq> 0 then fail EINVAL s'
     else do {
       c \<leftarrow> csock_of p s';
       (out, st) \<leftarrow> vcall os 4 (r c) s';
       csock_send_result out (sint (vo_ecx out)) st
     })" if "consistent ifs s'" for s' r and ret :: int
    using that by - (assumption | rule csock_rules csock_send_result_keeps | rule returns_any)+
  have first: "keeps False ifs s (if lsd_type l = SOCK_DGRAM \<and> \<not> lsd_bound l then csock_bind_any os p s else Some (0, s))"
    if "sock_heap s p = Some l" for l
    using csock_bind_any_keeps [OF assms datagram_calm [OF assms that]] assms by (simp add: returns_Some)
  show ?thesis
  proof (cases "sock_heap s p")
    case (Some l)
    show ?thesis
      unfolding csock_sendto_def Some
      by (rule returns_any, rule returns_any, rule returns_any, rule returns_bind_Some, rule returns_keeps_bind [OF first [OF Some]],
          unfold prod.case) (rule rest)
  next
    case None
    show ?thesis unfolding csock_sendto_def None by (rule returns_any, rule returns_any, rule returns_any, simp add: returns_None)
  qed
qed

section \<open>Options and readiness\<close>

lemma csock_getsockopt_keeps: "consistent ifs s \<Longrightarrow> keeps False ifs s (csock_getsockopt os p lev opt v n s)"
  unfolding csock_getsockopt_def
  by (assumption | rule csock_rules | rule returns_any)+

lemma csock_select_keeps: "consistent ifs s \<Longrightarrow> keeps False ifs s (csock_select os p e s)"
  unfolding csock_select_def by (assumption | rule csock_rules | rule returns_any)+

lemma connected_safe:
  "consistent ifs s \<Longrightarrow> safe_state ifs s (upd_lsd p (\<lambda>l. l\<lparr>lsd_connecting := False, lsd_connected := True\<rparr>) s)"
  by (rule upd_lsd_safe; simp add: evolves_def evolves0_def wf_sock_def)

lemma csock_nonblocking_keeps: "consistent ifs s \<Longrightarrow> keeps False ifs s (csock_nonblocking_check os p s)"
  unfolding csock_nonblocking_check_def
  by (assumption | rule csock_rules | rule returns_keeps_bind [OF csock_select_keeps] | rule returns_safe [OF connected_safe] | rule returns_any)+

section \<open>Initialisation\<close>

lemma csock_enabled_keeps:
  assumes "consistent ifs st"
  shows "keeps False ifs st (csock_enabled os st)"
proof (rule keepsI)
  fix y assume "csock_enabled os st = Some y"
  then obtain c where "snd y = st\<lparr>lsck_config := c, next_ptr := next_ptr st + 1\<rparr>"
    by (auto simp: csock_enabled_def bind_eq_Some_conv Let_def)
  then have "snd y = st\<lparr>next_ptr := next_ptr st + 1, lsck_config := c\<rparr>" by simp
  then show "frame st (snd y) \<and> consistent ifs (snd y)"
    using consistent_next_ptr [OF assms] by (simp add: frame_by_def)
qed

lemma csock_addresses_safe:
  assumes "consistent ifs st"
  shows "safe_state ifs st (csock_addresses os cfg st)"
proof -
  have "frame st y \<and> consistent ifs y" if "csock_addresses os cfg st = Some y" for y
  proof -
    have y: "y = st\<lparr>next_ptr := next_ptr st + 3, world := world y\<rparr>"
    proof (cases "if_addr_inet_getconfig (vx_files os) (vx_malloc os (next_ptr st)) cfg ''csock''")
      case (Some inet)
      with that show ?thesis
        by (cases inet; cases "vx_malloc os (next_ptr st + 1)") (auto simp: csock_addresses_def Let_def split: if_splits)
    qed (use that in \<open>simp add: csock_addresses_def Let_def\<close>)
    have "frame st (st\<lparr>next_ptr := next_ptr st + 3, world := w\<rparr>) \<and> consistent ifs (st\<lparr>next_ptr := next_ptr st + 3, world := w\<rparr>)" for w
      using consistent_next_ptr [OF assms] by (simp add: frame_by_def)
    then show ?thesis by (subst y, subst y)
  qed
  then show ?thesis by (simp add: safe_state_def)
qed

abbreviation gives_csock :: "nat option \<Rightarrow> bool" where
  "gives_csock r \<equiv> (case r of None \<Rightarrow> True | Some i \<Rightarrow> i \<in> {CSOCK_IF})"

lemma csock_uninit_keeps: "consistent ifs s \<Longrightarrow> keeps t ifs s (csock_uninit s)"
  by (simp add: csock_uninit_def returns_def)

lemma csock_start_returns:
  fixes s :: "'a cstate"
  assumes "consistent ifs s"
  shows "returns False ifs s gives_csock (csock_start os cfg s)"
proof -
  have table: "returns False ifs s (\<lambda>r. gives_csock r) (do {
       st \<leftarrow> csock_addresses os cfg (s\<lparr>world := w\<rparr>);
       if csock_addr (world st) = None then do {
         (_, st) \<leftarrow> csock_uninit (st\<lparr>world := (world st)\<lparr>csock_inited := True\<rparr>\<rparr>);
         Some (None, st)
       }
       else Some (Some CSOCK_IF, st\<lparr>world := (world st)\<lparr>csock_inited := True\<rparr>\<rparr>)
     })" if "consistent ifs s" for s :: "'a cstate" and w
  proof (rule returns_step [of False ifs "s\<lparr>world := w\<rparr>"], rule returns_safe [OF csock_addresses_safe])
    fix s' :: "'a cstate" assume "consistent ifs s'"
    then show "returns False ifs s' (\<lambda>r. gives_csock r) (if csock_addr (world s') = None then do {
         (_, st) \<leftarrow> csock_uninit (s'\<lparr>world := (world s')\<lparr>csock_inited := True\<rparr>\<rparr>);
         Some (None, st)
       }
       else Some (Some CSOCK_IF, s'\<lparr>world := (world s')\<lparr>csock_inited := True\<rparr>\<rparr>))"
      by (simp add: csock_uninit_def returns_def)
  qed (use that in simp_all)
  have call: "returns False ifs s gives_csock (do {
       (out, st) \<leftarrow> vcall os 0 r s;
       st \<leftarrow> csock_addresses os cfg (st\<lparr>world := f out st\<rparr>);
       if csock_addr (world st) = None then do {
         (_, st) \<leftarrow> csock_uninit (st\<lparr>world := (world st)\<lparr>csock_inited := True\<rparr>\<rparr>);
         Some (None, st)
       }
       else Some (Some CSOCK_IF, st\<lparr>world := (world st)\<lparr>csock_inited := True\<rparr>\<rparr>)
     })" if "consistent ifs s" for s r f
    by (rule returns_keeps_bind [OF vcall_keeps [OF that]], unfold prod.case) (rule table)
  obtain r e w where load: "vx_load os (vxd (world s)) = ((r, e), w)" by (metis prod.exhaust)
  have c: "consistent ifs (s\<lparr>world := w'\<rparr>)" for w' using assms by simp
  show ?thesis
    unfolding csock_start_def load
    unfolding prod.case Let_def
    by (rule returns_if, use assms in \<open>simp add: returns_def\<close>, rule returns_if, use assms in \<open>simp add: returns_def fail_with_def\<close>,
      rule returns_step [of False ifs "s\<lparr>world := (world s)\<lparr>vxd := w\<rparr>\<rparr>"], rule call [OF c], simp)
qed

lemma csock_init_returns:
  assumes "consistent {CSOCK_IF} s"
  shows "returns False {CSOCK_IF} s gives_csock (csock_init os s)"
proof -
  have started: "returns False {CSOCK_IF} s gives_csock (if \<not> e then Some (None, s)
      else if get_windows_version (vx_windows os) = WIN_NONE \<or> get_windows_version (vx_windows os) = WIN_NT
        then Some (None, s)
      else csock_start os cfg s)" if "consistent {CSOCK_IF} s" for s e cfg
    using that by (auto intro: returns_if returns_Some csock_start_returns)
  show ?thesis
    unfolding csock_init_def
    by (rule returns_if, rule returns_Some, simp, rule assms, rule returns_keeps_bind [OF csock_enabled_keeps [OF assms]],
      rule returns_pair, rule returns_prod1, rule started)
qed

section \<open>The contract of the whole table\<close>

lemma csock_alloc_free: "csock_alloc_fd os st < 0 \<or> fds st (csock_alloc_fd os st) = None"
  unfolding csock_alloc_fd_def
  by (cases "List.find (\<lambda>fd. fds st fd = None \<and> \<not> vx_used os (vxd (world st)) fd) (List.map int [3..<256])")
    (simp_all del: upt_rec_numeral, drule find_holds, simp)

lemma csock_handlers [simp]:
  "if_name (csock_if os tab) = Some ''Coda SOCK.VXD''" "if_preuninit (csock_if os tab) = None"
  "if_uninit (csock_if os tab) = Some csock_uninit"
  "if_socket (csock_if os tab) = Some (csock_socket_op os)" "if_socketpair (csock_if os tab) = Some csock_socketpair"
  "if_close (csock_if os tab) = Some (csock_close os)" "if_bind (csock_if os tab) = Some (csock_bind os)"
  "if_listen (csock_if os tab) = Some (csock_listen os)" "if_accept (csock_if os tab) = Some (csock_accept os)"
  "if_connect (csock_if os tab) = Some (csock_connect os)"
  "if_recv (csock_if os tab) = Some (csock_recv os)" "if_recvfrom (csock_if os tab) = Some (csock_recvfrom os)"
  "if_send (csock_if os tab) = Some (csock_send os)" "if_sendto (csock_if os tab) = Some (csock_sendto os)"
  "if_getsockname (csock_if os tab) = Some (csock_getsockname os)" "if_getpeername (csock_if os tab) = Some (csock_getpeername os)"
  "if_getsockopt (csock_if os tab) = Some (csock_getsockopt os)"
  "if_setsockopt (csock_if os tab) = None" "if_shutdown (csock_if os tab) = Some csock_shutdown"
  "if_fcntl (csock_if os tab) = Some (csock_fcntl os)" "if_ioctl (csock_if os tab) = Some (csock_ioctl_buf os)"
  "if_select (csock_if os tab) = Some (csock_select os)"
  "if_nonblocking_check (csock_if os tab) = Some (csock_nonblocking_check os)" "if_sockatmark (csock_if os tab) = None"
  by (simp_all add: csock_if_def)

lemma csock_listen_law:
  assumes "consistent ifs s" "sock_heap s p = Some l" "lsd_bound l"
  shows "runs False (csock_listen os p k s) (\<lambda>(r, s'). frame s s' \<and> consistent ifs s' \<and> (\<exists>l'. sock_heap s' p = Some l' \<and> lsd_bound l'))"
  using assms
  by (auto simp: csock_listen_def csock_fail_def vcall_def bind_eq_Some_conv runs_def Let_def split: option.split if_splits)

lemma csock_getsockopt_law:
  "consistent ifs s \<Longrightarrow> returns False ifs s (\<lambda>(h, rv, v', n'). True) (csock_getsockopt os p lev opt v n s)"
  by (rule returns_mono [OF csock_getsockopt_keeps]) simp_all

lemmas csock_keeps = csock_socket_op_keeps csock_close_keeps csock_bind_keeps csock_connect_keeps csock_recv_keeps
  csock_recvfrom_keeps csock_send_keeps csock_sendto_keeps csock_fcntl_keeps csock_select_keeps
  csock_nonblocking_keeps csock_uninit_keeps

interpretation csock: interface_contract "csock_env os tab" "{CSOCK_IF}" False for os :: "'w csock_os" and tab
  by unfold_locales
    (auto simp: csock_env_def csock_alloc_free vjunk_def csock_socketpair_def csock_shutdown_def owned_heap
      intro!: csock_keeps csock_init_returns [simplified] csock_accept_returns csock_getsockname_returns csock_getpeername_returns
        csock_ioctl_buf_returns returns_Some
        returns_fail csock_listen_law csock_getsockopt_law
      intro: owned_consistent)

end
