(* ===== verification/Csock_Props.thy ===== *)
theory Csock_Props
  imports Csock_Contract Preserves
begin

text \<open>
  The properties of the interface over SOCK.VXD: its contract, the descriptors of the driver, what its sockets block
  on, and the address it reports.
\<close>

section \<open>The table of descriptors\<close>

definition fd_used :: "int \<Rightarrow> 'w cstate \<Rightarrow> bool" where
  "fd_used fd st \<longleftrightarrow> csock_fd_table (world st) AND fd_bit fd \<noteq> 0"

lemma fd_used_bit: "fd_used fd st \<longleftrightarrow> bit (csock_fd_table (world st)) (nat (fd mod 32))"
  by (simp add: fd_used_def fd_bit_def bit_iff_and_push_bit_not_eq_0)

lemma set_used: "fd_used i (csock_fd_set_usage fd True st) \<longleftrightarrow> i mod 32 = fd mod 32 \<or> fd_used i st"
  by (auto simp: fd_used_bit csock_fd_set_usage_def fd_bit_def bit_simps nat_eq_iff)

lemma used_mono: "fd_used i st \<Longrightarrow> fd_used i (csock_fd_set_usage fd True st)"
  using set_used by blast

lemma set_clear:
  "fd_used i st \<Longrightarrow> 0 \<le> i \<Longrightarrow> i < 32 \<Longrightarrow> 0 \<le> fd \<Longrightarrow> fd < 32 \<Longrightarrow> i \<noteq> fd \<Longrightarrow> fd_used i (csock_fd_set_usage fd False st)"
  by (auto simp: fd_used_bit csock_fd_set_usage_def fd_bit_def bit_simps nat_eq_iff)

text \<open>
  What is relied on when the driver has a version of its own, from 1 on, and is asked for its table (\<open>held\<close>) with
  call 16: a descriptor is held from the call that makes it to the one that closes it, and the answer has the bits of all that
  are held, or is -1 when none is (the library takes it so, although -1 is also the table in which all 32 are in use).
\<close>

definition honest :: "'w csock_os \<Rightarrow> ('w \<Rightarrow> int set) \<Rightarrow> bool" where
  "honest os held \<longleftrightarrow> (\<forall>f r w out w'. vx_call os f r w = Some (out, w') \<longrightarrow>
     (if f = 2 \<and> vxd_ret out = 0 then held w - {sint (vr_edi r)} \<subseteq> held w' else held w \<subseteq> held w')
     \<and> (f = 1 \<and> vxd_ret out = 0 \<longrightarrow> sint (vr_edi r) \<in> held w')
     \<and> (f = 12 \<and> vxd_ret out = 0 \<longrightarrow> sint (vr_edx r) \<in> held w')
     \<and> (f = 16 \<longrightarrow> (if vo_eax out = -1 then held w' = {} else \<forall>fd \<in> held w'. vo_eax out AND fd_bit fd \<noteq> 0)))"

definition trusted :: "'w csock_os \<Rightarrow> ('w \<Rightarrow> int set) \<Rightarrow> 'w cstate \<Rightarrow> bool" where
  "trusted os held st \<longleftrightarrow> csock_version (world st) = 0 \<or> honest os held"

text \<open>A descriptor is marked when it is in the table of the library and, where the driver is asked, held by the driver.\<close>

definition marked :: "('w \<Rightarrow> int set) \<Rightarrow> int \<Rightarrow> 'w cstate \<Rightarrow> bool" where
  "marked held fd st \<longleftrightarrow> fd_used fd st \<and> (csock_version (world st) = 0 \<or> fd \<in> held (vxd (world st)))"

lemma fd_used_simps [simp]:
  "fd_used fd (s\<lparr>errno := e\<rparr>) = fd_used fd s" "fd_used fd (s\<lparr>world := (world s)\<lparr>vxd := w\<rparr>\<rparr>) = fd_used fd s"
  by (simp_all add: fd_used_def)

lemma set_usage_world [simp]:
  "csock_version (world (csock_fd_set_usage fd b s)) = csock_version (world s)"
  "vxd (world (csock_fd_set_usage fd b s)) = vxd (world s)"
  by (simp_all add: csock_fd_set_usage_def)

lemma marked_set: "marked held i s \<Longrightarrow> marked held i (csock_fd_set_usage fd True s)"
  by (simp add: marked_def used_mono)

lemma marked_clear:
  "marked held i st \<Longrightarrow> 0 \<le> i \<Longrightarrow> i < 32 \<Longrightarrow> 0 \<le> fd \<Longrightarrow> fd < 32 \<Longrightarrow> i \<noteq> fd \<Longrightarrow> marked held i (csock_fd_set_usage fd False st)"
  by (simp add: marked_def set_clear)

lemma marked_errno [simp]: "marked held fd (s\<lparr>errno := e\<rparr>) = marked held fd s"
  by (simp add: marked_def)

definition held_by :: "('w \<Rightarrow> int set) \<Rightarrow> int \<Rightarrow> 'w cstate \<Rightarrow> bool" where
  "held_by held fd st \<longleftrightarrow> csock_version (world st) = 0 \<or> fd \<in> held (vxd (world st))"

lemma marked_held: "marked held fd st \<longleftrightarrow> fd_used fd st \<and> held_by held fd st"
  by (simp add: marked_def held_by_def)

lemma vcall_world_eq:
  "vcall os f r st = Some (out, s) \<longleftrightarrow> (\<exists>w. vx_call os f r (vxd (world st)) = Some (out, w) \<and> s = st\<lparr>world := (world st)\<lparr>vxd := w\<rparr>\<rparr>)"
  by (auto simp: vcall_def bind_eq_Some_conv)

text \<open>A call that closes no descriptor leaves those that are held.\<close>

lemma vcall_held:
  assumes "trusted os held st" "vcall os f r st = Some (out, s)"
  shows "held_by held fd st \<Longrightarrow> f = 2 \<and> vxd_ret out = 0 \<longrightarrow> fd \<noteq> sint (vr_edi r) \<Longrightarrow> held_by held fd s"
    and "f = 1 \<Longrightarrow> vxd_ret out = 0 \<Longrightarrow> held_by held (sint (vr_edi r)) s"
    and "f = 12 \<Longrightarrow> vxd_ret out = 0 \<Longrightarrow> held_by held (sint (vr_edx r)) s"
    and "f = 16 \<Longrightarrow> held_by held fd s \<Longrightarrow> csock_version (world st) = 0 \<or> vo_eax out \<noteq> -1 \<and> vo_eax out AND fd_bit fd \<noteq> 0"
proof -
  obtain w where w: "vx_call os f r (vxd (world st)) = Some (out, w)" "s = st\<lparr>world := (world st)\<lparr>vxd := w\<rparr>\<rparr>"
    using assms(2) unfolding vcall_world_eq by blast
  have v: "csock_version (world s) = csock_version (world st)" "vxd (world s) = w" by (simp_all add: w(2))
  have h: "(if f = 2 \<and> vxd_ret out = 0 then held (vxd (world st)) - {sint (vr_edi r)} \<subseteq> held w else held (vxd (world st)) \<subseteq> held w)"
    "f = 1 \<and> vxd_ret out = 0 \<longrightarrow> sint (vr_edi r) \<in> held w" "f = 12 \<and> vxd_ret out = 0 \<longrightarrow> sint (vr_edx r) \<in> held w"
    "f = 16 \<longrightarrow> (if vo_eax out = -1 then held w = {} else \<forall>fd \<in> held w. vo_eax out AND fd_bit fd \<noteq> 0)"
    if "csock_version (world st) \<noteq> 0"
    using assms(1) w(1) that unfolding trusted_def honest_def by blast+
  show "held_by held fd st \<Longrightarrow> f = 2 \<and> vxd_ret out = 0 \<longrightarrow> fd \<noteq> sint (vr_edi r) \<Longrightarrow> held_by held fd s"
    using h(1) by (cases "csock_version (world st) = 0") (auto simp: held_by_def v split: if_splits)
  show "f = 1 \<Longrightarrow> vxd_ret out = 0 \<Longrightarrow> held_by held (sint (vr_edi r)) s"
    using h(2) by (auto simp: held_by_def v)
  show "f = 12 \<Longrightarrow> vxd_ret out = 0 \<Longrightarrow> held_by held (sint (vr_edx r)) s"
    using h(3) by (auto simp: held_by_def v)
  show "f = 16 \<Longrightarrow> held_by held fd s \<Longrightarrow> csock_version (world st) = 0 \<or> vo_eax out \<noteq> -1 \<and> vo_eax out AND fd_bit fd \<noteq> 0"
    using h(4) by (auto simp: held_by_def v split: if_splits)
qed

lemma vcall_marked:
  assumes "trusted os held st" "vcall os f r st = Some (out, s)" "marked held fd st"
    and "f = 2 \<and> vxd_ret out = 0 \<longrightarrow> fd \<noteq> sint (vr_edi r)"
  shows "marked held fd s"
proof -
  have "fd_used fd s = fd_used fd st" using assms(2) by (auto simp: vcall_world_eq)
  then show ?thesis using vcall_held(1) [OF assms(1,2)] assms(3,4) by (simp add: marked_held)
qed

lemma trusted_same: "csock_version (world s) = csock_version (world st) \<Longrightarrow> trusted os held s = trusted os held st"
  by (simp add: trusted_def)

lemma sint_fd: "0 \<le> fd \<Longrightarrow> fd < 32 \<Longrightarrow> sint (word_of_int fd :: u32) = fd"
  by (simp add: signed_of_int signed_take_bit_int_eq_self)

section \<open>Calls that leave the data of sockets alone\<close>

definition lsd_data :: "nat \<Rightarrow> 'w cstate \<Rightarrow> nat option" where
  "lsd_data p st = Option.bind (sock_heap st p) lsd_idata"

lemma csock_of_data: "csock_of p st = Option.bind (lsd_data p st) (idata_heap st)"
  by (simp add: csock_of_def lsd_data_def)

text \<open>Nothing of the sockets' data changes, and no descriptor is given back.\<close>

definition same_csock :: "('w \<Rightarrow> int set) \<Rightarrow> 'w cstate \<Rightarrow> 'w cstate \<Rightarrow> bool" where
  "same_csock held st s \<longleftrightarrow> (\<forall>p. lsd_data p s = lsd_data p st) \<and> idata_heap s = idata_heap st \<and> next_ptr st \<le> next_ptr s \<and>
     csock_version (world s) = csock_version (world st) \<and> (\<forall>fd. marked held fd st \<longrightarrow> marked held fd s)"

lemma same_csock_refl [simp]: "same_csock held st st"
  by (simp add: same_csock_def)

lemma same_csock_trans: "same_csock held st s \<Longrightarrow> same_csock held s s' \<Longrightarrow> same_csock held st s'"
  by (simp add: same_csock_def)

lemma csock_world_simps [simp]:
  "lsd_data p (s\<lparr>errno := e\<rparr>) = lsd_data p s" "lsd_data p (s\<lparr>world := u\<rparr>) = lsd_data p s"
  "lsd_data p (csock_fd_set_usage fd b s) = lsd_data p s"
  "next_ptr (csock_fd_set_usage fd b s) = next_ptr s"
  by (simp_all add: lsd_data_def csock_fd_set_usage_def)

lemma same_csock_errno: "same_csock held st (s\<lparr>errno := e\<rparr>) = same_csock held st s"
  unfolding same_csock_def by simp

lemma same_csock_used: "same_csock held st s \<Longrightarrow> same_csock held st (csock_fd_set_usage fd True s)"
  unfolding same_csock_def by (simp add: marked_set)

lemmas same_csock_upd = same_csock_errno same_csock_used

lemma upd_lsd_same:
  "(\<And>l. lsd_idata (f l) = lsd_idata l) \<Longrightarrow> upd_lsd p f s = Some s' \<Longrightarrow> same_csock held s s'"
proof (cases "sock_heap s p")
  case (Some l)
  assume f: "\<And>l. lsd_idata (f l) = lsd_idata l" and "upd_lsd p f s = Some s'"
  then have s': "s' = s\<lparr>sock_heap := (sock_heap s)(p \<mapsto> f l)\<rparr>" using Some by (simp add: upd_lsd_def)
  have "lsd_data q s' = lsd_data q s" for q using f Some by (simp add: lsd_data_def s')
  moreover have "marked held fd s' = marked held fd s" for fd by (simp add: marked_def fd_used_def s')
  ultimately show ?thesis unfolding same_csock_def by (simp add: s')
qed (simp add: upd_lsd_def)

lemma keeps_upd_lsd:
  "same_csock held st s \<Longrightarrow> (\<And>l. lsd_idata (f l) = lsd_idata l) \<Longrightarrow> (\<And>s'. same_csock held st s' \<Longrightarrow> preserves Q (k s'))
   \<Longrightarrow> preserves Q (Option.bind (upd_lsd p f s) k)"
proof (cases "upd_lsd p f s")
  case (Some s')
  assume "same_csock held st s" "\<And>l. lsd_idata (f l) = lsd_idata l" "\<And>s'. same_csock held st s' \<Longrightarrow> preserves Q (k s')"
  moreover from this(2) have "same_csock held s s'" using Some by (rule upd_lsd_same)
  ultimately show ?thesis using same_csock_trans [of held st s s'] Some by (metis bind.bind_lunit)
qed (simp add: keeps_basic(1))

lemma vcall_same_step:
  assumes "trusted os held st" "vcall os f r st = Some (out, s)" "f = 2 \<longrightarrow> vxd_ret out \<noteq> 0"
  shows "same_csock held st s"
  using assms(2) vcall_marked [OF assms(1,2)] assms(3) by (auto simp: vcall_world_eq same_csock_def)

lemma vcall_same:
  assumes "trusted os held st" "same_csock held st s" "f \<noteq> 2"
  shows "preserves (same_csock held st) (vcall os f r s)"
proof -
  have "trusted os held s" using assms(1,2) by (simp add: trusted_def same_csock_def)
  then show ?thesis
    using vcall_same_step [of os held s f r] same_csock_trans [OF assms(2)] assms(3)
    by (cases "vcall os f r s") (auto simp: preserves_def)
qed

lemma keeps_vcall:
  "trusted os held st \<Longrightarrow> same_csock held st s \<Longrightarrow> f \<noteq> 2 \<Longrightarrow> (\<And>out s'. same_csock held st s' \<Longrightarrow> preserves Q (k (out, s')))
   \<Longrightarrow> preserves Q (Option.bind (vcall os f r s) k)"
  by (rule keeps_bind [OF vcall_same])

lemma keeps_csock_fail: "same_csock held st s \<Longrightarrow> preserves (same_csock held st) (csock_fail r v s)"
  by (simp add: csock_fail_def preserves_def same_csock_upd)

lemma keeps_fail_with: "same_csock held st s \<Longrightarrow> preserves (same_csock held st) (fail_with e v s)"
  by (simp add: fail_with_def preserves_def same_csock_upd)

lemma keeps_Let: "preserves Q (f x) \<Longrightarrow> preserves Q (Let x f)"
  by simp

lemma keeps_prod: "(\<And>a b. preserves Q (f a b)) \<Longrightarrow> preserves Q (case x of (a, b) \<Rightarrow> f a b)"
  by (cases x) simp

lemma keeps_prod1: "(\<And>a b. preserves Q (f a b y)) \<Longrightarrow> preserves Q ((case x of (a, b) \<Rightarrow> f a b) y)"
  by (cases x) simp

lemma keeps_pair: "preserves Q (f a b) \<Longrightarrow> preserves Q (case (a, b) of (x, y) \<Rightarrow> f x y)"
  by simp

lemmas quiet_rules = keeps_basic keeps_if keeps_case keeps_Let keeps_pair keeps_prod keeps_prod1 keeps_vcall
  keeps_csock_fail keeps_fail_with

lemma csock_ioctl_same: "trusted os held st \<Longrightarrow> same_csock held st s \<Longrightarrow> preserves (same_csock held st) (csock_ioctl os p rv rq x s)"
  unfolding csock_ioctl_def by (assumption | rule quiet_rules keeps_upd_lsd | simp | rule keeps_value | simp; fail)+

lemmas quiet_bind = keeps_bind [OF csock_ioctl_same]

lemma bind_Some_keeps:
  "preserves Q (Option.bind m k) \<Longrightarrow> preserves Q (Option.bind (Option.bind m Some) k)"
  by (cases m) simp_all

lemma csock_select_same: "trusted os held st \<Longrightarrow> same_csock held st s \<Longrightarrow> preserves (same_csock held st) (csock_select os p e s)"
  unfolding csock_select_def by (assumption | rule quiet_rules | rule keeps_value | simp; fail)+

lemma csock_bind_same: "trusted os held st \<Longrightarrow> same_csock held st s \<Longrightarrow> preserves (same_csock held st) (csock_bind os p a n s)"
  unfolding csock_bind_def by (assumption | rule quiet_rules | rule keeps_value | simp; fail)+

lemma csock_listen_same: "trusted os held st \<Longrightarrow> same_csock held st s \<Longrightarrow> preserves (same_csock held st) (csock_listen os p k s)"
  unfolding csock_listen_def by (assumption | rule quiet_rules | rule keeps_value | simp; fail)+

lemma csock_connect_same: "trusted os held st \<Longrightarrow> same_csock held st s \<Longrightarrow> preserves (same_csock held st) (csock_connect os p a n s)"
  unfolding csock_connect_def by (assumption | rule quiet_rules | rule keeps_value | simp; fail)+

lemma csock_getpeername_same: "trusted os held st \<Longrightarrow> same_csock held st s \<Longrightarrow> preserves (same_csock held st) (csock_getpeername os p a n s)"
  unfolding csock_getpeername_def by (assumption | rule quiet_rules | rule keeps_value | simp; fail)+

lemma csock_getsockname_same: "trusted os held st \<Longrightarrow> same_csock held st s \<Longrightarrow> preserves (same_csock held st) (csock_getsockname os p a n s)"
  unfolding csock_getsockname_def by (assumption | rule quiet_rules | rule keeps_value | simp; fail)+

lemma csock_recv_same: "trusted os held st \<Longrightarrow> same_csock held st s \<Longrightarrow> preserves (same_csock held st) (csock_recv os p b n f s)"
  unfolding csock_recv_def by (assumption | rule quiet_rules | rule keeps_value | simp; fail)+

lemma csock_send_same: "trusted os held st \<Longrightarrow> same_csock held st s \<Longrightarrow> preserves (same_csock held st) (csock_send os p b n f s)"
  unfolding csock_send_def csock_send_result_def by (assumption | rule quiet_rules | rule keeps_value | simp; fail)+

lemma csock_fcntl_same: "trusted os held st \<Longrightarrow> same_csock held st s \<Longrightarrow> preserves (same_csock held st) (csock_fcntl os p c r s)"
  unfolding csock_fcntl_def by (assumption | rule quiet_rules quiet_bind | rule keeps_value | simp; fail)+

lemma csock_ioctl_buf_same: "trusted os held st \<Longrightarrow> same_csock held st s \<Longrightarrow> preserves (same_csock held st) (csock_ioctl_buf os p c v s)"
  unfolding csock_ioctl_buf_def by (assumption | rule quiet_rules quiet_bind | rule keeps_value | simp; fail)+

lemma csock_getsockopt_same: "trusted os held st \<Longrightarrow> same_csock held st s \<Longrightarrow> preserves (same_csock held st) (csock_getsockopt os p lev opt v n s)"
  unfolding csock_getsockopt_def by (assumption | rule quiet_rules | rule keeps_value | simp; fail)+

lemma keeps_invert:
  "trusted os held st \<Longrightarrow> same_csock held st s \<Longrightarrow> (\<And>s'. same_csock held st s' \<Longrightarrow> preserves Q (k s'))
   \<Longrightarrow> preserves Q (Option.bind (csock_invert os p b s) k)"
  using csock_ioctl_same [of os held st s p 0 FIONBIO_num "if b then 1 else 0"]
  by (cases "csock_ioctl os p 0 FIONBIO_num (if b then 1 else 0) s") (auto simp: csock_invert_def preserves_def)

lemma csock_recvfrom_same: "trusted os held st \<Longrightarrow> same_csock held st s \<Longrightarrow> preserves (same_csock held st) (csock_recvfrom os p b n f frm fl s)"
  unfolding csock_recvfrom_def
  by (assumption | rule keeps_basic keeps_if keeps_Let keeps_pair keeps_prod keeps_prod1 keeps_vcall keeps_csock_fail keeps_fail_with
      keeps_invert | rule keeps_value | simp; fail)+

lemma csock_bind_any_same: "trusted os held st \<Longrightarrow> same_csock held st s \<Longrightarrow> preserves (same_csock held st) (csock_bind_any os p s)"
  unfolding csock_bind_any_def csock_bind_any_done_def
  by (assumption | rule quiet_rules keeps_upd_lsd keeps_bind [OF csock_bind_same] keeps_bind [OF csock_getsockname_same]
      | rule keeps_value | simp; fail)+

lemma keeps_bind_if:
  "(c \<Longrightarrow> preserves Q (Option.bind m k)) \<Longrightarrow> (\<not> c \<Longrightarrow> preserves Q (Option.bind n k))
   \<Longrightarrow> preserves Q (Option.bind (if c then m else n) k)"
  by simp

lemma keeps_bind_Some: "preserves Q (k x) \<Longrightarrow> preserves Q (Option.bind (Some x) k)"
  by simp

lemma csock_sendto_same: "trusted os held st \<Longrightarrow> same_csock held st s \<Longrightarrow> preserves (same_csock held st) (csock_sendto os p b n f d k s)"
  unfolding csock_sendto_def csock_send_result_def
  by (assumption | rule quiet_rules keeps_bind_if keeps_bind_Some keeps_bind [OF csock_bind_any_same] | rule keeps_value | simp; fail)+

lemma csock_nonblocking_same: "trusted os held st \<Longrightarrow> same_csock held st s \<Longrightarrow> preserves (same_csock held st) (csock_nonblocking_check os p s)"
  unfolding csock_nonblocking_check_def
  by (assumption | rule quiet_rules keeps_bind_if keeps_bind_Some keeps_upd_lsd keeps_bind [OF csock_select_same] | rule keeps_value
    | simp; fail)+

section \<open>Getting a descriptor\<close>

text \<open>What the search for a descriptor leaves: nothing but the table changes, and a descriptor that it gives was free.\<close>

definition world_only :: "('w \<Rightarrow> int set) \<Rightarrow> 'w cstate \<Rightarrow> 'w cstate \<Rightarrow> bool" where
  "world_only held st s \<longleftrightarrow> sock_heap s = sock_heap st \<and> idata_heap s = idata_heap st \<and> next_ptr s = next_ptr st \<and>
     csock_version (world s) = csock_version (world st) \<and> (\<forall>fd. marked held fd st \<longrightarrow> marked held fd s)"

lemma world_only_refl: "world_only held st st"
  by (simp add: world_only_def)

lemma world_only_trans: "world_only held st s \<Longrightarrow> world_only held s s' \<Longrightarrow> world_only held st s'"
  by (simp add: world_only_def)

lemma world_only_same: "world_only held st s \<Longrightarrow> same_csock held st s"
  unfolding world_only_def same_csock_def lsd_data_def by simp

lemma world_only_used: "world_only held st s \<Longrightarrow> world_only held st (csock_fd_set_usage fd True s)"
  unfolding world_only_def by (simp add: marked_set)

lemma vcall_world: "trusted os held st \<Longrightarrow> vcall os f r st = Some (out, s) \<Longrightarrow> f \<noteq> 2 \<Longrightarrow> world_only held st s"
  using vcall_marked [of os held st f r out s] by (auto simp: vcall_world_eq world_only_def)

lemma world_trusted: "world_only held st s \<Longrightarrow> trusted os held s = trusted os held st"
  by (simp add: trusted_def world_only_def)

lemma probe_world:
  assumes "trusted os held st" "csock_probe os fd st = Some (r, s)" "0 \<le> fd" "fd < 32" "\<not> fd_used fd st"
  shows "world_only held st s"
proof -
  obtain out s1 where c: "vcall os 1 (no_regs\<lparr>vr_ebx := 6, vr_edi := word_of_int fd\<rparr>) st = Some (out, s1)"
    and r: "(if vo_carry out then Some (1, s1) else do {
       (out, st) \<leftarrow> vcall os 2 (no_regs\<lparr>vr_edi := word_of_int fd\<rparr>) s1; Some (if vo_carry out then 1 else 0, st) }) = Some (r, s)"
    using assms(2) unfolding csock_probe_def
    by (cases "vcall os 1 (no_regs\<lparr>vr_ebx := 6, vr_edi := word_of_int fd\<rparr>) st") auto
  note w1 = vcall_world [OF assms(1) c]
  show ?thesis
  proof (cases "vo_carry out")
    case False
    then obtain out2 where d: "vcall os 2 (no_regs\<lparr>vr_edi := word_of_int fd\<rparr>) s1 = Some (out2, s)"
      using r by (auto simp: bind_eq_Some_conv)
    have t: "trusted os held s1" using assms(1) w1 by (simp add: world_trusted)
    have u: "\<not> fd_used fd s1" using assms(5) c by (auto simp: vcall_world_eq)
    have "marked held i s" if "marked held i s1" for i
    proof (rule vcall_marked [OF t d that])
      have "i \<noteq> fd" using that u by (auto simp: marked_def)
      then show "2 = 2 \<and> vxd_ret out2 = 0 \<longrightarrow> i \<noteq> sint (vr_edi (no_regs\<lparr>vr_edi := word_of_int fd\<rparr>))"
        using assms(3,4) by (simp add: sint_fd)
    qed
    then have "world_only held s1 s" using d by (auto simp: vcall_world_eq world_only_def)
    then show ?thesis using world_only_trans w1 by auto
  qed (use r w1 in simp)
qed

lemma lookup_world:
  assumes "trusted os held st" "csock_fd_lookup os fd st = Some (b, s)" "0 \<le> fd" "fd < 32"
  shows "world_only held st s" "\<not> b \<Longrightarrow> \<not> fd_used fd st"
proof -
  have "world_only held st s \<and> (\<not> b \<longrightarrow> \<not> fd_used fd st)"
  proof (cases "fd_used fd st")
    case True
    then show ?thesis using assms(2) by (auto simp: csock_fd_lookup_def fd_used_def intro: world_only_refl)
  next
    case False
    with assms(2) obtain ret s1 where p: "csock_probe os fd st = Some (ret, s1)"
      and s: "s = (if ret \<noteq> 0 then csock_fd_set_usage fd True s1 else s1)"
      by (auto simp: csock_fd_lookup_def fd_used_def bind_eq_Some_conv split: if_splits)
    show ?thesis using probe_world [OF assms(1) p assms(3,4) False] False s world_only_used by auto
  qed
  then show "world_only held st s" "\<not> b \<Longrightarrow> \<not> fd_used fd st" by simp_all
qed

text \<open>The answer is that of the table or of a probe, where the table may have been replaced by that of the driver.\<close>

lemma get_usage_world:
  assumes "trusted os held st" "csock_fd_get_usage os fd st = Some (b, s)" "0 \<le> fd" "fd < 32"
  shows "world_only held st s" "\<not> b \<Longrightarrow> \<not> marked held fd st"
proof -
  have "world_only held st s \<and> (\<not> b \<longrightarrow> \<not> marked held fd st)"
  proof (cases "csock_version (world st) = 0")
    case True
    then show ?thesis
      using assms(2) lookup_world [OF assms(1) _ assms(3,4)] by (auto simp: csock_fd_get_usage_def marked_def)
  next
    case False
    then have pos: "csock_version (world st) > 0" by (simp add: word_gt_0)
    obtain out s1 where c: "vcall os 16 no_regs st = Some (out, s1)"
      and r: "(if sint (vo_eax out) = -1 then Some (False, s1) else csock_fd_lookup os fd (if sint (vo_eax out) > 0
          then s1\<lparr>world := (world s1)\<lparr>csock_fd_table := vo_eax out\<rparr>\<rparr> else s1)) = Some (b, s)"
      using assms(2) pos unfolding csock_fd_get_usage_def
      by (cases "vcall os 16 no_regs st") (auto simp: Let_def)
    have w1: "world_only held st s1" using vcall_world [OF assms(1) c] by simp
    have v1: "csock_version (world s1) \<noteq> 0" using w1 False by (simp add: world_only_def)
    have eax: "vo_eax out \<noteq> -1 \<and> vo_eax out AND fd_bit i \<noteq> 0" if "held_by held i s1" for i
      using vcall_held(4) [OF assms(1) c refl that] False by simp
    show ?thesis
    proof (cases "sint (vo_eax out) = -1")
      case True
      then have "vo_eax out = -1" by (metis sint_n1 signed_word_eqI)
      then have "\<not> marked held fd st" using eax w1 by (auto simp: world_only_def marked_held)
      then show ?thesis using True r w1 by simp
    next
      case ne: False
      define t where "t = (if sint (vo_eax out) > 0 then s1\<lparr>world := (world s1)\<lparr>csock_fd_table := vo_eax out\<rparr>\<rparr> else s1)"
      have m: "marked held i t" if "marked held i s1" for i
        using that eax [of i] by (auto simp: t_def marked_def held_by_def fd_used_def)
      then have w2: "world_only held s1 t" by (auto simp: world_only_def t_def)
      have tt: "trusted os held t" using assms(1) w1 w2 by (simp add: world_trusted)
      have l: "csock_fd_lookup os fd t = Some (b, s)" using r ne by (simp add: t_def)
      have "\<not> b \<longrightarrow> \<not> marked held fd st"
        using lookup_world(2) [OF tt l assms(3,4)] w1 w2 by (auto simp: world_only_def marked_def)
      then show ?thesis
        using world_only_trans [OF world_only_trans [OF w1 w2]] lookup_world(1) [OF tt l assms(3,4)] by blast
    qed
  qed
  then show "world_only held st s" "\<not> b \<Longrightarrow> \<not> marked held fd st" by simp_all
qed

lemma socket_scan_world:
  "csock_socket_scan os pr is r0 st = Some ((fd, r), s) \<Longrightarrow> trusted os held st \<Longrightarrow> \<forall>i \<in> set is. 0 \<le> i \<and> i < 32
   \<Longrightarrow> world_only held st s \<and> (fd \<noteq> -1 \<longrightarrow> fd \<in> set is \<and> \<not> marked held fd st \<and> held_by held fd s \<and> r = 0)"
proof (induction "is" arbitrary: r0 st)
  case (Cons i "is")
  from Cons.prems(1) obtain b s1 where u: "csock_fd_get_usage os i st = Some (b, s1)"
    by (auto simp: bind_eq_Some_conv)
  have i: "0 \<le> i" "i < 32" "\<forall>i \<in> set is. 0 \<le> i \<and> i < 32" using Cons.prems(3) by simp_all
  note w1 = get_usage_world [OF Cons.prems(2) u i(1,2)]
  have t1: "trusted os held s1" using w1(1) Cons.prems(2) by (simp add: world_trusted)
  have IH: "world_only held st s \<and> (fd \<noteq> -1 \<longrightarrow> fd \<in> set is \<and> \<not> marked held fd st \<and> held_by held fd s \<and> r = 0)"
    if "csock_socket_scan os pr is r' s' = Some ((fd, r), s)" "world_only held st s'" for r' s'
  proof -
    have "trusted os held s'" using that(2) Cons.prems(2) by (simp add: world_trusted)
    from Cons.IH [OF that(1) this i(3)] that(2) show ?thesis by (auto intro: world_only_trans simp: world_only_def)
  qed
  show ?case
  proof (cases b)
    case True
    then show ?thesis using Cons.prems(1) u IH [OF _ w1(1)] by auto
  next
    case False
    with Cons.prems(1) u obtain out s2 where c: "vcall os 1 (no_regs\<lparr>vr_ebx := pr, vr_edi := word_of_int i\<rparr>) s1 = Some (out, s2)"
      by (auto simp: bind_eq_Some_conv)
    have w2: "world_only held st s2" using world_only_trans [OF w1(1)] vcall_world [OF t1 c] by simp
    have h: "vxd_ret out = 0 \<Longrightarrow> held_by held i s2" using vcall_held(2) [OF t1 c] i by (simp add: sint_fd)
    show ?thesis
      using Cons.prems(1) u c False w1(2) w2 h IH [OF _ world_only_used [OF w2]] by (auto simp: Let_def split: if_splits)
  qed
qed (simp add: world_only_refl)

text \<open>The same of the search in \<open>accept\<close>, whose call of the driver may be repeated.\<close>

lemma accept_call_world:
  "csock_accept_call os fd i b st = Some x \<Longrightarrow> trusted os held st \<Longrightarrow> 0 \<le> i \<Longrightarrow> i < 32
   \<Longrightarrow> world_only held st (snd x) \<and> (vxd_ret (fst x) = 0 \<longrightarrow> held_by held i (snd x))"
proof (induction rule: csock_accept_call.raw_induct [rotated, consumes 1, case_names 1])
  case (1 f os fd i b st x)
  from 1(2) obtain out s where c: "vcall os 12 (no_regs\<lparr>vr_edi := word_of_int fd, vr_edx := word_of_int i\<rparr>) st = Some (out, s)"
    and r: "(if b \<and> vxd_ret out = - CSOCK_ERR_WOULD_BLOCK then f os fd i b s else Some (out, s)) = Some x"
    by (auto simp: bind_eq_Some_conv)
  have w: "world_only held st s" using vcall_world [OF 1(3) c] by simp
  show ?case
  proof (cases "b \<and> vxd_ret out = - CSOCK_ERR_WOULD_BLOCK")
    case True
    then have "f os fd i b s = Some x" using r by simp
    moreover have "trusted os held s" using 1(3) w by (simp add: world_trusted)
    ultimately show ?thesis using world_only_trans [OF w] 1(1,4,5) by blast
  next
    case False
    then have x: "x = (out, s)" using r by (auto split: if_splits)
    have "vxd_ret out = 0 \<Longrightarrow> held_by held i s" using vcall_held(3) [OF 1(3) c] 1(4,5) by (simp add: sint_fd)
    then show ?thesis using w by (simp add: x)
  qed
qed

lemma accept_scan_world:
  "csock_accept_scan os lfd b is r0 st = Some ((fd, r, x), s) \<Longrightarrow> trusted os held st \<Longrightarrow> \<forall>i \<in> set is. 0 \<le> i \<and> i < 32
   \<Longrightarrow> world_only held st s \<and> (fst r0 \<noteq> 0 \<longrightarrow> r = 0 \<longrightarrow> fd \<in> set is \<and> \<not> marked held fd st \<and> held_by held fd s)"
proof (induction "is" arbitrary: r0 st)
  case (Cons i "is")
  from Cons.prems(1) obtain u s1 where u: "csock_fd_get_usage os i st = Some (u, s1)"
    by (auto simp: bind_eq_Some_conv)
  have i: "0 \<le> i" "i < 32" "\<forall>i \<in> set is. 0 \<le> i \<and> i < 32" using Cons.prems(3) by simp_all
  note w1 = get_usage_world [OF Cons.prems(2) u i(1,2)]
  have t1: "trusted os held s1" using w1(1) Cons.prems(2) by (simp add: world_trusted)
  have IH: "world_only held st s \<and> (fst r' \<noteq> 0 \<longrightarrow> r = 0 \<longrightarrow> fd \<in> set is \<and> \<not> marked held fd st \<and> held_by held fd s)"
    if "csock_accept_scan os lfd b is r' s' = Some ((fd, r, x), s)" "world_only held st s'" for r' s'
  proof -
    have "trusted os held s'" using that(2) Cons.prems(2) by (simp add: world_trusted)
    from Cons.IH [OF that(1) this i(3)] that(2) show ?thesis by (auto intro: world_only_trans simp: world_only_def)
  qed
  show ?case
  proof (cases u)
    case True
    then show ?thesis using Cons.prems(1) u IH [OF _ w1(1), of r0] by auto
  next
    case False
    with Cons.prems(1) u obtain out s2 where c: "csock_accept_call os lfd i b s1 = Some (out, s2)"
      by (auto simp: bind_eq_Some_conv)
    note ac = accept_call_world [OF c t1 i(1,2)]
    have w2: "world_only held st s2" using world_only_trans [OF w1(1)] ac by simp
    show ?thesis
      using Cons.prems(1) u c False w1(2) w2 ac IH [OF _ world_only_used [OF w2, of i], of "(- CSOCK_ERR_FD_INUSE, vo_ebx out, vo_ecx out)"]
      by (auto simp: Let_def CSOCK_ERR_FD_INUSE_def split: if_splits)
  qed
qed (auto simp: world_only_refl)

section \<open>Calls that change one socket\<close>

text \<open>Only the data of \<open>p\<close> changes; \<open>gives\<close>: it becomes a new object with a descriptor that was free.\<close>

definition touches :: "('w \<Rightarrow> int set) \<Rightarrow> nat \<Rightarrow> 'w cstate \<Rightarrow> 'w cstate \<Rightarrow> bool" where
  "touches held p st s \<longleftrightarrow> (\<forall>r. r \<noteq> p \<longrightarrow> lsd_data r s = lsd_data r st) \<and> (\<forall>d<next_ptr st. idata_heap s d = idata_heap st d) \<and>
     next_ptr st \<le> next_ptr s \<and> csock_version (world s) = csock_version (world st) \<and> (\<forall>fd. marked held fd st \<longrightarrow> marked held fd s)"

definition gives :: "('w \<Rightarrow> int set) \<Rightarrow> nat \<Rightarrow> 'w cstate \<Rightarrow> 'w cstate \<Rightarrow> bool" where
  "gives held p st s \<longleftrightarrow> (\<exists>fd. lsd_data p s = Some (next_ptr st) \<and> next_ptr st < next_ptr s \<and>
     idata_heap s (next_ptr st) = Some \<lparr>cs_fd = fd\<rparr> \<and> 1 \<le> fd \<and> fd < 32 \<and> \<not> marked held fd st \<and> marked held fd s)"

lemma touches_same: "touches held p st s \<Longrightarrow> same_csock held s s' \<Longrightarrow> touches held p st s'"
  unfolding touches_def same_csock_def by simp

lemma gives_same: "gives held p st s \<Longrightarrow> same_csock held s s' \<Longrightarrow> gives held p st s'"
  unfolding gives_def same_csock_def by auto

lemma touches_data:
  "next_ptr st \<le> d \<Longrightarrow> touches held p st s \<Longrightarrow> touches held p st (s\<lparr>idata_heap := (idata_heap s)(d \<mapsto> u)\<rparr>)"
  unfolding touches_def by (auto simp: lsd_data_def marked_def fd_used_def)

lemma ioctl_same: "trusted os held st \<Longrightarrow> csock_ioctl os p rv rq x st = Some (r, s) \<Longrightarrow> same_csock held st s"
  using csock_ioctl_same [OF _ same_csock_refl, of os held st p rv rq x] by (cases r) (simp add: preserves_def)

lemma ioctl_held:
  assumes "trusted os held st" "csock_ioctl os p rv rq x st = Some (r, s)" "held_by held fd st"
  shows "held_by held fd s"
proof -
  have v: "csock_version (world s1) = 0 \<or> fd \<in> held (vxd (world s1))" if "vcall os 15 r st = Some (out, s1)" for r out s1
    using vcall_held(1) [OF assms(1) that assms(3)] by (simp add: held_by_def)
  show ?thesis
    using assms(2,3)
    by (auto simp: csock_ioctl_def Let_def bind_eq_Some_conv csock_fail_def fail_with_def upd_lsd_def held_by_def
        dest!: v split: if_splits option.splits)
qed

lemma set_blocking_same:
  "trusted os held st \<Longrightarrow> csock_set_blocking os p b x st = Some s \<Longrightarrow> same_csock held st s \<and> (held_by held fd st \<longrightarrow> held_by held fd s)"
  by (auto simp: csock_set_blocking_def bind_eq_Some_conv dest: ioctl_same ioctl_held split: if_splits)

lemma same_csock_data_heap:
  "same_csock held (s\<lparr>idata_heap := h\<rparr>) s' \<Longrightarrow> idata_heap s' = h"
  by (simp add: same_csock_def)

text \<open>The state in which the data of \<open>p\<close> is new: the start of \<open>socket\<close> and \<open>accept\<close>.\<close>

definition fresh_data :: "('w \<Rightarrow> int set) \<Rightarrow> nat \<Rightarrow> nat option \<Rightarrow> 'w cstate \<Rightarrow> 'w cstate \<Rightarrow> bool" where
  "fresh_data held p d st s \<longleftrightarrow> touches held p st s \<and> lsd_data p s = d \<and> (\<forall>n. d = Some n \<longrightarrow> n = next_ptr st \<and> n < next_ptr s)"

lemma fresh_same: "fresh_data held p d st s \<Longrightarrow> same_csock held s s' \<Longrightarrow> fresh_data held p d st s'"
  unfolding fresh_data_def by (auto intro: touches_same) (auto simp: same_csock_def)

lemma socket_done_result:
  assumes "csock_socket_done os p n fd ret s = Some (r, s')" "fresh_data held p (Some n) st s" "fd \<noteq> -1 \<longrightarrow> fd \<in> {1..<32} \<and> \<not> marked held fd st \<and> held_by held fd s \<and> ret = 0"
    and t: "trusted os held st"
  shows "touches held p st s' \<and> (r = 0 \<longrightarrow> gives held p st s') \<and> (r \<noteq> 0 \<longrightarrow> r = -1 \<and> errno s' = EMFILE \<and> fresh_data held p (Some n) st s')"
proof (cases "fd = -1")
  case True
  then show ?thesis
    using assms(1,2) by (auto simp: csock_socket_done_def fail_with_def fresh_data_def touches_def)
next
  case False
  let ?s = "csock_fd_set_usage fd True (s\<lparr>idata_heap := (idata_heap s)(n \<mapsto> \<lparr>cs_fd = fd\<rparr>)\<rparr>)"
  from False assms obtain x where r: "r = 0" and x: "csock_ioctl os p 0 FIONBIO_num 0 ?s = Some (x, s')"
    by (auto simp: csock_socket_done_def bind_eq_Some_conv)
  have n: "n = next_ptr st" "n < next_ptr s" "touches held p st s" "lsd_data p s = Some n" using assms(2) by (simp_all add: fresh_data_def)
  have "touches held p st (s\<lparr>idata_heap := (idata_heap s)(n \<mapsto> \<lparr>cs_fd = fd\<rparr>)\<rparr>)" using n by (simp add: touches_data)
  then have "touches held p st ?s" by (rule touches_same [OF _ same_csock_used [OF same_csock_refl]])
  moreover have "fd_used fd ?s" using set_used by blast
  then have "marked held fd ?s" using assms(3) False by (simp add: marked_held held_by_def)
  then have "gives held p st ?s" unfolding gives_def using n assms(3) False by (auto simp: lsd_data_def)
  moreover have "trusted os held ?s" using t n(3) by (simp add: trusted_def touches_def)
  ultimately show ?thesis
    using r touches_same [OF _ ioctl_same [OF _ x]] gives_same [OF _ ioctl_same [OF _ x]] by simp
qed

lemma csock_socket_result:
  assumes "csock_socket_op os p st = Some (r, s)" "trusted os held st"
  shows "touches held p st s \<and> (r = 0 \<longrightarrow> gives held p st s)
    \<and> (r \<noteq> 0 \<longrightarrow> r = -1 \<and> errno s \<in> {EMFILE, ENOMEM} \<and> (\<exists>d. fresh_data held p d st s))"
proof -
  from assms(1) obtain l where l: "sock_heap st p = Some l"
    by (cases "sock_heap st p") (auto simp: csock_socket_op_def upd_lsd_def Let_def split: if_splits)
  show ?thesis
  proof (cases "vx_malloc os (next_ptr st)")
    case False
    then show ?thesis
      using assms(1) l
      by (auto simp: csock_socket_op_def Let_def fail_with_def fresh_data_def touches_def lsd_data_def marked_def fd_used_def)
  next
    case True
    let ?n = "next_ptr st"
    let ?s = "st\<lparr>next_ptr := Suc ?n, idata_heap := (idata_heap st)(?n \<mapsto> \<lparr>cs_fd = -1\<rparr>), sock_heap := (sock_heap st)(p \<mapsto> l\<lparr>lsd_idata := Some ?n\<rparr>)\<rparr>"
    have make: "csock_socket_make os p ?n ?s = Some (r, s)"
      using assms(1) True l by (simp add: csock_socket_op_def Let_def)
    have fresh: "fresh_data held p (Some ?n) st ?s"
      by (auto simp: fresh_data_def touches_def lsd_data_def marked_def fd_used_def)
    from make obtain fd ret s1 where scan: "csock_socket_scan os (word_of_int (lsd_protocol l)) (List.map int [1..<32]) (-1) ?s = Some ((fd, ret), s1)"
      and d: "csock_socket_done os p ?n fd ret s1 = Some (r, s)"
      by (auto simp: csock_socket_make_def bind_eq_Some_conv simp del: upt_rec_numeral)
    have v: "trusted os held ?s" using assms(2) by (simp add: trusted_def)
    have sc: "world_only held ?s s1 \<and> (fd \<noteq> -1 \<longrightarrow> fd \<in> set (List.map int [1..<32]) \<and> \<not> marked held fd ?s \<and> held_by held fd s1 \<and> ret = 0)"
      by (rule socket_scan_world [OF scan v]) (simp del: upt_rec_numeral)
    have "fd \<noteq> -1 \<longrightarrow> fd \<in> {1..<32} \<and> \<not> marked held fd st \<and> held_by held fd s1 \<and> ret = 0"
      using sc by (auto simp: marked_def fd_used_def simp del: upt_rec_numeral)
    from socket_done_result [OF d fresh_same [OF fresh world_only_same] this assms(2)] sc show ?thesis by blast
  qed
qed

text \<open>\<open>accept\<close> starts with a copy of the listening socket's pointer in the new socket \<open>q\<close>.\<close>

definition copied :: "nat \<Rightarrow> nat \<Rightarrow> 'w cstate \<Rightarrow> 'w cstate" where
  "copied p q st = st\<lparr>sock_heap := (sock_heap st)(q := map_option (\<lambda>m. m\<lparr>lsd_idata := lsd_data p st\<rparr>) (sock_heap st q))\<rparr>"

lemma accept_open_result:
  assumes "csock_accept_open os p n b addr addrlen s = Some ((r, a, k), s')" "fresh_data held q (Some n) st s" "trusted os held st"
  shows "touches held q st s' \<and> (r = 0 \<longrightarrow> gives held q st s') \<and> (r \<noteq> 0 \<longrightarrow> fresh_data held q (Some n) st s')"
proof -
  from assms(1) obtain c :: csock_socket and fd ret port dest s1 s2 where scan: "csock_accept_scan os (cs_fd c) b (List.map int [1..<32]) (-1, 0, 0) s = Some ((fd, ret, port, dest), s1)"
    and blk: "csock_set_blocking os p b 0 (s1\<lparr>idata_heap := (idata_heap s1)(n \<mapsto> \<lparr>cs_fd = fd\<rparr>)\<rparr>) = Some s2"
    and last: "(if ret \<noteq> 0 then csock_fail ret (-1, addr, addrlen) s2
      else do { addr \<leftarrow> put_sin addr (ucast port) dest; Some ((0, addr, SOCKADDR_IN_SIZE), csock_fd_set_usage fd True s2) }) = Some ((r, a, k), s')"
    unfolding csock_accept_open_def
    by (simp only: bind_eq_Some_conv split_paired_Ex prod.case) (elim exE conjE, rule that)
  have v: "trusted os held s" using assms(2,3) by (simp add: fresh_data_def touches_def trusted_def)
  have sc: "world_only held s s1 \<and> (fst (-1 :: int, 0 :: u32, 0 :: u32) \<noteq> 0 \<longrightarrow> ret = 0 \<longrightarrow> fd \<in> set (List.map int [1..<32])
      \<and> \<not> marked held fd s \<and> held_by held fd s1)"
    by (rule accept_scan_world [OF scan v]) (simp del: upt_rec_numeral)
  have n: "n = next_ptr st" "n < next_ptr s" "touches held q st s" "lsd_data q s = Some n" using assms(2) by (simp_all add: fresh_data_def)
  have f1: "fresh_data held q (Some n) st s1" using fresh_same [OF assms(2) world_only_same] sc by blast
  then have f2: "fresh_data held q (Some n) st (s1\<lparr>idata_heap := (idata_heap s1)(n \<mapsto> \<lparr>cs_fd = fd\<rparr>)\<rparr>)"
    unfolding fresh_data_def using touches_data [of st n held q s1] n(1) by (simp add: lsd_data_def)
  have v1: "trusted os held (s1\<lparr>idata_heap := (idata_heap s1)(n \<mapsto> \<lparr>cs_fd = fd\<rparr>)\<rparr>)"
    using v sc by (simp add: trusted_def world_only_def)
  note same2 = set_blocking_same [OF v1 blk, THEN conjunct1]
  have f3: "fresh_data held q (Some n) st s2" by (rule fresh_same [OF f2 same2])
  have h: "idata_heap s2 n = Some \<lparr>cs_fd = fd\<rparr>" using same_csock_data_heap [OF same2] by simp
  show ?thesis
  proof (cases "ret = 0")
    case False
    then have "same_csock held s2 s'" "r = -1" using last by (auto simp: csock_fail_def same_csock_upd)
    then show ?thesis using fresh_same [OF f3] by (auto simp: fresh_data_def)
  next
    case True
    then have s': "r = 0" "s' = csock_fd_set_usage fd True s2" using last by (auto simp: bind_eq_Some_conv)
    have fd: "1 \<le> fd" "fd < 32" "\<not> marked held fd s" using sc True by (auto simp del: upt_rec_numeral)
    have "\<not> marked held fd st" using fd(3) n(3) by (auto simp: touches_def)
    moreover have "held_by held fd s2"
      using set_blocking_same [OF v1 blk, of fd] sc True by (auto simp: held_by_def simp del: upt_rec_numeral)
    then have "marked held fd s'" unfolding s' using set_used by (auto simp: marked_held held_by_def)
    moreover have f4: "fresh_data held q (Some n) st s'" unfolding s' by (rule fresh_same [OF f3 same_csock_used [OF same_csock_refl]])
    ultimately have "gives held q st s'"
      unfolding gives_def using fd n(1) h by (auto simp: fresh_data_def s')
    then show ?thesis using s' f4 by (simp add: fresh_data_def)
  qed
qed

lemma csock_accept_result:
  assumes "csock_accept os p q addr SOCKADDR_MAX_SIZE (copied p q st) = Some ((r, a, k), s)"
    "trusted os held st" "sock_heap st q = Some m" "p \<noteq> q"
  shows "touches held q st s \<and> (r = 0 \<longrightarrow> gives held q st s) \<and> (r \<noteq> 0 \<longrightarrow> (\<exists>d. fresh_data held q d st s))"
proof -
  let ?n = "next_ptr st"
  have big: "\<not> SOCKADDR_MAX_SIZE < SOCKADDR_IN_SIZE" by (simp add: SOCKADDR_IN_SIZE_def SOCKADDR_MAX_SIZE_def)
  let ?s = "\<lambda>d h. st\<lparr>next_ptr := Suc ?n, idata_heap := h, sock_heap := (sock_heap st)(q \<mapsto> m\<lparr>lsd_idata := d\<rparr>)\<rparr>"
  have fresh: "fresh_data held q (Some ?n) st (?s (Some ?n) ((idata_heap st)(?n \<mapsto> u)))" "fresh_data held q None st (?s None (idata_heap st))" for u
    by (auto simp: fresh_data_def touches_def lsd_data_def marked_def fd_used_def copied_def)
  show ?thesis
  proof (cases "vx_malloc os ?n")
    case True
    let ?t = "?s (Some ?n) ((idata_heap st)(?n \<mapsto> \<lparr>cs_fd = -1\<rparr>))"
    from assms(1) True obtain l where l: "sock_heap ?t p = Some l" and
      rest: "(if lsd_idata l = None then fail_with ENOMEM (-1, addr, SOCKADDR_MAX_SIZE) ?t
        else do {
          st \<leftarrow> csock_set_blocking os p (lsd_blocking l) 1 ?t;
          csock_accept_open os p ?n (lsd_blocking l) addr SOCKADDR_MAX_SIZE st
        }) = Some ((r, a, k), s)"
      using assms(3,4) by (auto simp: csock_accept_def copied_def Let_def big bind_eq_Some_conv cong: if_cong)
    show ?thesis
    proof (cases "lsd_idata l")
      case None
      then have "same_csock held ?t s" "r = -1" using rest by (auto simp: fail_with_def same_csock_upd)
      then show ?thesis using fresh_same [OF fresh(1)] by (auto simp: fresh_data_def)
    next
      case (Some d)
      with rest obtain s1 where s1: "csock_set_blocking os p (lsd_blocking l) 1 ?t = Some s1"
        and o: "csock_accept_open os p ?n (lsd_blocking l) addr SOCKADDR_MAX_SIZE s1 = Some ((r, a, k), s)"
        by (auto simp: bind_eq_Some_conv)
      have "trusted os held ?t" using assms(2) by (simp add: trusted_def)
      from accept_open_result [OF o fresh_same [OF fresh(1) set_blocking_same [OF this s1, THEN conjunct1]] assms(2)] show ?thesis
        by blast
    qed
  next
    case False
    then have "same_csock held (?s None (idata_heap st)) s \<and> r = -1"
      using assms(1,3,4)
      by (auto simp: csock_accept_def copied_def Let_def big fail_with_def same_csock_upd
          bind_eq_Some_conv split: if_splits)
    then show ?thesis using fresh_same [OF fresh(2)] by (auto simp: fresh_data_def)
  qed
qed

section \<open>The life of the sockets\<close>

text \<open>What \<open>closesocket\<close> does with the data of a closed socket, and the other calls with that of a socket that failed.\<close>

definition csock_release :: "nat \<Rightarrow> 'w cstate \<Rightarrow> 'w cstate option" where
  "csock_release p st = do {
     lsd \<leftarrow> sock_heap st p;
     st \<leftarrow> free_idata (lsd_idata lsd) st;
     upd_lsd p (\<lambda>l. l\<lparr>lsd_idata := None\<rparr>) st
   }"

text \<open>
  The states the interface goes through, over a driver of version 0 or one of a later version that answers truly: sockets are made, accepted and closed, and between
  these any step may happen that leaves the data of the sockets alone, such as all other operations (the lemmas
  \<open>csock_*_same\<close>) and the steps of the library.
\<close>

inductive csock_life :: "'w csock_os \<Rightarrow> ('w \<Rightarrow> int set) \<Rightarrow> 'w cstate \<Rightarrow> bool" for os held where
  start: "csock_life os held st" if "\<And>p. lsd_data p st = None" "trusted os held st"
| socket: "csock_life os held s" if "csock_life os held st" "lsd_data p st = None" "csock_socket_op os p st = Some (0, s)"
| socket_fails: "csock_life os held s'"
    if "csock_life os held st" "lsd_data p st = None" "csock_socket_op os p st = Some (r, s)" "r \<noteq> 0" "csock_release p s = Some s'"
| accept: "csock_life os held s"
    if "csock_life os held st" "sock_heap st q = Some m" "lsd_idata m = None" "p \<noteq> q"
      "csock_accept os p q addr SOCKADDR_MAX_SIZE (copied p q st) = Some ((0, a, n), s)"
| accept_fails: "csock_life os held s'"
    if "csock_life os held st" "sock_heap st q = Some m" "lsd_idata m = None" "p \<noteq> q"
      "csock_accept os p q addr SOCKADDR_MAX_SIZE (copied p q st) = Some ((r, a, n), s)" "r \<noteq> 0" "csock_release q s = Some s'"
| close: "csock_life os held s'" if "csock_life os held st" "csock_close os p st = Some (0, s)" "csock_release p s = Some s'"
| close_fails: "csock_life os held s" if "csock_life os held st" "csock_close os p st = Some (r, s)" "r \<noteq> 0"
| other: "csock_life os held s" if "csock_life os held st" "same_csock held st s"

text \<open>The sockets but \<open>h\<close> have data of their own, with a descriptor of their own that the table marks.\<close>

definition fds_but :: "('w \<Rightarrow> int set) \<Rightarrow> nat option \<Rightarrow> 'w cstate \<Rightarrow> bool" where
  "fds_but held h st \<longleftrightarrow>
     (\<forall>p d. Some p \<noteq> h \<longrightarrow> lsd_data p st = Some d \<longrightarrow>
        d < next_ptr st \<and> (\<exists>c. idata_heap st d = Some c \<and> 1 \<le> cs_fd c \<and> cs_fd c < 32 \<and> marked held (cs_fd c) st)) \<and>
     (\<forall>p q d e. Some p \<noteq> h \<longrightarrow> Some q \<noteq> h \<longrightarrow> p \<noteq> q \<longrightarrow> lsd_data p st = Some d \<longrightarrow> lsd_data q st = Some e \<longrightarrow>
        d \<noteq> e \<and> cs_fd (the (idata_heap st d)) \<noteq> cs_fd (the (idata_heap st e)))"

lemma fds_butD:
  assumes "fds_but held h st" "Some p \<noteq> h" "lsd_data p st = Some d"
  shows "d < next_ptr st" "\<exists>c. idata_heap st d = Some c \<and> 1 \<le> cs_fd c \<and> cs_fd c < 32 \<and> marked held (cs_fd c) st"
  using assms unfolding fds_but_def by blast+

lemma fds_but_distinct:
  assumes "fds_but held h st" "Some p \<noteq> h" "Some q \<noteq> h" "p \<noteq> q" "lsd_data p st = Some d" "lsd_data q st = Some e"
  shows "d \<noteq> e" "cs_fd (the (idata_heap st d)) \<noteq> cs_fd (the (idata_heap st e))"
  using assms unfolding fds_but_def by blast+

lemma fds_but_touches:
  assumes "fds_but held None st" "touches held p st s"
  shows "fds_but held (Some p) s"
proof -
  note t = assms(2) [unfolded touches_def]
  show ?thesis
    unfolding fds_but_def
  proof (intro conjI allI impI)
    fix q d assume q: "Some q \<noteq> Some p" "lsd_data q s = Some d"
    then have d: "lsd_data q st = Some d" using t by simp
    show "d < next_ptr s" using fds_butD(1) [OF assms(1) _ d] t by simp
    show "\<exists>c. idata_heap s d = Some c \<and> 1 \<le> cs_fd c \<and> cs_fd c < 32 \<and> marked held (cs_fd c) s"
      using fds_butD [OF assms(1) _ d] t by auto
  next
    fix q r d e assume a: "Some q \<noteq> Some p" "Some r \<noteq> Some p" "q \<noteq> r" "lsd_data q s = Some d" "lsd_data r s = Some e"
    then have d: "lsd_data q st = Some d" "lsd_data r st = Some e" using t by simp_all
    show "d \<noteq> e" "cs_fd (the (idata_heap s d)) \<noteq> cs_fd (the (idata_heap s e))"
      using fds_but_distinct [OF assms(1) _ _ a(3) d] fds_butD(1) [OF assms(1) _ d(1)] fds_butD(1) [OF assms(1) _ d(2)] t by simp_all
  qed
qed

lemma fds_but_same:
  assumes "fds_but held h st" "same_csock held st s"
  shows "fds_but held h s"
proof -
  note t = assms(2) [unfolded same_csock_def]
  show ?thesis
    unfolding fds_but_def
  proof (intro conjI allI impI)
    fix q d assume q: "Some q \<noteq> h" "lsd_data q s = Some d"
    then have d: "lsd_data q st = Some d" using t by simp
    show "d < next_ptr s" using fds_butD(1) [OF assms(1) q(1) d] t by simp
    show "\<exists>c. idata_heap s d = Some c \<and> 1 \<le> cs_fd c \<and> cs_fd c < 32 \<and> marked held (cs_fd c) s"
      using fds_butD [OF assms(1) q(1) d] t by auto
  next
    fix q r d e assume a: "Some q \<noteq> h" "Some r \<noteq> h" "q \<noteq> r" "lsd_data q s = Some d" "lsd_data r s = Some e"
    then have d: "lsd_data q st = Some d" "lsd_data r st = Some e" using t by simp_all
    show "d \<noteq> e" "cs_fd (the (idata_heap s d)) \<noteq> cs_fd (the (idata_heap s e))"
      using fds_but_distinct [OF assms(1) a(1,2,3) d] t by simp_all
  qed
qed

lemma fds_but_gives:
  assumes "fds_but held None st" "touches held p st s" "gives held p st s"
  shows "fds_but held None s"
proof -
  note b = fds_but_touches [OF assms(1,2)]
  note t = assms(2) [unfolded touches_def]
  from assms(3) obtain fd where g: "lsd_data p s = Some (next_ptr st)" "next_ptr st < next_ptr s"
    "idata_heap s (next_ptr st) = Some \<lparr>cs_fd = fd\<rparr>" "1 \<le> fd" "fd < 32" "\<not> marked held fd st" "marked held fd s"
    unfolding gives_def by blast
  have new: "next_ptr st \<noteq> e" "fd \<noteq> cs_fd (the (idata_heap s e))" if "q \<noteq> p" "lsd_data q s = Some e" for q e
  proof -
    have "lsd_data q st = Some e" using that t by simp
    from fds_butD [OF assms(1) _ this] g(6) t show "next_ptr st \<noteq> e" "fd \<noteq> cs_fd (the (idata_heap s e))" by auto
  qed
  show ?thesis
    unfolding fds_but_def
  proof (intro conjI allI impI)
    fix q d assume q: "lsd_data q s = Some d"
    show "d < next_ptr s" using fds_butD(1) [OF b _ q] g q by (cases "q = p") simp_all
    show "\<exists>c. idata_heap s d = Some c \<and> 1 \<le> cs_fd c \<and> cs_fd c < 32 \<and> marked held (cs_fd c) s"
      using fds_butD(2) [OF b _ q] g q by (cases "q = p") simp_all
  next
    fix q r d e assume a: "q \<noteq> r" "lsd_data q s = Some d" "lsd_data r s = Some e"
    show "d \<noteq> e" using fds_but_distinct(1) [OF b _ _ a] new [of q d] new [of r e] g(1) a by (cases "q = p"; cases "r = p") auto
    show "cs_fd (the (idata_heap s d)) \<noteq> cs_fd (the (idata_heap s e))"
      using fds_but_distinct(2) [OF b _ _ a] new [of q d] new [of r e] g(1,3) a by (cases "q = p"; cases "r = p") auto
  qed
qed

definition alone :: "nat \<Rightarrow> 'w cstate \<Rightarrow> bool" where
  "alone p st \<longleftrightarrow> (\<forall>d q. lsd_data p st = Some d \<longrightarrow> q \<noteq> p \<longrightarrow> lsd_data q st \<noteq> Some d)"

lemma release_effect:
  assumes "csock_release p s = Some s'"
  shows "lsd_data q s' = (if q = p then None else lsd_data q s)" "next_ptr s' = next_ptr s" "world s' = world s"
    "lsd_data p s \<noteq> Some d \<Longrightarrow> idata_heap s' d = idata_heap s d"
proof -
  from assms obtain l where l: "sock_heap s p = Some l"
    by (auto simp: csock_release_def bind_eq_Some_conv)
  obtain h where s': "s' = s\<lparr>idata_heap := h, sock_heap := (sock_heap s)(p \<mapsto> l\<lparr>lsd_idata := None\<rparr>)\<rparr>"
    and h: "\<And>d. lsd_idata l \<noteq> Some d \<Longrightarrow> h d = idata_heap s d"
  proof (cases "lsd_idata l")
    case None
    with assms l that [of "idata_heap s"] show ?thesis
      by (simp add: csock_release_def free_idata_def upd_lsd_def)
  next
    case (Some d)
    with assms l have "idata_heap s d \<noteq> None" by (cases "idata_heap s d") (simp_all add: csock_release_def free_idata_def)
    with assms l Some that [of "(idata_heap s)(d := None)"] show ?thesis
      by (simp add: csock_release_def free_idata_def upd_lsd_def)
  qed
  show "lsd_data q s' = (if q = p then None else lsd_data q s)" "next_ptr s' = next_ptr s" "world s' = world s"
    by (simp_all add: s' lsd_data_def)
  show "lsd_data p s \<noteq> Some d \<Longrightarrow> idata_heap s' d = idata_heap s d"
    using h l by (simp add: s' lsd_data_def)
qed

lemma fds_but_release:
  assumes "fds_but held (Some p) s" "alone p s" "csock_release p s = Some s'"
  shows "fds_but held None s'"
proof -
  note e = release_effect [OF assms(3)]
  have old: "q \<noteq> p \<and> lsd_data q s = Some d \<and> idata_heap s' d = idata_heap s d" if "lsd_data q s' = Some d" for q d
    using that assms(2) e(4) by (auto simp: e(1) alone_def split: if_splits)
  show ?thesis
    unfolding fds_but_def
  proof (intro conjI allI impI)
    fix q d assume q: "lsd_data q s' = Some d"
    show "d < next_ptr s'" using fds_butD(1) [OF assms(1), of q d] old [OF q] e(2) by simp
    show "\<exists>c. idata_heap s' d = Some c \<and> 1 \<le> cs_fd c \<and> cs_fd c < 32 \<and> marked held (cs_fd c) s'"
      using fds_butD(2) [OF assms(1), of q d] old [OF q] by (simp add: marked_def fd_used_def e(3))
  next
    fix q r d e assume a: "q \<noteq> r" "lsd_data q s' = Some d" "lsd_data r s' = Some e"
    show "d \<noteq> e" "cs_fd (the (idata_heap s' d)) \<noteq> cs_fd (the (idata_heap s' e))"
      using fds_but_distinct [OF assms(1), of q r d e] old [OF a(2)] old [OF a(3)] a(1) by simp_all
  qed
qed

lemma fresh_alone:
  assumes "fds_but held None st" "fresh_data held p d st s"
  shows "alone p s"
  using assms fds_butD(1) [OF assms(1)] by (fastforce simp: alone_def fresh_data_def touches_def)

lemma close_result:
  assumes "csock_close os p st = Some (r, s)" "fds_but held None st" "trusted os held st"
  shows "if r = 0 then fds_but held (Some p) s \<and> alone p s else same_csock held st s"
proof -
  from assms(1) obtain c out s1 where c: "csock_of p st = Some c"
    and v: "vcall os 2 (no_regs\<lparr>vr_edi := word_of_int (cs_fd c)\<rparr>) st = Some (out, s1)"
    and r: "(if vxd_ret out \<noteq> 0 then csock_fail (vxd_ret out) (-1) s1 else Some (0, csock_fd_set_usage (cs_fd c) False s1)) = Some (r, s)"
    by (auto simp: csock_close_def bind_eq_Some_conv)
  show ?thesis
  proof (cases "vxd_ret out = 0")
    case False
    then show ?thesis using r vcall_same_step [OF assms(3) v] by (auto simp: csock_fail_def same_csock_upd)
  next
    case True
    then have s: "r = 0" "s = csock_fd_set_usage (cs_fd c) False s1" using r by simp_all
    have data: "lsd_data q s = lsd_data q st" "idata_heap s = idata_heap st" "next_ptr s = next_ptr st" for q
      using v by (auto simp: s vcall_world_eq csock_fd_set_usage_def)
    from c obtain d where d: "lsd_data p st = Some d" "idata_heap st d = Some c" by (auto simp: csock_of_data bind_eq_Some_conv)
    have cf: "1 \<le> cs_fd c" "cs_fd c < 32" using fds_butD(2) [OF assms(2) _ d(1)] d(2) by simp_all
    have mark: "marked held i s" if "marked held i st" "i \<noteq> cs_fd c" "0 \<le> i" "i < 32" for i
    proof -
      have "marked held i s1" by (rule vcall_marked [OF assms(3) v that(1)]) (use that(2) cf in \<open>simp add: sint_fd\<close>)
      then show ?thesis using marked_clear [of held i s1 "cs_fd c"] that(2-4) cf by (simp add: s)
    qed
    have "alone p s"
      using fds_but_distinct(1) [OF assms(2)] d(1) by (fastforce simp: alone_def data)
    moreover have "fds_but held (Some p) s"
      unfolding fds_but_def
    proof (intro conjI allI impI)
      fix q e assume q: "Some q \<noteq> Some p" "lsd_data q s = Some e"
      then have e: "lsd_data q st = Some e" by (simp add: data)
      show "e < next_ptr s" using fds_butD(1) [OF assms(2) _ e] by (simp add: data)
      from fds_butD(2) [OF assms(2) _ e] obtain x where x: "idata_heap st e = Some x" "1 \<le> cs_fd x" "cs_fd x < 32" "marked held (cs_fd x) st"
        by auto
      have "cs_fd x \<noteq> cs_fd c" using fds_but_distinct(2) [OF assms(2) _ _ _ e d(1)] q(1) x(1) d(2) by auto
      then show "\<exists>c. idata_heap s e = Some c \<and> 1 \<le> cs_fd c \<and> cs_fd c < 32 \<and> marked held (cs_fd c) s"
        using x mark [OF x(4)] by (auto simp: data)
    next
      fix q t e k assume a: "Some q \<noteq> Some p" "Some t \<noteq> Some p" "q \<noteq> t" "lsd_data q s = Some e" "lsd_data t s = Some k"
      show "e \<noteq> k" "cs_fd (the (idata_heap s e)) \<noteq> cs_fd (the (idata_heap s k))"
        using fds_but_distinct [OF assms(2) _ _ a(3), of e k] a by (simp_all add: data)
    qed
    ultimately show ?thesis using s by simp
  qed
qed

lemma touches_trusted: "touches held p st s \<Longrightarrow> trusted os held s = trusted os held st"
  by (simp add: touches_def trusted_def)

lemma release_trusted: "csock_release p s = Some s' \<Longrightarrow> trusted os held s' = trusted os held s"
  by (simp add: trusted_def release_effect)

lemma close_trusted: "csock_close os p st = Some (r, s) \<Longrightarrow> trusted os held s = trusted os held st"
  by (auto simp: csock_close_def vcall_def csock_fail_def trusted_def bind_eq_Some_conv split: if_splits)

lemma life_ok: "csock_life os held st \<Longrightarrow> fds_but held None st \<and> trusted os held st"
proof (induction rule: csock_life.induct)
  case (socket st p s)
  with csock_socket_result [OF socket.hyps(3)] touches_trusted show ?case by (blast intro: fds_but_gives)
next
  case (socket_fails st p r s s')
  then obtain d where t: "touches held p st s" and d: "fresh_data held p d st s"
    using csock_socket_result [OF socket_fails.hyps(3)] by blast
  from socket_fails.IH fds_but_release [OF fds_but_touches [OF _ t] fresh_alone [OF _ d] socket_fails.hyps(5)]
  show ?case by (simp add: release_trusted [OF socket_fails.hyps(5)] touches_trusted [OF t])
next
  case (accept st q m p addr a n s)
  with csock_accept_result [OF accept.hyps(5)] touches_trusted show ?case by (blast intro: fds_but_gives)
next
  case (accept_fails st q m p addr r a n s s')
  then obtain d where t: "touches held q st s" and d: "fresh_data held q d st s"
    using csock_accept_result [OF accept_fails.hyps(5)] by blast
  from accept_fails.IH fds_but_release [OF fds_but_touches [OF _ t] fresh_alone [OF _ d] accept_fails.hyps(7)]
  show ?case by (simp add: release_trusted [OF accept_fails.hyps(7)] touches_trusted [OF t])
next
  case (close st p s s')
  have "fds_but held (Some p) s" "alone p s" using close_result [OF close.hyps(2), of held] close.IH by simp_all
  from fds_but_release [OF this close.hyps(3)] close.IH show ?case
    by (simp add: release_trusted [OF close.hyps(3)] close_trusted [OF close.hyps(2)])
next
  case (close_fails st p r s)
  then have "same_csock held st s" using close_result [OF close_fails.hyps(2)] by simp
  with close_fails.IH show ?case by (auto intro: fds_but_same simp: close_trusted [OF close_fails.hyps(2)])
next
  case (other st s)
  then show ?case by (auto intro: fds_but_same) (simp add: same_csock_def trusted_def)
qed (simp add: fds_but_def)

section \<open>A driver for the witnesses\<close>

text \<open>Every call of the driver succeeds; \<open>eax\<close>, \<open>ebx\<close>, \<open>ecx\<close> and \<open>edx\<close> are 0.\<close>

definition plain_vxd :: "unit csock_os" where
  "plain_vxd = \<lparr>vx_call = (\<lambda>f r w. Some (\<lparr>vo_carry = False, vo_eax = 0, vo_ebx = 0, vo_ecx = 0, vo_edx = 0, vo_mem = []\<rparr>, w)),
     vx_load = (\<lambda>w. ((0, ENOERR), w)), vx_entry = (\<lambda>w. (1, 1)), vx_windows = (4, 0), vx_win9x = None, vx_malloc = (\<lambda>n. True),
     vx_getenv = (\<lambda>v. None), vx_files = (\<lambda>f. None), vx_time = 0, vx_getpid = 1, vx_junk = (\<lambda>i. 0),
     vx_used = (\<lambda>w fd. False), vx_O_NONBLOCK = 8\<rparr>"

definition plain_lsd :: "nat option \<Rightarrow> lsck_socket" where
  "plain_lsd d = zero_socket\<lparr>lsd_interface := Some CSOCK_IF, lsd_family := AF_INET4, lsd_type := SOCK_STREAM,
     lsd_protocol := IPPROTO_TCP, lsd_blocking := True, lsd_idata := d\<rparr>"

text \<open>Two sockets of the library without data, and a descriptor table.\<close>

definition plain_state :: "u32 \<Rightarrow> unit cstate" where
  "plain_state t = \<lparr>errno = ENOERR, inited = True, if_list = [CSOCK_IF], if_names = None,
     sock_table = replicate LSCK_NUM_SOCKET None, sock_heap = [0 \<mapsto> plain_lsd None, 1 \<mapsto> plain_lsd None],
     idata_heap = (\<lambda>_. None), next_ptr = 2, fds = (\<lambda>_. None), signals = [], debug_level = 0,
     lsck_config = \<lparr>configdir = None, configdirset = False, configfile = None, configfileset = False\<rparr>,
     world = \<lparr>csock_inited = True, csock_version = 0, csock_fd_table = t,
       csock_addr = Some \<lparr>table_family = AF_INET4, table_inet = [zero_inet\<lparr>inet_address := 0x0100007f, inet_netmask := 0xff\<rparr>]\<rparr>,
       vxd = ()\<rparr>\<rparr>"

section \<open>Properties\<close>

text \<open>C11: the interface over SOCK.VXD keeps the contract on which the library relies, whatever its driver answers: every
  operation leaves a consistent state and changes no more of the library's than it may.\<close>

theorem csock_contract: "interface_contract (csock_env os tab) {CSOCK_IF} False"
  by (rule csock.interface_contract_axioms)

text \<open>C7: however sockets are made, accepted and closed, with failures of the driver and of \<open>malloc\<close> in between, two
  sockets never have the same descriptor of the driver. A driver of version 0 may answer anything; one of a later version,
  whose own table replaces that of the library, has to report the descriptors it holds, as in \<open>honest\<close>.\<close>

theorem csock_descriptors_distinct:
  assumes "csock_life os held st" "p \<noteq> q" "csock_of p st = Some c" "csock_of q st = Some c'"
  shows "cs_fd c \<noteq> cs_fd c'"
proof -
  from assms(3,4) obtain d e where d: "lsd_data p st = Some d" "idata_heap st d = Some c"
    and e: "lsd_data q st = Some e" "idata_heap st e = Some c'"
    by (auto simp: csock_of_data bind_eq_Some_conv)
  from life_ok [OF assms(1)] have "fds_but held None st" ..
  from fds_but_distinct(2) [OF this _ _ assms(2) d(1) e(1)] show ?thesis using d(2) e(2) by simp
qed

text \<open>The first and the second socket that are made get the descriptors 1 and 2.\<close>

definition one_socket :: "unit cstate" where
  "one_socket = (plain_state 2)\<lparr>next_ptr := 3, sock_heap := [0 \<mapsto> plain_lsd (Some 2), 1 \<mapsto> plain_lsd None],
     idata_heap := [2 \<mapsto> \<lparr>cs_fd = 1\<rparr>]\<rparr>"

definition two_sockets :: "unit cstate" where
  "two_sockets = (plain_state 6)\<lparr>next_ptr := 4, sock_heap := [0 \<mapsto> plain_lsd (Some 2), 1 \<mapsto> plain_lsd (Some 3)],
     idata_heap := [2 \<mapsto> \<lparr>cs_fd = 1\<rparr>, 3 \<mapsto> \<lparr>cs_fd = 2\<rparr>]\<rparr>"

lemmas plain_simps = csock_socket_op_def csock_socket_make_def csock_socket_done_def csock_fd_get_usage_def csock_fd_lookup_def
  csock_probe_def csock_fd_set_usage_def csock_ioctl_def csock_of_def vcall_def vxd_ret_def upd_lsd_def fd_bit_def plain_vxd_def
  plain_state_def plain_lsd_def Let_def

lemma first_fds: "List.map int [Suc 0..<32] = 1 # 2 # List.map int [3..<32]"
  by code_simp

lemma plain_sockets:
  "csock_socket_op plain_vxd 0 (plain_state 0) = Some (0, one_socket)"
  "csock_socket_op plain_vxd 1 one_socket = Some (0, two_sockets)"
  by (simp_all add: plain_simps zero_socket_def first_fds one_socket_def two_sockets_def fun_upd_twist del: upt_rec_numeral)

text \<open>A driver of version 1 that keeps the table of its descriptors, which are from 1 to 31.\<close>

definition held_bits :: "u32 \<Rightarrow> int set" where
  "held_bits w = {fd. 1 \<le> fd \<and> fd < 32 \<and> bit w (nat fd)}"

definition table_call :: "nat \<Rightarrow> vxd_regs \<Rightarrow> u32 \<Rightarrow> vxd_out \<times> u32" where
  "table_call f r w = (let fd = (if f = 12 then sint (vr_edx r) else sint (vr_edi r));
       bad = f \<in> {1, 2, 12} \<and> \<not> (1 \<le> fd \<and> fd < 32);
       w' = (if bad then w else if f \<in> {1, 12} then w OR fd_bit fd else if f = 2 then w AND NOT (fd_bit fd) else w) in
     (\<lparr>vo_carry = bad, vo_eax = (if bad then -1 else if f = 16 then (if w AND NOT 1 = 0 then -1 else w AND NOT 1) else 0),
        vo_ebx = 0, vo_ecx = 0, vo_edx = 0, vo_mem = []\<rparr>, w'))"

definition table_vxd :: "u32 csock_os" where
  "table_vxd = \<lparr>vx_call = (\<lambda>f r w. Some (table_call f r w)),
     vx_load = (\<lambda>w. ((0, ENOERR), w)), vx_entry = (\<lambda>w. (1, 1)), vx_windows = (4, 0), vx_win9x = None, vx_malloc = (\<lambda>n. True),
     vx_getenv = (\<lambda>v. None), vx_files = (\<lambda>f. None), vx_time = 0, vx_getpid = 1, vx_junk = (\<lambda>i. 0),
     vx_used = (\<lambda>w fd. False), vx_O_NONBLOCK = 8\<rparr>"

lemma held_bits_set: "1 \<le> fd \<Longrightarrow> fd < 32 \<Longrightarrow> held_bits (w OR fd_bit fd) = insert fd (held_bits w)"
  by (auto simp: held_bits_def fd_bit_def bit_simps nat_eq_iff)

lemma held_bits_clear: "1 \<le> fd \<Longrightarrow> fd < 32 \<Longrightarrow> held_bits (w AND NOT (fd_bit fd)) = held_bits w - {fd}"
  by (auto simp: held_bits_def fd_bit_def bit_simps nat_eq_iff)

lemma held_bits_report: "fd \<in> held_bits w \<Longrightarrow> (w AND NOT 1) AND fd_bit fd \<noteq> 0"
proof -
  assume "fd \<in> held_bits w"
  then have "bit ((w AND NOT 1) AND fd_bit fd) (nat fd)"
    by (auto simp: held_bits_def fd_bit_def bit_simps)
  then show ?thesis by (metis bit_0_eq bot_apply bot_bool_def)
qed

lemma report_not_full: "w AND NOT 1 \<noteq> (-1 :: u32)"
proof
  assume "w AND NOT 1 = (-1 :: u32)"
  then have "bit (w AND NOT 1) 0 = bit (-1 :: u32) 0" by simp
  then show False by (simp add: bit_simps)
qed

lemma table_honest: "honest table_vxd held_bits"
  unfolding honest_def
proof (intro allI impI)
  fix f r w out w' assume "vx_call table_vxd f r w = Some (out, w')"
  then have c: "table_call f r w = (out, w')" by (simp add: table_vxd_def)
  consider "f = 1" | "f = 2" | "f = 12" | "f = 16" | "f \<notin> {1, 2, 12, 16}" by blast
  then show "(if f = 2 \<and> vxd_ret out = 0 then held_bits w - {sint (vr_edi r)} \<subseteq> held_bits w' else held_bits w \<subseteq> held_bits w')
     \<and> (f = 1 \<and> vxd_ret out = 0 \<longrightarrow> sint (vr_edi r) \<in> held_bits w')
     \<and> (f = 12 \<and> vxd_ret out = 0 \<longrightarrow> sint (vr_edx r) \<in> held_bits w')
     \<and> (f = 16 \<longrightarrow> (if vo_eax out = -1 then held_bits w' = {} else \<forall>fd \<in> held_bits w'. vo_eax out AND fd_bit fd \<noteq> 0))"
    using c by cases (auto simp: table_call_def Let_def vxd_ret_def held_bits_set held_bits_clear report_not_full [simplified]
        dest: held_bits_report [simplified] split: if_splits)
qed

text \<open>The same two sockets over that driver.\<close>

definition on_table :: "u32 \<Rightarrow> unit cstate \<Rightarrow> u32 cstate" where
  "on_table w st = \<lparr>errno = errno st, inited = inited st, if_list = if_list st, if_names = if_names st,
     sock_table = sock_table st, sock_heap = sock_heap st, idata_heap = idata_heap st, next_ptr = next_ptr st, fds = fds st,
     signals = signals st, debug_level = debug_level st, lsck_config = lsck_config st,
     world = \<lparr>csock_inited = True, csock_version = 1, csock_fd_table = w, csock_addr = csock_addr (world st), vxd = w\<rparr>\<rparr>"

lemma table_sockets:
  "csock_socket_op table_vxd 0 (on_table 0 (plain_state 0)) = Some (0, on_table 2 one_socket)"
  "csock_socket_op table_vxd 1 (on_table 2 one_socket) = Some (0, on_table 6 two_sockets)"
  by (simp_all add: plain_simps table_vxd_def table_call_def on_table_def zero_socket_def first_fds one_socket_def two_sockets_def
      fun_upd_twist del: upt_rec_numeral)

theorem csock_descriptors_distinct_witness:
  "(\<exists>c c'. csock_of 0 two_sockets = Some c \<and> csock_of 1 two_sockets = Some c' \<and> cs_fd c \<noteq> cs_fd c')
   \<and> (\<exists>c c'. csock_of 0 (on_table 6 two_sockets) = Some c \<and> csock_of 1 (on_table 6 two_sockets) = Some c' \<and> cs_fd c \<noteq> cs_fd c')"
proof -
  note data = plain_state_def one_socket_def lsd_data_def plain_lsd_def on_table_def
  have "csock_life plain_vxd (\<lambda>_. {}) (plain_state 0)"
    by (rule csock_life.start) (simp_all add: data trusted_def)
  from csock_life.socket [OF this _ plain_sockets(1)] have "csock_life plain_vxd (\<lambda>_. {}) one_socket" by (simp add: data)
  from csock_life.socket [OF this _ plain_sockets(2)] have life: "csock_life plain_vxd (\<lambda>_. {}) two_sockets" by (simp add: data)
  have "csock_life table_vxd held_bits (on_table 0 (plain_state 0))"
    by (rule csock_life.start) (simp_all add: data trusted_def table_honest)
  from csock_life.socket [OF this _ table_sockets(1)] have "csock_life table_vxd held_bits (on_table 2 one_socket)" by (simp add: data)
  from csock_life.socket [OF this _ table_sockets(2)] have later: "csock_life table_vxd held_bits (on_table 6 two_sockets)"
    by (simp add: data)
  have "csock_of 0 two_sockets = Some \<lparr>cs_fd = 1\<rparr>" "csock_of 1 two_sockets = Some \<lparr>cs_fd = 2\<rparr>"
    "csock_of 0 (on_table 6 two_sockets) = Some \<lparr>cs_fd = 1\<rparr>" "csock_of 1 (on_table 6 two_sockets) = Some \<lparr>cs_fd = 2\<rparr>"
    by (simp_all add: two_sockets_def csock_of_def plain_lsd_def on_table_def)
  with csock_descriptors_distinct [OF life _ this(1,2)] csock_descriptors_distinct [OF later _ this(3,4)] show ?thesis by simp
qed

text \<open>Making a socket succeeds with a descriptor from 1 to 31 that was not marked and is marked now, or fails with
  \<open>EMFILE\<close> or \<open>ENOMEM\<close>: no other error of the driver is reported.\<close>

theorem csock_socket_outcome:
  assumes "csock_socket_op os p st = Some (r, s)" "trusted os held st"
  shows "(r = 0 \<and> gives held p st s) \<or> (r = -1 \<and> errno s \<in> {EMFILE, ENOMEM})"
  using csock_socket_result [OF assms] by (cases "r = 0") auto

theorem csock_socket_outcome_witness: "gives held_bits 1 (on_table 2 one_socket) (on_table 6 two_sockets)"
  using csock_socket_outcome [OF table_sockets(2)] by (simp add: trusted_def table_honest)

section \<open>The name of a socket\<close>

text \<open>The address \<open>getsockname\<close> should give: that of the first interface on the network of the peer, or else of the
  last one with a gateway, or else none.\<close>

definition route_address :: "u32 \<Rightarrow> addr_inet list \<Rightarrow> u32" where
  "route_address peer is = (case List.find (\<lambda>i. peer AND inet_netmask i = inet_address i AND inet_netmask i) is of
      Some i \<Rightarrow> inet_address i
    | None \<Rightarrow> (case List.find inet_gw_present (rev is) of Some i \<Rightarrow> inet_address i | None \<Rightarrow> 0))"

lemma find_append: "List.find P (xs @ ys) = (case List.find P xs of Some x \<Rightarrow> Some x | None \<Rightarrow> List.find P ys)"
  by (induction xs) auto

lemma local_address_reference:
  "local_address peer is a = (case List.find (\<lambda>i. peer AND inet_netmask i = inet_address i AND inet_netmask i) is of
      Some i \<Rightarrow> inet_address i
    | None \<Rightarrow> (case List.find inet_gw_present (rev is) of Some i \<Rightarrow> inet_address i | None \<Rightarrow> a))"
  by (induction "is" arbitrary: a) (auto simp: find_append split: option.split)

lemma put_sin_address: "put_sin a port addr = Some b \<Longrightarrow> le32 b 4 = Some addr"
proof -
  assume "put_sin a port addr = Some b"
  then have "b = (AF_INET_bytes @ le16_bytes port) @ le32_bytes addr @ drop 8 a"
    by (auto simp: put_sin_def wr_def AF_INET_bytes_def le16_bytes_def le32_bytes_def eval_nat_numeral split: if_splits)
  moreover have "length (AF_INET_bytes @ le16_bytes port) = 4" by (simp add: AF_INET_bytes_def le16_bytes_def)
  ultimately show ?thesis using le32_le32_bytes [of "AF_INET_bytes @ le16_bytes port" addr "drop 8 a"] by simp
qed

text \<open>C31: the address in the name that \<open>getsockname\<close> returns is the one of the interface that leads to the peer, whatever
  the driver says.\<close>

theorem csock_name_routed:
  assumes "csock_getsockname os p name len st = Some ((0, name', n), s)" "csock_addr (world st) = Some tab"
    "sock_heap st p = Some l" "le32 (lsd_peername l) 4 = Some peer"
  shows "le32 name' 4 = Some (route_address peer (table_inet tab))"
proof -
  have "\<not> len < SOCKADDR_IN_SIZE" using assms(1) by (auto simp: csock_getsockname_def fail_with_def)
  note call = assms(1) [unfolded csock_getsockname_def if_not_P [OF this] assms(3)]
  from call obtain c where c: "csock_of p st = Some c" by (cases "csock_of p st") auto
  with call obtain out s1 where v: "vcall os 13 (no_regs\<lparr>vr_edi := word_of_int (cs_fd c)\<rparr>) st = Some (out, s1)"
    by (cases "vcall os 13 (no_regs\<lparr>vr_edi := word_of_int (cs_fd c)\<rparr>) st") auto
  have "csock_addr (world s1) = Some tab" using v assms(2) by (auto simp: vcall_def bind_eq_Some_conv)
  moreover have rest: "(if vxd_ret out \<noteq> 0 then csock_fail (vxd_ret out) (-1, name, len) s1
      else do {
        tab \<leftarrow> csock_addr (world s1);
        name \<leftarrow> put_sin name (ucast (vo_ebx out)) (local_address peer (table_inet tab) 0);
        Some ((0, name, SOCKADDR_IN_SIZE), s1)
      }) = Some ((0 :: int, name', n), s)"
    using call by (simp only: c v assms(4) bind.bind_lunit prod.case)
  ultimately have "\<exists>port. put_sin name port (local_address peer (table_inet tab) 0) = Some name'"
    by (auto simp: csock_fail_def bind_eq_Some_conv split: if_splits)
  then show ?thesis using put_sin_address by (auto simp: local_address_reference route_address_def)
qed

theorem csock_name_routed_witness:
  "\<exists>name n. csock_getsockname plain_vxd 0 (replicate 16 0) 16 one_socket = Some ((0, name, n), one_socket) \<and> le32 name 4 = Some 0"
proof -
  have peer: "le32 (replicate SOCKADDR_MAX_SIZE 0) 4 = Some 0"
    by (simp add: le32_def rd_def SOCKADDR_MAX_SIZE_def)
  have put: "put_sin (replicate 16 0) 0 0 = Some ([2] @ replicate 15 0)"
    by (simp add: put_sin_def wr_def AF_INET_bytes_def le16_bytes_def le32_bytes_def eval_nat_numeral)
  have g: "csock_getsockname plain_vxd 0 (replicate 16 0) 16 one_socket
      = Some ((0, [2] @ replicate 15 0, SOCKADDR_IN_SIZE), one_socket)"
    using peer put
    by (simp add: csock_getsockname_def plain_simps zero_socket_def one_socket_def SOCKADDR_IN_SIZE_def zero_inet_def)
  have "le32 ([2] @ replicate 15 0 :: u8 list) 4 = Some (route_address 0 [zero_inet\<lparr>inet_address := 0x0100007f, inet_netmask := 0xff\<rparr>])"
    using csock_name_routed [OF g, where l = "plain_lsd (Some 2)" and peer = 0]
    by (simp add: one_socket_def plain_state_def plain_lsd_def zero_socket_def peer)
  with g show ?thesis by (simp add: route_address_def zero_inet_def)
qed

section \<open>Blocking\<close>

definition mode_of :: "nat \<Rightarrow> 'w cstate \<Rightarrow> bool option" where
  "mode_of p st = map_option lsd_blocking (sock_heap st p)"

text \<open>The last call the driver got before it was in its state in \<open>s\<close> was to change the mode of the socket \<open>p\<close> (to not
  blocking, if \<open>flag\<close>), and it has failed.\<close>

definition mode_refused :: "'w csock_os \<Rightarrow> nat \<Rightarrow> bool \<Rightarrow> 'w cstate \<Rightarrow> bool" where
  "mode_refused os p flag s \<longleftrightarrow> (\<exists>s1 c out w. csock_of p s1 = Some c
     \<and> vx_call os 15 (no_regs\<lparr>vr_edi := word_of_int (cs_fd c), vr_ecx := 1, vr_edx := (if flag then 1 else 0)\<rparr>) (vxd (world s1))
         = Some (out, w)
     \<and> vo_carry out \<and> vxd (world s) = w)"

lemma keeps_value2:
  "(\<And>a b. m = Some (a, b) \<Longrightarrow> preserves Q (f a b)) \<Longrightarrow> preserves Q (Option.bind m (\<lambda>(a, b). f a b))"
  by (cases m) (auto simp: preserves_def)

lemma mode_errno: "mode_of p (s\<lparr>errno := e\<rparr>) = mode_of p s"
  by (simp add: mode_of_def)

lemma vcall_mode: "vcall os f r st = Some (out, s) \<Longrightarrow> mode_of p s = mode_of p st \<and> csock_version (world s) = csock_version (world st)"
  by (auto simp: vcall_def mode_of_def bind_eq_Some_conv)

lemma invert_mode:
  assumes "csock_invert os p flag st = Some s"
  shows "csock_version (world s) = csock_version (world st)"
    and "csock_version (world st) < 1 \<Longrightarrow> mode_of p s = Some (\<not> flag) \<or> mode_of p s = mode_of p st \<and> mode_refused os p flag s"
    and "\<not> csock_version (world st) < 1 \<Longrightarrow> mode_of p s = mode_of p st"
proof -
  have "csock_version (world s) = csock_version (world st)
    \<and> (mode_of p s = Some (\<not> flag) \<or> mode_of p s = mode_of p st \<and> mode_refused os p flag s)" if v0: "csock_version (world st) < 1"
  proof -
    let ?r = "\<lambda>c. no_regs\<lparr>vr_edi := word_of_int (cs_fd c), vr_ecx := 1, vr_edx := (if flag then 1 else 0)\<rparr>"
    from assms v0 obtain x where x: "csock_ioctl os p 0 FIONBIO_num (if flag then 1 else 0) st = Some (x, s)"
      by (auto simp: csock_invert_def bind_eq_Some_conv)
    then obtain c out s1 where c: "csock_of p st = Some c" and v: "vcall os 15 (?r c) st = Some (out, s1)"
      and u: "if vxd_ret out \<noteq> 0 then csock_fail (vxd_ret out) (True, -1, None) s1 = Some (x, s)
        else upd_lsd p (\<lambda>l. l\<lparr>lsd_blocking := \<not> flag\<rparr>) s1 = Some s"
      by (cases flag) (auto simp: csock_ioctl_def Let_def bind_eq_Some_conv split: if_splits)
    note m = vcall_mode [OF v, of p]
    show ?thesis
    proof (cases "vxd_ret out = 0")
      case True
      then have "mode_of p s = Some (\<not> flag)" "world s = world s1" using u by (auto simp: upd_lsd_def mode_of_def split: option.splits)
      then show ?thesis using m by simp
    next
      case False
      then have s: "s = s1\<lparr>errno := csock_errno (vxd_ret out) (errno s1)\<rparr>" using u by (simp add: csock_fail_def)
      have "vo_carry out" using False by (auto simp: vxd_ret_def split: if_splits)
      then have "mode_refused os p flag s"
        using c v unfolding mode_refused_def vcall_world_eq by (auto simp: s intro!: exI [of _ st] exI [of _ c])
      then show ?thesis using m by (simp add: s mode_errno)
    qed
  qed
  then show "csock_version (world st) < 1 \<Longrightarrow> mode_of p s = Some (\<not> flag) \<or> mode_of p s = mode_of p st \<and> mode_refused os p flag s"
    and "csock_version (world s) = csock_version (world st)"
    using assms by (auto simp: csock_invert_def split: if_splits)
  show "\<not> csock_version (world st) < 1 \<Longrightarrow> mode_of p s = mode_of p st"
    using assms by (simp add: csock_invert_def)
qed

text \<open>Restored, or turned because the driver has refused to restore it.\<close>

definition mode_kept :: "'w csock_os \<Rightarrow> nat \<Rightarrow> 'w cstate \<Rightarrow> 'w cstate \<Rightarrow> bool" where
  "mode_kept os p st s \<longleftrightarrow> mode_of p s = mode_of p st
    \<or> csock_version (world st) < 1 \<and> (\<exists>b. mode_of p st = Some b \<and> mode_of p s = Some (\<not> b) \<and> mode_refused os p (\<not> b) s)"

lemma mode_kept_errno [simp]: "mode_kept os p st (s\<lparr>errno := e\<rparr>) = mode_kept os p st s"
  by (simp add: mode_kept_def mode_refused_def mode_errno)

lemma mode_kept_refl [simp]: "mode_kept os p st st"
  by (simp add: mode_kept_def)

lemma inverts_mode_kept:
  assumes "sock_heap st p = Some l" "csock_invert os p (lsd_blocking l) st = Some s1" "vcall os f r s1 = Some (out, s2)"
    and "csock_invert os p (\<not> lsd_blocking l) s2 = Some s3"
  shows "mode_kept os p st s3"
proof -
  have m: "mode_of p st = Some (lsd_blocking l)" using assms(1) by (simp add: mode_of_def)
  note v = vcall_mode [OF assms(3), of p]
  note a = invert_mode [OF assms(2)]
  note b = invert_mode [OF assms(4)]
  show ?thesis
  proof (cases "csock_version (world st) < 1")
    case True
    then show ?thesis using a(1,2) b(2) v m by (auto simp: mode_kept_def)
  next
    case False
    then show ?thesis using a(1,3) b(3) v m by (simp add: mode_kept_def)
  qed
qed

text \<open>C30: \<open>recvfrom\<close> leaves a socket in the mode it was in, although it inverts the mode around the call of a driver of
  version 0: it is not restored only if such a driver refuses the call that should restore it.\<close>

theorem csock_recvfrom_mode:
  assumes "csock_recvfrom os p buf len flags frm fromlen st = Some (r, s)"
  shows "mode_of p s = mode_of p st
    \<or> csock_version (world st) < 1 \<and> (\<exists>b. mode_of p st = Some b \<and> mode_of p s = Some (\<not> b) \<and> mode_refused os p (\<not> b) s)"
proof -
  have "preserves (mode_kept os p st) (csock_recvfrom os p buf len flags frm fromlen st)"
    unfolding csock_recvfrom_def
    by (rule keeps_if keeps_Let keeps_value2
      | (auto simp: preserves_def fail_with_def csock_fail_def dest: inverts_mode_kept; fail)
      | rule keeps_prod keeps_prod1 keeps_value)+
  with assms(1) show ?thesis by (cases r) (simp add: preserves_def mode_kept_def)
qed

theorem csock_recvfrom_mode_witness:
  "\<exists>r s. csock_recvfrom plain_vxd 0 [7, 7] 2 0 None None one_socket = Some (r, s) \<and> mode_of 0 s = Some True"
proof -
  obtain r s where r: "csock_recvfrom plain_vxd 0 [7, 7] 2 0 None None one_socket = Some (r, s)"
  proof -
    have "csock_recvfrom plain_vxd 0 [7, 7] 2 0 None None one_socket \<noteq> None"
      by (simp add: csock_recvfrom_def csock_invert_def plain_simps zero_socket_def one_socket_def memcpy_def)
    then show ?thesis using that by auto
  qed
  have "\<not> mode_refused plain_vxd 0 b s" for b by (auto simp: mode_refused_def plain_vxd_def)
  with csock_recvfrom_mode [OF r] have "mode_of 0 s = Some True"
    by (auto simp: mode_of_def one_socket_def plain_lsd_def)
  with r show ?thesis by blast
qed

end
