(* ===== verification/Text_Db.thy ===== *)
theory Text_Db
  imports Ini_File
begin

text \<open>
  What the readers of the text databases under \<open>src/inet\<close> (\<open>gsrvent.c\<close>, \<open>gprtent.c\<close>, \<open>gnetent.c\<close> and the hosts
  file of \<open>ghstnmad.c\<close>) have in common: the functions of the C library they use, the place of a
  database, its stream, the loop over the lines and the search for an entry. The files hold the text that \<open>fgets\<close>
  delivers. The structure an entry is returned in is static; its contents are the result here.
\<close>

section \<open>The C library\<close>

definition BUFSIZ :: nat where "BUFSIZ = 16384"

definition blank :: "char \<Rightarrow> bool" where
  [ctype_simps]: "blank c \<longleftrightarrow> c = CHR '' '' \<or> c = CHR 0x09"

text \<open>
  \<open>strpbrk (s, set)\<close>: the text from the first character of \<open>set\<close> on (\<open>[]\<close> for a null pointer). Storing a nul
  there leaves \<open>before\<close>.
\<close>

definition strpbrk :: "string \<Rightarrow> string \<Rightarrow> string" where
  "strpbrk s cs = dropWhile (\<lambda>c. c \<notin> set cs) s"

definition before :: "string \<Rightarrow> string \<Rightarrow> string" where
  "before s cs = takeWhile (\<lambda>c. c \<notin> set cs) s"

abbreviation (input) blanks :: string where "blanks \<equiv> [CHR '' '', CHR 0x09]"

text \<open>\<open>atoi\<close>; a number that is no \<open>int\<close> is undefined.\<close>

fun digits_value :: "nat \<Rightarrow> string \<Rightarrow> nat" where
  "digits_value v [] = v"
| "digits_value v (c # cs) = (if isdigit c then digits_value (10 * v + (chr_code c - 48)) cs else v)"

definition atoi :: "string \<Rightarrow> int option" where
  "atoi s =
     (let t = dropWhile isspace s;
          v = (case t of
                 [] \<Rightarrow> 0
               | c # r \<Rightarrow> if c = CHR ''-'' then - int (digits_value 0 r)
                         else if c = CHR ''+'' then int (digits_value 0 r) else int (digits_value 0 t))
      in if - (2 ^ 31) \<le> v \<and> v < 2 ^ 31 then Some v else None)"

definition htons :: "u16 \<Rightarrow> u16" where
  "htons w = push_bit 8 w OR drop_bit 8 w"

abbreviation (input) ntohs :: "u16 \<Rightarrow> u16" where "ntohs \<equiv> htons"

section \<open>The stream of a database\<close>

text \<open>
  What the readers depend on: the files, the environment and the name of the configuration file
  (\<open>__lsck_config_getfile\<close>).
\<close>

record net_env =
  net_files :: "string \<Rightarrow> string option"
  net_getenv :: "string \<Rightarrow> string option"
  net_cfg :: "string option"

text \<open>
  The static variables of a reader: the open file, as its text and what is left of it, and \<open>_stayopen\<close>.
\<close>

record db =
  db_file :: "(string \<times> string) option"
  db_stayopen :: int

definition closed_db :: db where "closed_db = \<lparr>db_file = None, db_stayopen = 0\<rparr>"

text \<open>
  The name of the file, in a buffer of \<open>bufsize\<close> bytes: the entry \<open>key\<close> of the configuration, or else \<open>deflt\<close> in the
  directory of Windows. Without that directory a null pointer is printed.
\<close>

definition db_path :: "net_env \<Rightarrow> string \<Rightarrow> string \<Rightarrow> nat \<Rightarrow> string option" where
  "db_path env key deflt bufsize = do {
     path \<leftarrow> (case net_cfg env of
        None \<Rightarrow> Some []
      | Some x \<Rightarrow> do {
          (_, d) \<leftarrow> GetPrivateProfileString (net_files env) (Some ''main'') (Some key) None bufsize x;
          d });
     if path \<noteq> [] then Some path
     else do {
       w \<leftarrow> net_getenv env ''windir'';
       if length (w @ deflt) + 1 > bufsize then None else Some (w @ deflt)
     }
   }"

definition db_open :: "net_env \<Rightarrow> string \<Rightarrow> (string \<times> string) option" where
  "db_open env path = map_option (\<lambda>t. (t, t)) (net_files env path)"

text \<open>Opening the file or starting again at its beginning; \<open>_stayopen |= f\<close>.\<close>

definition db_set :: "net_env \<Rightarrow> string \<Rightarrow> int \<Rightarrow> db \<Rightarrow> db" where
  "db_set env path f d =
     \<lparr>db_file = (case db_file d of None \<Rightarrow> db_open env path | Some (t, r) \<Rightarrow> Some (t, t)),
      db_stayopen = db_stayopen d OR f\<rparr>"

definition db_end :: "db \<Rightarrow> db" where
  "db_end d = d\<lparr>db_file := None, db_stayopen := 0\<rparr>"

section \<open>The entries of a file\<close>

text \<open>
  The loop over the lines. \<open>parse\<close> is the body: \<open>Some None\<close> where it continues with the next line.
\<close>

function next_entry :: "(string \<Rightarrow> 'e option option) \<Rightarrow> string \<Rightarrow> ('e option \<times> string) option" where
  "next_entry parse s =
     (if s = [] then Some (None, [])
      else do {
        e \<leftarrow> parse (cstr (fst (fgets_line (BUFSIZ - 1) s)));
        (case e of
           None \<Rightarrow> next_entry parse (snd (fgets_line (BUFSIZ - 1) s))
         | Some x \<Rightarrow> Some (Some x, snd (fgets_line (BUFSIZ - 1) s)))
      })"
  by pat_completeness auto

lemma fgets_rest_shorter: "0 < n \<Longrightarrow> s \<noteq> [] \<Longrightarrow> length (snd (fgets_line n s)) < length s"
proof -
  assume "0 < n" "s \<noteq> []"
  then have "fst (fgets_line n s) \<noteq> []" by (rule fgets_line_progress)
  moreover have "fst (fgets_line n s) @ snd (fgets_line n s) = s"
    by (rule fgets_line_append) simp
  then have "length (fst (fgets_line n s)) + length (snd (fgets_line n s)) = length s"
    by (metis length_append)
  ultimately show ?thesis by (cases "fst (fgets_line n s)") simp_all
qed

termination next_entry
  by (relation "measure (\<lambda>(parse, s). length s)") (simp_all add: fgets_rest_shorter BUFSIZ_def)

declare next_entry.simps [simp del]

text \<open>A null pointer is returned when the file cannot be opened and at its end.\<close>

definition db_get :: "net_env \<Rightarrow> string \<Rightarrow> (string \<Rightarrow> 'e option option) \<Rightarrow> db \<Rightarrow> ('e option \<times> db) option" where
  "db_get env path parse d =
     (case (case db_file d of None \<Rightarrow> db_open env path | Some x \<Rightarrow> Some x) of
        None \<Rightarrow> Some (None, d\<lparr>db_file := None\<rparr>)
      | Some (t, s) \<Rightarrow> do {
          (e, r) \<leftarrow> next_entry parse s;
          Some (e, d\<lparr>db_file := Some (t, r)\<rparr>)
        })"

text \<open>\<open>while ((p = get ())) if (match (p)) break;\<close>\<close>

partial_function (option) db_find :: "('d \<Rightarrow> ('e option \<times> 'd) option) \<Rightarrow> ('e \<Rightarrow> bool) \<Rightarrow> 'd \<Rightarrow> ('e option \<times> 'd) option" where
  "db_find get match d = do {
     (e, d) \<leftarrow> get d;
     (case e of
        None \<Rightarrow> Some (None, d)
      | Some x \<Rightarrow> if match x then Some (Some x, d) else db_find get match d)
   }"

text \<open>The routines that look for an entry: they start again, search, and close the file unless it shall stay open.\<close>

definition db_lookup :: "(int \<Rightarrow> db \<Rightarrow> db option) \<Rightarrow> (db \<Rightarrow> ('e option \<times> db) option) \<Rightarrow> (db \<Rightarrow> db) \<Rightarrow> ('e \<Rightarrow> bool) \<Rightarrow> db
    \<Rightarrow> ('e option \<times> db) option" where
  "db_lookup setent getent endent match d = do {
     d \<leftarrow> setent (db_stayopen d) d;
     (p, d) \<leftarrow> db_find getent match d;
     Some (p, if db_stayopen d = 0 then endent d else d)
   }"

section \<open>The names behind an entry\<close>

definition MAXALIASES :: nat where "MAXALIASES = 35"

text \<open>The loop that collects the aliases; \<open>q\<close> holds those found. Only \<open>MAXALIASES - 1\<close> are kept.\<close>

function alias_loop :: "string list \<Rightarrow> string \<Rightarrow> string list" where
  "alias_loop q s = (case s of
     [] \<Rightarrow> q
   | c # r \<Rightarrow>
       if blank c then alias_loop q r
       else alias_loop (if length q < MAXALIASES - 1 then q @ [before s blanks] else q) (tl (strpbrk s blanks)))"
  by pat_completeness auto
termination
proof (relation "measure (\<lambda>(q, s). length s)", goal_cases)
  case (3 q s c r)
  have "length (strpbrk s blanks) \<le> length s" by (simp add: strpbrk_def length_dropWhile_le)
  with 3 show ?case by (cases "strpbrk s blanks") auto
qed auto

declare alias_loop.simps [simp del]

section \<open>Well-formed lines\<close>

text \<open>A word of an entry; a line that the loop reads as one.\<close>

definition word_text :: "string \<Rightarrow> bool" where
  "word_text w \<longleftrightarrow> w \<noteq> [] \<and> (\<forall>c \<in> set w. \<not> blank c \<and> c \<noteq> newline \<and> c \<noteq> NUL \<and> c \<noteq> CHR ''#'')"

definition full_line :: "string \<Rightarrow> bool" where
  "full_line l \<longleftrightarrow> newline \<notin> set l \<and> NUL \<notin> set l \<and> length l < BUFSIZ - 1"

definition render_names :: "string list \<Rightarrow> string" where
  "render_names ws = concat (map (\<lambda>w. CHR '' '' # w) ws)"

definition text_of :: "string list \<Rightarrow> string" where
  "text_of ls = concat (map (\<lambda>l. l @ [newline]) ls)"

lemma before_append: "\<forall>c \<in> set w. c \<notin> set cs \<Longrightarrow> before (w @ s) cs = w @ before s cs"
  by (induction w) (simp_all add: before_def)

lemma strpbrk_append: "\<forall>c \<in> set w. c \<notin> set cs \<Longrightarrow> strpbrk (w @ s) cs = strpbrk s cs"
  by (induction w) (simp_all add: strpbrk_def)

lemma before_Cons [simp]: "c \<in> set cs \<Longrightarrow> before (c # s) cs = []"
  by (simp add: before_def)

lemma strpbrk_Cons [simp]: "c \<in> set cs \<Longrightarrow> strpbrk (c # s) cs = c # s"
  by (simp add: strpbrk_def)

lemma before_Nil [simp]: "before [] cs = []"
  by (simp add: before_def)

lemma strpbrk_Nil [simp]: "strpbrk [] cs = []"
  by (simp add: strpbrk_def)

lemma word_text_blank: "word_text w \<Longrightarrow> \<forall>c \<in> set w. c \<notin> set blanks"
  by (auto simp: word_text_def blank_def)

lemma render_names_simps [simp]:
  "render_names [] = []"
  "render_names (w # ws) = CHR '' '' # w @ render_names ws"
  by (simp_all add: render_names_def)

lemma before_names [simp]: "before (render_names ws) blanks = []"
  by (cases ws) simp_all

lemma strpbrk_names [simp]: "strpbrk (render_names ws) blanks = render_names ws"
  by (cases ws) simp_all

lemma alias_loop_blank: "alias_loop q (CHR '' '' # s) = alias_loop q s"
  by (subst alias_loop.simps) (simp add: blank_def)

lemma alias_loop_Nil [simp]: "alias_loop q [] = q"
  by (subst alias_loop.simps) simp

lemma alias_loop_tl_names: "alias_loop q (tl (render_names ws)) = alias_loop q (render_names ws)"
  by (cases ws) (simp_all add: alias_loop_blank)

lemma alias_loop_names:
  "list_all word_text ws \<Longrightarrow> alias_loop q (render_names ws) = q @ take (MAXALIASES - 1 - length q) ws"
proof (induction ws arbitrary: q)
  case (Cons w ws)
  then obtain c r where w: "w = c # r" and c: "\<not> blank c" by (cases w) (auto simp: word_text_def)
  have wt: "\<forall>c \<in> set w. c \<notin> set blanks" by (rule word_text_blank) (use Cons.prems in simp)
  let ?q = "if length q < MAXALIASES - 1 then q @ [w] else q"
  have "alias_loop q (render_names (w # ws)) = alias_loop q (w @ render_names ws)"
    by (simp add: alias_loop_blank)
  also have "\<dots> = alias_loop (if length q < MAXALIASES - 1 then q @ [before (w @ render_names ws) blanks] else q)
      (tl (strpbrk (w @ render_names ws) blanks))"
    using c by (subst alias_loop.simps) (simp add: w)
  also have "\<dots> = alias_loop ?q (render_names ws)"
    by (simp only: before_append [OF wt] strpbrk_append [OF wt] before_names strpbrk_names alias_loop_tl_names append_Nil2)
  also have "\<dots> = ?q @ take (MAXALIASES - 1 - length ?q) ws"
    using Cons by simp
  also have "\<dots> = q @ take (MAXALIASES - 1 - length q) (w # ws)"
  proof (cases "length q < MAXALIASES - 1")
    case True
    then have "MAXALIASES - 1 - length q = Suc (MAXALIASES - 1 - Suc (length q))" by simp
    then show ?thesis using True by simp
  qed simp
  finally show ?case .
qed simp

section \<open>Looking for an entry\<close>

lemma fgets_full_line: "full_line l \<Longrightarrow> fgets_line (BUFSIZ - 1) (l @ newline # rest) = (l @ [newline], rest)"
  by (simp add: full_line_def fgets_line_newline)

lemma cstr_full_line: "full_line l \<Longrightarrow> cstr (l @ [newline]) = l @ [newline]"
  unfolding cstr_def full_line_def by (rule takeWhile_all) auto

lemma text_of_simps [simp]: "text_of [] = []" "text_of (l # ls) = l @ newline # text_of ls"
  by (simp_all add: text_of_def)

lemma next_entry_line:
  assumes "full_line l"
  shows "next_entry parse (l @ newline # rest) = do {
     e \<leftarrow> parse (l @ [newline]);
     (case e of None \<Rightarrow> next_entry parse rest | Some x \<Rightarrow> Some (Some x, rest)) }"
  by (subst next_entry.simps) (simp add: fgets_full_line [OF assms, simplified] cstr_full_line [OF assms])

lemma next_entry_Nil [simp]: "next_entry parse [] = Some (None, [])"
  by (subst next_entry.simps) simp

text \<open>A file of entries and comments: the line of each, and the entries.\<close>

fun item_line :: "('e \<Rightarrow> string) \<Rightarrow> string + 'e \<Rightarrow> string" where
  "item_line line (Inl c) = CHR ''#'' # c"
| "item_line line (Inr e) = line e"

fun item_ok :: "('e \<Rightarrow> bool) \<Rightarrow> string + 'e \<Rightarrow> bool" where
  "item_ok ok (Inl c) = full_line (CHR ''#'' # c)"
| "item_ok ok (Inr e) = ok e"

definition file_text :: "('e \<Rightarrow> string) \<Rightarrow> (string + 'e) list \<Rightarrow> string" where
  "file_text line xs = text_of (map (item_line line) xs)"

fun entries :: "(string + 'e) list \<Rightarrow> 'e list" where
  "entries [] = []"
| "entries (Inl c # xs) = entries xs"
| "entries (Inr e # xs) = e # entries xs"

text \<open>The entries a reader returns one after the other before its null pointer, and the state it ends in.\<close>

inductive reads :: "('d \<Rightarrow> ('e option \<times> 'd) option) \<Rightarrow> 'd \<Rightarrow> 'e list \<Rightarrow> 'd \<Rightarrow> bool" for get where
  reads_end: "get d = Some (None, d') \<Longrightarrow> reads get d [] d'"
| reads_next: "get d = Some (Some e, d1) \<Longrightarrow> reads get d1 es d' \<Longrightarrow> reads get d (e # es) d'"

lemma db_find_reads:
  assumes "reads get d es d'" "\<And>d e d'. P d \<Longrightarrow> get d = Some (e, d') \<Longrightarrow> P d'" "P d"
  shows "\<exists>r. db_find get match d = Some (List.find match es, r) \<and> P r \<and> (List.find match es = None \<longrightarrow> r = d')"
  using assms(1,3)
proof (induction rule: reads.induct)
  case (reads_end d d')
  then show ?case using assms(2) by (subst db_find.simps) auto
next
  case (reads_next d e d1 es d')
  then show ?case using assms(2) by (subst db_find.simps) auto
qed

text \<open>A reader that is another one with a state around it.\<close>

lemma reads_embed:
  assumes "reads get d es d'" "\<And>d e d' x. get d = Some (e, d') \<Longrightarrow> get' (emb d x) = Some (e, emb d' (out e x))"
  shows "\<exists>x'. reads get' (emb d x) es (emb d' (out None x'))"
  using assms(1)
proof (induction arbitrary: x rule: reads.induct)
  case (reads_end d d')
  then show ?case using assms(2) reads.reads_end by metis
next
  case (reads_next d e d1 es d')
  then show ?case using assms(2) reads.reads_next by metis
qed

text \<open>
  The interface of a reader: how an entry is written, which entries can be written, and that the body of the loop
  reads them back and skips comments. What the lookups promise then is a search among the entries.
\<close>

locale text_db =
  fixes parse :: "string \<Rightarrow> 'e option option"
    and line :: "'e \<Rightarrow> string"
    and ok :: "'e \<Rightarrow> bool"
  assumes parse_line: "ok e \<Longrightarrow> parse (line e @ [newline]) = Some (Some e)"
    and line_full: "ok e \<Longrightarrow> full_line (line e)"
    and parse_comment: "parse (CHR ''#'' # c) = Some None"
begin

lemma next_entry_items:
  assumes "list_all (item_ok ok) xs"
  shows "\<exists>ys. list_all (item_ok ok) ys \<and>
     next_entry parse (file_text line xs) = Some (case entries xs of [] \<Rightarrow> None | x # _ \<Rightarrow> Some x, file_text line ys) \<and>
     entries ys = tl (entries xs) \<and> length ys \<le> length xs \<and> (xs \<noteq> [] \<longrightarrow> length ys < length xs)"
  using assms
proof (induction xs rule: entries.induct)
  case 1
  show ?case by (rule exI [of _ "[]"]) (simp add: file_text_def)
next
  case (2 c xs)
  then obtain ys where ys: "list_all (item_ok ok) ys"
      "next_entry parse (file_text line xs) = Some (case entries xs of [] \<Rightarrow> None | x # _ \<Rightarrow> Some x, file_text line ys)"
      "entries ys = tl (entries xs)" "length ys \<le> length xs" by auto
  have "next_entry parse (file_text line (Inl c # xs)) = next_entry parse (file_text line xs)"
    using 2 next_entry_line [of "CHR ''#'' # c" parse] by (simp add: file_text_def parse_comment)
  with ys show ?case by (intro exI [of _ ys]) simp
next
  case (3 e xs)
  then have "full_line (line e)" "parse (line e @ [newline]) = Some (Some e)"
    by (simp_all add: parse_line line_full)
  with 3 show ?case by (intro exI [of _ xs]) (simp add: next_entry_line file_text_def)
qed

lemma next_entry_comments:
  "entries xs = [] \<Longrightarrow> list_all (item_ok ok) xs \<Longrightarrow> next_entry parse (file_text line xs) = Some (None, [])"
proof (induction xs rule: entries.induct)
  case (2 c xs)
  then show ?case using next_entry_line [of "CHR ''#'' # c" parse] by (simp add: file_text_def parse_comment)
qed (simp_all add: file_text_def)

lemma db_find_items:
  assumes "list_all (item_ok ok) xs" "db_file d = Some (t, file_text line xs)"
  shows "\<exists>r. db_find (db_get env path parse) match d
     = Some (List.find match (entries xs), d\<lparr>db_file := Some (t, r)\<rparr>)"
  using assms
proof (induction "length xs" arbitrary: xs d rule: less_induct)
  case less
  from next_entry_items [OF less.prems(1)] obtain ys where ys: "list_all (item_ok ok) ys"
    "next_entry parse (file_text line xs) = Some (case entries xs of [] \<Rightarrow> None | x # _ \<Rightarrow> Some x, file_text line ys)"
    "entries ys = tl (entries xs)" "xs \<noteq> [] \<longrightarrow> length ys < length xs" by blast
  then have get: "db_get env path parse d = Some (case entries xs of [] \<Rightarrow> None | x # _ \<Rightarrow> Some x,
       d\<lparr>db_file := Some (t, file_text line ys)\<rparr>)"
    using less.prems(2) by (simp add: db_get_def)
  show ?case
  proof (cases "entries xs")
    case Nil
    with get show ?thesis by (subst db_find.simps) auto
  next
    case (Cons x es)
    then have "length ys < length xs" using ys(4) by (cases xs) auto
    from less.hyps [OF this ys(1), of "d\<lparr>db_file := Some (t, file_text line ys)\<rparr>"] ys get Cons
    show ?thesis by (subst db_find.simps) (auto split: if_splits)
  qed
qed

lemma reads_items:
  assumes "list_all (item_ok ok) xs" "db_file d = Some (t, file_text line xs)"
  shows "reads (db_get env path parse) d (entries xs) (d\<lparr>db_file := Some (t, [])\<rparr>)"
  using assms
proof (induction "length xs" arbitrary: xs d rule: less_induct)
  case less
  from next_entry_items [OF less.prems(1)] obtain ys where ys: "list_all (item_ok ok) ys"
    "next_entry parse (file_text line xs) = Some (case entries xs of [] \<Rightarrow> None | x # _ \<Rightarrow> Some x, file_text line ys)"
    "entries ys = tl (entries xs)" "xs \<noteq> [] \<longrightarrow> length ys < length xs" by blast
  show ?case
  proof (cases "entries xs")
    case Nil
    then have "next_entry parse (file_text line xs) = Some (None, [])"
      using less.prems(1) by (rule next_entry_comments)
    with less.prems(2) Nil show ?thesis by (auto simp: db_get_def intro: reads_end)
  next
    case (Cons x es)
    then have "length ys < length xs" using ys(4) by (cases xs) auto
    from less.hyps [OF this ys(1), of "d\<lparr>db_file := Some (t, file_text line ys)\<rparr>"]
    have "reads (db_get env path parse) (d\<lparr>db_file := Some (t, file_text line ys)\<rparr>) es (d\<lparr>db_file := Some (t, [])\<rparr>)"
      using Cons ys(3) by simp
    moreover have "db_get env path parse d = Some (Some x, d\<lparr>db_file := Some (t, file_text line ys)\<rparr>)"
      using less.prems(2) ys(2) Cons by (simp add: db_get_def)
    ultimately show ?thesis using Cons by (auto intro: reads_next)
  qed
qed

text \<open>The lookup of a routine whose three operations work on the file \<open>path\<close>, from the closed state.\<close>

lemma db_lookup_items:
  assumes "list_all (item_ok ok) xs" "net_files env path = Some (file_text line xs)"
    and "\<And>f d. setent f d = Some (db_set env path f d)" "getent = db_get env path parse" "endent = db_end"
  shows "db_lookup setent getent endent match closed_db = Some (List.find match (entries xs), closed_db)"
proof -
  let ?d = "\<lparr>db_file = Some (file_text line xs, file_text line xs), db_stayopen = 0\<rparr>"
  have "db_set env path 0 closed_db = ?d"
    using assms(2) by (simp add: db_set_def db_open_def closed_db_def)
  with db_find_items [OF assms(1), of ?d "file_text line xs" env path match] assms show ?thesis
    by (auto simp: db_lookup_def closed_db_def db_end_def)
qed

end

text \<open>Numbers.\<close>

lemma digits_value_append:
  "\<forall>c \<in> set ds. isdigit c \<Longrightarrow> digits_value v (ds @ s) = digits_value (digits_value v ds) s"
  by (induction v ds rule: digits_value.induct) auto

lemma digits_value_stop: "s = [] \<or> \<not> isdigit (hd s) \<Longrightarrow> digits_value v s = v"
  by (cases s) auto

lemma digits_value_dec: "digits_value 0 (dec_string n) = n"
proof (induction n rule: dec_string.induct)
  case (1 n)
  show ?case
  proof (cases "n < 10")
    case True
    then show ?thesis by (subst dec_string.simps) (simp add: chr_code_digit_char)
  next
    case False
    then have "digits_value 0 (dec_string n) = digits_value (n div 10) [digit_char (n mod 10)]"
      using 1 by (subst dec_string.simps) (simp add: digits_value_append dec_string_digits)
    then show ?thesis by (simp add: chr_code_digit_char)
  qed
qed

lemma isdigit_not_space: "isdigit c \<Longrightarrow> \<not> isspace c \<and> c \<noteq> CHR ''-'' \<and> c \<noteq> CHR ''+'' \<and> \<not> blank c \<and> c \<noteq> newline \<and> c \<noteq> NUL \<and>
    c \<noteq> CHR ''#'' \<and> c \<noteq> CHR '','' \<and> c \<noteq> CHR ''/''"
  by (auto simp: ctype_simps newline_def NUL_def)

lemma atoi_dec:
  assumes "s = [] \<or> \<not> isdigit (hd s)" "n < 2 ^ 31"
  shows "atoi (dec_string n @ s) = Some (int n)"
proof -
  obtain c r where d: "dec_string n = c # r" using dec_string_not_Nil by (cases "dec_string n") auto
  have c: "isdigit c" using dec_string_digits [of c n] d by simp
  have "digits_value 0 (dec_string n @ s) = n"
    using assms by (simp add: digits_value_append dec_string_digits digits_value_dec digits_value_stop)
  moreover have "dropWhile isspace (dec_string n @ s) = dec_string n @ s"
    using isdigit_not_space [OF c] by (simp add: d)
  ultimately show ?thesis
    using isdigit_not_space [OF c] assms by (simp add: atoi_def d Let_def)
qed

lemma dec_string_chars: "c \<in> set (dec_string n) \<Longrightarrow> isdigit c"
  by (simp add: dec_string_digits)

lemma dec_string_word: "word_text (dec_string n)"
  using dec_string_chars isdigit_not_space by (fastforce simp: word_text_def)

end
