(* ===== verification/Net_Db.thy ===== *)
theory Net_Db
  imports Text_Db Inet_Addr
begin

text \<open>
  The databases of services, protocols and networks: \<open>gsrvent.c\<close>, \<open>gsrvbynm.c\<close>, \<open>gsrvbypt.c\<close>, \<open>gprtent.c\<close>,
  \<open>gprtbynm.c\<close>, \<open>gprtbyn2.c\<close>, \<open>gnetent.c\<close>, \<open>gnetbynm.c\<close>, \<open>gnetbyad.c\<close>. Each has its three operations and its
  parser, each parser interprets the interface \<open>text_db\<close>.
\<close>

abbreviation (input) eol :: string where "eol \<equiv> [CHR ''#'', newline]"

section \<open>Services\<close>

record servent =
  s_name :: string
  s_aliases :: "string list"
  s_port :: u16
  s_proto :: string

text \<open>The body of the loop in \<open>getservent\<close>.\<close>

definition parse_serv :: "string \<Rightarrow> servent option option" where
  "parse_serv p =
     (if p \<noteq> [] \<and> hd p = CHR ''#'' then Some None
      else if strpbrk p eol = [] then Some None
      else (let p = before p eol; name = before p blanks in
        if strpbrk p blanks = [] then Some None
        else (let p = dropWhile blank (tl (strpbrk p blanks)) in
          if strpbrk p '',/'' = [] then Some None
          else (let cp = tl (strpbrk p '',/'') in do {
            port \<leftarrow> atoi (before p '',/'');
            Some (Some \<lparr>s_name = name, s_aliases = alias_loop [] (tl (strpbrk cp blanks)),
              s_port = htons (of_int port), s_proto = before cp blanks\<rparr>)
          }))))"

definition serv_path :: "net_env \<Rightarrow> string option" where
  "serv_path env = db_path env ''services'' ''/services'' 1024"

definition setservent :: "net_env \<Rightarrow> int \<Rightarrow> db \<Rightarrow> db option" where
  "setservent env f d = do { path \<leftarrow> serv_path env; Some (db_set env path f d) }"

definition endservent :: "db \<Rightarrow> db" where
  "endservent = db_end"

definition getservent :: "net_env \<Rightarrow> db \<Rightarrow> (servent option \<times> db) option" where
  "getservent env d = do { path \<leftarrow> serv_path env; db_get env path parse_serv d }"

definition getservbyname :: "net_env \<Rightarrow> string \<Rightarrow> string option \<Rightarrow> db \<Rightarrow> (servent option \<times> db) option" where
  "getservbyname env name proto =
     db_lookup (setservent env) (getservent env) endservent
       (\<lambda>p. (name = s_name p \<or> name \<in> set (s_aliases p)) \<and> (proto = None \<or> proto = Some (s_proto p)))"

text \<open>
  \<open>port\<close> is in network byte order. \<open>s_port\<close> is a \<open>short\<close>, so a port whose low byte exceeds 127 is a negative number
  in the comparison.
\<close>

definition getservbyport :: "net_env \<Rightarrow> int \<Rightarrow> string option \<Rightarrow> db \<Rightarrow> (servent option \<times> db) option" where
  "getservbyport env port proto =
     db_lookup (setservent env) (getservent env) endservent
       (\<lambda>p. sint (s_port p) = port \<and> (proto = None \<or> proto = Some (s_proto p)))"

section \<open>Protocols\<close>

record protoent =
  p_name :: string
  p_aliases :: "string list"
  p_proto :: u16

definition parse_proto :: "string \<Rightarrow> protoent option option" where
  "parse_proto p =
     (if p \<noteq> [] \<and> hd p = CHR ''#'' then Some None
      else if strpbrk p eol = [] then Some None
      else (let p = before p eol in
        if strpbrk p blanks = [] then Some None
        else (let cp = dropWhile blank (tl (strpbrk p blanks)) in do {
          num \<leftarrow> atoi (before cp blanks);
          Some (Some \<lparr>p_name = before p blanks, p_aliases = alias_loop [] (tl (strpbrk cp blanks)), p_proto = of_int num\<rparr>)
        })))"

definition proto_path :: "net_env \<Rightarrow> string option" where
  "proto_path env = db_path env ''protocols'' ''/protocol'' 1024"

definition setprotoent :: "net_env \<Rightarrow> int \<Rightarrow> db \<Rightarrow> db option" where
  "setprotoent env f d = do { path \<leftarrow> proto_path env; Some (db_set env path f d) }"

definition endprotoent :: "db \<Rightarrow> db" where
  "endprotoent = db_end"

definition getprotoent :: "net_env \<Rightarrow> db \<Rightarrow> (protoent option \<times> db) option" where
  "getprotoent env d = do { path \<leftarrow> proto_path env; db_get env path parse_proto d }"

definition getprotobyname :: "net_env \<Rightarrow> string \<Rightarrow> db \<Rightarrow> (protoent option \<times> db) option" where
  "getprotobyname env name =
     db_lookup (setprotoent env) (getprotoent env) endprotoent (\<lambda>p. p_name p = name \<or> name \<in> set (p_aliases p))"

definition getprotobynumber :: "net_env \<Rightarrow> int \<Rightarrow> db \<Rightarrow> (protoent option \<times> db) option" where
  "getprotobynumber env proto =
     db_lookup (setprotoent env) (getprotoent env) endprotoent (\<lambda>p. sint (p_proto p) = proto)"

section \<open>Networks\<close>

record netent =
  n_name :: string
  n_aliases :: "string list"
  n_addrtype :: int
  n_net :: u32

text \<open>
  Without a blank behind the number, \<open>cp\<close> still points to the number when the aliases are collected.
\<close>

definition parse_net :: "string \<Rightarrow> netent option option" where
  "parse_net p =
     (if p \<noteq> [] \<and> hd p = CHR ''#'' then Some None
      else if strpbrk p eol = [] then Some None
      else (let p = before p eol in
        if strpbrk p blanks = [] then Some None
        else (let cp = dropWhile blank (tl (strpbrk p blanks)); num = before cp blanks in do {
          n \<leftarrow> inet_network num;
          Some (Some \<lparr>n_name = before p blanks,
            n_aliases = alias_loop [] (if strpbrk cp blanks \<noteq> [] then tl (strpbrk cp blanks) else num),
            n_addrtype = AF_INET, n_net = n\<rparr>)
        })))"

definition net_path :: "net_env \<Rightarrow> string option" where
  "net_path env = db_path env ''networks'' ''/networks'' 1024"

definition setnetent :: "net_env \<Rightarrow> int \<Rightarrow> db \<Rightarrow> db option" where
  "setnetent env f d = do { path \<leftarrow> net_path env; Some (db_set env path f d) }"

definition endnetent :: "db \<Rightarrow> db" where
  "endnetent = db_end"

definition getnetent :: "net_env \<Rightarrow> db \<Rightarrow> (netent option \<times> db) option" where
  "getnetent env d = do { path \<leftarrow> net_path env; db_get env path parse_net d }"

definition getnetbyname :: "net_env \<Rightarrow> string \<Rightarrow> db \<Rightarrow> (netent option \<times> db) option" where
  "getnetbyname env name =
     db_lookup (setnetent env) (getnetent env) endnetent (\<lambda>p. n_name p = name \<or> name \<in> set (n_aliases p))"

definition getnetbyaddr :: "net_env \<Rightarrow> u32 \<Rightarrow> int \<Rightarrow> db \<Rightarrow> (netent option \<times> db) option" where
  "getnetbyaddr env net type =
     db_lookup (setnetent env) (getnetent env) endnetent (\<lambda>p. n_addrtype p = type \<and> n_net p = net)"

section \<open>Written entries\<close>

definition serv_line :: "servent \<Rightarrow> string" where
  "serv_line e = s_name e @ '' '' @ dec_string (unat (htons (s_port e))) @ ''/'' @ s_proto e @ render_names (s_aliases e)"

definition proto_line :: "protoent \<Rightarrow> string" where
  "proto_line e = p_name e @ '' '' @ dec_string (unat (p_proto e)) @ render_names (p_aliases e)"

definition net_line :: "netent \<Rightarrow> string" where
  "net_line e = n_name e @ '' '' @ inet_ntoa (htonl (n_net e)) @ render_names (n_aliases e)"

definition names_ok :: "string \<Rightarrow> string list \<Rightarrow> bool" where
  "names_ok name aliases \<longleftrightarrow> word_text name \<and> list_all word_text aliases \<and> length aliases < MAXALIASES"

definition serv_ok :: "servent \<Rightarrow> bool" where
  "serv_ok e \<longleftrightarrow> names_ok (s_name e) (s_aliases e) \<and> word_text (s_proto e) \<and> full_line (serv_line e)"

definition proto_ok :: "protoent \<Rightarrow> bool" where
  "proto_ok e \<longleftrightarrow> names_ok (p_name e) (p_aliases e) \<and> full_line (proto_line e)"

definition net_ok :: "netent \<Rightarrow> bool" where
  "net_ok e \<longleftrightarrow> names_ok (n_name e) (n_aliases e) \<and> n_aliases e \<noteq> [] \<and> n_addrtype e = AF_INET \<and> full_line (net_line e)"

lemma line_body:
  assumes "CHR ''#'' \<notin> set l" "newline \<notin> set l" "l \<noteq> []"
  shows "before (l @ [newline]) eol = l" "strpbrk (l @ [newline]) eol = [newline]" "hd (l @ [newline]) \<noteq> CHR ''#''"
proof -
  have "\<forall>c \<in> set l. c \<notin> set eol" using assms by auto
  then show "before (l @ [newline]) eol = l" "strpbrk (l @ [newline]) eol = [newline]"
    by (simp_all add: before_append strpbrk_append)
  show "hd (l @ [newline]) \<noteq> CHR ''#''" using assms by (cases l) auto
qed

lemma word_text_chars: "word_text w \<Longrightarrow> CHR ''#'' \<notin> set w \<and> newline \<notin> set w \<and> w \<noteq> [] \<and> \<not> blank (hd w)"
  by (cases w) (auto simp: word_text_def)

lemma names_chars: "list_all word_text ws \<Longrightarrow> CHR ''#'' \<notin> set (render_names ws) \<and> newline \<notin> set (render_names ws)"
  by (induction ws) (auto simp: word_text_def newline_def)

lemma word_blank:
  assumes "word_text w"
  shows "before (w @ CHR '' '' # s) blanks = w" "strpbrk (w @ CHR '' '' # s) blanks = CHR '' '' # s"
    "before (w @ render_names ws) blanks = w" "strpbrk (w @ render_names ws) blanks = render_names ws"
  using word_text_blank [OF assms] by (simp_all only: before_append strpbrk_append before_names strpbrk_names) simp_all

lemma dropWhile_word: "word_text w \<Longrightarrow> dropWhile blank (w @ s) = w @ s"
  by (cases w) (auto simp: word_text_def)

lemma alias_loop_ok:
  "names_ok name ws \<Longrightarrow> alias_loop [] (tl (render_names ws)) = ws"
  by (simp add: names_ok_def alias_loop_tl_names alias_loop_names MAXALIASES_def)

lemma htons_htons [simp]: "htons (htons w) = w"
  unfolding htons_def by (rule bit_word_eqI) (auto simp: bit_simps)


lemma dec_string_no: "\<not> isdigit c \<Longrightarrow> c \<notin> set (dec_string n)"
  using dec_string_chars by blast

lemma dec_no_hash: "CHR ''#'' \<notin> set (dec_string n)" "newline \<notin> set (dec_string n)"
  by (rule dec_string_no, simp add: ctype_simps newline_def)+

lemma parse_serv_line:
  assumes "serv_ok e"
  shows "parse_serv (serv_line e @ [newline]) = Some (Some e)"
proof -
  let ?d = "dec_string (unat (htons (s_port e)))" and ?ws = "render_names (s_aliases e)"
  have w: "word_text (s_name e)" "word_text (s_proto e)" "list_all word_text (s_aliases e)" "names_ok (s_name e) (s_aliases e)"
    using assms by (simp_all add: serv_ok_def names_ok_def)
  have l: "CHR ''#'' \<notin> set (serv_line e)" "newline \<notin> set (serv_line e)" "serv_line e \<noteq> []"
    using w word_text_chars names_chars dec_no_hash
    by (simp_all add: serv_line_def) (auto simp: newline_def)
  note body = line_body [OF l]
  have name: "before (serv_line e) blanks = s_name e" "tl (strpbrk (serv_line e) blanks) = ?d @ ''/'' @ s_proto e @ ?ws"
    "strpbrk (serv_line e) blanks \<noteq> []"
    using word_blank(1,2) [OF w(1)] by (simp_all add: serv_line_def)
  have d: "dropWhile blank (?d @ ''/'' @ s_proto e @ ?ws) = ?d @ ''/'' @ s_proto e @ ?ws"
    by (rule dropWhile_word [OF dec_string_word])
  have nd: "\<forall>c \<in> set ?d. c \<notin> set '',/''" using dec_string_chars isdigit_not_space by fastforce
  have num: "before (?d @ ''/'' @ s_proto e @ ?ws) '',/'' = ?d" "strpbrk (?d @ ''/'' @ s_proto e @ ?ws) '',/'' = ''/'' @ s_proto e @ ?ws"
    using before_append [OF nd] strpbrk_append [OF nd] by simp_all
  have "unat (htons (s_port e)) < 2 ^ 16" using unsigned_less [of "htons (s_port e)", where ?'a = nat] by simp
  then have "atoi ?d = Some (int (unat (htons (s_port e))))"
    using atoi_dec [of "[]"] by simp
  moreover have "htons (of_int (int (unat (htons (s_port e))))) = s_port e" by simp
  moreover have "before (s_proto e @ ?ws) blanks = s_proto e" "strpbrk (s_proto e @ ?ws) blanks = ?ws"
    using word_blank(3,4) [OF w(2)] by simp_all
  ultimately show ?thesis
    using body name d num alias_loop_ok [OF w(4)]
    by (simp add: parse_serv_def Let_def)
qed

lemma line_split:
  assumes "names_ok name aliases" "word_text num" "l = name @ '' '' @ num @ render_names aliases"
  shows "before (l @ [newline]) eol = l" "strpbrk (l @ [newline]) eol = [newline]" "hd (l @ [newline]) \<noteq> CHR ''#''"
    "before l blanks = name" "strpbrk l blanks \<noteq> []"
    "dropWhile blank (tl (strpbrk l blanks)) = num @ render_names aliases"
    "before (num @ render_names aliases) blanks = num"
    "strpbrk (num @ render_names aliases) blanks = render_names aliases"
proof -
  have w: "word_text name" "list_all word_text aliases" using assms(1) by (simp_all add: names_ok_def)
  have "CHR ''#'' \<notin> set l" "newline \<notin> set l" "l \<noteq> []"
    using w assms(2) word_text_chars names_chars by (simp_all add: assms(3)) (auto simp: newline_def)
  then show "before (l @ [newline]) eol = l" "strpbrk (l @ [newline]) eol = [newline]" "hd (l @ [newline]) \<noteq> CHR ''#''"
    by (rule line_body)+
  have s: "strpbrk l blanks = '' '' @ num @ render_names aliases"
    using word_blank(2) [OF w(1)] by (simp add: assms(3))
  show "before l blanks = name" using word_blank(1) [OF w(1)] by (simp add: assms(3))
  show "strpbrk l blanks \<noteq> []" by (simp add: s)
  show "dropWhile blank (tl (strpbrk l blanks)) = num @ render_names aliases"
    using dropWhile_word [OF assms(2)] by (simp add: s)
  show "before (num @ render_names aliases) blanks = num" "strpbrk (num @ render_names aliases) blanks = render_names aliases"
    by (rule word_blank [OF assms(2)])+
qed

lemma parse_proto_line:
  assumes "proto_ok e"
  shows "parse_proto (proto_line e @ [newline]) = Some (Some e)"
proof -
  have n: "names_ok (p_name e) (p_aliases e)" using assms by (simp add: proto_ok_def)
  note sp = line_split [OF n dec_string_word proto_line_def]
  have "unat (p_proto e) < 2 ^ 31" using unsigned_less [of "p_proto e", where ?'a = nat] by simp
  then have "atoi (dec_string (unat (p_proto e))) = Some (int (unat (p_proto e)))"
    using atoi_dec [of "[]"] by simp
  then show ?thesis
    using sp alias_loop_ok [OF n] by (simp add: parse_proto_def Let_def)
qed

lemma ntoa_word: "word_text (inet_ntoa a)"
proof -
  have "c = CHR ''.'' \<or> isdigit c" if "c \<in> set (inet_ntoa a)" for c
    using that dec_string_chars by (auto simp: inet_ntoa_def ntoa_byte_def)
  moreover have "inet_ntoa a \<noteq> []" by (simp add: inet_ntoa_def)
  ultimately show ?thesis
    using isdigit_not_space unfolding word_text_def by (fastforce simp: blank_def newline_def NUL_def)
qed

lemma parse_net_line:
  assumes "net_ok e"
  shows "parse_net (net_line e @ [newline]) = Some (Some e)"
proof -
  have n: "names_ok (n_name e) (n_aliases e)" and a: "n_aliases e \<noteq> []" "n_addrtype e = AF_INET"
    using assms by (simp_all add: net_ok_def)
  note sp = line_split [OF n ntoa_word net_line_def]
  have "render_names (n_aliases e) \<noteq> []" using a by (cases "n_aliases e") simp_all
  then show ?thesis
    using sp alias_loop_ok [OF n] a network_ntoa [of "htonl (n_net e)"]
    by (simp add: parse_net_def Let_def)
qed

section \<open>The three readers keep the interface\<close>

interpretation serv: text_db parse_serv serv_line serv_ok
  by unfold_locales (simp_all add: parse_serv_line serv_ok_def, simp add: parse_serv_def)

interpretation proto: text_db parse_proto proto_line proto_ok
  by unfold_locales (simp_all add: parse_proto_line proto_ok_def, simp add: parse_proto_def)

interpretation net: text_db parse_net net_line net_ok
  by unfold_locales (simp_all add: parse_net_line net_ok_def, simp add: parse_net_def)

section \<open>Properties\<close>

lemma htons_positive:
  assumes "\<not> bit p 7"
  shows "sint (htons p) = uint (htons p)"
proof -
  have "\<not> bit (htons p) 15" using assms bit_imp_le_length [of p 23] by (auto simp: htons_def bit_simps)
  then have n: "\<not> bit (uint (htons p)) 15" by (simp add: bit_uint_iff)
  have "bit (uint (htons p)) k \<Longrightarrow> k < 15" for k
    using n bit_imp_le_length [of "htons p" k] by (cases "k = 15") (auto simp: bit_uint_iff)
  then have "take_bit 15 (uint (htons p)) = uint (htons p)" by (intro bit_eqI) (auto simp: bit_take_bit_iff)
  then show ?thesis using n by (simp add: sint_uint signed_take_bit_eq_if_positive)
qed

text \<open>C20: over a services file of entries and comments, \<open>getservbyname\<close> returns the first entry with the name (or alias) and
  the protocol asked for, and \<open>getservbyport\<close> with the int \<open>htons\<close> gives for a port whose low byte is below 128 the
  first entry with that port and the protocol; without one they return a null pointer. The file is closed again. (For
  the other ports see \<open>high_port_never_found\<close>.)\<close>

theorem services_lookup:
  assumes "serv_path env = Some path" "net_files env path = Some (file_text serv_line xs)" "list_all (item_ok serv_ok) xs"
    and "\<not> bit port 7"
  shows "getservbyname env name proto closed_db = Some (List.find (\<lambda>e. (name = s_name e \<or> name \<in> set (s_aliases e)) \<and>
       (proto = None \<or> proto = Some (s_proto e))) (entries xs), closed_db) \<and>
     getservbyport env (uint (htons port)) proto closed_db = Some (List.find (\<lambda>e. s_port e = htons port \<and>
       (proto = None \<or> proto = Some (s_proto e))) (entries xs), closed_db)"
proof -
  have "setservent env f d = Some (db_set env path f d)" for f d by (simp add: setservent_def assms(1))
  moreover have "getservent env = db_get env path parse_serv" by (simp add: getservent_def assms(1) fun_eq_iff)
  ultimately show ?thesis
    using serv.db_lookup_items [OF assms(3,2), of "setservent env" "getservent env" endservent]
    by (simp add: getservbyname_def getservbyport_def endservent_def word_eq_iff_signed [symmetric]
        htons_positive [OF assms(4), symmetric])
qed

text \<open>A services file to try the lookups on.\<close>

definition demo_env :: "string \<Rightarrow> net_env" where
  "demo_env text = \<lparr>net_files = (\<lambda>_. Some text), net_getenv = (\<lambda>_. Some ''C:''), net_cfg = None\<rparr>"

definition demo_services :: "(string + servent) list" where
  "demo_services = [Inl '' network services'',
     Inr \<lparr>s_name = ''smtp'', s_aliases = [''mail''], s_port = htons 25, s_proto = ''tcp''\<rparr>,
     Inr \<lparr>s_name = ''https'', s_aliases = [], s_port = htons 443, s_proto = ''tcp''\<rparr>]"

lemma demo_services_ok: "list_all (item_ok serv_ok) demo_services"
  by (simp add: demo_services_def serv_ok_def names_ok_def word_text_def full_line_def blank_def newline_def NUL_def
      BUFSIZ_def MAXALIASES_def serv_line_def dec_string.simps digit_char_def char_of_def)

lemma demo_path: "serv_path (demo_env t) = Some ''C:/services''" "net_files (demo_env t) p = Some t"
  by (simp_all add: serv_path_def db_path_def demo_env_def)

theorem services_lookup_witness:
  "getservbyname (demo_env (file_text serv_line demo_services)) ''mail'' (Some ''tcp'') closed_db
   = Some (Some \<lparr>s_name = ''smtp'', s_aliases = [''mail''], s_port = htons 25, s_proto = ''tcp''\<rparr>, closed_db) \<and>
   getservbyport (demo_env (file_text serv_line demo_services)) (uint (htons 25)) (Some ''tcp'') closed_db
   = Some (Some \<lparr>s_name = ''smtp'', s_aliases = [''mail''], s_port = htons 25, s_proto = ''tcp''\<rparr>, closed_db)"
proof -
  have "\<not> bit (25 :: u16) 7" by code_simp
  from services_lookup [OF demo_path demo_services_ok this, of "''mail''" "Some ''tcp''"] show ?thesis
    by (simp add: demo_services_def)
qed

text \<open>The port of an entry is a signed short: a port passed as \<open>htons\<close> gives it is never found once
  its low byte exceeds 127 (443, for example), whatever the file says.\<close>

theorem high_port_never_found:
  assumes "serv_path env = Some path" "net_files env path = Some (file_text serv_line xs)" "list_all (item_ok serv_ok) xs"
    and "bit (htons p) 15"
  shows "getservbyport env (uint (htons p)) proto closed_db = Some (None, closed_db)"
proof -
  have s: "setservent env f d = Some (db_set env path f d)" for f d by (simp add: setservent_def assms(1))
  have g: "getservent env = db_get env path parse_serv" by (simp add: getservent_def assms(1) fun_eq_iff)
  have "sint w \<noteq> uint (htons p)" for w :: u16
  proof
    assume "sint w = uint (htons p)"
    moreover have "sint w < 2 ^ 15" using sint_lt [of w] by simp
    moreover have "2 ^ 15 \<le> uint (htons p)"
    proof (rule ccontr)
      assume "\<not> 2 ^ 15 \<le> uint (htons p)"
      then have "uint (htons p) div 2 ^ 15 = 0" by simp
      then have "\<not> bit (uint (htons p)) 15" by (simp add: bit_iff_odd)
      with assms(4) show False by (simp add: bit_uint_iff)
    qed
    ultimately show False by simp
  qed
  then have "List.find (\<lambda>e. sint (s_port e) = uint (htons p) \<and> (proto = None \<or> proto = Some (s_proto e))) (entries xs) = None"
    by (simp add: find_None_iff)
  with serv.db_lookup_items [OF assms(3,2), of "setservent env" "getservent env" endservent] s g show ?thesis
    by (simp add: getservbyport_def endservent_def)
qed

theorem high_port_never_found_witness:
  "getservbyport (demo_env (file_text serv_line demo_services)) (uint (htons 443)) (Some ''tcp'') closed_db = Some (None, closed_db)"
proof -
  have "bit (htons 443) 15" by code_simp
  from high_port_never_found [OF demo_path demo_services_ok this] show ?thesis .
qed

text \<open>Over a protocols file the lookups return the first entry of the name or number.\<close>

theorem protocols_lookup:
  assumes "proto_path env = Some path" "net_files env path = Some (file_text proto_line xs)" "list_all (item_ok proto_ok) xs"
  shows "getprotobyname env name closed_db
       = Some (List.find (\<lambda>e. p_name e = name \<or> name \<in> set (p_aliases e)) (entries xs), closed_db) \<and>
     getprotobynumber env n closed_db = Some (List.find (\<lambda>e. sint (p_proto e) = n) (entries xs), closed_db)"
proof -
  have "setprotoent env f d = Some (db_set env path f d)" for f d by (simp add: setprotoent_def assms(1))
  moreover have "getprotoent env = db_get env path parse_proto" by (simp add: getprotoent_def assms(1) fun_eq_iff)
  ultimately show ?thesis
    using proto.db_lookup_items [OF assms(3,2), of "setprotoent env" "getprotoent env" endprotoent]
    by (simp add: getprotobyname_def getprotobynumber_def endprotoent_def)
qed

text \<open>Over a networks file whose entries have an alias, the first entry of the name or number.\<close>

theorem networks_lookup:
  assumes "net_path env = Some path" "net_files env path = Some (file_text net_line xs)" "list_all (item_ok net_ok) xs"
  shows "getnetbyname env name closed_db
       = Some (List.find (\<lambda>e. n_name e = name \<or> name \<in> set (n_aliases e)) (entries xs), closed_db) \<and>
     getnetbyaddr env a AF_INET closed_db
       = Some (List.find (\<lambda>e. n_addrtype e = AF_INET \<and> n_net e = a) (entries xs), closed_db)"
proof -
  have "setnetent env f d = Some (db_set env path f d)" for f d by (simp add: setnetent_def assms(1))
  moreover have "getnetent env = db_get env path parse_net" by (simp add: getnetent_def assms(1) fun_eq_iff)
  ultimately show ?thesis
    using net.db_lookup_items [OF assms(3,2), of "setnetent env" "getnetent env" endnetent]
    by (simp add: getnetbyname_def getnetbyaddr_def endnetent_def)
qed

text \<open>An entry without an alias gets the text of its number for one.\<close>

theorem network_number_alias:
  assumes "word_text name" "e = \<lparr>n_name = name, n_aliases = [], n_addrtype = AF_INET, n_net = a\<rparr>"
  shows "parse_net (net_line e @ [newline]) = Some (Some (e\<lparr>n_aliases := [inet_ntoa (htonl a)]\<rparr>))"
proof -
  have n: "names_ok (n_name e) (n_aliases e)" using assms by (simp add: names_ok_def MAXALIASES_def)
  have "alias_loop [] (inet_ntoa (htonl a)) = [inet_ntoa (htonl a)]"
    using alias_loop_names [of "[inet_ntoa (htonl a)]" "[]"] ntoa_word [of "htonl a"]
    by (simp add: alias_loop_blank MAXALIASES_def)
  then show ?thesis
    using line_split [OF n ntoa_word net_line_def] network_ntoa [of "htonl a"] assms(2)
    by (simp add: parse_net_def Let_def)
qed

end
