(* ===== verification/Host_Name.thy ===== *)
theory Host_Name
  imports Text_Db Addr_Config
begin

text \<open>
  The names of the host: \<open>src/hstnm.c\<close>, the node name of \<open>src/uname.c\<close> and the DOS routine of
  \<open>src/oldlibc/gethostn.c\<close>. The static names are strings in buffers of \<open>MAXGETHOSTNAME\<close> bytes; \<open>strdup\<close> of the C
  library of DJGPP passes a null pointer on.
\<close>

record host_names =
  hn_host :: string
  hn_node :: string
  hn_domain :: string
  hn_got_host :: bool
  hn_got_node :: bool
  hn_got_domain :: bool
  hn_errno :: errno_t

definition no_names :: host_names where
  "no_names = \<lparr>hn_host = [], hn_node = [], hn_domain = [], hn_got_host = False, hn_got_node = False, hn_got_domain = False,
     hn_errno = ENOERR\<rparr>"

text \<open>
  Beside files and environment: the addresses of the interfaces in \<open>__lsck_interface\<close>, the machine name DOS
  reports, and which allocations succeed. In \<open>gethostname\<close> these are the \<open>strdup\<close> of the name kept and of the
  environment's, the two \<open>malloc\<close> and the \<open>strdup\<close> of the name of interface i; in \<open>src/dnsaddr.c\<close> the two
  arrays, the \<open>strdup\<close> of the address in line i of \<open>resolv.conf\<close> and that of entry i of the list.
\<close>

datatype allocation = Dup_Kept | Dup_Env | Buf_Config | Buf_Dos | Dup_If nat
  | Conf_Array | Conf_Dup nat | Dns_Array | Dns_Dup nat

record host_env = net_env +
  he_addrs :: "addr_table option list"
  he_dos_name :: "string option"
  he_malloc :: "allocation \<Rightarrow> bool"

text \<open>\<open>__old_djgpp_libc_gethostname (buf, size)\<close>: the name stored, \<open>None\<close> for -1.\<close>

definition old_gethostname :: "host_env \<Rightarrow> nat \<Rightarrow> string option" where
  "old_gethostname env bufsize =
     (let h = (case he_dos_name env of
                 Some n \<Rightarrow> rev (dropWhile (\<lambda>c. c = CHR '' '') (rev n))
               | None \<Rightarrow> (case net_getenv env ''HOSTNAME'' of Some h \<Rightarrow> h | None \<Rightarrow> ''pc''))
      in if length h + 1 > bufsize then None else Some h)"

definition inet_tables :: "addr_table option list \<Rightarrow> addr_inet list" where
  "inet_tables addrs = concat (map (\<lambda>t. case t of
     None \<Rightarrow> [] | Some t \<Rightarrow> if table_family t = AF_INET then table_inet t else []) addrs)"

text \<open>\<open>strdup\<close>, of a null pointer too.\<close>

definition try_strdup :: "host_env \<Rightarrow> allocation \<Rightarrow> string option \<Rightarrow> string option" where
  "try_strdup env k p = (if he_malloc env k then p else None)"

text \<open>
  The name in the configuration, and the first name an interface has; where it cannot be duplicated, the next
  interface is looked at.
\<close>

definition config_hostname :: "host_env \<Rightarrow> string option option" where
  "config_hostname env = (case net_cfg env of
     None \<Rightarrow> Some None
   | Some x \<Rightarrow> do {
       (ret, d) \<leftarrow> GetPrivateProfileString (net_files env) (Some ''main'') (Some ''hostname'') None MAXGETHOSTNAME x;
       Some (if ret = 0 then None else d)
     })"

fun if_hostname :: "host_env \<Rightarrow> nat \<Rightarrow> addr_table option list \<Rightarrow> string option" where
  "if_hostname env i [] = None"
| "if_hostname env i (t # ts) =
     (case (case t of None \<Rightarrow> None
            | Some t \<Rightarrow> if table_family t \<noteq> AF_INET then None
                        else List.find (\<lambda>h. h \<noteq> []) (map inet_hostname (table_inet t))) of
        Some h \<Rightarrow> if he_malloc env (Dup_If i) then Some h else if_hostname env (i + 1) ts
      | None \<Rightarrow> if_hostname env (i + 1) ts)"

text \<open>
  Where the name comes from: the one kept, the environment, the configuration, the interfaces, DOS. \<open>Some None\<close> is the
  failure of \<open>malloc\<close>; a name DOS cannot store leaves the new buffer undefined.
\<close>

definition hostname_source :: "host_env \<Rightarrow> host_names \<Rightarrow> string option option" where
  "hostname_source env st =
     (let p = (if hn_got_host st then try_strdup env Dup_Kept (Some (hn_host st)) else None);
          p = (if p = None then try_strdup env Dup_Env (net_getenv env ''HOSTNAME'') else p)
      in case p of
        Some p \<Rightarrow> Some (Some p)
      | None \<Rightarrow>
          if \<not> he_malloc env Buf_Config then Some None
          else do {
            p \<leftarrow> config_hostname env;
            (case p of
               Some p \<Rightarrow> Some (Some p)
             | None \<Rightarrow> (case if_hostname env 0 (he_addrs env) of
                 Some p \<Rightarrow> Some (Some p)
               | None \<Rightarrow>
                   if \<not> he_malloc env Buf_Dos then Some None
                   else do { p \<leftarrow> old_gethostname env MAXGETHOSTNAME; Some (Some p) }))
          })"

definition up_to_dot :: "string \<Rightarrow> string" where
  "up_to_dot p = takeWhile (\<lambda>c. c \<noteq> CHR ''.'') p"

text \<open>Keeping a name: the buffers hold 128 bytes. Without a dot the old domain stays.\<close>

definition keep_names :: "string \<Rightarrow> host_names \<Rightarrow> host_names option" where
  "keep_names p st =
     (if length p + 1 > MAXGETHOSTNAME then None
      else (let st = st\<lparr>hn_host := p, hn_got_host := True, hn_node := up_to_dot p, hn_got_node := True\<rparr> in
        Some (if CHR ''.'' \<in> set p
          then st\<lparr>hn_domain := tl (dropWhile (\<lambda>c. c \<noteq> CHR ''.'') p), hn_got_domain := True\<rparr> else st)))"

definition name_fail :: "errno_t \<Rightarrow> host_names \<Rightarrow> ((int \<times> string option) \<times> host_names) option" where
  "name_fail e st = Some ((-1, None), st\<lparr>hn_errno := e\<rparr>)"

text \<open>
  \<open>gethostname (buf, size)\<close>: the return value and the string stored. \<open>has_buf\<close> is whether \<open>buf\<close> is not null.
\<close>

definition gethostname :: "host_env \<Rightarrow> bool \<Rightarrow> int \<Rightarrow> host_names \<Rightarrow> ((int \<times> string option) \<times> host_names) option" where
  "gethostname env has_buf bufsize st =
     (if bufsize \<le> 0 then name_fail EINVAL st
      else if \<not> has_buf then name_fail EINVAL st
      else do {
        p \<leftarrow> hostname_source env st;
        (case p of
           None \<Rightarrow> name_fail ENOMEM st
         | Some p \<Rightarrow>
             let p = map tolower (takeWhile (\<lambda>c. c \<noteq> CHR '' '') p) in
             if int (length p + 1) > bufsize then name_fail EINVAL st
             else do { st \<leftarrow> keep_names p st; Some ((0, Some p), st) })
      })"

definition sethostname :: "string \<Rightarrow> int \<Rightarrow> host_names \<Rightarrow> (int \<times> host_names) option" where
  "sethostname buf bufsize st =
     (if bufsize \<le> 0 \<or> bufsize > int MAXGETHOSTNAME then Some (-1, st\<lparr>hn_errno := EINVAL\<rparr>)
      else do { st \<leftarrow> keep_names buf st; Some (0, st) })"

text \<open>
  \<open>getdomainname (name, len)\<close> with a buffer of \<open>room\<close> bytes (\<open>None\<close> for a null pointer). The length is not used for the copy.
\<close>

definition getdomainname :: "nat option \<Rightarrow> nat \<Rightarrow> host_names \<Rightarrow> ((int \<times> string option) \<times> host_names) option" where
  "getdomainname room len st =
     (if len = 0 \<or> len > MAXGETHOSTNAME then name_fail EINVAL st
      else (case room of
         None \<Rightarrow> name_fail EFAULT st
       | Some n \<Rightarrow> (let d = (if hn_got_domain st then hn_domain st else []) in
           if length d + 1 > n then None else Some ((0, Some d), st))))"

definition setdomainname :: "string option \<Rightarrow> nat \<Rightarrow> host_names \<Rightarrow> (int \<times> host_names) option" where
  "setdomainname name len st =
     (if len = 0 \<or> len > MAXGETHOSTNAME then Some (-1, st\<lparr>hn_errno := EINVAL\<rparr>)
      else (case name of
         None \<Rightarrow> Some (-1, st\<lparr>hn_errno := EFAULT\<rparr>)
       | Some d \<Rightarrow>
           if length d + 1 > MAXGETHOSTNAME \<or> length (hn_node st @ ''.'' @ d) + 1 > MAXGETHOSTNAME then None
           else Some (0, st\<lparr>hn_domain := d, hn_got_domain := True, hn_host := hn_node st @ ''.'' @ d, hn_got_host := True\<rparr>)))"

text \<open>
  The node name of \<open>uname\<close> in a field of \<open>nodelen\<close> bytes, once the routine of the C library has succeeded: the name
  up to the first dot, as much as fits.
\<close>

definition uname_node :: "host_env \<Rightarrow> nat \<Rightarrow> host_names \<Rightarrow> ((int \<times> string option) \<times> host_names) option" where
  "uname_node env nodelen st = do {
     ((ret, h), st) \<leftarrow> gethostname env True (int MAXGETHOSTNAME) st;
     (case h of
        Some h \<Rightarrow> if ret \<noteq> 0 then Some ((ret, None), st) else Some ((0, Some (take (nodelen - 1) (up_to_dot h))), st)
      | None \<Rightarrow> Some ((ret, None), st))
   }"

section \<open>The names agree\<close>

text \<open>
  The invariant: a host name that is known is its node name, followed by the domain when there is a dot.
\<close>

definition names_agree :: "host_names \<Rightarrow> bool" where
  "names_agree st \<longleftrightarrow> length (hn_host st) < MAXGETHOSTNAME \<and> length (hn_node st) < MAXGETHOSTNAME \<and>
     length (hn_domain st) < MAXGETHOSTNAME \<and> CHR ''.'' \<notin> set (hn_node st) \<and>
     (hn_got_host st \<longrightarrow> hn_host st = hn_node st \<or> hn_got_domain st \<and> hn_host st = hn_node st @ ''.'' @ hn_domain st)"

lemma up_to_dot_split:
  "CHR ''.'' \<in> set p \<Longrightarrow> p = up_to_dot p @ ''.'' @ tl (dropWhile (\<lambda>c. c \<noteq> CHR ''.'') p)"
  by (induction p) (auto simp: up_to_dot_def)

lemma up_to_dot_no: "CHR ''.'' \<notin> set p \<Longrightarrow> up_to_dot p = p"
  unfolding up_to_dot_def by (rule takeWhile_all) auto

lemma up_to_dot_facts: "CHR ''.'' \<notin> set (up_to_dot p)" "length (up_to_dot p) \<le> length p"
  by (auto simp: up_to_dot_def length_takeWhile_le dest: set_takeWhileD)

lemma keep_names_agree:
  assumes "keep_names p st = Some st'" "names_agree st"
  shows "names_agree st'"
proof (cases "CHR ''.'' \<in> set p")
  case True
  note sp = up_to_dot_split [OF True]
  then have "length p = length (up_to_dot p) + 1 + length (tl (dropWhile (\<lambda>c. c \<noteq> CHR ''.'') p))"
    by (metis One_nat_def add.assoc length_Cons length_append list.size(3) plus_1_eq_Suc)
  with True sp assms up_to_dot_facts show ?thesis
    by (auto simp: keep_names_def names_agree_def Let_def split: if_splits)
next
  case False
  with assms up_to_dot_facts up_to_dot_no [OF False] show ?thesis
    by (auto simp: keep_names_def names_agree_def Let_def split: if_splits)
qed

lemma name_fail_agree: "name_fail e st = Some (r, st') \<Longrightarrow> names_agree st \<Longrightarrow> names_agree st'"
  by (auto simp: name_fail_def names_agree_def)

lemma gethostname_agree:
  "gethostname env b n st = Some (r, st') \<Longrightarrow> names_agree st \<Longrightarrow> names_agree st'"
  by (auto simp: gethostname_def bind_eq_Some_conv Let_def split: if_splits option.splits
      intro: keep_names_agree name_fail_agree)

section \<open>Properties\<close>


definition demo_host_env :: host_env where
  "demo_host_env = \<lparr>net_files = (\<lambda>_. None), net_getenv = (\<lambda>_. None), net_cfg = None, he_addrs = [],
     he_dos_name = None, he_malloc = (\<lambda>_. True)\<rparr>"


text \<open>\<open>getdomainname\<close> copies the whole domain, however short the buffer is said to be.\<close>

theorem getdomainname_ignores_len:
  assumes "hn_got_domain st" "length (hn_domain st) \<ge> len" "0 < len" "len \<le> MAXGETHOSTNAME"
  shows "getdomainname (Some len) len st = None"
  using assms by (simp add: getdomainname_def)

end
