(* ===== verification/Res_Init.thy ===== *)
theory Res_Init
  imports Host_Name
begin

text \<open>
  The start of the resolver: \<open>src/inet/r_init.c\<close>, and the list of name servers it takes from \<open>src/dnsaddr.c\<close>.
  The code is compiled with \<open>RESOLVSORT\<close>, \<open>RFC1535\<close> and \<open>DEBUG\<close> (\<open>r_opts.h\<close>). \<open>_res.defdname\<close> is a buffer, the search list
  \<open>_res.dnsrch\<close> holds offsets into it, up to the null pointer at its end.
\<close>

abbreviation (input) MAXNS :: nat where "MAXNS \<equiv> 3"
abbreviation (input) MAXDNSRCH :: nat where "MAXDNSRCH \<equiv> 6"
abbreviation (input) MAXRESOLVSORT :: nat where "MAXRESOLVSORT \<equiv> 10"
abbreviation (input) RES_MAXNDOTS :: nat where "RES_MAXNDOTS \<equiv> 15"

definition MAXDNAME :: nat where "MAXDNAME = 1025"

abbreviation (input) RES_INIT :: u32 where "RES_INIT \<equiv> 0x1"
abbreviation (input) RES_DEBUG :: u32 where "RES_DEBUG \<equiv> 0x2"
abbreviation (input) RES_RECURSE :: u32 where "RES_RECURSE \<equiv> 0x40"
abbreviation (input) RES_DEFNAMES :: u32 where "RES_DEFNAMES \<equiv> 0x80"
abbreviation (input) RES_DNSRCH :: u32 where "RES_DNSRCH \<equiv> 0x200"
abbreviation (input) RES_NOALIASES :: u32 where "RES_NOALIASES \<equiv> 0x1000"
abbreviation (input) RES_DEFAULT :: u32 where "RES_DEFAULT \<equiv> 0x2c0"

record nameserver =
  ns_family :: int
  ns_port :: u16
  ns_addr :: u32

record res_state =
  res_retrans :: int
  res_retry :: int
  res_options :: u32
  res_nscount :: nat
  res_nsaddrs :: "nameserver list"
  res_id :: u16
  res_dnsrch :: "nat list"
  res_defdname :: string
  res_pfcode :: u32
  res_ndots :: nat
  res_nsort :: nat
  res_sort_list :: "(u32 \<times> u32) list"
  res_h_errno :: int
  res_errno :: errno_t
  res_names :: host_names

definition zero_res :: res_state where
  "zero_res = \<lparr>res_retrans = 0, res_retry = 0, res_options = 0, res_nscount = 0,
     res_nsaddrs = replicate MAXNS \<lparr>ns_family = 0, ns_port = 0, ns_addr = 0\<rparr>, res_id = 0, res_dnsrch = [],
     res_defdname = replicate MAXDNAME NUL, res_pfcode = 0, res_ndots = 0, res_nsort = 0,
     res_sort_list = replicate MAXRESOLVSORT (0, 0), res_h_errno = 0, res_errno = ENOERR, res_names = no_names\<rparr>"

text \<open>
  Further parameters: what the buffer for the name of \<open>resolv.conf\<close> holds when there is no configuration, and
  \<open>res_randomid\<close>.
\<close>

record res_env = host_env +
  re_junk :: string
  re_randomid :: u16

section \<open>The addresses of the name servers\<close>

text \<open>A line of \<open>resolv.conf\<close> as \<open>__lsck_resolv_conf_getdnsaddrs\<close> reads it: the text of an address.\<close>

definition dns_line :: "string \<Rightarrow> string option" where
  "dns_line buf =
     (let p = dropWhile isspace (cstr buf) in
      if p \<noteq> [] \<and> hd p = CHR ''#'' then None
      else if take 10 p \<noteq> ''nameserver'' then None
      else (let p = drop 10 p in
        if p = [] \<or> \<not> isspace (hd p) then None
        else (let a = takeWhile (\<lambda>c. isdigit c \<or> c = CHR ''.'') (dropWhile isspace p) in
          if inet_aton a = None then None else Some a)))"

text \<open>Each address is duplicated and stored at index 0: \<open>count\<close> is never increased. \<open>i\<close> counts the lines.\<close>

fun dns_lines :: "'z host_env_scheme \<Rightarrow> nat \<Rightarrow> string list \<Rightarrow> string option \<Rightarrow> string option" where
  "dns_lines env i [] first = first"
| "dns_lines env i (l # ls) first = dns_lines env (i + 1) ls (case dns_line l of
     Some a \<Rightarrow> if he_malloc env (Conf_Dup i) then Some a else None
   | None \<Rightarrow> first)"

definition resolv_conf_getdnsaddrs :: "'z host_env_scheme \<Rightarrow> string list option option" where
  "resolv_conf_getdnsaddrs env = (case net_cfg env of
     None \<Rightarrow> Some None
   | Some cfg \<Rightarrow> do {
       (_, d) \<leftarrow> GetPrivateProfileString (net_files env) (Some ''main'') (Some ''resolv.conf'') None PATH_MAX cfg;
       path \<leftarrow> d;
       (case net_files env path of
          None \<Rightarrow> Some None
        | Some text \<Rightarrow>
            if \<not> he_malloc env Conf_Array then Some None
            else Some (Some (case dns_lines env 0 (file_lines 255 text) None of None \<Rightarrow> [] | Some a \<Rightarrow> [a])))
     })"

text \<open>The servers of an interface end at the first zero.\<close>

definition if_dnsaddrs :: "addr_table option list \<Rightarrow> string list" where
  "if_dnsaddrs addrs = concat (map (\<lambda>inet. map inet_ntoa (takeWhile (\<lambda>a. a \<noteq> 0) (take LSCK_IF_ADDR_INET_DNS_MAX (inet_dns inet))))
     (inet_tables addrs))"

text \<open>The entries of the list are duplicated; for its readers it ends at the first null pointer.\<close>

fun dup_servers :: "'z host_env_scheme \<Rightarrow> nat \<Rightarrow> string list \<Rightarrow> string list" where
  "dup_servers env i [] = []"
| "dup_servers env i (a # as) = (if he_malloc env (Dns_Dup i) then a # dup_servers env (i + 1) as else [])"

definition getdnsaddrs :: "'z host_env_scheme \<Rightarrow> string list option option" where
  "getdnsaddrs env = do {
     conf \<leftarrow> resolv_conf_getdnsaddrs env;
     Some (if \<not> he_malloc env Dns_Array then None
       else Some (dup_servers env 0 ((case conf of None \<Rightarrow> [] | Some l \<Rightarrow> l) @ if_dnsaddrs (he_addrs env))))
   }"

definition getdnsaddr :: "'z host_env_scheme \<Rightarrow> string option option" where
  "getdnsaddr env = do {
     l \<leftarrow> getdnsaddrs env;
     Some (case l of None \<Rightarrow> None | Some [] \<Rightarrow> None | Some (a # _) \<Rightarrow> Some a)
   }"

section \<open>Options\<close>

definition begins :: "string \<Rightarrow> string \<Rightarrow> bool" where
  "begins s name \<longleftrightarrow> take (length name) s = name"

text \<open>\<open>_res.ndots\<close> has four bits. \<open>res_setoptions\<close> looks at the start of each word.\<close>

definition res_option :: "string \<Rightarrow> res_state \<Rightarrow> res_state option" where
  "res_option cp st =
     (if begins cp ''ndots:'' then do {
        i \<leftarrow> atoi (drop 6 cp);
        Some (st\<lparr>res_ndots := (if i \<le> int RES_MAXNDOTS then nat (i mod 16) else RES_MAXNDOTS)\<rparr>) }
      else if begins cp ''debug'' then Some (st\<lparr>res_options := res_options st OR RES_DEBUG\<rparr>)
      else Some st)"

function res_setoptions :: "string \<Rightarrow> res_state \<Rightarrow> res_state option" where
  "res_setoptions cp st =
     (if cp = [] then Some st
      else do {
        st \<leftarrow> res_option (dropWhile blank cp) st;
        res_setoptions (dropWhile (\<lambda>c. \<not> blank c) (dropWhile blank cp)) st
      })"
  by pat_completeness auto
termination
proof (relation "measure (\<lambda>(cp, st). length cp)", goal_cases)
  case (2 cp st x)
  then obtain c r where cp: "cp = c # r" by (cases cp) auto
  have "length (dropWhile (\<lambda>c. \<not> blank c) (dropWhile blank r)) \<le> length r"
    "length (dropWhile (\<lambda>c. \<not> blank c) r) \<le> length r"
    using length_dropWhile_le order_trans by blast+
  then show ?case by (simp add: cp le_imp_less_Suc)
qed simp

declare res_setoptions.simps [simp del]

section \<open>The search list\<close>

definition strncpy_buf :: "nat \<Rightarrow> string \<Rightarrow> string \<Rightarrow> string" where
  "strncpy_buf n s buf = take n (s @ replicate n NUL) @ drop n buf"

text \<open>The string in the buffer is cut at the first character of \<open>cs\<close>.\<close>

definition cut_at :: "string \<Rightarrow> string \<Rightarrow> string" where
  "cut_at cs buf = (let b = before (cstr buf) cs in if length b < length (cstr buf) then buf[length b := NUL] else buf)"

text \<open>
  The loop that makes strings of the words: \<open>pps\<close> are the pointers stored so far, \<open>n\<close> tells that a blank has been
  seen, \<open>multi\<close> that a second word has been found. In the environment (\<open>env\<close>) a newline ends the list.
\<close>

function split_search :: "bool \<Rightarrow> string \<Rightarrow> nat \<Rightarrow> nat list \<Rightarrow> bool \<Rightarrow> bool \<Rightarrow> (string \<times> nat \<times> nat list \<times> bool) option" where
  "split_search env buf cp pps n multi = do {
     c \<leftarrow> rd buf cp;
     if c = NUL \<or> length pps \<ge> MAXDNSRCH then Some (buf, cp, pps, multi)
     else if env \<and> c = newline then Some (buf, cp, pps, multi)
     else if blank c then split_search env (buf[cp := NUL]) (cp + 1) pps True multi
     else if n then split_search env buf (cp + 1) (pps @ [cp]) False True
     else split_search env buf (cp + 1) pps n multi
   }"
  by pat_completeness auto
termination
  by (relation "measure (\<lambda>(env, buf, cp, pps, n, multi). length buf - cp)") (auto simp: rd_def split: if_splits)

declare split_search.simps [simp del]

definition end_last :: "bool \<Rightarrow> string \<Rightarrow> nat \<Rightarrow> string option" where
  "end_last env buf cp =
     (let e = cp + length (takeWhile (\<lambda>c. c \<noteq> NUL \<and> \<not> blank c \<and> \<not> (env \<and> c = newline)) (drop cp buf)) in
      if e < length buf then Some (buf[e := NUL]) else None)"

definition search_list :: "bool \<Rightarrow> string \<Rightarrow> (string \<times> nat list \<times> bool) option" where
  "search_list env buf = do {
     (buf, cp, pps, multi) \<leftarrow> split_search env buf 0 [0] False False;
     buf \<leftarrow> end_last env buf cp;
     Some (buf, pps, multi)
   }"

section \<open>The sort list\<close>

definition net_mask :: "u32 \<Rightarrow> u32" where
  "net_mask a = (let i = ntohl a in
     if IN_CLASSA i then htonl 0xff000000 else if IN_CLASSB i then htonl 0xffff0000 else htonl 0xffffff00)"

definition is_sort_mask :: "char \<Rightarrow> bool" where
  "is_sort_mask c \<longleftrightarrow> c = CHR ''/'' \<or> c = CHR ''&''"

definition mask_char :: "char \<Rightarrow> bool" where
  "mask_char c \<longleftrightarrow> c \<noteq> CHR '';'' \<and> isascii c \<and> \<not> isspace c"

text \<open>
  The loop over the pairs of a \<open>sortlist\<close> line. An empty word is the address 0.0.0.0 for \<open>inet_aton\<close>, so a round without
  progress stores an entry. \<open>strchr\<close> finds the nul at the end of \<open>sort_mask\<close>, so a line that ends
  right behind an address is read past its end; that is undefined here.
\<close>

lemma inet_aton_Nil: "inet_aton [] \<noteq> None"
  by code_simp

function sortlist_loop :: "string \<Rightarrow> res_state \<Rightarrow> nat \<Rightarrow> (res_state \<times> nat) option" where
  "sortlist_loop cp st nsort =
     (if nsort < MAXRESOLVSORT then
        let cp = dropWhile blank cp in
        if cp = [] \<or> hd cp = newline \<or> hd cp = CHR '';'' then Some (st, nsort)
        else
          let net = takeWhile (\<lambda>c. \<not> is_sort_mask c \<and> mask_char c) cp;
              rest = dropWhile (\<lambda>c. \<not> is_sort_mask c \<and> mask_char c) cp in
          (case inet_aton net of
             None \<Rightarrow> sortlist_loop rest st nsort
           | Some a \<Rightarrow>
               if rest = [] then None
               else if is_sort_mask (hd rest) then
                 let mask = (case inet_aton (takeWhile mask_char (tl rest)) of Some m \<Rightarrow> m | None \<Rightarrow> net_mask a) in
                 sortlist_loop (dropWhile mask_char (tl rest)) (st\<lparr>res_sort_list := (res_sort_list st)[nsort := (a, mask)]\<rparr>) (nsort + 1)
               else sortlist_loop rest (st\<lparr>res_sort_list := (res_sort_list st)[nsort := (a, net_mask a)]\<rparr>) (nsort + 1))
      else Some (st, nsort))"
  by pat_completeness auto
termination
proof (relation "measures [\<lambda>(cp, st, n). MAXRESOLVSORT - n, \<lambda>(cp, st, n). length cp]", goal_cases)
  case (2 cp st nsort x xa xb)
  then have "xa \<noteq> []" using inet_aton_Nil by metis
  then have "length xb < length x"
    using 2(4,5) takeWhile_dropWhile_id [of "\<lambda>c. \<not> is_sort_mask c \<and> mask_char c" x]
    by (metis length_append length_greater_0_conv less_add_same_cancel2)
  moreover have "length x \<le> length cp" using 2(2) by (simp add: length_dropWhile_le)
  ultimately show ?case by simp
qed auto

declare sortlist_loop.simps [simp del]

section \<open>resolv.conf\<close>

definition conf_match :: "string \<Rightarrow> string \<Rightarrow> bool" where
  "conf_match line name \<longleftrightarrow> begins line name \<and> length name < length line \<and> blank (line ! length name)"

definition conf_domain :: "string \<Rightarrow> res_state \<Rightarrow> bool \<Rightarrow> res_state \<times> bool" where
  "conf_domain line st havesearch =
     (let cp = dropWhile blank (drop 6 line) in
      if cp = [] \<or> hd cp = newline then (st, havesearch)
      else (st\<lparr>res_defdname := cut_at (blanks @ [newline]) (strncpy_buf (MAXDNAME - 1) cp (res_defdname st))\<rparr>, False))"

definition conf_search :: "string \<Rightarrow> res_state \<Rightarrow> bool \<Rightarrow> (res_state \<times> bool) option" where
  "conf_search line st havesearch =
     (let cp = dropWhile blank (drop 6 line) in
      if cp = [] \<or> hd cp = newline then Some (st, havesearch)
      else do {
        (buf, pps, _) \<leftarrow> search_list False (cut_at [newline] (strncpy_buf (MAXDNAME - 1) cp (res_defdname st)));
        Some (st\<lparr>res_defdname := buf, res_dnsrch := pps\<rparr>, True)
      })"

definition conf_line :: "bool \<Rightarrow> string \<Rightarrow> res_state \<Rightarrow> bool \<Rightarrow> nat \<Rightarrow> (res_state \<times> bool \<times> nat) option" where
  "conf_line haveenv line st havesearch nsort =
     (if line \<noteq> [] \<and> (hd line = CHR '';'' \<or> hd line = CHR ''#'') then Some (st, havesearch, nsort)
      else if conf_match line ''domain'' then
        if haveenv then Some (st, havesearch, nsort)
        else (let (st, hs) = conf_domain line st havesearch in Some (st, hs, nsort))
      else if conf_match line ''search'' then
        if haveenv then Some (st, havesearch, nsort)
        else do { (st, hs) \<leftarrow> conf_search line st havesearch; Some (st, hs, nsort) }
      else if conf_match line ''sortlist'' then do {
        (st, nsort) \<leftarrow> sortlist_loop (drop 8 line) st nsort;
        Some (st, havesearch, nsort) }
      else if conf_match line ''options'' then do {
        st \<leftarrow> res_setoptions (drop 7 line) st;
        Some (st, havesearch, nsort) }
      else Some (st, havesearch, nsort))"

fun conf_lines :: "bool \<Rightarrow> string list \<Rightarrow> res_state \<Rightarrow> bool \<Rightarrow> nat \<Rightarrow> (res_state \<times> bool \<times> nat) option" where
  "conf_lines haveenv [] st hs nsort = Some (st, hs, nsort)"
| "conf_lines haveenv (l # ls) st hs nsort = do {
     (st, hs, nsort) \<leftarrow> conf_line haveenv (cstr l) st hs nsort;
     conf_lines haveenv ls st hs nsort
   }"

definition read_conf :: "(string \<Rightarrow> string option) \<Rightarrow> string \<Rightarrow> bool \<Rightarrow> res_state \<Rightarrow> bool \<Rightarrow> (res_state \<times> bool) option" where
  "read_conf files path haveenv st havesearch = (case files path of
     None \<Rightarrow> Some (st, havesearch)
   | Some text \<Rightarrow> do {
       (st, hs, nsort) \<leftarrow> conf_lines haveenv (file_lines (BUFSIZ - 1) text) st havesearch 0;
       Some (st\<lparr>res_nsort := nsort\<rparr>, hs)
     })"

section \<open>res_init\<close>

definition res_defaults :: "'z res_env_scheme \<Rightarrow> res_state \<Rightarrow> res_state" where
  "res_defaults env st =
     st\<lparr>res_retrans := (if res_retrans st = 0 then 5 else res_retrans st),
        res_retry := (if res_retry st = 0 then 4 else res_retry st),
        res_options := (if res_options st AND RES_INIT = 0 then RES_DEFAULT else res_options st),
        res_id := (if res_id st = 0 then re_randomid env else res_id st),
        res_nsaddrs := (res_nsaddrs st)[0 := \<lparr>ns_family = AF_INET, ns_port = htons 53, ns_addr = 0\<rparr>],
        res_nscount := 1, res_ndots := 1, res_pfcode := 0\<rparr>"

text \<open>\<open>LOCALDOMAIN\<close>; the second result is \<open>havesearch\<close>.\<close>

definition local_domain :: "string option \<Rightarrow> res_state \<Rightarrow> (res_state \<times> bool) option" where
  "local_domain v st = (case v of
     None \<Rightarrow> Some (st, False)
   | Some cp \<Rightarrow> do {
       (buf, pps, multi) \<leftarrow> search_list True (strncpy_buf (MAXDNAME - 1) cp (res_defdname st));
       Some (st\<lparr>res_defdname := buf, res_dnsrch := pps\<rparr>, multi)
     })"

text \<open>
  At most \<open>MAXNS\<close> servers are kept. A text that is no address leaves \<open>a\<close> as it was.
\<close>

fun add_servers :: "string list \<Rightarrow> nat \<Rightarrow> u32 option \<Rightarrow> res_state \<Rightarrow> res_state option" where
  "add_servers [] nserv a st = Some st"
| "add_servers (q # qs) nserv a st =
     (if nserv < MAXNS then do {
        a \<leftarrow> (case inet_aton q of Some x \<Rightarrow> Some x | None \<Rightarrow> a);
        add_servers qs (nserv + 1) (Some a)
          (st\<lparr>res_nsaddrs := (res_nsaddrs st)[nserv := \<lparr>ns_family = AF_INET, ns_port = htons 53, ns_addr = a\<rparr>],
             res_nscount := nserv + 1\<rparr>) }
      else Some st)"

text \<open>The domain of the host name, when none has been given.\<close>

definition host_domain :: "'z res_env_scheme \<Rightarrow> res_state \<Rightarrow> res_state option" where
  "host_domain env st = do {
     c \<leftarrow> rd (res_defdname st) 0;
     if c \<noteq> NUL then Some st
     else do {
       ((ret, h), ns) \<leftarrow> gethostname (host_env.truncate env) True (int MAXDNAME - 1) (res_names st);
       let st = st\<lparr>res_names := ns\<rparr>;
       (case h of
          None \<Rightarrow> Some st
        | Some h \<Rightarrow> if CHR ''.'' \<notin> set h then Some st
            else do {
              buf \<leftarrow> wr (res_defdname st) 0 (tl (dropWhile (\<lambda>c. c \<noteq> CHR ''.'') h) @ [NUL]);
              Some (st\<lparr>res_defdname := buf\<rparr>) })
     }
   }"

definition res_init :: "'z res_env_scheme \<Rightarrow> res_state \<Rightarrow> (int \<times> res_state) option" where
  "res_init env st = do {
     path \<leftarrow> (case net_cfg env of
        None \<Rightarrow> Some (re_junk env)
      | Some x \<Rightarrow> do {
          (_, d) \<leftarrow> GetPrivateProfileString (net_files env) (Some ''main'') (Some ''resolv.conf'') None 1024 x;
          d });
     let st = res_defaults env st;
     (st, hs) \<leftarrow> local_domain (net_getenv env ''LOCALDOMAIN'') st;
     servers \<leftarrow> getdnsaddrs env;
     st \<leftarrow> (case servers of None \<Rightarrow> Some st | Some qs \<Rightarrow> add_servers qs 0 None st);
     (st, hs) \<leftarrow> read_conf (net_files env) path (net_getenv env ''LOCALDOMAIN'' \<noteq> None) st hs;
     st \<leftarrow> host_domain env st;
     let st = (if hs then st else st\<lparr>res_dnsrch := [0]\<rparr>);
     st \<leftarrow> (case net_getenv env ''RES_OPTIONS'' of None \<Rightarrow> Some st | Some cp \<Rightarrow> res_setoptions cp st);
     Some (0, st\<lparr>res_options := res_options st OR RES_INIT\<rparr>)
   }"

text \<open>The domains of the search list as strings.\<close>

definition search_domains :: "res_state \<Rightarrow> string list" where
  "search_domains st = map (\<lambda>o'. cstr (drop o' (res_defdname st))) (res_dnsrch st)"

end
