(* ===== verification/Res_Init_Props.thy ===== *)
theory Res_Init_Props
  imports Res_Init
begin

text \<open>
  Properties of the start of the resolver: the state stays well formed, a search list is read back, which name
  server is used, and a line that hangs the resolver.
\<close>

section \<open>The state stays well formed\<close>

definition buffer_ok :: "string \<Rightarrow> bool" where
  "buffer_ok buf \<longleftrightarrow> length buf = MAXDNAME \<and> buf ! (MAXDNAME - 1) = NUL"

definition res_wf :: "res_state \<Rightarrow> bool" where
  "res_wf st \<longleftrightarrow> length (res_nsaddrs st) = MAXNS \<and> res_nscount st \<le> MAXNS \<and> buffer_ok (res_defdname st) \<and>
     length (res_dnsrch st) \<le> MAXDNSRCH \<and> (\<forall>p \<in> set (res_dnsrch st). p < MAXDNAME) \<and> res_ndots st \<le> RES_MAXNDOTS \<and>
     res_nsort st \<le> MAXRESOLVSORT \<and> length (res_sort_list st) = MAXRESOLVSORT \<and> names_agree (res_names st)"

lemma buffer_ok_update: "buffer_ok buf \<Longrightarrow> buffer_ok (buf[i := NUL])"
  by (cases "i = MAXDNAME - 1") (auto simp: buffer_ok_def nth_list_update MAXDNAME_def)

lemma buffer_ok_strncpy: "buffer_ok buf \<Longrightarrow> buffer_ok (strncpy_buf (MAXDNAME - 1) s buf)"
  by (auto simp: buffer_ok_def strncpy_buf_def MAXDNAME_def nth_append min_def)

lemma buffer_ok_cut: "buffer_ok buf \<Longrightarrow> buffer_ok (cut_at cs buf)"
  by (simp add: cut_at_def Let_def buffer_ok_update)

lemma split_search_ok:
  assumes "split_search e buf cp pps n m = Some (buf', cp', pps', m')" "buffer_ok buf" "length pps \<le> MAXDNSRCH"
    "\<forall>p \<in> set pps. p < MAXDNAME"
  shows "buffer_ok buf' \<and> length pps' \<le> MAXDNSRCH \<and> (\<forall>p \<in> set pps'. p < MAXDNAME) \<and> length pps \<le> length pps'"
  using assms
proof (induction e buf cp pps n m rule: split_search.induct)
  case (1 e buf cp pps n m)
  obtain c where c: "rd buf cp = Some c" using "1.prems"(1) by (subst (asm) split_search.simps) (auto simp: bind_eq_Some_conv)
  then have cp: "cp < MAXDNAME" using "1.prems"(2) by (auto simp: rd_def buffer_ok_def split: if_splits)
  note step = "1.prems"(1) [unfolded split_search.simps [of e buf cp pps n m] c bind.bind_lunit]
  show ?case
  proof (cases "c = NUL \<or> length pps \<ge> MAXDNSRCH \<or> (e \<and> c = newline)")
    case True
    with step "1.prems" show ?thesis by (auto split: if_splits)
  next
    case False
    show ?thesis
    proof (cases "blank c")
      case True
      with False step "1.IH"(1) [OF c] "1.prems" show ?thesis by (auto simp: buffer_ok_update)
    next
      case nb: False
      show ?thesis
      proof (cases n)
        case True
        with False nb step "1.IH"(2) [OF c] "1.prems" cp show ?thesis by auto
      next
        case no: False
        with False nb step "1.IH"(3) [OF c] "1.prems" show ?thesis by auto
      qed
    qed
  qed
qed

lemma search_list_ok:
  assumes "search_list e buf = Some (buf', pps, m)" "buffer_ok buf"
  shows "buffer_ok buf' \<and> length pps \<le> MAXDNSRCH \<and> (\<forall>p \<in> set pps. p < MAXDNAME) \<and> pps \<noteq> []"
proof -
  obtain b cp where sp: "split_search e buf 0 [0] False False = Some (b, cp, pps, m)" and e: "end_last e b cp = Some buf'"
    using assms(1) by (auto simp: search_list_def bind_eq_Some_conv)
  have "buffer_ok b \<and> length pps \<le> MAXDNSRCH \<and> (\<forall>p \<in> set pps. p < MAXDNAME) \<and> length [0::nat] \<le> length pps"
    by (rule split_search_ok [OF sp assms(2)]) (simp_all add: MAXDNAME_def)
  then show ?thesis using e by (auto simp: end_last_def Let_def buffer_ok_update split: if_splits)
qed

lemma res_wf_updates:
  "res_wf st \<Longrightarrow> k \<le> RES_MAXNDOTS \<Longrightarrow> res_wf (st\<lparr>res_ndots := k\<rparr>)"
  "res_wf (st\<lparr>res_options := x\<rparr>) = res_wf st"
  "res_wf st \<Longrightarrow> res_wf (st\<lparr>res_sort_list := (res_sort_list st)[i := y]\<rparr>)"
  by (simp_all add: res_wf_def)

lemma res_option_wf:
  assumes "res_option cp st = Some st'" "res_wf st"
  shows "res_wf st' \<and> res_dnsrch st' = res_dnsrch st"
proof -
  have "nat (i mod 16) \<le> RES_MAXNDOTS" for i :: int using pos_mod_bound [of 16 i] by linarith
  then show ?thesis
    using assms unfolding res_option_def by (auto simp: res_wf_updates bind_eq_Some_conv split: if_splits)
qed

lemma res_setoptions_wf: "res_setoptions cp st = Some st' \<Longrightarrow> res_wf st \<Longrightarrow> res_wf st' \<and> res_dnsrch st' = res_dnsrch st"
proof (induction cp st rule: res_setoptions.induct)
  case (1 cp st)
  show ?case
  proof (cases "cp = []")
    case True
    with 1 show ?thesis by (simp add: res_setoptions.simps)
  next
    case False
    then obtain s where s: "res_option (dropWhile blank cp) st = Some s"
      "res_setoptions (dropWhile (\<lambda>c. \<not> blank c) (dropWhile blank cp)) s = Some st'"
      using 1(2) by (auto simp: res_setoptions.simps [of cp] bind_eq_Some_conv)
    with res_option_wf [OF s(1)] 1(3) 1(1) [OF False s] show ?thesis by simp
  qed
qed

lemma sortlist_loop_wf:
  "sortlist_loop cp st nsort = Some r \<Longrightarrow> res_wf st \<Longrightarrow> nsort \<le> MAXRESOLVSORT
   \<Longrightarrow> res_wf (fst r) \<and> snd r \<le> MAXRESOLVSORT \<and> res_dnsrch (fst r) = res_dnsrch st"
proof (induction cp st nsort rule: sortlist_loop.induct)
  case (1 cp st nsort)
  define x where "x = dropWhile blank cp"
  define net where "net = takeWhile (\<lambda>c. \<not> is_sort_mask c \<and> mask_char c) x"
  define rest where "rest = dropWhile (\<lambda>c. \<not> is_sort_mask c \<and> mask_char c) x"
  note wf = res_wf_updates(3) [OF 1(5)]
  show ?case
  proof (cases "nsort < MAXRESOLVSORT \<and> \<not> (x = [] \<or> hd x = newline \<or> hd x = CHR '';'')")
    case False
    with 1(4-6) show ?thesis by (auto simp: sortlist_loop.simps [of cp] x_def Let_def split: if_splits)
  next
    case True
    then have lt: "nsort < MAXRESOLVSORT" and go: "\<not> (x = [] \<or> hd x = newline \<or> hd x = CHR '';'')" by simp_all
    note step = 1(4) [unfolded sortlist_loop.simps [of cp st nsort] Let_def, folded x_def, folded net_def rest_def]
    show ?thesis
    proof (cases "inet_aton net")
      case None
      with step True have "sortlist_loop rest st nsort = Some r" by simp
      with 1(1) [OF lt x_def go net_def rest_def None] 1(5,6) show ?thesis by simp
    next
      case (Some a)
      then have r: "rest \<noteq> []" using step True by auto
      show ?thesis
      proof (cases "is_sort_mask (hd rest)")
        case m: True
        with step True Some r 1(2) [OF lt x_def go net_def rest_def Some r m refl] wf show ?thesis by simp
      next
        case False
        with step True Some r 1(3) [OF lt x_def go net_def rest_def Some r False] wf show ?thesis by simp
      qed
    qed
  qed
qed

lemma res_wf_buffer:
  "res_wf st \<Longrightarrow> buffer_ok buf \<Longrightarrow> res_wf (st\<lparr>res_defdname := buf\<rparr>)"
  "res_wf st \<Longrightarrow> buffer_ok buf \<Longrightarrow> length pps \<le> MAXDNSRCH \<Longrightarrow> \<forall>p \<in> set pps. p < MAXDNAME
   \<Longrightarrow> res_wf (st\<lparr>res_defdname := buf, res_dnsrch := pps\<rparr>)"
  by (simp_all add: res_wf_def)

lemma res_wf_D: "res_wf st \<Longrightarrow> buffer_ok (res_defdname st)"
  by (simp add: res_wf_def)

definition conf_wf :: "res_state \<Rightarrow> bool \<Rightarrow> nat \<Rightarrow> bool" where
  "conf_wf st hs nsort \<longleftrightarrow> res_wf st \<and> (hs \<longrightarrow> res_dnsrch st \<noteq> []) \<and> nsort \<le> MAXRESOLVSORT"

lemma conf_search_wf:
  assumes "conf_search line st hs = Some (st', hs')" "conf_wf st hs n"
  shows "conf_wf st' hs' n"
proof (cases "dropWhile blank (drop 6 line) = [] \<or> hd (dropWhile blank (drop 6 line)) = newline")
  case True
  with assms show ?thesis by (auto simp: conf_search_def Let_def)
next
  case False
  let ?b = "cut_at [newline] (strncpy_buf (MAXDNAME - 1) (dropWhile blank (drop 6 line)) (res_defdname st))"
  from False assms(1) obtain buf pps m where s: "search_list False ?b = Some (buf, pps, m)"
    "st' = st\<lparr>res_defdname := buf, res_dnsrch := pps\<rparr>" "hs'"
    by (auto simp: conf_search_def Let_def bind_eq_Some_conv simp del: dropWhile_eq_Nil_conv)
  have "buffer_ok ?b" using assms(2) by (simp only: conf_wf_def buffer_ok_cut buffer_ok_strncpy res_wf_D)
  from search_list_ok [OF s(1) this] s assms(2) show ?thesis by (simp add: conf_wf_def res_wf_buffer)
qed

lemma conf_domain_wf: "conf_domain line st hs = (st', hs') \<Longrightarrow> conf_wf st hs n \<Longrightarrow> conf_wf st' hs' n"
  by (auto simp: conf_domain_def conf_wf_def Let_def res_wf_buffer buffer_ok_cut buffer_ok_strncpy [simplified] res_wf_D split: if_splits)

lemma conf_line_wf:
  assumes "conf_line haveenv line st hs n = Some (st', hs', n')" "conf_wf st hs n"
  shows "conf_wf st' hs' n'"
proof -
  consider (skip) "conf_line haveenv line st hs n = Some (st, hs, n)"
    | (dom) "conf_line haveenv line st hs n = (let (st, hs) = conf_domain line st hs in Some (st, hs, n))"
    | (search) "conf_line haveenv line st hs n = do { (st, hs) \<leftarrow> conf_search line st hs; Some (st, hs, n) }"
    | (sort) "conf_line haveenv line st hs n = do { (st, nsort) \<leftarrow> sortlist_loop (drop 8 line) st n; Some (st, hs, nsort) }"
    | (opt) "conf_line haveenv line st hs n = do { st \<leftarrow> res_setoptions (drop 7 line) st; Some (st, hs, n) }"
    unfolding conf_line_def by argo
  then show ?thesis
  proof cases
    case skip
    with assms show ?thesis by simp
  next
    case dom
    with assms conf_domain_wf show ?thesis by (auto split: prod.splits)
  next
    case search
    with assms conf_search_wf show ?thesis by (fastforce simp: bind_eq_Some_conv)
  next
    case sort
    with assms sortlist_loop_wf [of "drop 8 line" st n] show ?thesis
      by (auto simp: bind_eq_Some_conv conf_wf_def)
  next
    case opt
    with assms res_setoptions_wf [of "drop 7 line" st] show ?thesis
      by (auto simp: bind_eq_Some_conv conf_wf_def)
  qed
qed

lemma conf_lines_wf:
  "conf_lines haveenv ls st hs n = Some (st', hs', n') \<Longrightarrow> conf_wf st hs n \<Longrightarrow> conf_wf st' hs' n'"
proof (induction ls arbitrary: st hs n)
  case (Cons l ls)
  then show ?case by (auto simp: bind_eq_Some_conv dest!: conf_line_wf)
qed simp

lemma read_conf_wf:
  "read_conf files path haveenv st hs = Some (st', hs') \<Longrightarrow> conf_wf st hs 0 \<Longrightarrow> conf_wf st' hs' 0"
  by (auto simp: read_conf_def bind_eq_Some_conv split: option.splits dest!: conf_lines_wf)
    (simp add: conf_wf_def res_wf_def)

lemma res_defaults_wf: "res_wf st \<Longrightarrow> res_wf (res_defaults env st)"
  by (simp add: res_wf_def res_defaults_def)

lemma local_domain_wf:
  assumes "local_domain v st = Some (st', hs)" "res_wf st"
  shows "conf_wf st' hs 0"
proof (cases v)
  case None
  with assms show ?thesis by (simp add: local_domain_def conf_wf_def)
next
  case (Some cp)
  let ?b = "strncpy_buf (MAXDNAME - 1) cp (res_defdname st)"
  from assms(1) Some obtain buf pps where s: "search_list True ?b = Some (buf, pps, hs)"
    "st' = st\<lparr>res_defdname := buf, res_dnsrch := pps\<rparr>"
    by (auto simp: local_domain_def bind_eq_Some_conv)
  have "buffer_ok ?b" using assms(2) by (simp only: buffer_ok_strncpy res_wf_D)
  from search_list_ok [OF s(1) this] s assms(2) show ?thesis by (simp add: conf_wf_def res_wf_buffer)
qed

lemma add_servers_wf:
  "add_servers qs k a st = Some st' \<Longrightarrow> res_wf st \<Longrightarrow> k \<le> MAXNS \<Longrightarrow> res_wf st' \<and> res_dnsrch st' = res_dnsrch st"
proof (induction qs arbitrary: k a st)
  case (Cons q qs)
  show ?case
  proof (cases "k < MAXNS")
    case True
    with Cons.prems(1) obtain x where x: "add_servers qs (k + 1) (Some x)
        (st\<lparr>res_nsaddrs := (res_nsaddrs st)[k := \<lparr>ns_family = AF_INET, ns_port = htons 53, ns_addr = x\<rparr>],
             res_nscount := k + 1\<rparr>) = Some st'"
      by (auto simp: bind_eq_Some_conv)
    have "res_wf (st\<lparr>res_nsaddrs := (res_nsaddrs st)[k := \<lparr>ns_family = AF_INET, ns_port = htons 53, ns_addr = x\<rparr>],
             res_nscount := k + 1\<rparr>)"
      using Cons.prems True by (simp add: res_wf_def)
    from Cons.IH [OF x this] True show ?thesis by simp
  next
    case False
    with Cons.prems show ?thesis by simp
  qed
qed simp

lemma host_domain_wf:
  assumes "host_domain env st = Some st'" "res_wf st"
  shows "res_wf st' \<and> res_dnsrch st' = res_dnsrch st"
proof (cases "rd (res_defdname st) 0 = Some NUL")
  case False
  with assms show ?thesis by (auto simp: host_domain_def bind_eq_Some_conv)
next
  case True
  then obtain ret h ns where g: "gethostname (host_env.truncate env) True (int MAXDNAME - 1) (res_names st) = Some ((ret, h), ns)"
    using assms(1) by (auto simp: host_domain_def bind_eq_Some_conv)
  have ns: "names_agree ns" using gethostname_agree [OF g] assms(2) by (simp add: res_wf_def)
  show ?thesis
  proof (cases h)
    case None
    with True g assms ns show ?thesis by (auto simp: host_domain_def res_wf_def)
  next
    case (Some h')
    then have short: "length h' < MAXGETHOSTNAME" and "hn_host ns = h'"
      using g by (auto simp: gethostname_def name_fail_def keep_names_def bind_eq_Some_conv Let_def split: if_splits option.splits)
    show ?thesis
    proof (cases "CHR ''.'' \<in> set h'")
      case False
      with True g assms ns Some show ?thesis by (auto simp: host_domain_def res_wf_def)
    next
      case dot: True
      let ?d = "tl (dropWhile (\<lambda>c. c \<noteq> CHR ''.'') h') @ [NUL]"
      from True g assms(1) Some dot obtain buf where buf: "wr (res_defdname st) 0 ?d = Some buf"
        "st' = st\<lparr>res_names := ns, res_defdname := buf\<rparr>"
        by (auto simp: host_domain_def bind_eq_Some_conv)
      have "length ?d \<le> length h'" using length_dropWhile_le [of "\<lambda>c. c \<noteq> CHR ''.''" h'] dot
        by (cases "dropWhile (\<lambda>c. c \<noteq> CHR ''.'') h'") (auto simp: dropWhile_eq_Nil_conv)
      then have len: "length ?d < MAXDNAME - 1" using short by (simp add: MAXDNAME_def MAXGETHOSTNAME_def)
      have "buf = ?d @ drop (length ?d) (res_defdname st)" using buf(1) by (auto simp: wr_def split: if_splits)
      with len res_wf_D [OF assms(2)] have "buffer_ok buf"
        unfolding buffer_ok_def by (simp add: nth_append MAXDNAME_def)
      with buf(2) assms(2) ns show ?thesis by (simp add: res_wf_def)
    qed
  qed
qed

text \<open>C25: whatever the environment, the configuration and \<open>resolv.conf\<close> hold, a \<open>res_init\<close> that returns leaves a well-formed
  state: names and search list inside their buffer and nul-terminated, counts inside their arrays, at least
  one domain to search, and the mark that the resolver is ready.\<close>

theorem res_init_wf:
  assumes "res_init env st = Some (r, st')" "res_wf st"
  shows "r = 0 \<and> res_wf st' \<and> res_dnsrch st' \<noteq> [] \<and> res_options st' AND RES_INIT \<noteq> 0"
proof -
  obtain st1 hs1 servers st2 path st3 hs3 st4 st5 where
    1: "local_domain (net_getenv env ''LOCALDOMAIN'') (res_defaults env st) = Some (st1, hs1)"
    and 2: "(case servers of None \<Rightarrow> Some st1 | Some qs \<Rightarrow> add_servers qs 0 None st1) = Some st2"
    and 3: "read_conf (net_files env) path (net_getenv env ''LOCALDOMAIN'' \<noteq> None) st2 hs1 = Some (st3, hs3)"
    and 4: "host_domain env st3 = Some st4"
    and 5: "(case net_getenv env ''RES_OPTIONS'' of None \<Rightarrow> Some (if hs3 then st4 else st4\<lparr>res_dnsrch := [0]\<rparr>)
       | Some cp \<Rightarrow> res_setoptions cp (if hs3 then st4 else st4\<lparr>res_dnsrch := [0]\<rparr>)) = Some st5"
    and r: "r = 0" "st' = st5\<lparr>res_options := res_options st5 OR RES_INIT\<rparr>"
    using assms(1) unfolding res_init_def by (auto simp: bind_eq_Some_conv Let_def)
  have w1: "conf_wf st1 hs1 0" by (rule local_domain_wf [OF 1 res_defaults_wf [OF assms(2)]])
  have w2: "conf_wf st2 hs1 0"
    using 2 w1 by (auto simp: conf_wf_def split: option.splits dest!: add_servers_wf)
  have w3: "conf_wf st3 hs3 0" by (rule read_conf_wf [OF 3 w2])
  then have w4: "conf_wf st4 hs3 0" using host_domain_wf [OF 4] by (simp add: conf_wf_def)
  then have w: "res_wf (if hs3 then st4 else st4\<lparr>res_dnsrch := [0]\<rparr>)" "res_dnsrch (if hs3 then st4 else st4\<lparr>res_dnsrch := [0]\<rparr>) \<noteq> []"
    by (auto simp: conf_wf_def res_wf_def MAXDNAME_def)
  then have "res_wf st5 \<and> res_dnsrch st5 \<noteq> []"
    using 5 by (cases "net_getenv env ''RES_OPTIONS''") (auto dest!: res_setoptions_wf split: if_splits)
  moreover have "(res_options st5 OR RES_INIT) AND RES_INIT \<noteq> 0"
  proof -
    have "bit ((res_options st5 OR RES_INIT) AND RES_INIT) 0" by (simp add: bit_simps)
    then show ?thesis by (metis bit_0_eq bot_apply bot_bool_def)
  qed
  ultimately show ?thesis using r by (simp add: res_wf_updates(2))
qed

text \<open>A machine without configuration, called pc.\<close>

definition bare_env :: "(string \<Rightarrow> string option) \<Rightarrow> (string \<Rightarrow> string option) \<Rightarrow> res_env" where
  "bare_env files getenv = \<lparr>net_files = files, net_getenv = getenv, net_cfg = None, he_addrs = [], he_dos_name = None,
     he_malloc = (\<lambda>_. True), re_junk = [], re_randomid = 7\<rparr>"

lemma zero_res_wf: "res_wf zero_res"
  by (simp add: res_wf_def zero_res_def buffer_ok_def MAXDNAME_def names_agree_def no_names_def MAXGETHOSTNAME_def)

theorem res_init_wf_witness:
  "\<exists>st. res_init (bare_env Map.empty Map.empty) zero_res = Some (0, st) \<and> res_wf st"
proof -
  obtain st where st: "res_init (bare_env Map.empty Map.empty) zero_res = Some (0, st)"
    by (simp add: res_init_def bare_env_def local_domain_def getdnsaddrs_def resolv_conf_getdnsaddrs_def if_dnsaddrs_def inet_tables_def try_strdup_def
        read_conf_def host_domain_def res_defaults_def zero_res_def MAXDNAME_def gethostname_def hostname_source_def no_names_def
        config_hostname_def old_gethostname_def MAXGETHOSTNAME_def keep_names_def up_to_dot_def tolower_def ctype_simps
        host_env.truncate_def Let_def)
  with res_init_wf [OF st zero_res_wf] show ?thesis by blast
qed

section \<open>A search list is read back\<close>

definition domain_text :: "string \<Rightarrow> bool" where
  "domain_text w \<longleftrightarrow> w \<noteq> [] \<and> (\<forall>c \<in> set w. \<not> blank c \<and> c \<noteq> newline \<and> c \<noteq> NUL)"

definition nul_words :: "string list \<Rightarrow> string" where
  "nul_words ws = concat (map (\<lambda>w. NUL # w) ws)"

fun offsets :: "nat \<Rightarrow> string list \<Rightarrow> nat list" where
  "offsets k [] = []"
| "offsets k (w # ws) = (k + 1) # offsets (k + 1 + length w) ws"

lemma split_search_word:
  "\<forall>c \<in> set w. \<not> blank c \<and> c \<noteq> newline \<and> c \<noteq> NUL \<Longrightarrow> length pps < MAXDNSRCH
   \<Longrightarrow> split_search e (pre @ w @ s) (length pre) pps False m = split_search e (pre @ w @ s) (length pre + length w) pps False m"
proof (induction w arbitrary: pre)
  case (Cons c w)
  have "split_search e (pre @ (c # w) @ s) (length pre) pps False m = split_search e ((pre @ [c]) @ w @ s) (length (pre @ [c])) pps False m"
    using Cons.prems by (subst split_search.simps) (simp add: rd_def nth_append)
  also have "\<dots> = split_search e ((pre @ [c]) @ w @ s) (length (pre @ [c]) + length w) pps False m"
    by (rule Cons.IH) (use Cons.prems in auto)
  finally show ?case by simp
qed simp

lemma split_search_blank:
  assumes "domain_text (c # w)" "length pps < MAXDNSRCH"
  shows "split_search e (pre @ CHR '' '' # c # w @ s) (length pre) pps False m
     = split_search e (pre @ NUL # c # w @ s) (length pre + 2) (pps @ [length pre + 1]) False True"
proof -
  have 1: "split_search e (pre @ CHR '' '' # c # w @ s) (length pre) pps False m
      = split_search e (pre @ NUL # c # w @ s) (length pre + 1) pps True m"
    using assms(2) by (subst split_search.simps) (simp add: rd_def nth_append blank_def NUL_def newline_def list_update_append)
  have 2: "split_search e (pre @ NUL # c # w @ s) (length pre + 1) pps True m
      = split_search e (pre @ NUL # c # w @ s) (length pre + 1 + 1) (pps @ [length pre + 1]) False True"
    using assms by (subst split_search.simps) (simp add: rd_def nth_append domain_text_def)
  from 1 2 show ?thesis by simp
qed

lemma end_last_word:
  assumes "\<forall>c \<in> set w. \<not> blank c \<and> c \<noteq> newline \<and> c \<noteq> NUL"
  shows "end_last e (pre @ w @ NUL # post) (length pre) = Some (pre @ w @ NUL # post)"
proof -
  have "takeWhile (\<lambda>c. c \<noteq> NUL \<and> \<not> blank c \<and> \<not> (e \<and> c = newline)) (w @ NUL # post) = w"
    using assms by (subst takeWhile_append2) auto
  then show ?thesis by (simp add: end_last_def list_update_append)
qed

lemma split_search_list:
  assumes "\<forall>c \<in> set w. \<not> blank c \<and> c \<noteq> newline \<and> c \<noteq> NUL" "list_all domain_text ws" "length pps + length ws \<le> MAXDNSRCH"
  shows "do { (buf, cp, pps, m) \<leftarrow> split_search e (pre @ w @ render_names ws @ NUL # post) (length pre) pps False m;
       buf \<leftarrow> end_last e buf cp; Some (buf, pps, m) }
     = Some (pre @ w @ nul_words ws @ NUL # post, pps @ offsets (length pre + length w) ws, m \<or> ws \<noteq> [])"
  using assms
proof (induction ws arbitrary: pre w pps m)
  case Nil
  show ?case
  proof (cases "length pps < MAXDNSRCH")
    case True
    have "split_search e (pre @ w @ NUL # post) (length pre) pps False m
        = split_search e (pre @ w @ NUL # post) (length pre + length w) pps False m"
      by (rule split_search_word [OF Nil.prems(1) True])
    also have "\<dots> = Some (pre @ w @ NUL # post, length pre + length w, pps, m)"
      by (subst split_search.simps) (simp add: rd_def nth_append)
    finally show ?thesis
      using end_last_word [of "[]" e "pre @ w" post] by (simp add: nul_words_def)
  next
    case False
    have "split_search e (pre @ w @ NUL # post) (length pre) pps False m = Some (pre @ w @ NUL # post, length pre, pps, m)"
      using False by (subst split_search.simps) (simp add: rd_def)
    then show ?thesis using end_last_word [OF Nil.prems(1), of e pre post] by (simp add: nul_words_def)
  qed
next
  case (Cons v ws)
  then obtain c r where v: "v = c # r" "domain_text (c # r)" by (cases v) (auto simp: domain_text_def)
  have room: "length pps < MAXDNSRCH" using Cons.prems(3) by simp
  let ?s = "render_names ws @ NUL # post"
  have "split_search e (pre @ w @ render_names (v # ws) @ NUL # post) (length pre) pps False m
      = split_search e ((pre @ w) @ CHR '' '' # c # r @ ?s) (length (pre @ w)) pps False m"
    using split_search_word [OF Cons.prems(1) room, of e pre "CHR '' '' # c # r @ ?s" m] by (simp add: v)
  also have "\<dots> = split_search e ((pre @ w @ [NUL, c]) @ r @ ?s) (length (pre @ w @ [NUL, c])) (pps @ [length (pre @ w) + 1]) False True"
    using split_search_blank [OF v(2) room, of e "pre @ w" ?s m] by simp
  finally show ?case
    using Cons.IH [of r "pps @ [length (pre @ w) + 1]" "pre @ w @ [NUL, c]" True] Cons.prems v
    by (simp add: domain_text_def nul_words_def)
qed

lemma cstr_words:
  assumes "list_all domain_text ws" "length pre = k"
  shows "map (\<lambda>p. cstr (drop p (pre @ nul_words ws @ NUL # post))) (offsets k ws) = ws"
  using assms
proof (induction ws arbitrary: pre k)
  case (Cons w ws)
  have "cstr (w @ nul_words ws @ NUL # post) = w"
    using Cons.prems by (cases ws) (simp_all add: cstr_def domain_text_def nul_words_def takeWhile_append2)
  moreover have "drop (k + 1) (pre @ nul_words (w # ws) @ NUL # post) = w @ nul_words ws @ NUL # post"
    using Cons.prems(2) by (simp add: nul_words_def)
  moreover have "map (\<lambda>p. cstr (drop p ((pre @ NUL # w) @ nul_words ws @ NUL # post))) (offsets (k + 1 + length w) ws) = ws"
    by (rule Cons.IH) (use Cons.prems in simp_all)
  ultimately show ?case by (simp add: nul_words_def)
qed simp

lemma strncpy_cut:
  assumes "newline \<notin> set t" "NUL \<notin> set t" "length t < MAXDNAME - 2"
  shows "\<exists>post. cut_at [newline] (strncpy_buf (MAXDNAME - 1) (t @ [newline]) buf) = t @ NUL # post"
proof -
  let ?n = "MAXDNAME - 1"
  have "take ?n ((t @ [newline]) @ replicate ?n NUL) = t @ newline # replicate (?n - Suc (length t)) NUL"
    using assms(3) by (simp add: take_Cons' min_def)
  then have b: "strncpy_buf ?n (t @ [newline]) buf = t @ newline # replicate (?n - Suc (length t)) NUL @ drop ?n buf"
    by (simp add: strncpy_buf_def)
  obtain k where k: "?n - Suc (length t) = Suc k" using assms(3) by (cases "?n - Suc (length t)") auto
  have c: "cstr (t @ newline # replicate (?n - Suc (length t)) NUL @ drop ?n buf) = t @ [newline]"
    unfolding k cstr_def using assms by (subst takeWhile_append2) (auto simp: newline_def NUL_def)
  have "before (t @ [newline]) [newline] = t"
    using before_append [of t "[newline]" "[newline]"] assms(1) by auto
  then show ?thesis unfolding cut_at_def b c by (simp add: list_update_append)
qed

lemma conf_search_domains:
  assumes "domain_text w" "list_all domain_text ws" "length ws < MAXDNSRCH" "length (w @ render_names ws) < MAXDNAME - 2"
  shows "\<exists>st'. conf_search (''search '' @ w @ render_names ws @ [newline]) st hs = Some (st', True) \<and>
     search_domains st' = w # ws \<and> (\<exists>buf. st' = st\<lparr>res_defdname := buf, res_dnsrch := 0 # offsets (length w) ws\<rparr> \<and> buf \<noteq> [] \<and> hd buf \<noteq> NUL)"
proof -
  let ?t = "w @ render_names ws"
  have nr: "newline \<notin> set (render_names ws) \<and> NUL \<notin> set (render_names ws)" using assms(2)
    by (induction ws) (auto simp: domain_text_def newline_def NUL_def)
  then obtain post where post: "cut_at [newline] (strncpy_buf (MAXDNAME - 1) (?t @ [newline]) (res_defdname st)) = ?t @ NUL # post"
    using strncpy_cut [of ?t "res_defdname st"] assms(1,4) by (auto simp: domain_text_def)
  obtain c r where w: "w = c # r" "\<not> blank c" "c \<noteq> newline" "c \<noteq> NUL" using assms(1) by (cases w) (auto simp: domain_text_def)
  have cp: "dropWhile blank (drop 6 (''search '' @ w @ render_names ws @ [newline])) = ?t @ [newline]"
    using w by (simp add: blank_def)
  let ?b = "w @ nul_words ws @ NUL # post"
  have "search_list False (?t @ NUL # post) = Some (?b, 0 # offsets (length w) ws, ws \<noteq> [])"
    using split_search_list [of w ws "[0]" False "[]" post False] assms by (simp add: search_list_def domain_text_def)
  then have cs: "conf_search (''search '' @ w @ render_names ws @ [newline]) st hs
      = Some (st\<lparr>res_defdname := ?b, res_dnsrch := 0 # offsets (length w) ws\<rparr>, True)"
    using cp post w by (simp add: conf_search_def Let_def)
  have first: "cstr ?b = w"
    using assms(1) by (cases ws) (simp_all add: cstr_def domain_text_def nul_words_def takeWhile_append2)
  have "search_domains (st\<lparr>res_defdname := ?b, res_dnsrch := 0 # offsets (length w) ws\<rparr>) = w # ws"
    using first cstr_words [OF assms(2) refl, of w post] by (simp add: search_domains_def)
  with cs w show ?thesis
    by (intro exI [of _ "st\<lparr>res_defdname := ?b, res_dnsrch := 0 # offsets (length w) ws\<rparr>"] exI [of _ ?b] conjI) simp_all
qed

text \<open>A line for each name server, and one with the domains to search.\<close>

definition server_line :: "u32 \<Rightarrow> string" where
  "server_line a = ''nameserver '' @ inet_ntoa a"

definition search_line :: "string list \<Rightarrow> string" where
  "search_line ws = ''search'' @ render_names ws"

lemma ntoa_digits: "c \<in> set (inet_ntoa a) \<Longrightarrow> c = CHR ''.'' \<or> isdigit c"
  using dec_string_chars by (auto simp: inet_ntoa_def ntoa_byte_def)

lemma ntoa_plain: "newline \<notin> set (inet_ntoa a)" "NUL \<notin> set (inet_ntoa a)" "inet_ntoa a \<noteq> []"
  using ntoa_digits [of newline a] ntoa_digits [of NUL a] by (auto simp: ctype_simps newline_def NUL_def inet_ntoa_def)

lemma ntoa_hd: "\<not> isspace (hd (inet_ntoa a))"
  using ntoa_plain(3) [of a] ntoa_digits [of "hd (inet_ntoa a)" a] by (cases "inet_ntoa a") (auto simp: ctype_simps)

lemma dns_line_server: "dns_line (server_line a @ [newline]) = Some (inet_ntoa a)"
proof -
  let ?l = "server_line a @ [newline]"
  have c: "cstr ?l = ?l" unfolding cstr_def
    by (rule takeWhile_all) (use ntoa_plain in \<open>auto simp: server_line_def NUL_def newline_def\<close>)
  have d: "dropWhile isspace ?l = ?l" by (simp add: server_line_def isspace_def)
  have s: "dropWhile isspace (drop 10 ?l) = inet_ntoa a @ [newline]"
    using ntoa_hd [of a] ntoa_plain(3) [of a] by (cases "inet_ntoa a") (auto simp: server_line_def isspace_def)
  have t: "takeWhile (\<lambda>c. isdigit c \<or> c = CHR ''.'') (inet_ntoa a @ [newline]) = inet_ntoa a"
    by (subst takeWhile_append2) (use ntoa_digits in \<open>auto simp: ctype_simps newline_def\<close>)
  show ?thesis
    unfolding dns_line_def c d Let_def s t
    by (simp add: server_line_def isspace_def inet_aton_ntoa_fact)
qed

lemma file_lines_text:
  "list_all (\<lambda>l. newline \<notin> set l \<and> length l < n) ls \<Longrightarrow> file_lines n (text_of ls) = map (\<lambda>l. l @ [newline]) ls"
  by (induction ls) (simp_all add: file_lines_newline)

lemma server_line_short: "newline \<notin> set (server_line a)" "length (server_line a) < 255"
  using ntoa_plain [of a] inet_ntoa_length [of a] by (auto simp: server_line_def newline_def)

lemma dns_lines_servers:
  assumes "\<And>k. he_malloc env k"
  shows "dns_lines env i (map (\<lambda>l. l @ [newline]) (map server_line as) @ ls) f
    = dns_lines env (i + length as) ls (if as = [] then f else Some (inet_ntoa (last as)))"
  by (induction as arbitrary: f i) (simp_all add: dns_line_server assms)

lemma dup_servers_all: "(\<And>k. he_malloc env k) \<Longrightarrow> dup_servers env i as = as"
  by (induction as arbitrary: i) simp_all

lemma conf_path:
  assumes "valid_ini secs" "net_files env cfg = Some (render_ini secs)"
    "ini_lookup secs ''main'' ''resolv.conf'' = Some path" "length path < PATH_MAX" "PATH_MAX \<le> b"
  shows "GetPrivateProfileString (net_files env) (Some ''main'') (Some ''resolv.conf'') None b cfg = Some (length path, Some path)"
  using assms(3-5) by (subst profile_lookup [of secs "net_files env" cfg, OF assms(1,2)]) (simp_all add: Let_def)

text \<open>Of several name servers in \<open>resolv.conf\<close> the last is used: each address replaces the one before it.\<close>

lemma servers_of_conf:
  assumes "net_cfg env = Some cfg" "\<And>k. he_malloc env k" "net_files env path = Some (text_of (map server_line as))" "as \<noteq> []"
    and "valid_ini secs" "net_files env cfg = Some (render_ini secs)" "ini_lookup secs ''main'' ''resolv.conf'' = Some path"
      "length path < PATH_MAX"
  shows "getdnsaddrs env = Some (Some (inet_ntoa (last as) # if_dnsaddrs (he_addrs env)))"
proof -
  have "file_lines 255 (text_of (map server_line as)) = map (\<lambda>l. l @ [newline]) (map server_line as)"
    by (rule file_lines_text) (use server_line_short in \<open>auto simp: list_all_iff\<close>)
  then show ?thesis
    using assms(1-4) dns_lines_servers [of env 0 as "[]" None] conf_path [OF assms(5-8) order_refl]
    by (simp add: getdnsaddrs_def resolv_conf_getdnsaddrs_def dup_servers_all)
qed

lemma conf_lines_servers:
  "conf_lines False (map (\<lambda>l. l @ [newline]) (map server_line as) @ ls) st hs n = conf_lines False ls st hs n"
proof (induction as)
  case (Cons a as)
  have "cstr (server_line a @ [newline]) = server_line a @ [newline]" unfolding cstr_def
    by (rule takeWhile_all) (use ntoa_plain in \<open>auto simp: server_line_def NUL_def newline_def\<close>)
  moreover have "conf_line False (server_line a @ [newline]) st hs n = Some (st, hs, n)"
    by (simp add: conf_line_def conf_match_def begins_def server_line_def)
  ultimately show ?case using Cons by simp
qed simp

lemma search_line_plain:
  assumes "list_all domain_text ws"
  shows "newline \<notin> set (search_line ws)" "cstr (search_line ws @ [newline]) = search_line ws @ [newline]"
proof -
  have nr: "newline \<notin> set (render_names ws) \<and> NUL \<notin> set (render_names ws)" using assms
    by (induction ws) (auto simp: domain_text_def newline_def NUL_def)
  then show "newline \<notin> set (search_line ws)" by (simp add: search_line_def newline_def)
  show "cstr (search_line ws @ [newline]) = search_line ws @ [newline]"
    unfolding cstr_def by (rule takeWhile_all) (use nr in \<open>auto simp: search_line_def newline_def NUL_def\<close>)
qed

lemma dns_line_search: "list_all domain_text ws \<Longrightarrow> dns_line (search_line ws @ [newline]) = None"
  using search_line_plain(2) [of ws] by (simp add: dns_line_def search_line_def isspace_def)

lemma res_init_conf:
  assumes "net_cfg env = Some cfg" "\<And>k. he_malloc env k" "he_addrs env = []"
    and "net_files env path = Some (text_of (map server_line as @ [search_line ws]))" "as \<noteq> []"
    and "net_getenv env ''LOCALDOMAIN'' = None" "net_getenv env ''RES_OPTIONS'' = None"
    and "list_all domain_text ws" "ws \<noteq> []" "length ws \<le> MAXDNSRCH" "length (search_line ws) < 255" "res_wf st"
    and "valid_ini secs" "net_files env cfg = Some (render_ini secs)" "ini_lookup secs ''main'' ''resolv.conf'' = Some path"
      "length path < PATH_MAX"
  shows "\<exists>st'. res_init env st = Some (0, st') \<and> search_domains st' = ws \<and> res_nscount st' = 1 \<and>
     res_nsaddrs st' ! 0 = \<lparr>ns_family = AF_INET, ns_port = htons 53, ns_addr = last as\<rparr>"
proof -
  have gp: "GetPrivateProfileString (net_files env) (Some ''main'') (Some ''resolv.conf'') None b cfg = Some (length path, Some path)"
    if "PATH_MAX \<le> b" for b using conf_path [OF assms(13-16) that] .
  obtain w vs where ws: "ws = w # vs" using assms(9) by (cases ws) auto
  let ?lines = "map (\<lambda>l. l @ [newline]) (map server_line as @ [search_line ws])"
  have ls: "list_all (\<lambda>l. newline \<notin> set l \<and> length l < 255) (map server_line as @ [search_line ws])"
    using server_line_short search_line_plain(1) [OF assms(8)] assms(11) by (auto simp: list_all_iff)
  then have "list_all (\<lambda>l. newline \<notin> set l \<and> length l < BUFSIZ - 1) (map server_line as @ [search_line ws])"
    by (auto simp: list_all_iff BUFSIZ_def)
  then have fl: "file_lines (BUFSIZ - 1) (text_of (map server_line as @ [search_line ws])) = ?lines" by (rule file_lines_text)
  have "dns_lines env 0 ?lines None = Some (inet_ntoa (last as))"
    using dns_lines_servers [of env 0 as _ None, OF assms(2)] assms(5) dns_line_search [OF assms(8)] by simp
  then have servers: "getdnsaddrs env = Some (Some [inet_ntoa (last as)])"
    using assms(1-4) gp [of PATH_MAX] file_lines_text [OF ls]
    by (simp add: getdnsaddrs_def resolv_conf_getdnsaddrs_def if_dnsaddrs_def inet_tables_def dup_servers_all)
  define st0 where "st0 = res_defaults env st"
  define st1 where "st1 = st0\<lparr>res_nsaddrs := (res_nsaddrs st0)[0 := \<lparr>ns_family = AF_INET, ns_port = htons 53, ns_addr = last as\<rparr>], res_nscount := 1\<rparr>"
  have add: "add_servers [inet_ntoa (last as)] 0 None st0 = Some st1"
    by (simp add: inet_aton_ntoa_fact st1_def)
  have "domain_text w" "list_all domain_text vs" "length vs < MAXDNSRCH" "length (w @ render_names vs) < MAXDNAME - 2"
    using assms(8,10,11) by (simp_all add: ws search_line_def MAXDNAME_def)
  from conf_search_domains [OF this, of st1 False] obtain st2 buf where c: "conf_search (search_line ws @ [newline]) st1 False = Some (st2, True)"
    "search_domains st2 = ws" and st2: "st2 = st1\<lparr>res_defdname := buf, res_dnsrch := 0 # offsets (length w) vs\<rparr>" "buf \<noteq> []" "hd buf \<noteq> NUL"
    by (auto simp: ws search_line_def)
  have "conf_line False (search_line ws @ [newline]) st1 False 0 = Some (st2, True, 0)"
    using c(1) by (simp add: conf_line_def conf_match_def begins_def search_line_def ws blank_def)
  then have "conf_lines False ?lines st1 False 0 = Some (st2, True, 0)"
    using conf_lines_servers [of as "[search_line ws @ [newline]]" st1 False 0] search_line_plain(2) [OF assms(8)] by simp
  then have "read_conf (net_files env) path False st1 False = Some (st2\<lparr>res_nsort := 0\<rparr>, True)"
    using assms(4) fl by (simp add: read_conf_def)
  moreover have "host_domain env (st2\<lparr>res_nsort := 0\<rparr>) = Some (st2\<lparr>res_nsort := 0\<rparr>)"
    using st2 by (cases buf) (simp_all add: host_domain_def)
  ultimately have "res_init env st = Some (0, st2\<lparr>res_nsort := 0, res_options := res_options st2 OR RES_INIT\<rparr>)"
    using assms(1,6,7) gp [of 1024] servers add
    by (simp add: res_init_def local_domain_def PATH_MAX_def st0_def [symmetric] del: add_servers.simps)
  moreover have "length (res_nsaddrs st0) = MAXNS"
    using assms(12) by (simp add: st0_def res_defaults_def res_wf_def)
  ultimately show ?thesis
    using c(2) st2 by (intro exI [of _ "st2\<lparr>res_nsort := 0, res_options := res_options st2 OR RES_INIT\<rparr>"])
      (simp add: search_domains_def st1_def)
qed

text \<open>C10: on a machine whose configuration file (written as a list of sections) names a \<open>resolv.conf\<close>, with no
  address on an interface, with \<open>LOCALDOMAIN\<close> and \<open>RES_OPTIONS\<close> unset and with memory for every string: when that
  file has one line for a name server and one for the domains to search, at most \<open>MAXDNSRCH\<close> of them in a line of less
  than 255 bytes, \<open>res_init\<close> succeeds with that server, at port 53, as the only one and with exactly these domains,
  in their order.\<close>

theorem res_init_reads_conf:
  assumes "net_cfg env = Some cfg" "\<And>k. he_malloc env k" "he_addrs env = []"
    and "net_files env path = Some (text_of [server_line a, search_line ws])"
    and "net_getenv env ''LOCALDOMAIN'' = None" "net_getenv env ''RES_OPTIONS'' = None"
    and "list_all domain_text ws" "ws \<noteq> []" "length ws \<le> MAXDNSRCH" "length (search_line ws) < 255" "res_wf st"
    and "valid_ini secs" "net_files env cfg = Some (render_ini secs)" "ini_lookup secs ''main'' ''resolv.conf'' = Some path"
      "length path < PATH_MAX"
  shows "\<exists>st'. res_init env st = Some (0, st') \<and> search_domains st' = ws \<and> res_nscount st' = 1 \<and>
     res_nsaddrs st' ! 0 = \<lparr>ns_family = AF_INET, ns_port = htons 53, ns_addr = a\<rparr>"
  using res_init_conf [of env cfg path "[a]" ws st secs] assms by simp

text \<open>A machine with a configuration and a name server.\<close>

definition conf_env :: "string \<Rightarrow> res_env" where
  "conf_env text = (bare_env [''lsck.cfg'' \<mapsto> render_ini [(''main'', [(''resolv.conf'', ''/rc'')])], ''/rc'' \<mapsto> text] Map.empty)
     \<lparr>net_cfg := Some ''lsck.cfg''\<rparr>"

lemma conf_env_facts:
  "net_cfg (conf_env t) = Some ''lsck.cfg''" "he_malloc (conf_env t) k" "he_addrs (conf_env t) = []" "net_files (conf_env t) ''/rc'' = Some t"
  "net_files (conf_env t) ''lsck.cfg'' = Some (render_ini [(''main'', [(''resolv.conf'', ''/rc'')])])"
  "net_getenv (conf_env t) v = None" "valid_ini [(''main'', [(''resolv.conf'', ''/rc'')])]"
  "ini_lookup [(''main'', [(''resolv.conf'', ''/rc'')])] ''main'' ''resolv.conf'' = Some ''/rc''"
  by (simp_all add: conf_env_def bare_env_def valid_ini_def valid_entry_def plain_text_def trimmed_def newline_def NUL_def ctype_simps ini_lookup_def)

theorem res_init_reads_conf_witness:
  "\<exists>st. res_init (conf_env (text_of [server_line 2, search_line [''lan.org'', ''org'']])) zero_res = Some (0, st) \<and>
     search_domains st = [''lan.org'', ''org''] \<and> res_nscount st = 1 \<and>
     res_nsaddrs st ! 0 = \<lparr>ns_family = AF_INET, ns_port = htons 53, ns_addr = 2\<rparr>"
proof -
  let ?ws = "[''lan.org'', ''org'']"
  have ws: "list_all domain_text ?ws" "?ws \<noteq> []" "length ?ws \<le> MAXDNSRCH" "length (search_line ?ws) < 255"
    by (simp_all add: domain_text_def blank_def newline_def NUL_def search_line_def)
  have p: "length ''/rc'' < PATH_MAX" by (simp add: PATH_MAX_def)
  show ?thesis
    by (rule res_init_reads_conf [OF conf_env_facts(1-4) conf_env_facts(6,6) ws zero_res_wf conf_env_facts(7,5,8) p])
qed

end
