(* ===== verification/Res_Query.thy ===== *)
theory Res_Query
  imports Res_Init Res_Comp
begin

text \<open>
  Queries of the resolver: \<open>src/inet/r_mkqry.c\<close> builds the message, \<open>src/inet/r_qry.c\<close> sends it (\<open>res_query\<close>) and tries the
  domains of the search list (\<open>res_search\<close>). Messages and buffers are lists of bytes. The exchange with the name
  servers (\<open>res_send\<close>, \<open>src/inet/r_send.c\<close>) is the parameter \<open>send\<close>: it gets the message and the buffer
  for the answer, and returns the length of the answer or -1, with the contents of the buffer and the state.
\<close>

definition HFIXEDSZ :: nat where "HFIXEDSZ = 12"
definition QFIXEDSZ :: nat where "QFIXEDSZ = 4"
definition RRFIXEDSZ :: nat where "RRFIXEDSZ = 10"
definition MAXPACKET :: nat where "MAXPACKET = 1024"

abbreviation (input) QUERY :: int where "QUERY \<equiv> 0"
abbreviation (input) IQUERY :: int where "IQUERY \<equiv> 1"
abbreviation (input) NS_NOTIFY_OP :: int where "NS_NOTIFY_OP \<equiv> 4"
abbreviation (input) T_NULL :: u16 where "T_NULL \<equiv> 10"
abbreviation (input) NETDB_INTERNAL :: int where "NETDB_INTERNAL \<equiv> -1"
abbreviation (input) HOST_NOT_FOUND :: int where "HOST_NOT_FOUND \<equiv> 1"
abbreviation (input) TRY_AGAIN :: int where "TRY_AGAIN \<equiv> 2"
abbreviation (input) NO_RECOVERY :: int where "NO_RECOVERY \<equiv> 3"
abbreviation (input) NO_DATA :: int where "NO_DATA \<equiv> 4"

section \<open>res_mkquery\<close>

text \<open>
  The fields of \<open>HEADER\<close> that are set: the identification in network order, opcode and \<open>rd\<close> in the third byte; the counts at
  offsets 4 (questions), 6 (answers) and 10 (additional records).
\<close>

definition query_header :: "u16 \<Rightarrow> int \<Rightarrow> bool \<Rightarrow> u8 list" where
  "query_header ident op recurse = [ucast (drop_bit 8 ident), ucast ident, push_bit 3 (of_int op AND 0xf) OR (if recurse then 1 else 0), 0,
     0, 0, 0, 0, 0, 0, 0, 0]"

text \<open>
  The array of pointers to names: the start of the message, and what \<open>dn_comp\<close> adds; the entries behind the first
  null pointer are not read.
\<close>

definition first_ptrs :: "nat option list" where
  "first_ptrs = Some 0 # replicate 19 None"

text \<open>\<open>op\<close> is \<open>QUERY\<close> or \<open>NS_NOTIFY_OP\<close>; \<open>buflen\<close> is what is left behind the header. The first result is the return value.\<close>

definition mkquery_question :: "int \<Rightarrow> u8 list \<Rightarrow> int \<Rightarrow> int \<Rightarrow> u8 list option \<Rightarrow> u8 list \<Rightarrow> int \<Rightarrow> (int \<times> u8 list) option" where
  "mkquery_question op dname cls type data buf buflen =
     (let buflen = buflen - int QFIXEDSZ in
      if buflen < 0 then Some (-1, buf)
      else do {
        (buf, ptrs, n) \<leftarrow> dn_comp dname buf HFIXEDSZ buflen (Some first_ptrs) (Some 20);
        if n < 0 then Some (-1, buf)
        else do {
          let cp = HFIXEDSZ + nat n;
          buf \<leftarrow> putshort (of_int type) buf cp;
          buf \<leftarrow> putshort (of_int cls) buf (cp + 2);
          buf \<leftarrow> wr buf 4 [0, 1];
          (case (if op = QUERY then None else data) of
             None \<Rightarrow> Some (int (cp + 4), buf)
           | Some d \<Rightarrow> do {
               (buf, ptrs, m) \<leftarrow> dn_comp d buf (cp + 4) (buflen - n - int RRFIXEDSZ) (Some ptrs) (Some 20);
               if m < 0 then Some (-1, buf)
               else do {
                 let cp = cp + 4 + nat m;
                 buf \<leftarrow> putshort T_NULL buf cp;
                 buf \<leftarrow> putshort (of_int cls) buf (cp + 2);
                 buf \<leftarrow> putlong 0 buf (cp + 4);
                 buf \<leftarrow> putshort 0 buf (cp + 8);
                 buf \<leftarrow> wr buf 10 [0, 1];
                 Some (int (cp + 10), buf)
               }
             })
        }
      })"

definition mkquery_inverse :: "int \<Rightarrow> int \<Rightarrow> u8 list \<Rightarrow> int \<Rightarrow> u8 list \<Rightarrow> int \<Rightarrow> (int \<times> u8 list) option" where
  "mkquery_inverse cls type data datalen buf buflen =
     (if buflen < 1 + int RRFIXEDSZ + datalen then Some (-1, buf)
      else do {
        buf \<leftarrow> wr buf HFIXEDSZ [0];
        let cp = HFIXEDSZ + 1;
        buf \<leftarrow> putshort (of_int type) buf cp;
        buf \<leftarrow> putshort (of_int cls) buf (cp + 2);
        buf \<leftarrow> putlong 0 buf (cp + 4);
        buf \<leftarrow> putshort (of_int datalen) buf (cp + 8);
        buf \<leftarrow> (if datalen = 0 then Some buf
          else if datalen < 0 \<or> length data < nat datalen then None
          else wr buf (cp + 10) (take (nat datalen) data));
        buf \<leftarrow> wr buf 6 [0, 1];
        Some (int (cp + 10) + datalen, buf)
      })"

text \<open>\<open>res_mkquery\<close>: the return value, the buffer and the state. A null pointer for \<open>buf\<close> is \<open>None\<close>.\<close>

definition res_mkquery :: "'z res_env_scheme \<Rightarrow> int \<Rightarrow> u8 list \<Rightarrow> int \<Rightarrow> int \<Rightarrow> u8 list option \<Rightarrow> int \<Rightarrow> u8 list option \<Rightarrow> int
    \<Rightarrow> res_state \<Rightarrow> (int \<times> u8 list option \<times> res_state) option" where
  "res_mkquery env op dname cls type data datalen bufp buflen st = do {
     (ok, st) \<leftarrow> (if res_options st AND RES_INIT = 0 then res_init env st else Some (0, st));
     if ok = -1 then Some (-1, bufp, st\<lparr>res_h_errno := NETDB_INTERNAL\<rparr>)
     else (case bufp of
        None \<Rightarrow> Some (-1, bufp, st)
      | Some buf \<Rightarrow>
          if buflen < int HFIXEDSZ then Some (-1, bufp, st)
          else do {
            let st = st\<lparr>res_id := res_id st + 1\<rparr>;
            buf \<leftarrow> wr buf 0 (query_header (res_id st) op (res_options st AND RES_RECURSE \<noteq> 0));
            (n, buf) \<leftarrow>
              (if op = QUERY \<or> op = NS_NOTIFY_OP then mkquery_question op dname cls type data buf (buflen - int HFIXEDSZ)
               else if op = IQUERY then mkquery_inverse cls type (case data of None \<Rightarrow> [] | Some d \<Rightarrow> d) datalen buf (buflen - int HFIXEDSZ)
               else Some (-1, buf));
            Some (n, Some buf, st)
          })
   }"

section \<open>res_query\<close>

type_synonym send = "u8 list \<Rightarrow> u8 list \<Rightarrow> int \<Rightarrow> res_state \<Rightarrow> (int \<times> u8 list \<times> res_state) option"

text \<open>\<open>rcode\<close> and \<open>ancount\<close> of the answer, and the error they stand for.\<close>

definition answer_rcode :: "u8 list \<Rightarrow> u8 option" where
  "answer_rcode ans = do { b \<leftarrow> rd ans 3; Some (b AND 0xf) }"

definition rcode_h_errno :: "u8 \<Rightarrow> int" where
  "rcode_h_errno r = (if r = 3 then HOST_NOT_FOUND else if r = 2 then TRY_AGAIN else if r = 0 then NO_DATA else NO_RECOVERY)"

definition res_query :: "'z res_env_scheme \<Rightarrow> send \<Rightarrow> string \<Rightarrow> int \<Rightarrow> int \<Rightarrow> u8 list \<Rightarrow> int \<Rightarrow> res_state
    \<Rightarrow> (int \<times> u8 list \<times> res_state) option" where
  "res_query env send name cls type answer anslen st = do {
     b \<leftarrow> rd answer 3;
     let answer = answer[3 := b AND 0xf0];
     (ok, st) \<leftarrow> (if res_options st AND RES_INIT = 0 then res_init env st else Some (0, st));
     if ok = -1 then Some (-1, answer, st\<lparr>res_h_errno := NETDB_INTERNAL\<rparr>)
     else do {
       (n, buf, st) \<leftarrow> res_mkquery env QUERY (string_bytes name) cls type None 0 (Some (replicate MAXPACKET 0)) (int MAXPACKET) st;
       buf \<leftarrow> buf;
       if n \<le> 0 then Some (n, answer, st\<lparr>res_h_errno := NO_RECOVERY\<rparr>)
       else do {
         (n, answer, st) \<leftarrow> send (take (nat n) buf) answer anslen st;
         if n < 0 then Some (n, answer, st\<lparr>res_h_errno := TRY_AGAIN\<rparr>)
         else do {
           rcode \<leftarrow> answer_rcode answer;
           ancount \<leftarrow> getshort answer 6;
           if rcode \<noteq> 0 \<or> ancount = 0 then Some (-1, answer, st\<lparr>res_h_errno := rcode_h_errno rcode\<rparr>)
           else Some (n, answer, st)
         }
       }
     }
   }"

section \<open>res_querydomain\<close>

definition query_name :: "string \<Rightarrow> string option \<Rightarrow> string" where
  "query_name name domp = (case domp of
     None \<Rightarrow> if name \<noteq> [] \<and> last name = CHR ''.'' \<and> length name - 1 < 2 * MAXDNAME + 1 then butlast name else name
   | Some d \<Rightarrow> take MAXDNAME name @ ''.'' @ take MAXDNAME d)"

definition res_querydomain :: "'z res_env_scheme \<Rightarrow> send \<Rightarrow> string \<Rightarrow> string option \<Rightarrow> int \<Rightarrow> int \<Rightarrow> u8 list \<Rightarrow> int \<Rightarrow> res_state
    \<Rightarrow> (int \<times> u8 list \<times> res_state) option" where
  "res_querydomain env send name domp cls type answer anslen st = do {
     (ok, st) \<leftarrow> (if res_options st AND RES_INIT = 0 then res_init env st else Some (0, st));
     if ok = -1 then Some (-1, answer, st\<lparr>res_h_errno := NETDB_INTERNAL\<rparr>)
     else res_query env send (query_name name domp) cls type answer anslen st
   }"

section \<open>Aliases of the user\<close>

definition strcasecmp_eq :: "string \<Rightarrow> string \<Rightarrow> bool" where
  "strcasecmp_eq a b \<longleftrightarrow> map tolower a = map tolower b"

text \<open>The loop over the lines of the file; a line without a space ends it.\<close>

fun alias_lines :: "string list \<Rightarrow> string \<Rightarrow> string option" where
  "alias_lines [] name = None"
| "alias_lines (l # ls) name =
     (let w = takeWhile (\<lambda>c. \<not> isspace c) l; r = dropWhile (\<lambda>c. \<not> isspace c) l in
      if r = [] then None
      else if strcasecmp_eq w name then
        (let a = dropWhile isspace (tl r) in
         if a = [] then None else Some (take (MAXDNAME - 1) (takeWhile (\<lambda>c. \<not> isspace c) a)))
      else alias_lines ls name)"

definition hostalias :: "'z res_env_scheme \<Rightarrow> string \<Rightarrow> res_state \<Rightarrow> string option" where
  "hostalias env name st =
     (if res_options st AND RES_NOALIASES \<noteq> 0 then None
      else (case net_getenv env ''HOSTALIASES'' of
         None \<Rightarrow> None
       | Some file \<Rightarrow> (case net_files env file of
           None \<Rightarrow> None
         | Some text \<Rightarrow> alias_lines (map cstr (file_lines (BUFSIZ - 1) text)) name)))"

section \<open>res_search\<close>

text \<open>
  The loop over the search list. The first result is the return value when the function returns from inside; the
  flags are \<open>got_nodata\<close> and \<open>got_servfail\<close>.
\<close>

fun search_loop :: "'z res_env_scheme \<Rightarrow> send \<Rightarrow> string \<Rightarrow> int \<Rightarrow> int \<Rightarrow> int \<Rightarrow> string list \<Rightarrow> bool \<Rightarrow> bool \<Rightarrow> u8 list \<Rightarrow> res_state
    \<Rightarrow> (int option \<times> bool \<times> bool \<times> u8 list \<times> res_state) option" where
  "search_loop env send name cls type anslen [] nodata servfail answer st = Some (None, nodata, servfail, answer, st)"
| "search_loop env send name cls type anslen (d # ds) nodata servfail answer st = do {
     (ret, answer, st) \<leftarrow> res_querydomain env send name (Some d) cls type answer anslen st;
     if ret > 0 then Some (Some ret, nodata, servfail, answer, st)
     else if res_errno st = ECONNREFUSED then Some (Some (-1), nodata, servfail, answer, st\<lparr>res_h_errno := TRY_AGAIN\<rparr>)
     else do {
       rcode \<leftarrow> answer_rcode answer;
       let nodata = (nodata \<or> res_h_errno st = NO_DATA);
       let again = (res_h_errno st = TRY_AGAIN \<and> rcode = 2);
       let go_on = (res_h_errno st = NO_DATA \<or> res_h_errno st = HOST_NOT_FOUND \<or> again) \<and> res_options st AND RES_DNSRCH \<noteq> 0;
       (if go_on then search_loop env send name cls type anslen ds nodata (servfail \<or> again) answer st
        else Some (None, nodata, servfail \<or> again, answer, st))
     }
   }"

text \<open>The query of the name as it is, before or behind the search list.\<close>

definition search_as_is :: "'z res_env_scheme \<Rightarrow> send \<Rightarrow> string \<Rightarrow> int \<Rightarrow> int \<Rightarrow> u8 list \<Rightarrow> int \<Rightarrow> bool \<Rightarrow> res_state
    \<Rightarrow> (int option \<times> u8 list \<times> res_state) option" where
  "search_as_is env send name cls type answer anslen now st =
     (if \<not> now then Some (None, answer, st)
      else do {
        (ret, answer, st) \<leftarrow> res_querydomain env send name None cls type answer anslen st;
        Some (if ret > 0 then Some ret else None, answer, st)
      })"

definition res_search :: "'z res_env_scheme \<Rightarrow> send \<Rightarrow> string \<Rightarrow> int \<Rightarrow> int \<Rightarrow> u8 list \<Rightarrow> int \<Rightarrow> res_state
    \<Rightarrow> (int \<times> u8 list \<times> res_state) option" where
  "res_search env send name cls type answer anslen st = do {
     (ok, st) \<leftarrow> (if res_options st AND RES_INIT = 0 then res_init env st else Some (0, st));
     if ok = -1 then Some (-1, answer, st\<lparr>res_h_errno := NETDB_INTERNAL\<rparr>)
     else do {
       let st = st\<lparr>res_errno := ENOERR, res_h_errno := HOST_NOT_FOUND\<rparr>;
       let dots = count_list name (CHR ''.'');
       let trailing = (name \<noteq> [] \<and> last name = CHR ''.'');
       (case (if dots = 0 then hostalias env name st else None) of
          Some cp \<Rightarrow> res_query env send cp cls type answer anslen st
        | None \<Rightarrow> do {
            let early = (dots \<ge> res_ndots st);
            (r, answer, st) \<leftarrow> search_as_is env send name cls type answer anslen early st;
            (case r of
               Some ret \<Rightarrow> Some (ret, answer, st)
             | None \<Rightarrow> do {
                 let saved = res_h_errno st;
                 (r, nodata, servfail, answer, st) \<leftarrow>
                   (if dots = 0 \<and> res_options st AND RES_DEFNAMES \<noteq> 0 \<or> dots \<noteq> 0 \<and> \<not> trailing \<and> res_options st AND RES_DNSRCH \<noteq> 0
                    then search_loop env send name cls type anslen (search_domains st) False False answer st
                    else Some (None, False, False, answer, st));
                 (case r of
                    Some ret \<Rightarrow> Some (ret, answer, st)
                  | None \<Rightarrow> do {
                      (r, answer, st) \<leftarrow> search_as_is env send name cls type answer anslen (\<not> early) st;
                      (case r of
                         Some ret \<Rightarrow> Some (ret, answer, st)
                       | None \<Rightarrow> Some (-1, answer,
                           (if early \<and> saved \<noteq> -1 then st\<lparr>res_h_errno := saved\<rparr>
                            else if nodata then st\<lparr>res_h_errno := NO_DATA\<rparr>
                            else if servfail then st\<lparr>res_h_errno := TRY_AGAIN\<rparr> else st)))
                    })
               })
          })
     }
   }"

end
