(* ===== verification/Res_Query_Props.thy ===== *)
theory Res_Query_Props
  imports Res_Query Res_Init_Props
begin

text \<open>
  Properties of the queries: a message built by \<open>res_mkquery\<close> is read back, its bounds, and the order in which
  \<open>res_search\<close> tries the names.
\<close>

section \<open>dn_comp with the pointers of a new message\<close>

text \<open>In a message without earlier names the search for a suffix finds nothing, so only the array of pointers differs.\<close>

lemma comp_loop_fresh:
  assumes "e \<le> length arr"
  shows "\<exists>a. comp_loop (Some k) 1 (Some e) eob cdn mem arr cpp cp s
     = map_option (\<lambda>(m, _, r). (m, a, r)) (comp_loop None 0 None eob cdn mem [] 0 cp s)"
  using assms
proof (induction "length s" arbitrary: mem arr cpp cp s rule: less_induct)
  case less
  note step1 = comp_loop.simps [of "Some k" 1 "Some e" eob cdn mem arr cpp cp s]
  note step2 = comp_loop.simps [of None 0 None eob cdn mem "[]" 0 cp s]
  have fin: "\<exists>a. comp_finish (Some k) 1 eob cdn m arr' c = map_option (\<lambda>(m, _, r). (m, a, r)) (comp_finish None 0 eob cdn m [] c)" for m arr' c
    by (auto simp: comp_finish_def wr_def)
  show ?case
  proof (cases "s = []")
    case True
    then show ?thesis using step1 step2 fin by simp
  next
    case False
    obtain arr1 cpp1 where p: "(if int cpp < int e - 1 then do { a \<leftarrow> wr arr cpp [Some cp, None]; Some (a, cpp + 1) } else Some (arr, cpp)) = Some (arr1, cpp1)"
      and l: "length arr1 = length arr"
    proof (cases "int cpp < int e - 1")
      case True
      then obtain a where "wr arr cpp [Some cp, None] = Some a" using less.prems by (auto simp: wr_def)
      with True that [of a "cpp + 1"] wr_length [of arr cpp] show ?thesis by simp
    qed (use that in auto)
    have s1: "comp_loop (Some k) 1 (Some e) eob cdn mem arr cpp cp s = do {
             r \<leftarrow> comp_label mem eob (cp + 1) s;
             (case r of
                (mem1, None) \<Rightarrow> Some (mem1, reset_ptrs (Some k) 1 arr1, -1)
              | (mem1, Some (cp1, s1)) \<Rightarrow>
                  if cp1 - cp - 1 = 0 \<and> s1 = [] then comp_finish (Some k) 1 eob cdn mem1 arr1 (cp1 - 1)
                  else if cp1 - cp - 1 = 0 \<or> cp1 - cp - 1 > 63 then Some (mem1, reset_ptrs (Some k) 1 arr1, -1)
                  else do {
                    mem2 \<leftarrow> wr mem1 cp [of_nat (cp1 - cp - 1)];
                    comp_loop (Some k) 1 (Some e) eob cdn mem2 arr1 cpp1 cp1 s1
                  }) }"
    proof -
      have find: "(case Some k of None \<Rightarrow> Some None | Some m \<Rightarrow> dn_find mem m s (map the (take (1 - 1) (drop 1 arr)))) = Some None"
        by simp
      have push: "(case Some e of Some e \<Rightarrow> if Some k \<noteq> None \<and> int cpp < int e - 1
            then do { a \<leftarrow> wr arr cpp [Some cp, None]; Some (a, cpp + 1) } else Some (arr, cpp)
          | None \<Rightarrow> Some (arr, cpp)) = Some (arr1, cpp1)"
        using p by simp
      show ?thesis unfolding step1 find push by (simp only: False if_False bind.bind_lunit option.case prod.case)
    qed
    have s2: "comp_loop None 0 None eob cdn mem [] 0 cp s = do {
             r \<leftarrow> comp_label mem eob (cp + 1) s;
             (case r of
                (mem1, None) \<Rightarrow> Some (mem1, reset_ptrs None 0 [], -1)
              | (mem1, Some (cp1, s1)) \<Rightarrow>
                  if cp1 - cp - 1 = 0 \<and> s1 = [] then comp_finish None 0 eob cdn mem1 [] (cp1 - 1)
                  else if cp1 - cp - 1 = 0 \<or> cp1 - cp - 1 > 63 then Some (mem1, reset_ptrs None 0 [], -1)
                  else do {
                    mem2 \<leftarrow> wr mem1 cp [of_nat (cp1 - cp - 1)];
                    comp_loop None 0 None eob cdn mem2 [] 0 cp1 s1
                  }) }"
      unfolding step2 by (simp only: False if_False bind.bind_lunit option.case prod.case)
    show ?thesis
    proof (cases "comp_label mem eob (cp + 1) s")
      case None
      then show ?thesis using s1 s2 by simp
    next
      case (Some x)
      obtain mem1 r where x: "x = (mem1, r)" by (cases x)
      show ?thesis
      proof (cases r)
        case None
        then show ?thesis using s1 s2 Some x by simp
      next
        case r: (Some y)
        obtain cp1 s1' where y: "y = (cp1, s1')" by (cases y)
        have "length s1' < length s" using comp_label_rest Some x r y False by blast
        note IH = less.hyps [OF this, of arr1]
        show ?thesis
        proof (cases "wr mem1 cp [of_nat (cp1 - cp - 1)]")
          case None
          then show ?thesis using s1 s2 Some x r y fin [of mem1 arr1 "cp1 - 1"] by (auto simp del: wr_eq_None)
        next
          case w: (Some mem2)
          obtain a where "comp_loop (Some k) 1 (Some e) eob cdn mem2 arr1 cpp1 cp1 s1'
              = map_option (\<lambda>(m, _, r). (m, a, r)) (comp_loop None 0 None eob cdn mem2 [] 0 cp1 s1')"
            using IH [of mem2 cpp1 cp1] less.prems l by auto
          then show ?thesis using s1 s2 Some x r y fin [of mem1 arr1 "cp1 - 1"] w by auto
        qed
      qed
    qed
  qed
qed

lemma dn_comp_fresh:
  "\<exists>a. dn_comp dn mem cdn clen (Some first_ptrs) (Some 20) = map_option (\<lambda>(m, _, r). (m, a, r)) (dn_comp dn mem cdn clen None None)"
proof -
  have "ptr_end first_ptrs 1 = Some 1" by (subst ptr_end.simps) (simp add: first_ptrs_def rd_def)
  moreover have "rd first_ptrs 0 = Some (Some 0)" by (simp add: first_ptrs_def rd_def)
  moreover have "(20::nat) \<le> length first_ptrs" by (simp add: first_ptrs_def)
  ultimately show ?thesis
    using comp_loop_fresh [of 20 first_ptrs 0 "nat (int cdn + clen)" cdn mem 1 cdn dn]
    by (simp add: dn_comp_def Let_def)
qed

lemma comp_label_ge: "comp_label mem eob cp s = Some (m, Some (cp1, s1)) \<Longrightarrow> cp \<le> cp1"
proof (induction mem eob cp s rule: comp_label.induct)
  case (1 mem eob cp s)
  show ?case
  proof (cases s)
    case Nil
    with 1(3) show ?thesis by (simp add: comp_label.simps)
  next
    case (Cons c rest)
    note step = 1(3) [unfolded comp_label.simps [of mem eob cp s], unfolded Cons list.case]
    show ?thesis
      using step 1(1,2) [OF Cons] Cons
      by (cases rest) (fastforce simp: bind_eq_Some_conv split: if_splits)+
  qed
qed

lemma comp_loop_result:
  "comp_loop None lpp None eob cdn mem arr cpp cp s = Some (m, a, r) \<Longrightarrow> cdn \<le> cp
   \<Longrightarrow> r = -1 \<or> 0 < r \<and> int cdn + r \<le> int eob"
proof (induction "length s" arbitrary: mem cp s rule: less_induct)
  case less
  note step = less.prems(1) [unfolded comp_loop.simps [of None lpp None eob cdn mem arr cpp cp s]]
  have finish: "r = -1 \<or> 0 < r \<and> int cdn + r \<le> int eob" if "comp_finish None lpp eob cdn m' arr c = Some (m, a, r)" "cdn \<le> c" for m' c
    using that by (auto simp: comp_finish_def bind_eq_Some_conv split: if_splits)
  show ?case
  proof (cases "s = []")
    case True
    with step finish less.prems(2) show ?thesis by simp
  next
    case False
    with step obtain mem1 q where lab: "comp_label mem eob (cp + 1) s = Some (mem1, q)" by (auto simp: bind_eq_Some_conv)
    show ?thesis
    proof (cases q)
      case None
      with step False lab show ?thesis by simp
    next
      case (Some y)
      obtain cp1 s1 where y: "y = (cp1, s1)" by (cases y)
      have le: "length s1 < length s" using comp_label_rest lab Some y False by blast
      consider (fin) "cp1 - cp - 1 = 0" "s1 = []" | (bad) "cp1 - cp - 1 = 0 \<and> s1 \<noteq> [] \<or> cp1 - cp - 1 > 63"
        | (rec) "0 < cp1 - cp - 1" "cp1 - cp - 1 \<le> 63" by linarith
      then show ?thesis
      proof cases
        case fin
        have "cp + 1 \<le> cp1" using comp_label_ge lab Some y by blast
        then show ?thesis using fin step False lab Some y finish [of mem1 "cp1 - 1"] less.prems(2) by simp
      next
        case bad
        with step False lab Some y show ?thesis by (auto split: if_splits)
      next
        case rec
        with step False lab Some y obtain mem2 where "comp_loop None lpp None eob cdn mem2 arr cpp cp1 s1 = Some (m, a, r)"
          by (auto simp: bind_eq_Some_conv split: if_splits)
        from less.hyps [OF le this] rec less.prems(2) show ?thesis by simp
      qed
    qed
  qed
qed

section \<open>The message of a query\<close>

lemma wr_at: "length a = i \<Longrightarrow> length ys \<le> length b \<Longrightarrow> wr (a @ b) i ys = Some (a @ ys @ drop (length ys) b)"
  by (simp add: wr_def)

lemma dn_comp_fresh_safe:
  assumes "0 \<le> clen" "int cdn + clen \<le> int (length mem)"
  shows "\<exists>m a r. dn_comp dn mem cdn clen (Some first_ptrs) (Some 20) = Some (m, a, r) \<and>
     same_outside cdn (nat (int cdn + clen)) mem m \<and> (r = -1 \<or> 0 < r \<and> r \<le> clen)"
proof -
  have eob: "nat (int cdn + clen) \<le> length mem" using assms by linarith
  obtain m a r where c: "comp_loop None 0 None (nat (int cdn + clen)) cdn mem [] 0 cdn dn = Some (m, a, r)"
    "same_outside cdn (nat (int cdn + clen)) mem m" using comp_loop_safe [OF eob] by blast
  obtain a' where "dn_comp dn mem cdn clen (Some first_ptrs) (Some 20) = map_option (\<lambda>(m, _, r). (m, a', r)) (dn_comp dn mem cdn clen None None)"
    using dn_comp_fresh by blast
  moreover have "dn_comp dn mem cdn clen None None = Some (m, a, r)" using c(1) by (simp add: dn_comp_def Let_def)
  moreover have "r = -1 \<or> 0 < r \<and> r \<le> clen" using comp_loop_result [OF c(1)] assms by auto
  ultimately show ?thesis using c(2) by auto
qed

lemma query_header_length [simp]: "length (query_header i op r) = 12"
  by (simp add: query_header_def)

text \<open>C39: \<open>res_mkquery\<close> for a query returns for every name, writes nothing behind the \<open>buflen\<close> bytes of its buffer, and the
  length of the message it reports lies inside them.\<close>

theorem mkquery_safe:
  assumes "res_options st AND RES_INIT \<noteq> 0" "buflen \<le> int (length buf)"
  shows "\<exists>n m st'. res_mkquery env QUERY dname cls type data datalen (Some buf) buflen st = Some (n, Some m, st') \<and>
     same_outside 0 (nat buflen) buf m \<and> (n = -1 \<or> int (HFIXEDSZ + QFIXEDSZ) < n \<and> n \<le> buflen)"
proof (cases "buflen < int HFIXEDSZ")
  case True
  with assms show ?thesis by (simp add: res_mkquery_def)
next
  case False
  let ?h = "query_header (res_id st + 1) QUERY (res_options st AND RES_RECURSE \<noteq> 0)"
  obtain b0 where b0: "wr buf 0 ?h = Some b0" "same_outside 0 (nat buflen) buf b0"
  proof -
    have "wr buf 0 ?h = Some (?h @ drop 12 buf)" using False assms(2) by (simp add: wr_def HFIXEDSZ_def)
    moreover from this have "same_outside 0 (nat buflen) buf (?h @ drop 12 buf)"
      by (rule same_outside_wr) (use False in \<open>simp_all add: HFIXEDSZ_def\<close>)
    ultimately show ?thesis using that by blast
  qed
  then have len0: "length b0 = length buf" by (simp add: same_outside_def)
  let ?l = "buflen - int HFIXEDSZ - int QFIXEDSZ"
  show ?thesis
  proof (cases "?l < 0")
    case True
    with assms False b0 show ?thesis by (simp add: res_mkquery_def mkquery_question_def)
  next
    case fits: False
    then have "0 \<le> ?l" "int HFIXEDSZ + ?l \<le> int (length b0)" using assms(2) len0 by (auto simp: QFIXEDSZ_def)
    from dn_comp_fresh_safe [OF this, of dname] obtain m a r
      where d: "dn_comp dname b0 HFIXEDSZ ?l (Some first_ptrs) (Some 20) = Some (m, a, r)"
        and so: "same_outside HFIXEDSZ (nat (int HFIXEDSZ + ?l)) b0 m" and r: "r = -1 \<or> 0 < r \<and> r \<le> ?l" by blast
    have so1: "same_outside 0 (nat buflen) b0 m"
    proof -
      have "nat (int HFIXEDSZ + ?l) \<le> nat buflen" by (simp add: QFIXEDSZ_def)
      then have "drop (nat buflen) m = drop (nat buflen) b0"
        using so unfolding same_outside_def by (metis drop_drop le_add_diff_inverse2)
      with so show ?thesis by (simp add: same_outside_def)
    qed
    show ?thesis
    proof (cases "r = -1")
      case True
      with assms False fits b0 d so1 show ?thesis
        by (auto simp: res_mkquery_def mkquery_question_def intro: same_outside_trans)
    next
      case r1: False
      then have r: "0 < r" "r \<le> ?l" using r by auto
      let ?cp = "HFIXEDSZ + nat r"
      have lm: "length m = length buf" using so1 len0 by (simp add: same_outside_def)
      have cp: "?cp + 4 \<le> nat buflen" "nat buflen \<le> length m"
        using r assms(2) lm by (auto simp: QFIXEDSZ_def)
      obtain m1 where m1: "putshort (of_int type) m ?cp = Some m1"
        using cp by (simp add: putshort_def wr_def)
      have s1: "same_outside 0 (nat buflen) m m1"
        using m1 cp unfolding putshort_def by (intro same_outside_wr) auto
      obtain m2 where m2: "putshort (of_int cls) m1 (?cp + 2) = Some m2"
        using cp s1 by (simp add: putshort_def wr_def same_outside_def)
      have s2: "same_outside 0 (nat buflen) m1 m2"
        using m2 cp unfolding putshort_def by (intro same_outside_wr) auto
      obtain m3 where m3: "wr m2 4 [0, 1] = Some m3"
        using cp s1 s2 by (simp add: wr_def same_outside_def HFIXEDSZ_def)
      have s3: "same_outside 0 (nat buflen) m2 m3"
        using m3 cp by (intro same_outside_wr) (auto simp: HFIXEDSZ_def)
      have "same_outside 0 (nat buflen) buf m3"
        using b0(2) so1 s1 s2 s3 by (metis order_refl same_outside_trans)
      moreover have "res_mkquery env QUERY dname cls type data datalen (Some buf) buflen st
          = Some (int (?cp + 4), Some m3, st\<lparr>res_id := res_id st + 1\<rparr>)"
        using assms(1) False fits b0(1) d r1 r m1 m2 m3
        by (simp add: res_mkquery_def mkquery_question_def Let_def)
      moreover have "int (HFIXEDSZ + QFIXEDSZ) < int (?cp + 4)" "int (?cp + 4) \<le> buflen"
        using r cp by (auto simp: QFIXEDSZ_def)
      ultimately show ?thesis by blast
    qed
  qed
qed

lemma mkquery_bytes:
  assumes "res_options st AND RES_INIT \<noteq> 0" "list_all valid_label ls" "buflen \<le> int (length buf)"
    and "int (HFIXEDSZ + length (wire_name ls) + QFIXEDSZ) \<le> buflen"
  shows "res_mkquery env QUERY (text_name ls) cls type None datalen (Some buf) buflen st
     = Some (int (HFIXEDSZ + length (wire_name ls) + QFIXEDSZ),
         Some (list_update (query_header (res_id st + 1) QUERY (res_options st AND RES_RECURSE \<noteq> 0)) 5 1 @ wire_name ls @
           [ucast (drop_bit 8 (of_int type :: u16)), ucast (of_int type :: u16),
            ucast (drop_bit 8 (of_int cls :: u16)), ucast (of_int cls :: u16)] @ drop (HFIXEDSZ + length (wire_name ls) + QFIXEDSZ) buf),
         st\<lparr>res_id := res_id st + 1\<rparr>)"
proof -
  let ?h = "query_header (res_id st + 1) QUERY (res_options st AND RES_RECURSE \<noteq> 0)"
  let ?w = "wire_name ls"
  have h: "length ?h = 12" by (simp add: query_header_def)
  have len: "12 + length ?w + 4 \<le> length buf" using assms(3,4) by (simp add: HFIXEDSZ_def QFIXEDSZ_def)
  have w0: "wr buf 0 ?h = Some (?h @ drop 12 buf)" using len by (simp add: wr_def h)
  obtain a where "dn_comp (text_name ls) (?h @ drop 12 buf) 12 (buflen - 12 - 4) (Some first_ptrs) (Some 20)
      = map_option (\<lambda>(m, _, r). (m, a, r)) (dn_comp (text_name ls) (?h @ drop 12 buf) 12 (buflen - 12 - 4) None None)"
    using dn_comp_fresh by blast
  also have "dn_comp (text_name ls) (?h @ drop 12 buf) 12 (buflen - 12 - 4) None None
      = Option.bind (wr (?h @ drop 12 buf) 12 ?w) (\<lambda>m. Some (m, [], int (length ?w)))"
    by (rule dn_comp_writes_wire_name [OF assms(2)]) (use assms(3,4) len h in \<open>simp_all add: HFIXEDSZ_def QFIXEDSZ_def\<close>)
  also have "wr (?h @ drop 12 buf) 12 ?w = Some (?h @ ?w @ drop (12 + length ?w) buf)"
    using wr_at [OF h, of ?w "drop 12 buf"] len by (simp add: add.commute)
  finally have d: "dn_comp (text_name ls) (?h @ drop 12 buf) 12 (buflen - 12 - 4) (Some first_ptrs) (Some 20)
      = Some (?h @ ?w @ drop (12 + length ?w) buf, a, int (length ?w))" by simp
  let ?t = "[ucast (drop_bit 8 (of_int type :: u16)), ucast (of_int type :: u16)] :: u8 list"
  let ?c = "[ucast (drop_bit 8 (of_int cls :: u16)), ucast (of_int cls :: u16)] :: u8 list"
  have p1: "putshort (of_int type) (?h @ ?w @ drop (12 + length ?w) buf) (12 + length ?w) = Some (?h @ ?w @ ?t @ drop (12 + length ?w + 2) buf)"
    using wr_at [of "?h @ ?w" "12 + length ?w" ?t "drop (12 + length ?w) buf"] h len by (simp add: putshort_def add.commute)
  have p2: "putshort (of_int cls) (?h @ ?w @ ?t @ drop (12 + length ?w + 2) buf) (12 + length ?w + 2)
      = Some (?h @ ?w @ ?t @ ?c @ drop (12 + length ?w + 4) buf)"
    using wr_at [of "?h @ ?w @ ?t" "12 + length ?w + 2" ?c "drop (12 + length ?w + 2) buf"] h len by (simp add: putshort_def add.commute)
  have p3: "wr (?h @ r) 4 [0, 1] = Some (list_update ?h 5 1 @ r)" for r
    by (simp add: wr_def query_header_def)
  show ?thesis
    using assms(1,4) w0 d p1 p2 p3
    by (simp add: res_mkquery_def mkquery_question_def HFIXEDSZ_def QFIXEDSZ_def Let_def)
qed

lemma getshort_at: "length a = i \<Longrightarrow> getshort (a @ [ucast (drop_bit 8 v), ucast v] @ b) i = Some v"
  using putshort_getshort_fact [of v "a @ [ucast (drop_bit 8 v), ucast v] @ b" i "a @ [ucast (drop_bit 8 v), ucast v] @ b"]
  by (simp add: putshort_def wr_def)

text \<open>C15: the message \<open>res_mkquery\<close> builds for a name of valid labels is read back: \<open>dn_expand\<close> finds the name behind the
  header, type and class follow it, the identification is the next one, and the message holds one question and no answer.\<close>

theorem mkquery_read_back:
  assumes "res_options st AND RES_INIT \<noteq> 0" "list_all valid_label ls" "buflen \<le> int (length buf)"
    and "int (HFIXEDSZ + length (wire_name ls) + QFIXEDSZ) \<le> buflen"
  shows "\<exists>m. res_mkquery env QUERY (text_name ls) cls type None datalen (Some buf) buflen st
       = Some (int (HFIXEDSZ + length (wire_name ls) + QFIXEDSZ), Some m, st\<lparr>res_id := res_id st + 1\<rparr>) \<and>
     dn_expand m (HFIXEDSZ + length (wire_name ls) + QFIXEDSZ) HFIXEDSZ (int (length (text_name ls)) + 1)
       = Some (DnOk (length (wire_name ls)) (text_name ls)) \<and>
     getshort m (HFIXEDSZ + length (wire_name ls)) = Some (of_int type) \<and>
     getshort m (HFIXEDSZ + length (wire_name ls) + 2) = Some (of_int cls) \<and>
     getshort m 0 = Some (res_id st + 1) \<and> getshort m 4 = Some 1 \<and> getshort m 6 = Some 0"
proof -
  let ?h = "list_update (query_header (res_id st + 1) QUERY (res_options st AND RES_RECURSE \<noteq> 0)) 5 1"
  let ?w = "wire_name ls"
  let ?t = "[ucast (drop_bit 8 (of_int type :: u16)), ucast (of_int type :: u16)] :: u8 list"
  let ?c = "[ucast (drop_bit 8 (of_int cls :: u16)), ucast (of_int cls :: u16)] :: u8 list"
  let ?r = "drop (HFIXEDSZ + length ?w + QFIXEDSZ) buf"
  let ?m = "?h @ ?w @ ?t @ ?c @ ?r"
  have h: "length ?h = HFIXEDSZ" by (simp add: HFIXEDSZ_def)
  have "dn_expand ?m (HFIXEDSZ + length ?w + QFIXEDSZ) HFIXEDSZ (int (length (text_name ls)) + 1) = Some (DnOk (length ?w) (text_name ls))"
    by (rule dn_expand_wire_name [OF assms(2)]) (simp_all add: h [symmetric] QFIXEDSZ_def)
  moreover have "getshort ?m (HFIXEDSZ + length ?w) = Some (of_int type)"
    using getshort_at [of "?h @ ?w" "HFIXEDSZ + length ?w" "of_int type" "?c @ ?r"] h by simp
  moreover have "getshort ?m (HFIXEDSZ + length ?w + 2) = Some (of_int cls)"
    using getshort_at [of "?h @ ?w @ ?t" "HFIXEDSZ + length ?w + 2" "of_int cls" ?r] h by simp
  moreover have "getshort ?m 0 = Some (res_id st + 1)"
    using getshort_at [of "[]" 0 "res_id st + 1"] by (simp add: query_header_def)
  moreover have "getshort ?m 4 = Some 1" "getshort ?m 6 = Some 0"
    by (simp_all add: getshort_def query_header_def rd_def)
  ultimately show ?thesis
    using mkquery_bytes [OF assms, of env cls type datalen] by (intro exI [of _ ?m]) simp
qed

theorem mkquery_read_back_witness:
  "\<exists>m. res_mkquery (conf_env []) QUERY (text_name [[0x61], [0x62]]) 1 1 None 0 (Some (replicate 512 0)) 512 (zero_res\<lparr>res_options := 1\<rparr>)
     = Some (21, Some m, zero_res\<lparr>res_options := 1, res_id := 1\<rparr>) \<and> getshort m 17 = Some 1"
proof -
  have "list_all valid_label [[0x61], [0x62]]" by (simp add: valid_label_def space_byte_def)
  from mkquery_read_back [OF _ this, of "zero_res\<lparr>res_options := 1\<rparr>" 512 "replicate 512 0" "conf_env []" 1 1 0] show ?thesis
    by (force simp: wire_name_def HFIXEDSZ_def QFIXEDSZ_def zero_res_def)
qed

theorem mkquery_safe_witness:
  "\<exists>n m st'. res_mkquery (conf_env []) QUERY [0x2e, 0x2e] 1 1 None 0 (Some (replicate 20 7)) 14 (zero_res\<lparr>res_options := 1\<rparr>) = Some (n, Some m, st') \<and>
     drop 14 m = replicate 6 7"
  using mkquery_safe [of "zero_res\<lparr>res_options := 1\<rparr>" 14 "replicate 20 7" "conf_env []" "[0x2e, 0x2e]" 1 1 None 0]
  by (fastforce simp: same_outside_def zero_res_def eval_nat_numeral)

section \<open>The order of the names that are tried\<close>

text \<open>The settings a search depends on, and a state in which they still hold and no server has refused.\<close>

definition settled :: "res_state \<Rightarrow> res_state \<Rightarrow> bool" where
  "settled st s \<longleftrightarrow> res_options s = res_options st \<and> res_ndots s = res_ndots st \<and> res_dnsrch s = res_dnsrch st \<and>
     res_defdname s = res_defdname st \<and> res_errno s \<noteq> ECONNREFUSED"

definition dots :: "string \<Rightarrow> nat" where
  "dots name = count_list name (CHR ''.'')"

definition searched :: "res_state \<Rightarrow> string \<Rightarrow> bool" where
  "searched st name \<longleftrightarrow> dots name = 0 \<and> res_options st AND RES_DEFNAMES \<noteq> 0 \<or>
     dots name \<noteq> 0 \<and> \<not> (name \<noteq> [] \<and> last name = CHR ''.'') \<and> res_options st AND RES_DNSRCH \<noteq> 0"

text \<open>
  The names in the order they are asked for: the name itself first when it has enough dots, then behind it the
  domains of the search list (only the first of them without \<open>RES_DNSRCH\<close>), or else the name itself at the end.
\<close>

definition search_names :: "res_state \<Rightarrow> string \<Rightarrow> string list" where
  "search_names st name =
     (if dots name \<ge> res_ndots st then [query_name name None] else []) @
     (if searched st name then map (\<lambda>d. query_name name (Some d))
        (if res_options st AND RES_DNSRCH \<noteq> 0 then search_domains st else take 1 (search_domains st)) else []) @
     (if dots name \<ge> res_ndots st then [] else [query_name name None])"

text \<open>What name servers that know the names in \<open>found\<close> and deny all others make of the queries for the names \<open>N\<close>.\<close>

definition name_service :: "res_env \<Rightarrow> send \<Rightarrow> int \<Rightarrow> int \<Rightarrow> int \<Rightarrow> res_state \<Rightarrow> (string \<Rightarrow> int option) \<Rightarrow> string set \<Rightarrow> bool" where
  "name_service env send cls type anslen st found N \<longleftrightarrow>
     (\<forall>nm \<in> N. \<forall>ans s. settled st s \<longrightarrow> 4 \<le> length ans \<longrightarrow>
        (\<exists>ans' s'. res_query env send nm cls type ans anslen s = Some ((case found nm of Some n \<Rightarrow> n | None \<Rightarrow> -1), ans', s') \<and>
           settled st s' \<and> 4 \<le> length ans' \<and> (case found nm of Some n \<Rightarrow> 0 < n | None \<Rightarrow> res_h_errno s' = HOST_NOT_FOUND)))"

definition first_found :: "(string \<Rightarrow> int option) \<Rightarrow> string list \<Rightarrow> int option" where
  "first_found found names = Option.bind (List.find (\<lambda>n. found n \<noteq> None) names) found"

lemma first_found_simps [simp]:
  "first_found found [] = None"
  "first_found found (n # ns) = (case found n of Some r \<Rightarrow> Some r | None \<Rightarrow> first_found found ns)"
  by (auto simp: first_found_def split: option.splits)

lemma first_found_append:
  "first_found found (xs @ ys) = (case first_found found xs of Some r \<Rightarrow> Some r | None \<Rightarrow> first_found found ys)"
  by (induction xs) (auto split: option.splits)

lemma name_serviceE:
  assumes "name_service env send cls type anslen st found N" "nm \<in> N" "settled st s" "4 \<le> length ans"
  obtains ans' s' where "res_query env send nm cls type ans anslen s = Some ((case found nm of Some n \<Rightarrow> n | None \<Rightarrow> -1), ans', s')"
    "settled st s'" "4 \<le> length ans'" "case found nm of Some n \<Rightarrow> 0 < n | None \<Rightarrow> res_h_errno s' = HOST_NOT_FOUND"
  using assms unfolding name_service_def by blast

lemma querydomain_service:
  assumes "name_service env send cls type anslen st found N" "query_name name d \<in> N" "settled st s" "4 \<le> length ans"
    and "res_options st AND RES_INIT \<noteq> 0"
  obtains ans' s' where "res_querydomain env send name d cls type ans anslen s
      = Some ((case found (query_name name d) of Some n \<Rightarrow> n | None \<Rightarrow> -1), ans', s')"
    "settled st s'" "4 \<le> length ans'"
    "case found (query_name name d) of Some n \<Rightarrow> 0 < n | None \<Rightarrow> res_h_errno s' = HOST_NOT_FOUND"
proof -
  have "res_options s AND RES_INIT \<noteq> 0" using assms(3,5) by (simp add: settled_def)
  then have "res_querydomain env send name d cls type ans anslen s = res_query env send (query_name name d) cls type ans anslen s"
    by (simp add: res_querydomain_def)
  with name_serviceE [OF assms(1-4)] that show ?thesis by metis
qed

lemma search_loop_service:
  assumes "name_service env send cls type anslen st found N" "(\<lambda>d. query_name name (Some d)) ` set ds \<subseteq> N" "settled st s" "4 \<le> length ans"
    and "res_options st AND RES_INIT \<noteq> 0" "res_h_errno s = HOST_NOT_FOUND"
  shows "\<exists>ans' s'. search_loop env send name cls type anslen ds False False ans s
     = Some (first_found found (map (\<lambda>d. query_name name (Some d)) (if res_options st AND RES_DNSRCH \<noteq> 0 then ds else take 1 ds)),
         False, False, ans', s') \<and>
     settled st s' \<and> 4 \<le> length ans' \<and>
     (first_found found (map (\<lambda>d. query_name name (Some d)) (if res_options st AND RES_DNSRCH \<noteq> 0 then ds else take 1 ds)) = None
       \<longrightarrow> res_h_errno s' = HOST_NOT_FOUND)"
  using assms(2-4,6)
proof (induction ds arbitrary: ans s)
  case Nil
  then show ?case by simp
next
  case (Cons d ds)
  from Cons.prems have mem: "query_name name (Some d) \<in> N" by simp
  obtain ans1 s1 where q: "res_querydomain env send name (Some d) cls type ans anslen s
      = Some ((case found (query_name name (Some d)) of Some n \<Rightarrow> n | None \<Rightarrow> -1), ans1, s1)"
    and s1: "settled st s1" "4 \<le> length ans1"
    and f: "case found (query_name name (Some d)) of Some n \<Rightarrow> 0 < n | None \<Rightarrow> res_h_errno s1 = HOST_NOT_FOUND"
    using querydomain_service [OF assms(1) mem Cons.prems(2,3) assms(5)] by blast
  show ?case
  proof (cases "found (query_name name (Some d))")
    case (Some n)
    with q f s1 show ?thesis by simp
  next
    case None
    then have h: "res_h_errno s1 = HOST_NOT_FOUND" using f by simp
    obtain rc where rc: "answer_rcode ans1 = Some rc" using s1 by (simp add: answer_rcode_def)
    have opt: "res_options s1 = res_options st" "res_errno s1 \<noteq> ECONNREFUSED" using s1 by (simp_all add: settled_def)
    show ?thesis
    proof (cases "res_options st AND RES_DNSRCH \<noteq> 0")
      case True
      with None q h rc opt Cons.IH [of s1 ans1] Cons.prems s1 show ?thesis by (auto simp: Let_def)
    next
      case False
      with None q h rc opt s1 show ?thesis by (auto simp: Let_def)
    qed
  qed
qed

lemma as_is_service:
  assumes "name_service env send cls type anslen st found N" "now \<Longrightarrow> query_name name None \<in> N" "settled st s" "4 \<le> length ans"
    and "res_options st AND RES_INIT \<noteq> 0" "res_h_errno s = HOST_NOT_FOUND"
  shows "\<exists>ans' s'. search_as_is env send name cls type ans anslen now s
     = Some (first_found found (if now then [query_name name None] else []), ans', s') \<and>
     settled st s' \<and> 4 \<le> length ans' \<and>
     (first_found found (if now then [query_name name None] else []) = None \<longrightarrow> res_h_errno s' = HOST_NOT_FOUND)"
proof (cases now)
  case False
  with assms show ?thesis by (simp add: search_as_is_def)
next
  case True
  from querydomain_service [OF assms(1) assms(2) [OF True] assms(3,4,5)] obtain ans' s' where
    "res_querydomain env send name None cls type ans anslen s
      = Some ((case found (query_name name None) of Some n \<Rightarrow> n | None \<Rightarrow> -1), ans', s')"
    "settled st s'" "4 \<le> length ans'"
    "case found (query_name name None) of Some n \<Rightarrow> 0 < n | None \<Rightarrow> res_h_errno s' = HOST_NOT_FOUND" by blast
  with True show ?thesis by (cases "found (query_name name None)") (simp_all add: search_as_is_def)
qed

text \<open>C3: with name servers that know some names and deny the others, \<open>res_search\<close> returns the answer for the first known
  name of the search order, and fails with \<open>HOST_NOT_FOUND\<close> when there is none.\<close>

theorem res_search_order:
  assumes "name_service env send cls type anslen st found (set (search_names st name))"
    and "res_options st AND RES_INIT \<noteq> 0" "4 \<le> length ans" "dots name = 0 \<Longrightarrow> \<forall>s. settled st s \<longrightarrow> hostalias env name s = None"
  shows "\<exists>ans' st'. res_search env send name cls type ans anslen st
       = Some (case first_found found (search_names st name) of Some n \<Rightarrow> n | None \<Rightarrow> -1, ans', st') \<and>
     (first_found found (search_names st name) = None \<longrightarrow> res_h_errno st' = HOST_NOT_FOUND)"
proof -
  define s0 where "s0 = st\<lparr>res_errno := ENOERR, res_h_errno := HOST_NOT_FOUND\<rparr>"
  let ?N = "set (search_names st name)"
  let ?early = "res_ndots st \<le> dots name"
  let ?e = "if ?early then [query_name name None] else []"
  let ?ds = "if res_options st AND RES_DNSRCH \<noteq> 0 then search_domains st else take 1 (search_domains st)"
  let ?m = "if searched st name then map (\<lambda>d. query_name name (Some d)) ?ds else []"
  let ?l = "if \<not> ?early then [query_name name None] else []"
  have names: "search_names st name = ?e @ ?m @ ?l" by (simp add: search_names_def)
  have s0: "settled st s0" "res_h_errno s0 = HOST_NOT_FOUND" by (simp_all add: settled_def s0_def)
  have no_alias: "(if count_list name (CHR ''.'') = 0 then hostalias env name s0 else None) = None"
    using assms(4) s0 by (simp add: dots_def)
  have ini: "(if res_options st AND RES_INIT = 0 then res_init env st else Some (0, st)) = Some (0, st)" using assms(2) by simp
  have settle: "res_ndots s = res_ndots st" "res_options s = res_options st" "search_domains s = search_domains st" if "settled st s" for s
    using that by (simp_all add: settled_def search_domains_def)
  obtain ans1 s1 where 1: "search_as_is env send name cls type ans anslen ?early s0 = Some (first_found found ?e, ans1, s1)"
    and s1: "settled st s1" "4 \<le> length ans1" "first_found found ?e = None \<longrightarrow> res_h_errno s1 = HOST_NOT_FOUND"
    using as_is_service [OF assms(1) _ s0(1) assms(3,2) s0(2), of ?early name] by (auto simp: names)
  show ?thesis
  proof (cases "first_found found ?e")
    case (Some n)
    have "res_search env send name cls type ans anslen st = Some (n, ans1, s1)"
      using ini no_alias 1 Some settle [OF s0(1)]
      by (simp only: res_search_def ini no_alias bind.bind_lunit prod.case option.case s0_def [symmetric] Let_def) (simp add: dots_def [symmetric])
    with Some show ?thesis by (simp only: names first_found_append) simp
  next
    case None
    then have h1: "res_h_errno s1 = HOST_NOT_FOUND" using s1 by simp
    have cond: "(dots name = 0 \<and> res_options s1 AND RES_DEFNAMES \<noteq> 0 \<or>
        dots name \<noteq> 0 \<and> \<not> (name \<noteq> [] \<and> last name = CHR ''.'') \<and> res_options s1 AND RES_DNSRCH \<noteq> 0) = searched st name"
      by (simp add: searched_def settle [OF s1(1)])
    obtain ans2 s2 where 2: "(if searched st name then search_loop env send name cls type anslen (search_domains s1) False False ans1 s1
        else Some (None, False, False, ans1, s1)) = Some (first_found found ?m, False, False, ans2, s2)"
      and s2: "settled st s2" "4 \<le> length ans2" "first_found found ?m = None \<longrightarrow> res_h_errno s2 = HOST_NOT_FOUND"
    proof (cases "searched st name")
      case True
      show ?thesis
      proof (cases "res_options st AND RES_DNSRCH \<noteq> 0")
        case d: True
        have "(\<lambda>d. query_name name (Some d)) ` set (search_domains st) \<subseteq> ?N" using True d by (auto simp: names)
        from search_loop_service [OF assms(1) this s1(1,2) assms(2) h1] that True d show ?thesis
          by (auto simp: settle [OF s1(1)])
      next
        case d: False
        show ?thesis
        proof (cases "search_domains st")
          case Nil
          with that True s1 h1 show ?thesis by (simp add: settle [OF s1(1)])
        next
          case (Cons x xs)
          have "(\<lambda>d. query_name name (Some d)) ` set [x] \<subseteq> ?N" using True d Cons by (auto simp: names)
          from search_loop_service [OF assms(1) this s1(1,2) assms(2) h1] d
          obtain ans' s' where l: "search_loop env send name cls type anslen [x] False False ans1 s1
              = Some (first_found found [query_name name (Some x)], False, False, ans', s')" "settled st s'" "4 \<le> length ans'"
            "first_found found [query_name name (Some x)] = None \<longrightarrow> res_h_errno s' = HOST_NOT_FOUND" by auto
          have "search_loop env send name cls type anslen (x # xs) False False ans1 s1 = search_loop env send name cls type anslen [x] False False ans1 s1"
          proof -
            have "query_name name (Some x) \<in> ?N" using True d Cons by (auto simp: names)
            from querydomain_service [OF assms(1) this s1(1,2) assms(2)] obtain a s where
              "res_querydomain env send name (Some x) cls type ans1 anslen s1
                = Some ((case found (query_name name (Some x)) of Some n \<Rightarrow> n | None \<Rightarrow> -1), a, s)" "settled st s" by blast
            with d show ?thesis by (simp add: Let_def settle)
          qed
          with l True d Cons that show ?thesis by (simp add: settle [OF s1(1)])
        qed
      qed
    next
      case False
      with that s1 h1 show ?thesis by simp
    qed
    show ?thesis
    proof (cases "first_found found ?m")
      case (Some n)
      have "res_search env send name cls type ans anslen st = Some (n, ans2, s2)"
        using ini no_alias 1 None settle [OF s0(1)] cond 2 Some
        by (simp only: res_search_def ini no_alias bind.bind_lunit prod.case option.case s0_def [symmetric] Let_def) (simp add: dots_def [symmetric])
      with None Some show ?thesis by (simp only: names first_found_append) simp
    next
      case none2: None
      then have h2: "res_h_errno s2 = HOST_NOT_FOUND" using s2 by simp
      obtain ans3 s3 where 3: "search_as_is env send name cls type ans2 anslen (\<not> ?early) s2 = Some (first_found found ?l, ans3, s3)"
        and s3: "first_found found ?l = None \<longrightarrow> res_h_errno s3 = HOST_NOT_FOUND"
        using as_is_service [OF assms(1) _ s2(1,2) assms(2) h2, of "\<not> ?early" name] by (auto simp: names)
      have "res_search env send name cls type ans anslen st = (case first_found found ?l of
            Some ret \<Rightarrow> Some (ret, ans3, s3)
          | None \<Rightarrow> Some (-1, ans3, if ?early then s3\<lparr>res_h_errno := HOST_NOT_FOUND\<rparr> else s3))"
        using ini no_alias 1 None settle [OF s0(1)] cond 2 none2 3 h1
        by (simp only: res_search_def ini no_alias bind.bind_lunit prod.case option.case s0_def [symmetric] Let_def) (simp add: dots_def [symmetric])
      with s3 None none2 show ?thesis
        by (cases "first_found found ?l") (simp_all only: names first_found_append option.case, auto)
    qed
  qed
qed

lemma res_query_valid:
  assumes "string_bytes nm = text_name ls" "list_all valid_label ls" "length (wire_name ls) \<le> 1000"
    and "res_options s AND RES_INIT \<noteq> 0" "4 \<le> length ans"
  shows "\<exists>msg. length msg = 16 + length (wire_name ls) \<and>
     drop 12 msg = wire_name ls @ [ucast (drop_bit 8 (of_int type :: u16)), ucast (of_int type :: u16),
            ucast (drop_bit 8 (of_int cls :: u16)), ucast (of_int cls :: u16)] \<and>
     res_query env send nm cls type ans anslen s = do {
       (n, answer, st) \<leftarrow> send msg (ans[3 := ans ! 3 AND 0xf0]) anslen (s\<lparr>res_id := res_id s + 1\<rparr>);
       if n < 0 then Some (n, answer, st\<lparr>res_h_errno := TRY_AGAIN\<rparr>)
       else do {
         rcode \<leftarrow> answer_rcode answer;
         ancount \<leftarrow> getshort answer 6;
         if rcode \<noteq> 0 \<or> ancount = 0 then Some (-1, answer, st\<lparr>res_h_errno := rcode_h_errno rcode\<rparr>)
         else Some (n, answer, st)
       }
     }"
proof -
  let ?n = "int (HFIXEDSZ + length (wire_name ls) + QFIXEDSZ)"
  let ?q = "[ucast (drop_bit 8 (of_int type :: u16)), ucast (of_int type :: u16),
            ucast (drop_bit 8 (of_int cls :: u16)), ucast (of_int cls :: u16)] :: u8 list"
  define h where "h = list_update (query_header (res_id s + 1) QUERY (res_options s AND RES_RECURSE \<noteq> 0)) 5 1"
  have lh: "length h = 12" by (simp add: h_def query_header_def)
  define m where "m = h @ wire_name ls @ ?q @ drop (HFIXEDSZ + length (wire_name ls) + QFIXEDSZ) (replicate MAXPACKET (0 :: u8))"
  have m: "res_mkquery env QUERY (string_bytes nm) cls type None 0 (Some (replicate MAXPACKET 0)) (int MAXPACKET) s
      = Some (?n, Some m, s\<lparr>res_id := res_id s + 1\<rparr>)" "length m = MAXPACKET" "drop 12 (take (nat ?n) m) = wire_name ls @ ?q"
  proof -
    show "res_mkquery env QUERY (string_bytes nm) cls type None 0 (Some (replicate MAXPACKET 0)) (int MAXPACKET) s
      = Some (?n, Some m, s\<lparr>res_id := res_id s + 1\<rparr>)"
      unfolding m_def h_def assms(1)
      by (rule mkquery_bytes [OF assms(4,2)]) (use assms(3) in \<open>simp_all add: MAXPACKET_def HFIXEDSZ_def QFIXEDSZ_def\<close>)
    show "length m = MAXPACKET" using assms(3) lh by (simp add: m_def MAXPACKET_def HFIXEDSZ_def QFIXEDSZ_def)
    show "drop 12 (take (nat ?n) m) = wire_name ls @ ?q"
      using lh by (simp add: m_def HFIXEDSZ_def QFIXEDSZ_def nat_int_add nat_add_distrib)
  qed
  have "rd ans 3 = Some (ans ! 3)" using assms(5) by (simp add: rd_def)
  moreover have "length (take (nat ?n) m) = 16 + length (wire_name ls)"
    using m(2) assms(3) by (simp add: MAXPACKET_def HFIXEDSZ_def QFIXEDSZ_def)
  moreover have "\<not> ?n \<le> 0" by (simp add: HFIXEDSZ_def)
  ultimately show ?thesis
    using m(1,3) assms(4) by (intro exI [of _ "take (nat ?n) m"]) (simp add: res_query_def Let_def)
qed

text \<open>A host in the domain lan.org, and servers that know the host pc there.\<close>

definition demo_res :: res_state where
  "demo_res = zero_res\<lparr>res_options := 0x2c1, res_ndots := 1, res_dnsrch := [0], res_defdname := ''lan.org'' @ [NUL]\<rparr>"

definition demo_send :: send where
  "demo_send msg ans anslen s = Some (12, (if length msg = 28 then [0, 0, 0, 0, 0, 0, 0, 1, 0, 0, 0, 0]
     else [0, 0, 0, 3, 0, 0, 0, 0, 0, 0, 0, 0]), s)"

lemma demo_search_names: "search_names demo_res ''pc'' = [''pc.lan.org'', ''pc'']"
proof -
  have "search_domains demo_res = [''lan.org'']" by (simp add: search_domains_def demo_res_def cstr_def NUL_def)
  moreover have "res_options demo_res AND RES_DEFNAMES \<noteq> 0" "res_options demo_res AND RES_DNSRCH \<noteq> 0"
    by (simp_all add: demo_res_def)
  moreover have "dots ''pc'' = 0" "res_ndots demo_res = 1" by (simp_all add: dots_def demo_res_def)
  ultimately show ?thesis
    by (simp add: search_names_def searched_def query_name_def MAXDNAME_def)
qed

lemma demo_service: "name_service (conf_env []) demo_send 1 1 1024 demo_res (\<lambda>n. if n = ''pc.lan.org'' then Some 12 else None) {''pc.lan.org'', ''pc''}"
proof -
  have opt: "res_options s AND RES_INIT \<noteq> 0" if "settled demo_res s" for s
    using that by (simp add: settled_def demo_res_def)
  have bytes: "string_bytes ''pc.lan.org'' = text_name [[0x70, 0x63], [0x6c, 0x61, 0x6e], [0x6f, 0x72, 0x67]]"
    "string_bytes ''pc'' = text_name [[0x70, 0x63]]"
    by (simp_all add: string_bytes_def)
  have valid: "list_all valid_label [[0x70, 0x63], [0x6c, 0x61, 0x6e], [0x6f, 0x72, 0x67]]" "list_all valid_label [[0x70, 0x63]]"
    by (simp_all add: valid_label_def space_byte_def)
  have "\<exists>ans' s'. res_query (conf_env []) demo_send ''pc.lan.org'' 1 1 ans 1024 s = Some (12, ans', s') \<and> settled demo_res s' \<and> 4 \<le> length ans'"
    if "settled demo_res s" "4 \<le> length ans" for ans s
    using res_query_valid [OF bytes(1) valid(1) _ opt [OF that(1)] that(2), where env = "conf_env []" and send = demo_send and cls = 1 and type = 1 and anslen = 1024] that(1)
    by (auto simp: wire_name_def demo_send_def answer_rcode_def getshort_def rd_def settled_def)
  moreover have "\<exists>ans' s'. res_query (conf_env []) demo_send ''pc'' 1 1 ans 1024 s = Some (-1, ans', s') \<and> settled demo_res s' \<and> 4 \<le> length ans' \<and>
      res_h_errno s' = HOST_NOT_FOUND"
    if "settled demo_res s" "4 \<le> length ans" for ans s
    using res_query_valid [OF bytes(2) valid(2) _ opt [OF that(1)] that(2), where env = "conf_env []" and send = demo_send and cls = 1 and type = 1 and anslen = 1024] that(1)
    by (auto simp: wire_name_def demo_send_def answer_rcode_def getshort_def rd_def settled_def rcode_h_errno_def)
  ultimately show ?thesis by (simp add: name_service_def)
qed

theorem res_search_order_witness:
  "\<exists>ans st. res_search (conf_env []) demo_send ''pc'' 1 1 (replicate 1024 0) 1024 demo_res = Some (12, ans, st)"
proof -
  have "name_service (conf_env []) demo_send 1 1 1024 demo_res (\<lambda>n. if n = ''pc.lan.org'' then Some 12 else None) (set (search_names demo_res ''pc''))"
    using demo_service by (simp add: demo_search_names)
  moreover have "res_options demo_res AND RES_INIT \<noteq> 0" by (simp add: demo_res_def)
  moreover have "hostalias (conf_env []) ''pc'' s = None" for s by (simp add: hostalias_def conf_env_facts(6))
  ultimately show ?thesis
    using res_search_order [of "conf_env []" demo_send 1 1 1024 demo_res "\<lambda>n. if n = ''pc.lan.org'' then Some 12 else None" "''pc''" "replicate 1024 0"]
    by (fastforce simp: demo_search_names)
qed

end
