(* ===== verification/Host_Answer.thy ===== *)
theory Host_Answer
  imports "HOL-Library.Multiset" Res_Query
begin

text \<open>
  The answer of a name server as a host entry: \<open>getanswer\<close> and \<open>addrsort\<close> of \<open>src/inet/ghstnmad.c\<close>. The answer is an
  object of \<open>MAXPACKET\<close> bytes of which \<open>anslen\<close> have been received. Names and addresses are stored one
  behind the other in \<open>hostbuf\<close>; the pointers to them are offsets, and \<open>al\<close> is the address of \<open>hostbuf\<close>.
\<close>

abbreviation (input) MAXADDRS :: nat where "MAXADDRS \<equiv> 35"
abbreviation (input) C_IN :: u16 where "C_IN \<equiv> 1"
abbreviation (input) T_A :: u16 where "T_A \<equiv> 1"
abbreviation (input) T_CNAME :: u16 where "T_CNAME \<equiv> 5"
abbreviation (input) T_PTR :: u16 where "T_PTR \<equiv> 12"

definition hostbuf_size :: nat where "hostbuf_size = BUFSIZ + 1"

text \<open>A host entry; the addresses are the bytes of each.\<close>

record hostent =
  h_name :: "u8 list"
  h_aliases :: "u8 list list"
  h_addrtype :: int
  h_length :: int
  h_addrs :: "u8 list list"

section \<open>addrsort\<close>

text \<open>
  The value of an address is the index of the first entry of the sort list it belongs to. Values and pointers are
  moved together, here as pairs.
\<close>

definition sort_value :: "(u32 \<times> u32) list \<Rightarrow> u32 \<Rightarrow> nat" where
  "sort_value sl a = length (takeWhile (\<lambda>(x, m). x \<noteq> a AND m) sl)"

text \<open>The inner loop: the pair at \<open>j + 1\<close> moves down while its neighbour has the greater value.\<close>

fun sift :: "(nat \<times> 'a) list \<Rightarrow> nat \<Rightarrow> (nat \<times> 'a) list" where
  "sift l 0 = l"
| "sift l (Suc j) = (if fst (l ! j) > fst (l ! Suc j) then sift (l[j := l ! Suc j, Suc j := l ! j]) j else l)"

definition need_sort :: "(nat \<times> 'a) list \<Rightarrow> nat" where
  "need_sort l = (case filter (\<lambda>i. fst (l ! i) < fst (l ! (i - 1))) [1..<length l] of [] \<Rightarrow> 0 | i # _ \<Rightarrow> i)"

definition sort_pairs :: "(nat \<times> 'a) list \<Rightarrow> (nat \<times> 'a) list" where
  "sort_pairs l = (if need_sort l = 0 then l else foldl sift l [need_sort l..<length l])"

definition addrsort :: "(u32 \<times> u32) list \<Rightarrow> (nat \<Rightarrow> u32 option) \<Rightarrow> nat list \<Rightarrow> nat list option" where
  "addrsort sl addr_at ptrs = do {
     addrs \<leftarrow> those (map addr_at ptrs);
     Some (map snd (sort_pairs (zip (map (sort_value sl) addrs) ptrs)))
   }"

section \<open>getanswer\<close>

text \<open>The local variables of the loop; \<open>ga_name\<close> is \<open>host.h_name\<close> as an offset.\<close>

record ans_state =
  ga_buf :: "u8 list"
  ga_bp :: nat
  ga_buflen :: int
  ga_aliases :: "nat list"
  ga_addrs :: "nat list"
  ga_name :: "nat option"
  ga_length :: int
  ga_type :: int
  ga_have :: nat
  ga_error :: bool

text \<open>\<open>strlen (bp)\<close>, and the string there.\<close>

definition cstring_at :: "u8 list \<Rightarrow> nat \<Rightarrow> u8 list option" where
  "cstring_at buf p = (let s = takeWhile (\<lambda>b. b \<noteq> 0) (drop p buf) in
     if p + length s < length buf then Some s else None)"

text \<open>\<open>dn_expand (answer, eom, cp, bp, len)\<close>: the name is stored at \<open>bp\<close>. The first result is -1 or what is skipped.\<close>

definition expand_into :: "u8 list \<Rightarrow> nat \<Rightarrow> nat \<Rightarrow> int \<Rightarrow> ans_state \<Rightarrow> (int \<times> ans_state) option" where
  "expand_into mem eom cp len g = do {
     r \<leftarrow> dn_expand mem eom cp len;
     (case r of
        DnFail \<Rightarrow> Some (-1, g)
      | DnOk n t \<Rightarrow> do { b \<leftarrow> wr (ga_buf g) (ga_bp g) (t @ [0]); Some (int n, g\<lparr>ga_buf := b\<rparr>) })
   }"

text \<open>\<open>n = strlen (bp) + 1; bp += n; buflen -= n;\<close>\<close>

definition pass_name :: "ans_state \<Rightarrow> ans_state option" where
  "pass_name g = do {
     s \<leftarrow> cstring_at (ga_buf g) (ga_bp g);
     Some (g\<lparr>ga_bp := ga_bp g + (length s + 1), ga_buflen := ga_buflen g - int (length s + 1)\<rparr>)
   }"

text \<open>
  The canonical name behind an alias: it is expanded into \<open>tbuf\<close>, then copied to \<open>bp\<close>; \<open>Some\<close> of its offset if all
  went well. The name is part of the host only for a question for an address.
\<close>

definition canonical :: "u8 list \<Rightarrow> nat \<Rightarrow> nat \<Rightarrow> bool \<Rightarrow> ans_state \<Rightarrow> (nat \<times> ans_state) option" where
  "canonical mem eom cp is_a g = do {
     r \<leftarrow> dn_expand mem eom cp (int (MAXDNAME + 1));
     (case r of
        DnFail \<Rightarrow> Some (cp, g\<lparr>ga_error := True\<rparr>)
      | DnOk n t \<Rightarrow> do {
          let t = takeWhile (\<lambda>b. b \<noteq> 0) t;
          g \<leftarrow> (if is_a then pass_name (g\<lparr>ga_aliases := ga_aliases g @ [ga_bp g]\<rparr>) else Some g);
          if int (length t + 1) > ga_buflen g then Some (cp + n, g\<lparr>ga_error := True\<rparr>)
          else do {
            b \<leftarrow> wr (ga_buf g) (ga_bp g) (t @ [0]);
            Some (cp + n, g\<lparr>ga_buf := b, ga_name := (if is_a then Some (ga_bp g) else ga_name g),
              ga_bp := ga_bp g + (length t + 1), ga_buflen := ga_buflen g - int (length t + 1)\<rparr>)
          }
        })
   }"

text \<open>\<open>bp += sizeof (align) - ((u_long) bp % sizeof (align))\<close>: an aligned pointer still moves by four.\<close>

definition align_up :: "nat \<Rightarrow> nat \<Rightarrow> nat" where
  "align_up al p = p + (4 - (al + p) mod 4)"

text \<open>The \<open>n\<close> bytes of an address are stored at \<open>bp\<close>, unless the buffer or the table is full.\<close>

definition store_address :: "u8 list \<Rightarrow> nat \<Rightarrow> nat \<Rightarrow> ans_state \<Rightarrow> (nat \<times> ans_state) option" where
  "store_address mem cp n g =
     (if ga_bp g + n \<ge> hostbuf_size then Some (cp, g\<lparr>ga_error := True\<rparr>)
      else if length (ga_addrs g) \<ge> MAXADDRS - 1 then Some (cp + n, g)
      else if cp + n > length mem then None
      else do {
        b \<leftarrow> wr (ga_buf g) (ga_bp g) (take n (drop cp mem));
        Some (cp + n, g\<lparr>ga_buf := b, ga_addrs := ga_addrs g @ [ga_bp g], ga_bp := ga_bp g + n, ga_have := ga_have g + 1\<rparr>)
      })"

text \<open>
  An address record of \<open>n\<close> bytes. The first one sets the length, which is a \<open>short\<close>, and the name. \<open>buflen\<close> is not
  reduced by the address and the bytes skipped before it.
\<close>

definition address_record :: "nat \<Rightarrow> u8 list \<Rightarrow> nat \<Rightarrow> nat \<Rightarrow> u16 \<Rightarrow> ans_state \<Rightarrow> (nat \<times> ans_state) option" where
  "address_record al mem cp n cls g =
     (if ga_have g > 0 \<and> int n \<noteq> ga_length g then Some (cp + n, g)
      else do {
        g \<leftarrow> (if ga_have g > 0 then Some g
          else pass_name (g\<lparr>ga_length := sint (of_nat n :: u16), ga_type := (if cls = C_IN then AF_INET else 0), ga_name := Some (ga_bp g)\<rparr>));
        store_address mem cp n (g\<lparr>ga_bp := align_up al (ga_bp g)\<rparr>)
      })"

text \<open>
  One record: \<open>Inr\<close> of the state when the loop goes on, \<open>Inl\<close> of the state when the function returns at once (at a
  \<open>T_PTR\<close> record). A record of any other type aborts the program (\<open>None\<close>).
\<close>

definition answer_record :: "nat \<Rightarrow> u8 list \<Rightarrow> nat \<Rightarrow> u16 \<Rightarrow> u16 \<Rightarrow> nat \<Rightarrow> ans_state \<Rightarrow> (ans_state + nat \<times> ans_state) option" where
  "answer_record al mem eom qcls qtype cp g = do {
     (n, g) \<leftarrow> expand_into mem eom cp (ga_buflen g) g;
     if n < 0 then Some (Inr (cp, g\<lparr>ga_error := True\<rparr>))
     else do {
       let cp = cp + nat n;
       type \<leftarrow> getshort mem cp;
       cls \<leftarrow> getshort mem (cp + 2);
       len \<leftarrow> getshort mem (cp + 8);
       let cp = cp + 10;
       let len = unat len;
       if cls \<noteq> qcls then Some (Inr (cp + len, g))
       else if qtype = T_A \<and> type = T_CNAME \<and> length (ga_aliases g) \<ge> MAXALIASES - 1 then Some (Inr (cp, g))
       else if (qtype = T_A \<or> qtype = T_PTR) \<and> type = T_CNAME then map_option Inr (canonical mem eom cp (qtype = T_A) g)
       else if type = T_PTR then do {
         (n, g) \<leftarrow> expand_into mem eom cp (ga_buflen g) g;
         if n < 0 then Some (Inr (cp, g\<lparr>ga_error := True\<rparr>))
         else Some (Inl (g\<lparr>ga_name := Some (ga_bp g)\<rparr>))
       }
       else if type = T_A then map_option Inr (address_record al mem cp len cls g)
       else None
     }
   }"

fun answer_loop :: "nat \<Rightarrow> u8 list \<Rightarrow> nat \<Rightarrow> u16 \<Rightarrow> u16 \<Rightarrow> nat \<Rightarrow> nat \<Rightarrow> ans_state \<Rightarrow> (ans_state + ans_state) option" where
  "answer_loop al mem eom qcls qtype 0 cp g = Some (Inr g)"
| "answer_loop al mem eom qcls qtype (Suc k) cp g =
     (if cp < eom \<and> \<not> ga_error g then do {
        r \<leftarrow> answer_record al mem eom qcls qtype cp g;
        (case r of Inl g \<Rightarrow> Some (Inl g) | Inr (cp, g) \<Rightarrow> answer_loop al mem eom qcls qtype k cp g)
      } else Some (Inr g))"

text \<open>The entry the static structure stands for: the strings and addresses the pointers lead to.\<close>

definition host_entry :: "ans_state \<Rightarrow> u8 list \<Rightarrow> nat list \<Rightarrow> hostent option" where
  "host_entry g name ptrs = do {
     al \<leftarrow> those (map (cstring_at (ga_buf g)) (ga_aliases g));
     Some \<lparr>h_name = name, h_aliases = al, h_addrtype = ga_type g, h_length = ga_length g,
       h_addrs = map (\<lambda>p. take (nat (ga_length g)) (drop p (ga_buf g))) ptrs\<rparr>
   }"

text \<open>
  \<open>getanswer (answer, anslen, qname, qclass, qtype)\<close>: the entry or a null pointer, and \<open>h_errno\<close>. At a \<open>T_PTR\<close> record the
  lists of aliases and addresses are returned as they are: if any have been stored they have no end. \<open>old\<close> is what the
  static structure holds of length and type.
\<close>

definition getanswer :: "nat \<Rightarrow> res_state \<Rightarrow> int \<times> int \<Rightarrow> u8 list \<Rightarrow> u8 list \<Rightarrow> nat \<Rightarrow> u8 list \<Rightarrow> u16 \<Rightarrow> u16
    \<Rightarrow> (hostent option \<times> int option \<times> u8 list) option" where
  "getanswer al st old hostbuf mem anslen qname qcls qtype = do {
     ancount \<leftarrow> getshort mem 6;
     qdcount \<leftarrow> getshort mem 4;
     if qdcount \<noteq> 1 then Some (None, Some NO_RECOVERY, hostbuf)
     else do {
       let g = \<lparr>ga_buf = hostbuf, ga_bp = 0, ga_buflen = int hostbuf_size, ga_aliases = [], ga_addrs = [], ga_name = None,
         ga_length = fst old, ga_type = snd old, ga_have = 0, ga_error = False\<rparr>;
       (n, g) \<leftarrow> expand_into mem anslen HFIXEDSZ (ga_buflen g) g;
       if n < 0 then Some (None, Some NO_RECOVERY, ga_buf g)
       else do {
         g \<leftarrow> (if qtype = T_A then pass_name (g\<lparr>ga_name := Some (ga_bp g)\<rparr>) else Some g);
         r \<leftarrow> answer_loop al mem anslen qcls qtype (unat ancount) (HFIXEDSZ + nat n + QFIXEDSZ) g;
         (case r of
            Inl g \<Rightarrow>
              if ga_aliases g \<noteq> [] \<or> ga_addrs g \<noteq> [] then None
              else do {
                p \<leftarrow> ga_name g; name \<leftarrow> cstring_at (ga_buf g) p;
                e \<leftarrow> host_entry g name [];
                Some (Some e, None, ga_buf g) }
          | Inr g \<Rightarrow>
              if ga_have g = 0 then Some (None, Some TRY_AGAIN, ga_buf g)
              else do {
                ptrs \<leftarrow> (if res_nsort st \<noteq> 0 \<and> ga_have g > 1 \<and> qcls = C_IN \<and> qtype = T_A
                  then addrsort (take (res_nsort st) (res_sort_list st)) (le32 (ga_buf g)) (ga_addrs g)
                  else Some (ga_addrs g));
                name \<leftarrow> (case ga_name g of None \<Rightarrow> Some qname | Some p \<Rightarrow> cstring_at (ga_buf g) p);
                e \<leftarrow> host_entry g name ptrs;
                Some (Some e, None, ga_buf g) })
       }
     }
   }"

section \<open>Lemmas\<close>

lemma sift_insert:
  assumes "sorted (map fst xs)"
  shows "sift (xs @ x # ys) (length xs)
    = takeWhile (\<lambda>y. fst y \<le> fst x) xs @ x # dropWhile (\<lambda>y. fst y \<le> fst x) xs @ ys"
  using assms
proof (induction xs arbitrary: ys rule: rev_induct)
  case (snoc y xs)
  have swap: "(xs @ x # x # ys)[Suc (length xs) := y] = xs @ x # y # ys" for xs and x y :: "nat \<times> 'a" and ys
    by (induction xs) simp_all
  show ?case
  proof (cases "fst x < fst y")
    case True
    then have "sift ((xs @ [y]) @ x # ys) (length (xs @ [y])) = sift (xs @ x # y # ys) (length xs)"
      by (simp add: nth_append swap)
    with snoc True show ?thesis
      by (auto simp: sorted_append takeWhile_append dropWhile_append dropWhile_eq_Nil_conv) 
  next
    case False
    with snoc.prems have "\<forall>z\<in>set (xs @ [y]). fst z \<le> fst x" by (auto simp: sorted_append)
    then have "takeWhile (\<lambda>z. fst z \<le> fst x) (xs @ [y]) = xs @ [y]" "dropWhile (\<lambda>z. fst z \<le> fst x) (xs @ [y]) = []"
      by (simp_all only: takeWhile_eq_all_conv dropWhile_eq_Nil_conv)
    with False show ?thesis by (simp add: nth_append)
  qed
qed simp

lemma sorted_insert:
  fixes x :: "nat \<times> 'a"
  assumes "sorted (map fst xs)"
  shows "sorted (map fst (takeWhile (\<lambda>y. fst y \<le> fst x) xs @ x # dropWhile (\<lambda>y. fst y \<le> fst x) xs))"
  using assms by (induction xs) (auto dest: set_takeWhileD set_dropWhileD)

lemma filter_insert:
  "filter (\<lambda>y. k = fst y) (takeWhile (\<lambda>y. fst y \<le> fst x) xs @ x # dropWhile (\<lambda>y. fst y \<le> fst x) xs)
    = filter (\<lambda>y. k = fst y) (xs @ [x])" if "sorted (map fst xs)"
  using that
proof (induction xs)
  case (Cons a xs)
  show ?case
  proof (cases "fst a \<le> fst x")
    case False
    with Cons.prems have "filter (\<lambda>y. fst x = fst y) (a # xs) = []" by (auto simp: filter_empty_conv)
    with False show ?thesis by auto
  qed (use Cons in auto)
qed simp

lemma sort_snoc:
  fixes xs :: "(nat \<times> 'a) list"
  assumes "sorted (map fst xs)"
  shows "takeWhile (\<lambda>y. fst y \<le> fst x) xs @ x # dropWhile (\<lambda>y. fst y \<le> fst x) xs = sort_key fst (xs @ [x])"
proof (rule properties_for_sort_key [symmetric])
  show "mset (takeWhile (\<lambda>y. fst y \<le> fst x) xs @ x # dropWhile (\<lambda>y. fst y \<le> fst x) xs) = mset (xs @ [x])"
  proof -
    have "mset (takeWhile (\<lambda>y. fst y \<le> fst x) xs) + mset (dropWhile (\<lambda>y. fst y \<le> fst x) xs) = mset xs"
      by (simp only: mset_append [symmetric] takeWhile_dropWhile_id)
    then show ?thesis by simp
  qed
qed (use assms in \<open>simp_all only: filter_insert sorted_insert\<close>)

lemma filter_sort_key: "filter (\<lambda>x. f k = f x) (sort_key f xs) = filter (\<lambda>x. f k = f x) xs"
proof -
  have "sorted (map f (filter (\<lambda>x. f k = f x) xs))" by (induction xs) auto
  then show ?thesis by (simp add: filter_sort sort_key_id_if_sorted)
qed

lemma sort_key_sort_append: "sort_key f (sort_key f xs @ ys) = sort_key f (xs @ ys)"
proof (rule properties_for_sort_key)
  have "filter (\<lambda>x. f k = f x) (sort_key f (xs @ ys)) = filter (\<lambda>x. f k = f x) (sort_key f xs @ ys)" for k
    by (simp only: filter_sort_key filter_append)
  then show "\<And>k. filter (\<lambda>x. f k = f x) (sort_key f (xs @ ys)) = filter (\<lambda>x. f k = f x) (sort_key f xs @ ys)" .
qed simp_all

lemma sift_range:
  "k + m \<le> length l \<Longrightarrow> sorted (map fst (take k l)) \<Longrightarrow> foldl sift l [k..<k + m] = sort_key fst (take (k + m) l) @ drop (k + m) l"
proof (induction m)
  case 0
  then show ?case by (simp add: sort_key_id_if_sorted)
next
  case (Suc m)
  let ?s = "sort_key fst (take (k + m) l)"
  have d: "drop (k + m) l = l ! (k + m) # drop (Suc (k + m)) l" and t: "take (Suc (k + m)) l = take (k + m) l @ [l ! (k + m)]"
    using Suc.prems by (simp_all add: Cons_nth_drop_Suc take_Suc_conv_app_nth)
  have "foldl sift l [k..<k + Suc m] = sift (?s @ l ! (k + m) # drop (Suc (k + m)) l) (length ?s)"
    using Suc by (simp add: d)
  also have "\<dots> = sort_key fst (?s @ [l ! (k + m)]) @ drop (Suc (k + m)) l"
    by (subst sift_insert) (simp_all flip: sort_snoc)
  finally show ?case by (simp only: sort_key_sort_append t add_Suc_right)
qed

lemma need_sort_sorted: "sorted (map fst (take (if need_sort l = 0 then length l else need_sort l) l))"
proof (cases "filter (\<lambda>i. fst (l ! i) < fst (l ! (i - 1))) [1..<length l]")
  case Nil
  then show ?thesis by (force simp: need_sort_def sorted_iff_nth_Suc filter_empty_conv)
next
  case (Cons i rest)
  then obtain us vs where u: "[1..<length l] = us @ i # vs" and f: "\<forall>j\<in>set us. \<not> fst (l ! j) < fst (l ! (j - 1))"
    by (auto simp: filter_eq_Cons_iff)
  have i: "[1..<length l] ! length us = i" by (simp only: u nth_append_length)
  have ln: "length [1..<length l] > length us" by (simp only: u) simp
  with i have us: "us = [1..<i]"
    by (metis append_eq_conv_conj nth_upt plus_1_eq_Suc take_upt u add_lessD1 length_upt less_diff_conv less_imp_le_nat add.commute)
  have "0 < i" "i < length l" using i ln by auto
  with f us Cons show ?thesis by (force simp: need_sort_def sorted_iff_nth_Suc)
qed

lemma need_sort_le: "need_sort l \<le> length l"
proof -
  have "i \<le> length l" if "filter (\<lambda>i. fst (l ! i) < fst (l ! (i - 1))) [1..<length l] = i # rest" for i rest
  proof -
    have "i \<in> set [1..<length l]" by (metis list.set_intros(1) filter_is_subset subsetD that)
    then show ?thesis by simp
  qed
  then show ?thesis by (auto simp: need_sort_def split: list.splits)
qed

lemma sort_pairs_key: "sort_pairs l = sort_key fst l"
proof (cases "need_sort l = 0")
  case True
  then have "sorted (map fst l)" using need_sort_sorted [of l] by (simp only: if_True take_all_iff le_refl simp_thms take_all)
  then have "sort_key fst l = l" by (rule sort_key_id_if_sorted)
  with True show ?thesis by (simp only: sort_pairs_def if_True simp_thms)
next
  case False
  have "need_sort l + (length l - need_sort l) = length l" using need_sort_le [of l] by simp
  with False need_sort_sorted [of l] sift_range [of "need_sort l" "length l - need_sort l" l]
  have "foldl sift l [need_sort l..<length l] = sort_key fst l" by simp
  with False show ?thesis by (simp only: sort_pairs_def if_False)
qed

lemma insort_key_pair: "insort_key fst (f x, x) (map (\<lambda>x. (f x, x)) xs) = map (\<lambda>x. (f x, x)) (insort_key f x xs)"
  by (induction xs) auto

lemma sort_key_pair: "sort_key fst (map (\<lambda>x. (f x, x)) xs) = map (\<lambda>x. (f x, x)) (sort_key f xs)"
  by (induction xs) (simp_all add: insort_key_pair)

lemma those_map_Some: "\<forall>x\<in>set xs. f x = Some (g x) \<Longrightarrow> those (map f xs) = Some (map g xs)"
  by (induction xs) auto

text \<open>C28: \<open>addrsort\<close> arranges the addresses as a stable sort by the position of the first matching entry of the
  sort list does: preferred networks come first, and addresses of the same network stay in the order of the answer.
  The code looks for the first place where sorting is needed and starts there.\<close>
theorem addrsort_stable:
  assumes "\<forall>p\<in>set ptrs. addr_at p = Some (a p)"
  shows "addrsort sl addr_at ptrs = Some (sort_key (\<lambda>p. sort_value sl (a p)) ptrs)"
proof -
  have "zip (map (sort_value sl) (map a ptrs)) ptrs = map (\<lambda>p. (sort_value sl (a p), p)) ptrs"
    by (simp add: zip_map1 zip_same_conv_map)
  then show ?thesis
    by (simp add: addrsort_def those_map_Some [OF assms] sort_pairs_key sort_key_pair o_def)
qed

theorem addrsort_stable_witness:
  "addrsort [(0x0a000001, 0xffffffff), (0xc0a80000, 0xffff0000)] (\<lambda>p. [4 \<mapsto> 0xc0a80005, 8 \<mapsto> 0x0b000000, 12 \<mapsto> 0x0a000001, 16 \<mapsto> 0xc0a80001] p) [8, 4, 12, 16]
     = Some [12, 4, 16, 8]"
  using addrsort_stable [of "[8, 4, 12, 16]" "\<lambda>p. [4 \<mapsto> 0xc0a80005, 8 \<mapsto> 0x0b000000, 12 \<mapsto> 0x0a000001, 16 \<mapsto> 0xc0a80001] p"
    "\<lambda>p. the ([4 \<mapsto> 0xc0a80005, 8 \<mapsto> 0x0b000000, 12 \<mapsto> 0x0a000001, 16 \<mapsto> 0xc0a80001] p)"
    "[(0x0a000001, 0xffffffff), (0xc0a80000, 0xffff0000)]"]
  by (simp add: sort_value_def)

end
