(* ===== verification/Host_Answer_Props.thy ===== *)
theory Host_Answer_Props
  imports Host_Answer
begin

text \<open>
  What \<open>getanswer\<close> makes of the answer of a name server: an answer of address records becomes the host entry with
  the name of the question and the addresses in their order, an answer with a pointer an entry of the name it points to.
\<close>

section \<open>Strings and addresses in hostbuf\<close>

lemma takeWhile_append_before: "length (takeWhile P xs) < length xs \<Longrightarrow> takeWhile P (xs @ ys) = takeWhile P xs"
  by (induction xs) auto

lemma cstring_at_append: "cstring_at xs p = Some s \<Longrightarrow> cstring_at (xs @ ys) p = Some s"
proof -
  assume a: "cstring_at xs p = Some s"
  then have s: "takeWhile (\<lambda>b. b \<noteq> 0) (drop p xs) = s" "p + length s < length xs"
    by (auto simp: cstring_at_def Let_def split: if_splits)
  then have "takeWhile (\<lambda>b. b \<noteq> 0) (drop p xs @ ys) = s" by (subst takeWhile_append_before) auto
  with s show ?thesis by (simp add: cstring_at_def)
qed

lemma take_split: "b \<le> b' \<Longrightarrow> take b' xs = take b xs @ take (b' - b) (drop b xs)"
  by (metis le_add_diff_inverse take_add)

lemma cstring_at_later: "cstring_at (take b buf) p = Some s \<Longrightarrow> take b buf' = take b buf \<Longrightarrow> b \<le> b' \<Longrightarrow> cstring_at (take b' buf') p = Some s"
  by (simp add: take_split cstring_at_append)

lemma cstring_at_whole: "cstring_at (take b buf) p = Some s \<Longrightarrow> cstring_at buf p = Some s"
  by (metis append_take_drop_id cstring_at_append)

lemma bytes_at_later:
  "p + n \<le> b \<Longrightarrow> take b buf' = take b buf \<Longrightarrow> b \<le> b' \<Longrightarrow> take n (drop p (take b' buf')) = take n (drop p (take b buf))"
proof -
  assume a: "p + n \<le> b" "take b buf' = take b buf" "b \<le> b'"
  have "take n (drop p (take c xs)) = take n (drop p (take b xs))" if "b \<le> c" for c and xs :: "'a list"
    using a(1) that by (simp add: take_drop min_def)
  from this [OF a(3)] this [of b buf] a(2) show ?thesis by metis
qed

lemma cstring_written:
  "\<forall>b\<in>set s. b \<noteq> 0 \<Longrightarrow> length xs = p \<Longrightarrow> cstring_at (xs @ s @ 0 # ys) p = Some s"
  by (simp add: cstring_at_def takeWhile_append takeWhile_all)

section \<open>One address record\<close>

text \<open>
  The state of the loop after the addresses \<open>done\<close>, for a host of name \<open>N\<close> that has been stored \<open>k\<close> times: once for the
  question, a second time for the first record. Everything that is in use lies before \<open>bp\<close>.
\<close>

definition answer_inv :: "u8 list \<Rightarrow> nat \<Rightarrow> u8 list list \<Rightarrow> ans_state \<Rightarrow> bool" where
  "answer_inv N k done g \<longleftrightarrow>
     length (ga_buf g) = hostbuf_size \<and> ga_aliases g = [] \<and> \<not> ga_error g \<and> ga_have g = length done \<and>
     length (ga_addrs g) = length done \<and>
     (\<forall>p\<in>set (ga_addrs g). p + 4 \<le> ga_bp g) \<and>
     map (\<lambda>p. take 4 (drop p (take (ga_bp g) (ga_buf g)))) (ga_addrs g) = done \<and>
     (\<exists>p. ga_name g = Some p \<and> cstring_at (take (ga_bp g) (ga_buf g)) p = Some N) \<and>
     (1 < k \<longrightarrow> ga_length g = 4 \<and> ga_type g = AF_INET) \<and>
     ga_bp g \<le> (length N + 1) * k + 8 * length done \<and>
     ga_buflen g = int hostbuf_size - int ((length N + 1) * k)"

lemma expand_into_bp:
  assumes "dn_expand mem eom cp len = Some (DnOk n N)" "ga_bp g + (length N + 1) \<le> length (ga_buf g)"
  obtains b where "expand_into mem eom cp len g = Some (int n, g\<lparr>ga_buf := b\<rparr>)" "length b = length (ga_buf g)"
    "take (ga_bp g) b = take (ga_bp g) (ga_buf g)" "take (ga_bp g + (length N + 1)) b = take (ga_bp g) (ga_buf g) @ N @ [0]"
proof -
  obtain b where b: "wr (ga_buf g) (ga_bp g) (N @ [0]) = Some b" using assms(2) by (auto simp: wr_def)
  show ?thesis
    using that [of b] assms(1) b wr_length [OF b] wr_take [OF b] wr_take_full [OF b] by (simp add: expand_into_def)
qed

lemma pass_name_at:
  assumes "\<forall>b\<in>set N. b \<noteq> 0" "take (ga_bp g + (length N + 1)) (ga_buf g) = t @ N @ [0]" "length t = ga_bp g"
  shows "pass_name g = Some (g\<lparr>ga_bp := ga_bp g + (length N + 1), ga_buflen := ga_buflen g - int (length N + 1)\<rparr>)"
proof -
  have "cstring_at (take (ga_bp g + (length N + 1)) (ga_buf g)) (ga_bp g) = Some N"
    using assms cstring_written [OF assms(1), of t "ga_bp g" "[]"] by simp
  then have "cstring_at (ga_buf g) (ga_bp g) = Some N" by (rule cstring_at_whole)
  then show ?thesis by (simp add: pass_name_def)
qed

text \<open>What is stored behind \<open>bp\<close> leaves the invariant as it is.\<close>

lemma answer_inv_buf:
  assumes "answer_inv N k done g" "take (ga_bp g) b = take (ga_bp g) (ga_buf g)" "length b = length (ga_buf g)"
  shows "answer_inv N k done (g\<lparr>ga_buf := b\<rparr>)"
  using assms by (simp add: answer_inv_def)

lemma store_address_inv:
  assumes "answer_inv N k done g" "1 < k" "ga_bp g + 8 < hostbuf_size" "length done < 34" "cp + 4 \<le> length mem"
  shows "\<exists>g'. store_address mem cp 4 (g\<lparr>ga_bp := align_up al (ga_bp g)\<rparr>) = Some (cp + 4, g') \<and>
     answer_inv N k (done @ [take 4 (drop cp mem)]) g'"
proof -
  define bp where "bp = align_up al (ga_bp g)"
  let ?a = "take 4 (drop cp mem)"
  have bp: "ga_bp g \<le> bp" "bp \<le> ga_bp g + 4" by (simp_all add: bp_def align_up_def)
  have la: "length ?a = 4" using assms(5) by simp
  have lb: "length (ga_buf g) = hostbuf_size" using assms(1) by (simp add: answer_inv_def)
  obtain b where b: "wr (ga_buf g) bp ?a = Some b"
    using assms(3) bp la lb by (auto simp: wr_def)
  have tk: "take (ga_bp g) b = take (ga_bp g) (ga_buf g)"
    using wr_take [OF b] bp(1) by (metis min.absorb1 take_take)
  have st: "take 4 (drop bp (take (bp + 4) b)) = ?a"
    using wr_take_full [OF b] wr_length [OF b] la lb assms(3) bp by simp
  let ?g = "g\<lparr>ga_buf := b, ga_addrs := ga_addrs g @ [bp], ga_bp := bp + 4, ga_have := ga_have g + 1\<rparr>"
  have "store_address mem cp 4 (g\<lparr>ga_bp := bp\<rparr>) = Some (cp + 4, ?g)"
    using assms bp b by (simp add: store_address_def answer_inv_def)
  moreover have "answer_inv N k (done @ [?a]) ?g"
  proof -
    have all: "\<forall>p\<in>set (ga_addrs g). p + 4 \<le> ga_bp g" using assms(1) by (simp add: answer_inv_def)
    have "map (\<lambda>p. take 4 (drop p (take (bp + 4) b))) (ga_addrs g) = map (\<lambda>p. take 4 (drop p (take (ga_bp g) (ga_buf g)))) (ga_addrs g)"
    proof (rule map_cong [OF refl])
      fix p assume "p \<in> set (ga_addrs g)"
      with all have "p + 4 \<le> ga_bp g" by blast
      from bytes_at_later [OF this tk, of "bp + 4"] bp(1) show "take 4 (drop p (take (bp + 4) b)) = take 4 (drop p (take (ga_bp g) (ga_buf g)))" by simp
    qed
    also have "\<dots> = done" using assms(1) by (simp only: answer_inv_def)
    finally have "map (\<lambda>p. take 4 (drop p (take (bp + 4) b))) (ga_addrs g) = done" .
    moreover have "\<exists>p. ga_name g = Some p \<and> cstring_at (take (bp + 4) b) p = Some N"
      using assms(1) bp cstring_at_later [OF _ tk, of _ N "bp + 4"] by (auto simp: answer_inv_def)
    moreover have "\<forall>p\<in>set (ga_addrs g). p + 4 \<le> bp + 4"
      using all bp(1) by (auto intro: order_trans)
    moreover have "bp + 4 \<le> (length N + 1) * k + 8 * length (done @ [?a])"
      using assms(1) bp by (simp add: answer_inv_def)
    moreover have "ga_aliases g = []" "\<not> ga_error g" "ga_have g = length done" "length (ga_addrs g) = length done"
      "ga_length g = 4" "ga_type g = AF_INET" "ga_buflen g = int hostbuf_size - int ((length N + 1) * k)"
      using assms(1,2) by (simp_all add: answer_inv_def)
    moreover have "length b = hostbuf_size" using wr_length [OF b] lb by simp
    ultimately show ?thesis unfolding answer_inv_def using st by simp
  qed
  ultimately show ?thesis unfolding bp_def by blast
qed

text \<open>The name of the first record becomes the name of the host.\<close>

lemma first_name_inv:
  assumes "answer_inv N 1 [] g" "\<forall>b\<in>set N. b \<noteq> 0" "take (ga_bp g + (length N + 1)) (ga_buf g) = take (ga_bp g) (ga_buf g) @ N @ [0]"
    "ga_bp g \<le> length (ga_buf g)"
  shows "\<exists>g'. pass_name (g\<lparr>ga_length := 4, ga_type := AF_INET, ga_name := Some (ga_bp g)\<rparr>) = Some g' \<and> answer_inv N 2 [] g'"
proof -
  let ?g = "g\<lparr>ga_length := 4, ga_type := AF_INET, ga_name := Some (ga_bp g)\<rparr>"
  let ?h = "?g\<lparr>ga_bp := ga_bp g + (length N + 1), ga_buflen := ga_buflen g - int (length N + 1)\<rparr>"
  have l: "length (take (ga_bp g) (ga_buf g)) = ga_bp g" using assms(4) by simp
  have "pass_name ?g = Some ?h"
    using pass_name_at [of N ?g "take (ga_bp g) (ga_buf g)"] assms(2,3) l by simp
  moreover have "cstring_at (take (ga_bp g + (length N + 1)) (ga_buf g)) (ga_bp g) = Some N"
    using cstring_written [OF assms(2) l, of "[]"] assms(3) by simp
  then have "answer_inv N 2 [] ?h" using assms(1) by (simp add: answer_inv_def)
  ultimately show ?thesis by blast
qed

text \<open>The number of times the name has been stored.\<close>

abbreviation (input) copies :: "'a list \<Rightarrow> nat" where "copies done \<equiv> (if done = [] then 1 else 2)"

lemma address_record_inv:
  assumes "answer_inv N (copies done) done g" "\<forall>b\<in>set N. b \<noteq> 0" "length N \<le> 1024" "length done < 34" "cp + 4 \<le> length mem"
    "take (ga_bp g + (length N + 1)) (ga_buf g) = take (ga_bp g) (ga_buf g) @ N @ [0]"
  shows "\<exists>g'. address_record al mem cp 4 1 g = Some (cp + 4, g') \<and> answer_inv N 2 (done @ [take 4 (drop cp mem)]) g'"
proof (cases "done = []")
  case True
  with assms(1) have inv: "answer_inv N 1 [] g" by simp
  then have le: "ga_bp g \<le> length (ga_buf g)" using assms(3) by (simp add: answer_inv_def hostbuf_size_def BUFSIZ_def)
  from first_name_inv [OF inv assms(2,6) le] obtain g1
    where g1: "pass_name (g\<lparr>ga_length := 4, ga_type := AF_INET, ga_name := Some (ga_bp g)\<rparr>) = Some g1" "answer_inv N 2 [] g1" by blast
  then have "ga_bp g1 + 8 < hostbuf_size" using assms(3) by (simp add: answer_inv_def hostbuf_size_def BUFSIZ_def)
  from store_address_inv [OF g1(2) _ this _ assms(5), of al] g1(1) inv True show ?thesis
    by (auto simp: address_record_def answer_inv_def)
next
  case False
  with assms(1) have inv: "answer_inv N 2 done g" by simp
  then have "ga_bp g + 8 < hostbuf_size" using assms(3,4) by (simp add: answer_inv_def hostbuf_size_def BUFSIZ_def)
  from store_address_inv [OF inv _ this assms(4,5), of al] inv False show ?thesis
    by (simp add: address_record_def answer_inv_def)
qed

section \<open>An answer of address records\<close>

text \<open>
  A record as name servers send it: the owner is a pointer to the name of the question at offset 12; the lifetime and
  the address have four bytes. An answer with the question \<open>ls\<close> (type \<open>T_A\<close>, class \<open>C_IN\<close>) and these records.
\<close>

definition a_record :: "u8 list \<times> u8 list \<Rightarrow> u8 list" where
  "a_record ra = [0xc0, 12, 0, 1, 0, 1] @ fst ra @ [0, 4] @ snd ra"

definition answer_message :: "u8 list \<Rightarrow> u8 list list \<Rightarrow> (u8 list \<times> u8 list) list \<Rightarrow> u8 list" where
  "answer_message hdr ls rs = hdr @ wire_name ls @ [0, 1, 0, 1] @ concat (map a_record rs)"

definition proper_record :: "u8 list \<times> u8 list \<Rightarrow> bool" where
  "proper_record ra \<longleftrightarrow> length (fst ra) = 4 \<and> length (snd ra) = 4"

lemma dn_expand_pointer:
  assumes "rd mem cp = Some 0xc0" "rd mem (cp + 1) = Some (of_nat p)" "p < 256" "3 < eom"
    "list_all valid_label ls" "take (length (wire_name ls)) (drop p mem) = wire_name ls"
    "p + length (wire_name ls) \<le> eom" "eom \<le> length mem" "int (length (text_name ls)) < dlen"
  shows "dn_expand mem eom cp dlen = Some (DnOk 2 (text_name ls))"
proof -
  have "p < eom" using assms(7) wire_name_pos [of ls] by (cases "wire_name ls") auto
  moreover have "unat (of_nat p :: u8) = p" using assms(3) by (simp add: unat_of_nat)
  moreover have "int cp + 1 - int cp + 1 = 2" by simp
  ultimately have "expand_loop mem eom dlen cp cp [] (-1) 0 = expand_loop mem eom dlen cp p [] 2 (Suc (Suc 0))"
    using assms(1,2,4) by (subst expand_loop.simps) (simp add: Let_def)
  also have "\<dots> = Some (Some (p + length (wire_name ls), 2, text_name ls))"
    using expand_loop_wire [OF assms(5-8), of "[]" dlen cp 2 "Suc (Suc 0)"] assms(9) by (cases ls) (auto simp: add_dot_def)
  finally have x: "expand_loop mem eom dlen cp cp [] (-1) 0 = Some (Some (p + length (wire_name ls), 2, text_name ls))" .
  have "takeWhile (\<lambda>b. b \<noteq> 0) (text_name ls) = text_name ls"
    using text_name_clean [OF assms(5)] by (auto simp: list_all_iff)
  then have "\<not> list_ex space_byte (takeWhile (\<lambda>b. b \<noteq> 0) (text_name ls))"
    using text_name_clean [OF assms(5)] by (auto simp: list_all_iff list_ex_iff dest: set_takeWhileD)
  with x assms(9) show ?thesis by (simp add: dn_expand_def put_byte_def takeWhile_nul)
qed

lemma getshort_bytes: "mem ! cp = 0 \<Longrightarrow> mem ! q = b \<Longrightarrow> q = cp + 1 \<Longrightarrow> q < length mem \<Longrightarrow> getshort mem cp = Some (ucast b)"
  by (simp add: getshort_def)

lemma unat_4: "unat (4 :: u16) = 4" by simp

lemma answer_record_address:
  assumes "expand_into mem eom cp (ga_buflen g) g = Some (int n, g1)" "q = cp + n" "q1 = q + 2" "q2 = q + 8"
    and "getshort mem q = Some T_A" "getshort mem q1 = Some cls" "getshort mem q2 = Some len" "unat len = k"
  shows "answer_record al mem eom cls T_A cp g = map_option Inr (address_record al mem (q + 10) k cls g1)"
  using assms by (simp add: answer_record_def Let_def)

lemma answer_record_inv:
  assumes r: "take 16 (drop cp mem) = a_record ra" "proper_record ra" "cp + 16 \<le> length mem"
    and n: "list_all valid_label ls" "take (length (wire_name ls)) (drop 12 mem) = wire_name ls"
      "12 + length (wire_name ls) \<le> eom" "eom \<le> length mem" "length (text_name ls) \<le> 1024"
    and g: "answer_inv (text_name ls) (copies done) done g" "length done < 34"
  shows "\<exists>g'. answer_record al mem eom 1 1 cp g = Some (Inr (cp + 16, g')) \<and> answer_inv (text_name ls) 2 (done @ [snd ra]) g'"
proof -
  let ?N = "text_name ls"
  have at: "mem ! (cp + i) = a_record ra ! i" if "i < 16" for i
    using arg_cong [OF r(1), of "\<lambda>l. l ! i"] that r(3) by simp
  have len: "length (fst ra) = 4" "length (snd ra) = 4" using r(2) by (simp_all add: proper_record_def)
  have bytes: "mem ! cp = 0xc0" "mem ! (cp + 1) = 12" "mem ! (cp + 2) = 0" "mem ! (cp + 3) = 1" "mem ! (cp + 4) = 0" "mem ! (cp + 5) = 1"
    "mem ! (cp + 10) = 0" "mem ! (cp + 11) = 4"
    using at [of 0] at [of 1] at [of 2] at [of 3] at [of 4] at [of 5] at [of 10] at [of 11] len
    by (simp_all add: a_record_def nth_append)
  have addr: "take 4 (drop (cp + 12) mem) = snd ra"
  proof -
    have "take 4 (drop (cp + 12) mem) = drop 12 (take 16 (drop cp mem))" by (simp add: drop_take add.commute)
    also have "\<dots> = snd ra" unfolding r(1) using len by (simp add: a_record_def)
    finally show ?thesis .
  qed
  have room: "ga_bp g + (length ?N + 1) \<le> length (ga_buf g)" "int (length ?N) < ga_buflen g"
    using g n(5) by (auto simp: answer_inv_def hostbuf_size_def BUFSIZ_def split: if_splits)
  have "dn_expand mem eom cp (ga_buflen g) = Some (DnOk 2 ?N)"
    by (rule dn_expand_pointer [where p = 12]) (use bytes r(3) n room in simp_all)
  from expand_into_bp [OF this room(1)] obtain b
    where x: "expand_into mem eom cp (ga_buflen g) g = Some (2, g\<lparr>ga_buf := b\<rparr>)" "length b = length (ga_buf g)"
      "take (ga_bp g) b = take (ga_bp g) (ga_buf g)" "take (ga_bp g + (length ?N + 1)) b = take (ga_bp g) (ga_buf g) @ ?N @ [0]" by auto
  have inv: "answer_inv ?N (copies done) done (g\<lparr>ga_buf := b\<rparr>)" by (rule answer_inv_buf [OF g(1) x(3,2)])
  have nz: "\<forall>b\<in>set ?N. b \<noteq> 0" using text_name_clean [OF n(1)] by (simp add: list_all_iff)
  have sh: "getshort mem (cp + 2) = Some 1" "getshort mem (cp + 4) = Some 1" "getshort mem (cp + 10) = Some 4"
    using getshort_bytes [OF bytes(3,4)] getshort_bytes [OF bytes(5,6)] getshort_bytes [OF bytes(7,8)] r(3) by simp_all
  obtain g' where "address_record al mem (cp + 12) 4 1 (g\<lparr>ga_buf := b\<rparr>) = Some (cp + 16, g')" "answer_inv ?N 2 (done @ [snd ra]) g'"
    using address_record_inv [OF inv nz n(5) g(2), of "cp + 12" mem al] addr r(3) x(3,4) by (auto simp: add.assoc)
  then show ?thesis
    using answer_record_address [OF _ _ _ _ sh unat_4, where cp = cp and n = 2 and g = g and eom = eom and al = al] x(1)
    by (simp add: add.commute)
qed

lemma answer_loop_inv:
  assumes "take (16 * length rs) (drop cp mem) = concat (map a_record rs)" "list_all proper_record rs" "cp + 16 * length rs \<le> eom"
    and n: "list_all valid_label ls" "take (length (wire_name ls)) (drop 12 mem) = wire_name ls"
      "12 + length (wire_name ls) \<le> eom" "eom \<le> length mem" "length (text_name ls) \<le> 1024"
    and "answer_inv (text_name ls) (copies done) done g" "length done + length rs \<le> 34"
  shows "\<exists>g'. answer_loop al mem eom 1 1 (length rs) cp g = Some (Inr g') \<and>
     answer_inv (text_name ls) (copies (done @ map snd rs)) (done @ map snd rs) g'"
  using assms(1-3,9,10)
proof (induction rs arbitrary: cp "done" g)
  case (Cons ra rs)
  have len: "length (a_record ra) = 16" using Cons.prems(2) by (simp add: a_record_def proper_record_def)
  have t: "take (16 * length (ra # rs)) (drop cp mem) = take 16 (drop cp mem) @ take (16 * length rs) (drop (cp + 16) mem)"
    by (simp add: take_add add.commute)
  have "length (take 16 (drop cp mem)) = 16" using Cons.prems(3) n(4) by simp
  with Cons.prems(1) t len have r: "take 16 (drop cp mem) = a_record ra" "take (16 * length rs) (drop (cp + 16) mem) = concat (map a_record rs)"
    by simp_all
  obtain g1 where g1: "answer_record al mem eom 1 1 cp g = Some (Inr (cp + 16, g1))" "answer_inv (text_name ls) 2 (done @ [snd ra]) g1"
    using answer_record_inv [OF r(1) _ _ n, of "done" g al] Cons.prems n(4) by auto
  have "\<not> ga_error g" "cp < eom" using Cons.prems by (simp_all add: answer_inv_def)
  moreover obtain g' where "answer_loop al mem eom 1 1 (length rs) (cp + 16) g1 = Some (Inr g')"
    "answer_inv (text_name ls) (copies (done @ map snd (ra # rs))) (done @ map snd (ra # rs)) g'"
    using Cons.IH [OF r(2), of "done @ [snd ra]" g1] g1(2) Cons.prems by auto
  ultimately show ?case using g1(1) by simp
qed simp

lemma getanswer_address_records:
  assumes "list_all valid_label ls" "length (text_name ls) \<le> 1024"
    and "list_all proper_record rs" "rs \<noteq> []" "length rs \<le> 34"
    and "length hdr = 12" "getshort hdr 4 = Some 1" "getshort hdr 6 = Some (of_nat (length rs))"
    and "length hostbuf = hostbuf_size" "res_nsort st = 0"
  shows "\<exists>buf. getanswer al st old hostbuf (answer_message hdr ls rs @ rest) (length (answer_message hdr ls rs)) qname 1 1
    = Some (Some \<lparr>h_name = text_name ls, h_aliases = [], h_addrtype = AF_INET, h_length = 4, h_addrs = map snd rs\<rparr>, None, buf)"
proof -
  let ?N = "text_name ls" and ?w = "wire_name ls"
  let ?mem = "answer_message hdr ls rs @ rest" and ?eom = "length (answer_message hdr ls rs)"
  let ?g = "\<lparr>ga_buf = hostbuf, ga_bp = 0, ga_buflen = int hostbuf_size, ga_aliases = [], ga_addrs = [], ga_name = None,
         ga_length = fst old, ga_type = snd old, ga_have = 0, ga_error = False\<rparr>"
  have c: "length (concat (map a_record rs)) = 16 * length rs"
    using assms(3) by (induction rs) (simp_all add: a_record_def proper_record_def)
  then have eom: "?eom = 12 + length ?w + 4 + 16 * length rs" by (simp add: answer_message_def assms(6))
  have w: "take (length ?w) (drop 12 ?mem) = ?w" by (simp add: answer_message_def assms(6))
  have rec: "take (16 * length rs) (drop (12 + length ?w + 4) ?mem) = concat (map a_record rs)"
    using c by (simp add: answer_message_def assms(6))
  have hdr: "getshort ?mem 4 = Some 1" "getshort ?mem 6 = Some (of_nat (length rs))"
    using assms(6-8) by (simp_all add: getshort_def answer_message_def nth_append)
  have nz: "\<forall>b\<in>set ?N. b \<noteq> 0" using text_name_clean [OF assms(1)] by (simp add: list_all_iff)
  have room: "int (length ?N) < int hostbuf_size" using assms(2) by (simp add: hostbuf_size_def BUFSIZ_def)
  have "dn_expand ?mem ?eom 12 (int hostbuf_size) = Some (DnOk (length ?w) ?N)"
    by (rule dn_expand_wire_name [OF assms(1) w]) (use eom room in simp_all)
  moreover have "ga_bp ?g + (length ?N + 1) \<le> length (ga_buf ?g)" using room assms(9) by simp
  ultimately obtain b where b: "expand_into ?mem ?eom 12 (int hostbuf_size) ?g = Some (int (length ?w), ?g\<lparr>ga_buf := b\<rparr>)"
    "length b = hostbuf_size" "take (length ?N + 1) b = ?N @ [0]"
    by (rule expand_into_bp) (use assms(9) in auto)
  let ?g1 = "?g\<lparr>ga_buf := b, ga_name := Some 0, ga_bp := length ?N + 1, ga_buflen := int hostbuf_size - int (length ?N + 1)\<rparr>"
  have p: "pass_name (?g\<lparr>ga_buf := b, ga_name := Some 0\<rparr>) = Some ?g1"
    using pass_name_at [OF nz, of "?g\<lparr>ga_buf := b, ga_name := Some 0\<rparr>" "[]"] b(3) by simp
  have "answer_inv ?N 1 [] ?g1"
    using b cstring_written [OF nz, of "[]" 0 "[]"] by (simp add: answer_inv_def)
  then obtain g' where g': "answer_loop al ?mem ?eom 1 1 (length rs) (12 + length ?w + 4) ?g1 = Some (Inr g')"
    "answer_inv ?N 2 (map snd rs) g'"
    using answer_loop_inv [OF rec assms(3) _ assms(1) w _ _ assms(2), of ?eom "[]" ?g1 al] eom assms(4,5) by auto
  have n: "unat (of_nat (length rs) :: u16) = length rs" using assms(5) by (simp add: unat_of_nat)
  obtain q where q: "ga_name g' = Some q" "cstring_at (take (ga_bp g') (ga_buf g')) q = Some ?N"
    using g'(2) by (auto simp: answer_inv_def)
  have a: "map (\<lambda>p. take 4 (drop p (ga_buf g'))) (ga_addrs g') = map snd rs"
  proof -
    have "\<forall>p\<in>set (ga_addrs g'). p + 4 \<le> ga_bp g'" using g'(2) by (simp add: answer_inv_def)
    then have "map (\<lambda>p. take 4 (drop p (ga_buf g'))) (ga_addrs g') = map (\<lambda>p. take 4 (drop p (take (ga_bp g') (ga_buf g')))) (ga_addrs g')"
      by (simp add: take_drop min_def add.commute)
    with g'(2) show ?thesis by (simp only: answer_inv_def)
  qed
  have e: "host_entry g' ?N (ga_addrs g') = Some \<lparr>h_name = ?N, h_aliases = [], h_addrtype = AF_INET, h_length = 4, h_addrs = map snd rs\<rparr>"
    using g'(2) a by (simp add: host_entry_def answer_inv_def)
  have "ga_have g' \<noteq> 0" using g'(2) assms(4) by (simp add: answer_inv_def)
  then show ?thesis
    using hdr b(1) p g'(1) n q(1) cstring_at_whole [OF q(2)] e assms(10)
    by (simp add: getanswer_def HFIXEDSZ_def QFIXEDSZ_def)
qed

text \<open>C6: An answer with the question for the name \<open>ls\<close> and 1 to 34 address records becomes the host entry of that name: no
  aliases, the type \<open>AF_INET\<close>, and the addresses of the records in the order of the answer. Whatever lies behind the
  message, whatever was in the buffer, and wherever the buffer is, every byte is stored inside it.\<close>
theorem getanswer_addresses:
  assumes "list_all valid_label ls" "length (text_name ls) \<le> 1024"
    and "list_all proper_record rs" "rs \<noteq> []" "length rs \<le> 34"
    and "length hdr = 12" "getshort hdr 4 = Some 1" "getshort hdr 6 = Some (of_nat (length rs))"
    and "length hostbuf = hostbuf_size" "res_nsort st = 0"
  shows "\<exists>buf. getanswer al st old hostbuf (answer_message hdr ls rs @ rest) (length (answer_message hdr ls rs)) qname 1 1
    = Some (Some \<lparr>h_name = text_name ls, h_aliases = [], h_addrtype = AF_INET, h_length = 4, h_addrs = map snd rs\<rparr>, None, buf)"
  by (rule getanswer_address_records [OF assms])

section \<open>An answer of a pointer record\<close>

text \<open>An answer to the question for the pointer of \<open>qs\<close> with one record: the lifetime and the name it points to.\<close>

definition pointer_message :: "u8 list \<Rightarrow> u8 list list \<Rightarrow> u8 list \<Rightarrow> u16 \<Rightarrow> u8 list list \<Rightarrow> u8 list" where
  "pointer_message hdr qs ttl len ls = hdr @ wire_name qs @ [0, 12, 0, 1] @ [0xc0, 12, 0, 12, 0, 1] @ ttl @
     [ucast (drop_bit 8 len), ucast len] @ wire_name ls"

lemma getanswer_pointer_record:
  assumes "list_all valid_label qs" "length (text_name qs) \<le> 1024" "list_all valid_label ls" "length (text_name ls) \<le> 1024"
    and "length hdr = 12" "getshort hdr 4 = Some 1" "getshort hdr 6 = Some k" "k \<noteq> 0" "length ttl = 4"
    and "length hostbuf = hostbuf_size"
  shows "\<exists>buf. getanswer al st old hostbuf (pointer_message hdr qs ttl len ls @ rest) (length (pointer_message hdr qs ttl len ls)) qname 1 12
    = Some (Some \<lparr>h_name = text_name ls, h_aliases = [], h_addrtype = snd old, h_length = fst old, h_addrs = []\<rparr>, None, buf)"
proof -
  let ?w = "wire_name qs" and ?v = "wire_name ls"
  let ?mem = "pointer_message hdr qs ttl len ls @ rest" and ?eom = "length (pointer_message hdr qs ttl len ls)"
  let ?cp = "12 + length ?w + 4"
  let ?g = "\<lparr>ga_buf = hostbuf, ga_bp = 0, ga_buflen = int hostbuf_size, ga_aliases = [], ga_addrs = [], ga_name = None,
         ga_length = fst old, ga_type = snd old, ga_have = 0, ga_error = False\<rparr>"
  have eom: "?eom = ?cp + 12 + length ?v" using assms(5,9) by (simp add: pointer_message_def)
  have w: "take (length ?w) (drop 12 ?mem) = ?w" by (simp add: pointer_message_def assms(5))
  have v: "take (length ?v) (drop (?cp + 12) ?mem) = ?v" by (simp add: pointer_message_def assms(5,9))
  have at: "?mem ! (?cp + i) = ([0xc0, 12, 0, 12, 0, 1] @ ttl @ [ucast (drop_bit 8 len), ucast len]) ! i" if "i < 12" for i
  proof -
    have m: "?mem = (hdr @ ?w @ [0, 12, 0, 1]) @ ([0xc0, 12, 0, 12, 0, 1] @ ttl @ [ucast (drop_bit 8 len), ucast len]) @ ?v @ rest"
      by (simp add: pointer_message_def)
    have l: "length (hdr @ ?w @ [0, 12, 0, 1]) = ?cp" using assms(5) by simp
    have "(xs @ ys @ zs) ! (length xs + i) = ys ! i" if "i < length ys" for xs ys zs :: "u8 list"
      using that by (simp add: nth_append)
    from this [of "[0xc0, 12, 0, 12, 0, 1] @ ttl @ [ucast (drop_bit 8 len), ucast len]" "hdr @ ?w @ [0, 12, 0, 1]" "?v @ rest"] that assms(9)
    show ?thesis unfolding l m by simp
  qed
  have rds: "?mem ! ?cp = 0xc0" "?mem ! (?cp + 1) = 12" "?mem ! (?cp + 2) = 0" "?mem ! (?cp + 3) = 12" "?mem ! (?cp + 4) = 0" "?mem ! (?cp + 5) = 1"
    using at [of 0] at [of 1] at [of 2] at [of 3] at [of 4] at [of 5] by simp_all
  have lm: "?cp + 12 \<le> length ?mem" using eom by simp
  have sh: "getshort ?mem (?cp + 2) = Some 12" "getshort ?mem (?cp + 4) = Some 1"
    using getshort_bytes [OF rds(3,4)] getshort_bytes [OF rds(5,6)] lm by simp_all
  obtain x where x: "getshort ?mem (?cp + 10) = Some x" using lm by (simp add: getshort_def)
  have hdr: "getshort ?mem 4 = Some 1" "getshort ?mem 6 = Some k"
    using assms(5-7) by (simp_all add: getshort_def pointer_message_def nth_append)
  have room: "int (length (text_name qs)) < int hostbuf_size" "int (length (text_name ls)) < int hostbuf_size"
    using assms(2,4) by (simp_all add: hostbuf_size_def BUFSIZ_def)
  have "dn_expand ?mem ?eom 12 (int hostbuf_size) = Some (DnOk (length ?w) (text_name qs))"
    by (rule dn_expand_wire_name [OF assms(1) w]) (use eom room in simp_all)
  moreover have "ga_bp ?g + (length (text_name qs) + 1) \<le> length (ga_buf ?g)" using room assms(10) by simp
  ultimately obtain b where b: "expand_into ?mem ?eom 12 (int hostbuf_size) ?g = Some (int (length ?w), ?g\<lparr>ga_buf := b\<rparr>)" "length b = hostbuf_size"
    by (rule expand_into_bp) (use assms(10) in auto)
  let ?g1 = "?g\<lparr>ga_buf := b\<rparr>"
  have "dn_expand ?mem ?eom ?cp (int hostbuf_size) = Some (DnOk 2 (text_name qs))"
    by (rule dn_expand_pointer [where p = 12]) (use rds lm assms(1) w eom room in \<open>simp_all add: rd_def\<close>)
  moreover have "ga_bp ?g1 + (length (text_name qs) + 1) \<le> length (ga_buf ?g1)" using room b(2) by simp
  ultimately obtain c where c: "expand_into ?mem ?eom ?cp (int hostbuf_size) ?g1 = Some (2, ?g1\<lparr>ga_buf := c\<rparr>)" "length c = hostbuf_size"
    by (rule expand_into_bp) (use b(2) in auto)
  let ?g2 = "?g1\<lparr>ga_buf := c\<rparr>"
  have "dn_expand ?mem ?eom (?cp + 12) (int hostbuf_size) = Some (DnOk (length ?v) (text_name ls))"
    by (rule dn_expand_wire_name [OF assms(3) v]) (use eom room in simp_all)
  moreover have "ga_bp ?g2 + (length (text_name ls) + 1) \<le> length (ga_buf ?g2)" using room c(2) by simp
  ultimately obtain d where d: "expand_into ?mem ?eom (?cp + 12) (int hostbuf_size) ?g2 = Some (int (length ?v), ?g2\<lparr>ga_buf := d\<rparr>)"
    "take (length (text_name ls) + 1) d = text_name ls @ [0]"
    by (rule expand_into_bp) auto
  have nz: "\<forall>b\<in>set (text_name ls). b \<noteq> 0" using text_name_clean [OF assms(3)] by (simp add: list_all_iff)
  have "cstring_at (take (length (text_name ls) + 1) d) 0 = Some (text_name ls)"
    unfolding d(2) using cstring_written [OF nz, of "[]" 0 "[]"] by simp
  then have str: "cstring_at d 0 = Some (text_name ls)" by (rule cstring_at_whole)
  have rec: "answer_record al ?mem ?eom 1 12 ?cp ?g1 = Some (Inl (?g2\<lparr>ga_buf := d, ga_name := Some 0\<rparr>))"
    using c(1) d(1) sh x by (simp add: answer_record_def Let_def add.commute [of _ 10] add.assoc)
  obtain j where "unat k = Suc j" using assms(8) by (cases "unat k") (auto simp: unat_eq_0)
  with rec eom have "answer_loop al ?mem ?eom 1 12 (unat k) ?cp ?g1 = Some (Inl (?g2\<lparr>ga_buf := d, ga_name := Some 0\<rparr>))" by simp
  then show ?thesis
    using hdr b(1) str by (simp add: getanswer_def HFIXEDSZ_def QFIXEDSZ_def host_entry_def)
qed

text \<open>C40: an answer to the question for the pointer of an address, with a record that points to the name \<open>ls\<close>, becomes an
  entry of that name without aliases and addresses, whatever lies behind the message and was in the buffer.\<close>

theorem getanswer_pointer:
  assumes "list_all valid_label qs" "length (text_name qs) \<le> 1024" "list_all valid_label ls" "length (text_name ls) \<le> 1024"
    and "length hdr = 12" "getshort hdr 4 = Some 1" "getshort hdr 6 = Some k" "k \<noteq> 0" "length ttl = 4"
    and "length hostbuf = hostbuf_size"
  shows "\<exists>buf. getanswer al st old hostbuf (pointer_message hdr qs ttl len ls @ rest) (length (pointer_message hdr qs ttl len ls)) qname 1 12
    = Some (Some \<lparr>h_name = text_name ls, h_aliases = [], h_addrtype = snd old, h_length = fst old, h_addrs = []\<rparr>, None, buf)"
  by (rule getanswer_pointer_record [OF assms])

theorem getanswer_pointer_witness:
  "\<exists>buf. getanswer 0 zero_res (0, 0) (replicate hostbuf_size 7)
       (pointer_message [0, 1, 0x81, 0x80, 0, 1, 0, 1, 0, 0, 0, 0] [[0x31], [0x61]] [0, 0, 0, 9] 5 [[0x61], [0x62]] @ [5, 5])
       (length (pointer_message [0, 1, 0x81, 0x80, 0, 1, 0, 1, 0, 0, 0, 0] [[0x31], [0x61]] [0, 0, 0, 9] 5 [[0x61], [0x62]])) [] 1 12
     = Some (Some \<lparr>h_name = text_name [[0x61], [0x62]], h_aliases = [], h_addrtype = 0, h_length = 0, h_addrs = []\<rparr>, None, buf)"
  using getanswer_pointer [of "[[0x31], [0x61]]" "[[0x61], [0x62]]" "[0, 1, 0x81, 0x80, 0, 1, 0, 1, 0, 0, 0, 0]" 1 "[0, 0, 0, 9]"
      "replicate hostbuf_size 7" 0 zero_res "(0, 0)" 5 "[5, 5]" "[]"]
  by (simp add: valid_label_def space_byte_def getshort_def)

section \<open>Concrete answers\<close>

theorem getanswer_addresses_witness:
  "\<exists>buf. getanswer 0 zero_res (0, 0) (replicate hostbuf_size 7)
       ([0, 1, 0x81, 0x80, 0, 1, 0, 2, 0, 0, 0, 0] @ [1, 0x61, 1, 0x62, 0] @ [0, 1, 0, 1] @
        [0xc0, 12, 0, 1, 0, 1, 0, 0, 0, 9, 0, 4, 10, 0, 0, 1] @ [0xc0, 12, 0, 1, 0, 1, 0, 0, 0, 9, 0, 4, 10, 0, 0, 2] @ [5, 5]) 53 [] 1 1
     = Some (Some \<lparr>h_name = [0x61, 0x2e, 0x62], h_aliases = [], h_addrtype = AF_INET, h_length = 4,
         h_addrs = [[10, 0, 0, 1], [10, 0, 0, 2]]\<rparr>, None, buf)"
proof -
  let ?ls = "[[0x61], [0x62]] :: u8 list list" and ?rs = "[([0, 0, 0, 9], [10, 0, 0, 1]), ([0, 0, 0, 9], [10, 0, 0, 2])] :: (u8 list \<times> u8 list) list"
  have v: "list_all valid_label ?ls" "list_all proper_record ?rs" by (simp_all add: valid_label_def space_byte_def proper_record_def)
  have m: "answer_message [0, 1, 0x81, 0x80, 0, 1, 0, 2, 0, 0, 0, 0] ?ls ?rs = [0, 1, 0x81, 0x80, 0, 1, 0, 2, 0, 0, 0, 0] @ [1, 0x61, 1, 0x62, 0] @ [0, 1, 0, 1] @
        [0xc0, 12, 0, 1, 0, 1, 0, 0, 0, 9, 0, 4, 10, 0, 0, 1] @ [0xc0, 12, 0, 1, 0, 1, 0, 0, 0, 9, 0, 4, 10, 0, 0, 2]"
    by (simp add: answer_message_def a_record_def wire_name_def)
  have l: "length (answer_message [0, 1, 0x81, 0x80, 0, 1, 0, 2, 0, 0, 0, 0] ?ls ?rs) = 53" unfolding m by simp
  have "getshort [0, 1, 0x81, 0x80, 0, 1, 0, 2, 0, 0, 0, 0] 4 = Some 1" "getshort [0, 1, 0x81, 0x80, 0, 1, 0, 2, 0, 0, 0, 0] 6 = Some (of_nat (length ?rs))"
    by (simp_all add: getshort_def)
  with v have "\<exists>buf. getanswer 0 zero_res (0, 0) (replicate hostbuf_size 7) (answer_message [0, 1, 0x81, 0x80, 0, 1, 0, 2, 0, 0, 0, 0] ?ls ?rs @ [5, 5]) 53 [] 1 1
     = Some (Some \<lparr>h_name = text_name ?ls, h_aliases = [], h_addrtype = AF_INET, h_length = 4, h_addrs = map snd ?rs\<rparr>, None, buf)"
    using getanswer_addresses [of ?ls ?rs "[0, 1, 0x81, 0x80, 0, 1, 0, 2, 0, 0, 0, 0]" "replicate hostbuf_size 7" zero_res 0 "(0, 0)" "[5, 5]" "[]"]
    unfolding l by (simp add: zero_res_def)
  then show ?thesis unfolding m append_assoc by simp
qed

end
