(* ===== verification/Hosts_File.thy ===== *)
theory Hosts_File
  imports Host_Answer
begin

text \<open>
  The hosts file: \<open>_sethtent\<close>, \<open>_endhtent\<close>, \<open>_gethtent\<close>, \<open>_gethtbyname\<close> and \<open>_gethtbyaddr\<close> of
  \<open>src/inet/ghstnmad.c\<close>. The static structure an entry is returned in is its contents here; the lists of addresses that
  \<open>_gethtbyname\<close> collects are the addresses, as the words the bytes in memory make.
\<close>

abbreviation (input) RES_STAYOPEN :: u32 where "RES_STAYOPEN \<equiv> 0x100"
abbreviation (input) RES_USEVC :: u32 where "RES_USEVC \<equiv> 0x8"
abbreviation (input) NETDB_SUCCESS :: int where "NETDB_SUCCESS \<equiv> 0"
abbreviation (input) MAXHOSTNAMELEN :: nat where "MAXHOSTNAMELEN \<equiv> 64"

text \<open>An entry; \<open>h_addrtype\<close> is \<open>AF_INET\<close> and \<open>h_length\<close> is 4.\<close>

record htent =
  ht_name :: string
  ht_aliases :: "string list"
  ht_addr :: u32

text \<open>
  The static variables: the name of the file, its stream with \<open>stayopen\<close>, and the state of the resolver, for
  \<open>h_errno\<close> and the option to keep the file open.
\<close>

record hosts_state =
  hs_path :: string
  hs_db :: db
  hs_res :: res_state

text \<open>
  Beside the environment: what the buffer for the name of the local host holds when \<open>gethostname\<close> fails, since its
  result is not looked at.
\<close>

record hosts_env = res_env +
  he_localname :: string

section \<open>The stream\<close>

definition set_h_errno :: "int \<Rightarrow> hosts_state \<Rightarrow> hosts_state" where
  "set_h_errno e st = st\<lparr>hs_res := (hs_res st)\<lparr>res_h_errno := e\<rparr>\<rparr>"

definition hosts_path :: "'z net_env_scheme \<Rightarrow> string option" where
  "hosts_path env = db_path (net_env.truncate env) ''hosts'' ''/hosts'' PATH_MAX"

definition sethtent :: "'z net_env_scheme \<Rightarrow> int \<Rightarrow> hosts_state \<Rightarrow> hosts_state option" where
  "sethtent env f st = do {
     path \<leftarrow> hosts_path env;
     Some (st\<lparr>hs_path := path, hs_db := db_set (net_env.truncate env) path f (hs_db st)\<rparr>)
   }"

definition endhtent :: "hosts_state \<Rightarrow> hosts_state" where
  "endhtent st =
     (if db_file (hs_db st) \<noteq> None \<and> db_stayopen (hs_db st) = 0 \<and> res_options (hs_res st) AND RES_STAYOPEN = 0
      then st\<lparr>hs_db := (hs_db st)\<lparr>db_file := None\<rparr>\<rparr> else st)"

text \<open>The body of the loop: an entry begins with its address at the start of the line.\<close>

definition parse_host :: "string \<Rightarrow> htent option option" where
  "parse_host p =
     (if p \<noteq> [] \<and> hd p = CHR ''#'' then Some None
      else if strpbrk p [CHR ''#'', newline] = [] then Some None
      else (let p = before p [CHR ''#'', newline] in
        if strpbrk p blanks = [] then Some None
        else (let cp = dropWhile blank (tl (strpbrk p blanks)) in
          Some (Some \<lparr>ht_name = before cp blanks, ht_aliases = alias_loop [] (tl (strpbrk cp blanks)),
            ht_addr = inet_addr (before p blanks)\<rparr>))))"

definition gethtent :: "'z net_env_scheme \<Rightarrow> hosts_state \<Rightarrow> (htent option \<times> hosts_state) option" where
  "gethtent env st = do {
     (e, d) \<leftarrow> db_get (net_env.truncate env) (hs_path st) parse_host (hs_db st);
     Some (e, set_h_errno (if e \<noteq> None then NETDB_SUCCESS else if db_file d = None then NETDB_INTERNAL else HOST_NOT_FOUND)
       (st\<lparr>hs_db := d\<rparr>))
   }"

section \<open>_gethtbyaddr\<close>

text \<open>\<open>!bcmp (a, b, len)\<close>: undefined when one of the objects is shorter, or for a negative length.\<close>

definition bcmp_eq :: "u8 list \<Rightarrow> u8 list \<Rightarrow> int \<Rightarrow> bool option" where
  "bcmp_eq a b len = (if 0 \<le> len \<and> nat len \<le> length a \<and> nat len \<le> length b
     then Some (take (nat len) a = take (nat len) b) else None)"

text \<open>The address is the bytes at \<open>addr\<close>. The loop ends at the first comparison that is equal, or not defined.\<close>

definition gethtbyaddr :: "'z net_env_scheme \<Rightarrow> u8 list \<Rightarrow> int \<Rightarrow> int \<Rightarrow> hosts_state \<Rightarrow> (htent option \<times> hosts_state) option" where
  "gethtbyaddr env addr len type st = do {
     st \<leftarrow> sethtent env 0 st;
     (p, st) \<leftarrow> db_find (gethtent env) (\<lambda>p. AF_INET = type \<and> bcmp_eq (le32_bytes (ht_addr p)) addr len \<noteq> Some False) st;
     (case p of
        None \<Rightarrow> Some (None, endhtent st)
      | Some e \<Rightarrow> if bcmp_eq (le32_bytes (ht_addr e)) addr len = None then None else Some (Some e, endhtent st))
   }"

section \<open>_gethtbyname\<close>

text \<open>
  What the loop collects: \<open>namebuf\<close>, the aliases of the first entry found that has any, the addresses found and
  those of the local host. The tables have room for 35 addresses and a null pointer.
\<close>

record ht_found =
  hf_name :: string
  hf_aliases :: "string list"
  hf_addrs :: "u32 list"
  hf_local :: "u32 list"

definition entry_names :: "string \<Rightarrow> htent \<Rightarrow> bool" where
  "entry_names name p \<longleftrightarrow> strcasecmp_eq (ht_name p) name \<or> list_ex (\<lambda>a. strcasecmp_eq a name) (ht_aliases p)"

definition add_addr :: "u32 \<Rightarrow> u32 list \<Rightarrow> u32 list option" where
  "add_addr a as = (if length as \<ge> MAXADDRS then None else Some (as @ [a]))"

text \<open>The name and the aliases of an entry that has been found.\<close>

definition note_entry :: "string \<Rightarrow> htent \<Rightarrow> ht_found \<Rightarrow> ht_found" where
  "note_entry name p acc =
     (let acc = (if strcasecmp_eq (ht_name p) name then acc else acc\<lparr>hf_name := take (MAXHOSTNAMELEN - 1) (ht_name p)\<rparr>)
      in if hf_aliases acc = [] then acc\<lparr>hf_aliases := take (MAXALIASES - 1) (ht_aliases p)\<rparr> else acc)"

definition htbyname_step :: "string \<Rightarrow> string \<Rightarrow> htent \<Rightarrow> ht_found \<Rightarrow> ht_found option" where
  "htbyname_step name localname p acc = do {
     acc \<leftarrow> (if entry_names name p
       then do { as \<leftarrow> add_addr (ht_addr p) (hf_addrs acc); Some ((note_entry name p acc)\<lparr>hf_addrs := as\<rparr>) }
       else Some acc);
     (if entry_names localname p then do { as \<leftarrow> add_addr (ht_addr p) (hf_local acc); Some (acc\<lparr>hf_local := as\<rparr>) } else Some acc)
   }"

text \<open>\<open>Inl\<close> of an entry the function returns at once, when a single address is asked for.\<close>

partial_function (option) htbyname_loop :: "(hosts_state \<Rightarrow> (htent option \<times> hosts_state) option) \<Rightarrow> string \<Rightarrow> string \<Rightarrow> bool \<Rightarrow> ht_found
    \<Rightarrow> hosts_state \<Rightarrow> ((htent + ht_found) \<times> hosts_state) option" where
  "htbyname_loop get name localname multi acc st = do {
     (e, st) \<leftarrow> get st;
     (case e of
        None \<Rightarrow> Some (Inr acc, st)
      | Some p \<Rightarrow>
          if entry_names name p \<and> \<not> multi then Some (Inl p, st)
          else do { acc \<leftarrow> htbyname_step name localname p acc; htbyname_loop get name localname multi acc st })
   }"

text \<open>
  The shuffle: for every address of the local host and every address found, the difference is the exclusive or of the
  first in host order and the second as it is in memory; the address with the least one changes places with the first.
\<close>

definition best_step :: "u32 list \<Rightarrow> nat \<times> u32 \<Rightarrow> u32 \<times> nat \<Rightarrow> nat \<times> u32" where
  "best_step addrs b x = (case (b, x) of ((best, bestval), (l, j)) \<Rightarrow>
     let t = ntohl l XOR (addrs ! j) in if t < bestval then (j, t) else (best, bestval))"

definition best_addr :: "u32 list \<Rightarrow> u32 list \<Rightarrow> nat" where
  "best_addr local addrs = fst (foldl (best_step addrs) (0, -1) (List.product local [0..<length addrs]))"

definition shuffle_addrs :: "u32 list \<Rightarrow> u32 list \<Rightarrow> u32 list" where
  "shuffle_addrs local addrs = (let best = best_addr local addrs in
     if best \<noteq> 0 then addrs[0 := addrs ! best, best := addrs ! 0] else addrs)"

definition host_of_entry :: "htent \<Rightarrow> hostent" where
  "host_of_entry p = \<lparr>h_name = string_bytes (ht_name p), h_aliases = List.map string_bytes (ht_aliases p), h_addrtype = AF_INET, h_length = 4,
     h_addrs = [le32_bytes (ht_addr p)]\<rparr>"

text \<open>\<open>hosts_multiple_addrs\<close> is an argument.\<close>

definition gethtbyname :: "'z hosts_env_scheme \<Rightarrow> bool \<Rightarrow> string \<Rightarrow> hosts_state \<Rightarrow> (hostent option \<times> hosts_state) option" where
  "gethtbyname env multi name st = do {
     ((_, h), ns) \<leftarrow> gethostname (host_env.truncate env) True (int MAXHOSTNAMELEN) (res_names (hs_res st));
     let localname = (case h of Some h \<Rightarrow> h | None \<Rightarrow> he_localname env);
     let st = st\<lparr>hs_res := (hs_res st)\<lparr>res_names := ns\<rparr>\<rparr>;
     st \<leftarrow> sethtent env 0 st;
     (r, st) \<leftarrow> htbyname_loop (gethtent env) name localname multi
       \<lparr>hf_name = take (MAXHOSTNAMELEN - 1) name, hf_aliases = [], hf_addrs = [], hf_local = []\<rparr> st;
     let st = endhtent st;
     (case r of
        Inl p \<Rightarrow> Some (Some (host_of_entry p), st)
      | Inr acc \<Rightarrow>
          if hf_addrs acc = [] then Some (None, st)
          else Some (Some \<lparr>h_name = string_bytes (hf_name acc), h_aliases = List.map string_bytes (hf_aliases acc), h_addrtype = AF_INET,
            h_length = 4, h_addrs = List.map le32_bytes (shuffle_addrs (hf_local acc) (hf_addrs acc))\<rparr>, st))
   }"

end
