(* ===== verification/Hosts_File_Props.thy ===== *)
theory Hosts_File_Props
  imports Hosts_File Net_Db
begin

text \<open>
  What is in the hosts file is found: \<open>_gethtbyname\<close> and \<open>_gethtbyaddr\<close> over files of written entries and comments, the
  addresses of a host with several, and two ways in which the code goes wrong.
\<close>

section \<open>Written entries\<close>

definition host_line :: "htent \<Rightarrow> string" where
  "host_line e = inet_ntoa (ht_addr e) @ '' '' @ ht_name e @ render_names (ht_aliases e)"

definition host_ok :: "htent \<Rightarrow> bool" where
  "host_ok e \<longleftrightarrow> names_ok (ht_name e) (ht_aliases e) \<and> full_line (host_line e)"

lemma parse_host_line:
  assumes "host_ok e"
  shows "parse_host (host_line e @ [newline]) = Some (Some e)"
proof -
  let ?ws = "render_names (ht_aliases e)"
  have n: "names_ok (ht_name e) (ht_aliases e)" and w: "word_text (ht_name e)" "list_all word_text (ht_aliases e)"
    using assms by (simp_all add: host_ok_def names_ok_def)
  have l: "CHR ''#'' \<notin> set (host_line e)" "newline \<notin> set (host_line e)" "host_line e \<noteq> []"
    using w ntoa_word [of "ht_addr e"] word_text_chars names_chars
    by (simp_all add: host_line_def) (auto simp: newline_def)
  note body = line_body [OF l]
  have a: "before (host_line e) blanks = inet_ntoa (ht_addr e)" "tl (strpbrk (host_line e) blanks) = ht_name e @ ?ws" "strpbrk (host_line e) blanks \<noteq> []"
    using word_blank(1,2) [OF ntoa_word] by (simp_all add: host_line_def)
  have "before (ht_name e @ ?ws) blanks = ht_name e" "strpbrk (ht_name e @ ?ws) blanks = ?ws"
    by (rule word_blank [OF w(1)])+
  then show ?thesis
    using body a dropWhile_word [OF w(1)] alias_loop_ok [OF n] by (simp add: parse_host_def Let_def inet_addr_def inet_aton_ntoa_fact)
qed

interpretation hosts: text_db parse_host host_line host_ok
  by unfold_locales (simp_all add: parse_host_line host_ok_def, simp add: parse_host_def)

section \<open>Reading the whole file\<close>

text \<open>The state during a search: only the stream and \<open>h_errno\<close> change, and the stream stays open.\<close>

definition searching :: "hosts_state \<Rightarrow> hosts_state \<Rightarrow> bool" where
  "searching st0 st \<longleftrightarrow> (\<exists>e d. st = set_h_errno e (st0\<lparr>hs_db := d\<rparr>) \<and> db_file d \<noteq> None \<and> db_stayopen d = 0)"

lemma db_get_open: "db_get env path parse d = Some (e, d') \<Longrightarrow> db_stayopen d' = db_stayopen d \<and> (db_file d \<noteq> None \<longrightarrow> db_file d' \<noteq> None)"
  by (cases "db_file d") (auto simp: db_get_def bind_eq_Some_conv split: option.splits prod.splits)

lemma gethtent_searching:
  assumes "searching st0 st" "gethtent env st = Some (r, st')"
  shows "searching st0 st'"
proof -
  obtain e d where st: "st = set_h_errno e (st0\<lparr>hs_db := d\<rparr>)" "db_file d \<noteq> None" "db_stayopen d = 0"
    using assms(1) by (auto simp: searching_def)
  obtain d' where d': "db_get (net_env.truncate env) (hs_path st0) parse_host d = Some (r, d')"
    and st': "\<exists>x. st' = set_h_errno x (st0\<lparr>hs_db := d'\<rparr>)"
    using assms(2) by (auto simp: gethtent_def st(1) set_h_errno_def bind_eq_Some_conv)
  with db_get_open [OF d'] st(2,3) show ?thesis unfolding searching_def by metis
qed

lemma endhtent_searching:
  "searching st0 st \<Longrightarrow> res_options (hs_res st0) AND RES_STAYOPEN = 0 \<Longrightarrow> \<exists>e. endhtent st = set_h_errno e (st0\<lparr>hs_db := closed_db\<rparr>)"
proof -
  assume a: "searching st0 st" "res_options (hs_res st0) AND RES_STAYOPEN = 0"
  then obtain e d where st: "st = set_h_errno e (st0\<lparr>hs_db := d\<rparr>)" "db_file d \<noteq> None" "db_stayopen d = 0"
    by (auto simp: searching_def)
  then have "d\<lparr>db_file := None\<rparr> = closed_db" by (cases d) (simp add: closed_db_def)
  with a(2) st have "endhtent st = set_h_errno e (st0\<lparr>hs_db := closed_db\<rparr>)" by (simp add: endhtent_def set_h_errno_def)
  then show ?thesis ..
qed

text \<open>A state in which the file can be read, and what \<open>_sethtent\<close> makes of it.\<close>

definition hosts_ready :: "'z net_env_scheme \<Rightarrow> string \<Rightarrow> (string + htent) list \<Rightarrow> hosts_state \<Rightarrow> bool" where
  "hosts_ready env path xs st \<longleftrightarrow>
     hosts_path env = Some path \<and> net_files env path = Some (file_text host_line xs) \<and> list_all (item_ok host_ok) xs \<and>
     hs_db st = closed_db \<and> res_options (hs_res st) AND RES_STAYOPEN = 0"

lemma gethtent_reads:
  assumes "list_all (item_ok host_ok) xs" "db_file d = Some (t, file_text host_line xs)"
  shows "\<exists>st'. reads (gethtent env) (st\<lparr>hs_db := d\<rparr>) (entries xs) st'"
proof -
  let ?emb = "\<lambda>d x. set_h_errno x (st\<lparr>hs_db := d\<rparr>)" and ?get = "db_get (net_env.truncate env) (hs_path st) parse_host"
  have r: "reads ?get d (entries xs) (d\<lparr>db_file := Some (t, [])\<rparr>)" by (rule hosts.reads_items [OF assms])
  have "\<exists>x'. gethtent env (?emb d x) = Some (e, ?emb d' x')" if "?get d = Some (e, d')" for d e d' x
    using that by (auto simp: gethtent_def set_h_errno_def)
  then obtain out where out: "gethtent env (?emb d x) = Some (e, ?emb d' (out d e d' x))" if "?get d = Some (e, d')" for d e d' x
    by metis
  have "\<exists>st'. reads (gethtent env) (?emb d x) es st'" if "reads ?get d es d'" for d es d' x
    using that
  proof (induction arbitrary: x rule: reads.induct)
    case (reads_end d d')
    then show ?case using out reads.reads_end by metis
  next
    case (reads_next d e d1 es d')
    then show ?case using out reads.reads_next by metis
  qed
  from this [OF r, of "res_h_errno (hs_res st)"] show ?thesis by (simp add: set_h_errno_def)
qed

lemma sethtent_ready:
  assumes "hosts_ready env path xs st"
  shows "\<exists>st1 st'. sethtent env 0 st = Some st1 \<and> reads (gethtent env) st1 (entries xs) st' \<and> searching (st\<lparr>hs_path := path\<rparr>) st1"
proof -
  let ?t = "file_text host_line xs"
  let ?d = "\<lparr>db_file = Some (?t, ?t), db_stayopen = 0\<rparr>"
  have "sethtent env 0 st = Some (st\<lparr>hs_path := path, hs_db := ?d\<rparr>)"
    using assms by (simp add: hosts_ready_def sethtent_def db_set_def db_open_def closed_db_def net_env.truncate_def)
  moreover obtain st' where "reads (gethtent env) (st\<lparr>hs_path := path, hs_db := ?d\<rparr>) (entries xs) st'"
    using gethtent_reads [of xs ?d ?t env "st\<lparr>hs_path := path\<rparr>"] assms by (auto simp: hosts_ready_def)
  moreover have "searching (st\<lparr>hs_path := path\<rparr>) (st\<lparr>hs_path := path, hs_db := ?d\<rparr>)"
    unfolding searching_def by (intro exI [of _ "res_h_errno (hs_res st)"] exI [of _ ?d]) (simp add: set_h_errno_def)
  ultimately show ?thesis by blast
qed

lemma le32_bytes_length: "length (le32_bytes a) = 4"
  by (simp add: le32_bytes_def)

lemma le32_bytes_eq: "le32_bytes a = le32_bytes b \<longleftrightarrow> a = b"
  using le32_le32_bytes [of "[]" a "[]"] le32_le32_bytes [of "[]" b "[]"] by (metis option.inject)

lemma bcmp_eq_address: "bcmp_eq (le32_bytes a) (le32_bytes b) 4 = Some (a = b)"
  by (simp add: bcmp_eq_def le32_bytes_eq le32_bytes_length)

lemma gethtbyaddr_ready:
  assumes "hosts_ready env path xs st"
  shows "\<exists>e. gethtbyaddr env (le32_bytes addr) 4 AF_INET st = Some (List.find (\<lambda>p. ht_addr p = addr) (entries xs),
     set_h_errno e (st\<lparr>hs_path := path, hs_db := closed_db\<rparr>))"
proof -
  from sethtent_ready [OF assms] obtain st1 st' where s: "sethtent env 0 st = Some st1" "reads (gethtent env) st1 (entries xs) st'"
    "searching (st\<lparr>hs_path := path\<rparr>) st1" by blast
  have "\<exists>r. db_find (gethtent env) (\<lambda>p. ht_addr p = addr) st1
      = Some (List.find (\<lambda>p. ht_addr p = addr) (entries xs), r) \<and> searching (st\<lparr>hs_path := path\<rparr>) r \<and>
      (List.find (\<lambda>p. ht_addr p = addr) (entries xs) = None \<longrightarrow> r = st')"
    using s(2) _ s(3) by (rule db_find_reads) (rule gethtent_searching)
  then obtain r where r: "db_find (gethtent env) (\<lambda>p. ht_addr p = addr) st1 = Some (List.find (\<lambda>p. ht_addr p = addr) (entries xs), r)"
    "searching (st\<lparr>hs_path := path\<rparr>) r" by auto
  with endhtent_searching [OF r(2)] assms show ?thesis
    by (auto simp: gethtbyaddr_def s(1) hosts_ready_def bcmp_eq_address split: option.split)
qed

section \<open>The loop of _gethtbyname\<close>

lemma note_entry_lists [simp]: "hf_addrs (note_entry name p acc) = hf_addrs acc" "hf_local (note_entry name p acc) = hf_local acc"
  by (simp_all add: note_entry_def Let_def)

lemma htbyname_step_lists:
  assumes "entry_names name p \<longrightarrow> length (hf_addrs acc) < MAXADDRS" "entry_names localname p \<longrightarrow> length (hf_local acc) < MAXADDRS"
  shows "\<exists>acc'. htbyname_step name localname p acc = Some acc' \<and>
     hf_addrs acc' = hf_addrs acc @ (if entry_names name p then [ht_addr p] else []) \<and>
     hf_local acc' = hf_local acc @ (if entry_names localname p then [ht_addr p] else [])"
  using assms by (cases "entry_names name p"; cases "entry_names localname p") (simp_all add: htbyname_step_def add_addr_def)

fun steps :: "string \<Rightarrow> string \<Rightarrow> htent list \<Rightarrow> ht_found \<Rightarrow> ht_found option" where
  "steps name localname [] acc = Some acc"
| "steps name localname (p # ps) acc = do { acc \<leftarrow> htbyname_step name localname p acc; steps name localname ps acc }"

lemma htbyname_loop_all:
  assumes "reads (gethtent env) st es st'" "searching st0 st" "multi \<or> \<not> list_ex (entry_names name) es"
  shows "htbyname_loop (gethtent env) name localname multi acc st = map_option (\<lambda>acc. (Inr acc, st')) (steps name localname es acc) \<and> searching st0 st'"
  using assms
proof (induction arbitrary: acc rule: reads.induct)
  case (reads_end d d')
  then show ?case using gethtent_searching by (subst htbyname_loop.simps) auto
next
  case (reads_next d e d1 es d')
  have s: "searching st0 d1" by (rule gethtent_searching [OF reads_next.prems(1) reads_next.hyps(1)])
  show ?case
    using reads_next.IH [OF s] reads_next.hyps(1) reads_next.prems(2)
    by (subst htbyname_loop.simps) (cases "htbyname_step name localname e acc"; auto)
qed

lemma htbyname_loop_first:
  assumes "reads (gethtent env) st es st'" "searching st0 st" "List.find (entry_names name) es = Some p"
    "length (hf_local acc) + length (filter (entry_names localname) es) \<le> MAXADDRS"
  shows "\<exists>s. htbyname_loop (gethtent env) name localname False acc st = Some (Inl p, s) \<and> searching st0 s"
  using assms
proof (induction arbitrary: acc rule: reads.induct)
  case (reads_next d e d1 es d')
  have s: "searching st0 d1" by (rule gethtent_searching [OF reads_next.prems(1) reads_next.hyps(1)])
  show ?case
  proof (cases "entry_names name e")
    case True
    with reads_next s show ?thesis by (subst htbyname_loop.simps) auto
  next
    case False
    obtain acc' where a: "htbyname_step name localname e acc = Some acc'"
      "length (hf_local acc') + length (filter (entry_names localname) es) \<le> MAXADDRS"
      using htbyname_step_lists [of name e acc localname] False reads_next.prems(3) by (auto split: if_splits)
    from reads_next.IH [OF s _ a(2)] False reads_next.prems(2) reads_next.hyps(1) a(1) show ?thesis
      by (subst htbyname_loop.simps) auto
  qed
qed simp

lemma steps_result:
  assumes "length (hf_addrs acc) + length (filter (entry_names name) es) \<le> MAXADDRS"
    "length (hf_local acc) + length (filter (entry_names localname) es) \<le> MAXADDRS"
  shows "\<exists>r. steps name localname es acc = Some r \<and> hf_addrs r = hf_addrs acc @ map ht_addr (filter (entry_names name) es) \<and>
     hf_local r = hf_local acc @ map ht_addr (filter (entry_names localname) es)"
  using assms
proof (induction es arbitrary: acc)
  case (Cons p es)
  obtain acc' where a: "htbyname_step name localname p acc = Some acc'"
    "hf_addrs acc' = hf_addrs acc @ (if entry_names name p then [ht_addr p] else [])"
    "hf_local acc' = hf_local acc @ (if entry_names localname p then [ht_addr p] else [])"
    using htbyname_step_lists [of name p acc localname] Cons.prems by (auto split: if_splits)
  have "\<exists>r. steps name localname es acc' = Some r \<and> hf_addrs r = hf_addrs acc' @ map ht_addr (filter (entry_names name) es) \<and>
     hf_local r = hf_local acc' @ map ht_addr (filter (entry_names localname) es)"
    by (rule Cons.IH) (use Cons.prems a in \<open>auto split: if_splits\<close>)
  with a show ?case by auto
qed simp

lemma steps_overflow:
  "MAXADDRS < length (hf_addrs acc) + length (filter (entry_names name) es) \<Longrightarrow> length (hf_addrs acc) \<le> MAXADDRS \<Longrightarrow> steps name localname es acc = None"
proof (induction es arbitrary: acc)
  case (Cons p es)
  show ?case
  proof (cases "htbyname_step name localname p acc")
    case (Some acc')
    then have "length (hf_addrs acc') = length (hf_addrs acc) + (if entry_names name p then 1 else 0)" "length (hf_addrs acc') \<le> MAXADDRS"
      using Cons.prems(2) by (auto simp: htbyname_step_def add_addr_def bind_eq_Some_conv split: if_splits)
    with Cons Some show ?thesis by (auto split: if_splits)
  qed simp
qed simp

section \<open>The shuffle\<close>

lemma best_addr_bound: "addrs \<noteq> [] \<Longrightarrow> best_addr local addrs < length addrs"
proof -
  assume ne: "addrs \<noteq> []"
  have "fst (foldl (best_step addrs) (b, v) xs) < length addrs" if "\<forall>x\<in>set xs. snd x < length addrs" "b < length addrs" for b v xs
    using that by (induction xs arbitrary: b v) (auto simp: best_step_def Let_def)
  with ne show ?thesis by (auto simp: best_addr_def)
qed

lemma shuffle_mset: "mset (shuffle_addrs local addrs) = mset addrs"
proof (cases "addrs = []")
  case False
  with best_addr_bound [OF False, of local] show ?thesis
    by (simp add: shuffle_addrs_def Let_def mset_swap)
qed (simp add: shuffle_addrs_def Let_def)

section \<open>Properties\<close>

definition local_name :: "'z hosts_env_scheme \<Rightarrow> string option \<Rightarrow> string" where
  "local_name env h = (case h of Some h \<Rightarrow> h | None \<Rightarrow> he_localname env)"

lemma named_ready: "hosts_ready env path xs st \<Longrightarrow> hosts_ready env path xs (st\<lparr>hs_res := (hs_res st)\<lparr>res_names := ns\<rparr>\<rparr>)"
  by (simp add: hosts_ready_def)

lemma gethtbyname_ready:
  assumes "hosts_ready env path xs st"
    and "gethostname (host_env.truncate env) True (int MAXHOSTNAMELEN) (res_names (hs_res st)) = Some ((ret, h), ns)"
    and "length (filter (entry_names (local_name env h)) (entries xs)) \<le> MAXADDRS"
  shows "\<exists>e. gethtbyname env False name st = Some (map_option host_of_entry (List.find (entry_names name) (entries xs)),
       set_h_errno e (st\<lparr>hs_path := path, hs_db := closed_db, hs_res := (hs_res st)\<lparr>res_names := ns\<rparr>\<rparr>))"
proof -
  let ?st = "st\<lparr>hs_res := (hs_res st)\<lparr>res_names := ns\<rparr>\<rparr>"
  let ?acc = "\<lparr>hf_name = take (MAXHOSTNAMELEN - 1) name, hf_aliases = [], hf_addrs = [], hf_local = []\<rparr>"
  let ?L = "local_name env h"
  from sethtent_ready [OF named_ready [OF assms(1)], of ns] obtain st1 st' where s: "sethtent env 0 ?st = Some st1"
    "reads (gethtent env) st1 (entries xs) st'" "searching (?st\<lparr>hs_path := path\<rparr>) st1" by blast
  have res: "res_options (hs_res (?st\<lparr>hs_path := path\<rparr>)) AND RES_STAYOPEN = 0" using assms(1) by (simp add: hosts_ready_def)
  have "\<exists>s e. htbyname_loop (gethtent env) name ?L False ?acc st1
      = Some (case List.find (entry_names name) (entries xs) of Some p \<Rightarrow> Inl p | None \<Rightarrow> Inr e, s) \<and>
      hf_addrs e = [] \<and> searching (?st\<lparr>hs_path := path\<rparr>) s"
  proof (cases "List.find (entry_names name) (entries xs)")
    case None
    then have no: "\<not> list_ex (entry_names name) (entries xs)" "filter (entry_names name) (entries xs) = []"
      by (auto simp: find_None_iff list_ex_iff filter_empty_conv)
    obtain r where "steps name ?L (entries xs) ?acc = Some r" "hf_addrs r = []"
      using steps_result [of ?acc name "entries xs" ?L] no(2) assms(3) by auto
    with htbyname_loop_all [OF s(2,3), of False name ?L ?acc] no(1) None show ?thesis by auto
  next
    case (Some p)
    with htbyname_loop_first [OF s(2,3) Some, of ?acc ?L] assms(3)
    obtain r where "htbyname_loop (gethtent env) name ?L False ?acc st1 = Some (Inl p, r)" "searching (?st\<lparr>hs_path := path\<rparr>) r" by auto
    with Some show ?thesis by (intro exI [of _ r] exI [of _ ?acc]) simp
  qed
  then obtain r e where l: "htbyname_loop (gethtent env) name ?L False ?acc st1
      = Some (case List.find (entry_names name) (entries xs) of Some p \<Rightarrow> Inl p | None \<Rightarrow> Inr e, r)"
    "hf_addrs e = []" "searching (?st\<lparr>hs_path := path\<rparr>) r" by blast
  obtain x where x: "endhtent r = set_h_errno x (?st\<lparr>hs_path := path, hs_db := closed_db\<rparr>)"
    using endhtent_searching [OF l(3) res] by auto
  have "gethtbyname env False name st = Some (map_option host_of_entry (List.find (entry_names name) (entries xs)), endhtent r)"
    using assms(2) s(1) l(1,2)
    by (simp add: gethtbyname_def local_name_def [symmetric] Let_def split: option.split)
  with x show "\<exists>e. gethtbyname env False name st = Some (map_option host_of_entry (List.find (entry_names name) (entries xs)),
       set_h_errno e (st\<lparr>hs_path := path, hs_db := closed_db, hs_res := (hs_res st)\<lparr>res_names := ns\<rparr>\<rparr>))"
    by (intro exI [of _ x]) (simp add: set_h_errno_def)
qed

text \<open>C21: Over a hosts file of entries and comments, \<open>_gethtbyname\<close> returns the first entry whose name or one of whose
  aliases is the name asked for, without regard to case, and \<open>_gethtbyaddr\<close> the first with the address; if there is none they return
  a null pointer. Afterwards the file is closed, and of the state of the resolver only the name of the host and
  \<open>h_errno\<close> can differ. At most 35 entries may name the local host.\<close>
theorem hosts_file_lookup:
  assumes "hosts_ready env path xs st"
    and "gethostname (host_env.truncate env) True (int MAXHOSTNAMELEN) (res_names (hs_res st)) = Some ((ret, h), ns)"
    and "length (filter (entry_names (local_name env h)) (entries xs)) \<le> MAXADDRS"
  shows "(\<exists>e. gethtbyname env False name st = Some (map_option host_of_entry (List.find (entry_names name) (entries xs)),
       set_h_errno e (st\<lparr>hs_path := path, hs_db := closed_db, hs_res := (hs_res st)\<lparr>res_names := ns\<rparr>\<rparr>))) \<and>
     (\<exists>e. gethtbyaddr env (le32_bytes addr) 4 AF_INET st = Some (List.find (\<lambda>p. ht_addr p = addr) (entries xs),
       set_h_errno e (st\<lparr>hs_path := path, hs_db := closed_db\<rparr>)))"
  using gethtbyname_ready [OF assms] gethtbyaddr_ready [OF assms(1)] by blast

text \<open>C22: With several addresses asked for, the addresses returned are those of all entries for the name, each as often as
  the file has it, in some order; without an entry there is a null pointer. More than 35 entries for the name are stored
  behind the end of the table.\<close>
theorem all_addresses_of_a_host:
  assumes "hosts_ready env path xs st"
    and "gethostname (host_env.truncate env) True (int MAXHOSTNAMELEN) (res_names (hs_res st)) = Some ((ret, h), ns)"
    and "length (filter (entry_names (local_name env h)) (entries xs)) \<le> MAXADDRS"
    and "found = filter (entry_names name) (entries xs)"
  shows "if length found > MAXADDRS then gethtbyname env True name st = None
     else \<exists>r st'. gethtbyname env True name st = Some (r, st') \<and> (r = None \<longleftrightarrow> found = []) \<and>
       (\<forall>e. r = Some e \<longrightarrow> mset (h_addrs e) = mset (map (le32_bytes \<circ> ht_addr) found))"
proof -
  let ?st = "st\<lparr>hs_res := (hs_res st)\<lparr>res_names := ns\<rparr>\<rparr>"
  let ?acc = "\<lparr>hf_name = take (MAXHOSTNAMELEN - 1) name, hf_aliases = [], hf_addrs = [], hf_local = []\<rparr>"
  let ?L = "local_name env h"
  from sethtent_ready [OF named_ready [OF assms(1)], of ns] obtain st1 st' where s: "sethtent env 0 ?st = Some st1"
    "reads (gethtent env) st1 (entries xs) st'" "searching (?st\<lparr>hs_path := path\<rparr>) st1" by blast
  have l: "htbyname_loop (gethtent env) name ?L True ?acc st1 = map_option (\<lambda>acc. (Inr acc, st')) (steps name ?L (entries xs) ?acc)"
    using htbyname_loop_all [OF s(2,3), of True name ?L ?acc] by simp
  show ?thesis
  proof (cases "length found > MAXADDRS")
    case True
    with steps_overflow [of ?acc name "entries xs" ?L] l assms(2,4) s(1) show ?thesis
      by (simp add: gethtbyname_def local_name_def [symmetric])
  next
    case False
    obtain r where r: "steps name ?L (entries xs) ?acc = Some r" "hf_addrs r = map ht_addr found"
      using steps_result [of ?acc name "entries xs" ?L] assms(3,4) False by auto
    have m: "mset (map le32_bytes (shuffle_addrs l (map ht_addr found))) = mset (map (le32_bytes \<circ> ht_addr) found)" for l
      by (simp only: mset_map shuffle_mset) (simp add: multiset.map_comp)
    from r l assms(2) s(1) False show ?thesis
      using m by (simp add: gethtbyname_def local_name_def [symmetric] Let_def del: mset_map)
  qed
qed

text \<open>A line that begins with a blank is read as an entry for the address 0.0.0.0 whose name is the address that was
  meant, and whose aliases are the names.\<close>
theorem indented_line_misread:
  assumes "host_ok e" "Suc (length (ht_aliases e)) < MAXALIASES"
  shows "parse_host (CHR '' '' # host_line e @ [newline])
    = Some (Some \<lparr>ht_name = inet_ntoa (ht_addr e), ht_aliases = ht_name e # ht_aliases e, ht_addr = 0\<rparr>)"
proof -
  let ?ws = "render_names (ht_name e # ht_aliases e)"
  have w: "word_text (ht_name e)" "list_all word_text (ht_aliases e)" using assms(1) by (simp_all add: host_ok_def names_ok_def)
  have line: "host_line e = inet_ntoa (ht_addr e) @ ?ws" by (simp add: host_line_def)
  have l: "CHR ''#'' \<notin> set (host_line e)" "newline \<notin> set (host_line e)"
    using w ntoa_word [of "ht_addr e"] word_text_chars names_chars by (simp_all add: host_line_def) (auto simp: newline_def)
  then have "CHR ''#'' \<notin> set (CHR '' '' # host_line e)" "newline \<notin> set (CHR '' '' # host_line e)" by (simp_all add: newline_def)
  note body = line_body [OF this, simplified]
  have "before (host_line e) blanks = inet_ntoa (ht_addr e)" "strpbrk (host_line e) blanks = ?ws"
    unfolding line by (rule word_blank [OF ntoa_word])+
  moreover have "dropWhile blank (host_line e) = host_line e" unfolding line by (rule dropWhile_word [OF ntoa_word])
  moreover have "alias_loop [] (tl ?ws) = ht_name e # ht_aliases e"
    using alias_loop_ok [of "ht_name e" "ht_name e # ht_aliases e"] w assms(2) by (simp add: names_ok_def)
  moreover have "inet_addr [] = 0" by code_simp
  ultimately show ?thesis
    using body by (simp add: parse_host_def Let_def del: render_names_simps)
qed

text \<open>The address on the network of the local host is not preferred: for the local host 10.0.0.1, the address 192.168.0.10
  is put before 10.0.0.9, since the address of the local host is compared in another byte order.\<close>
theorem nearest_address_missed:
  "shuffle_addrs [inet_addr ''10.0.0.1''] [inet_addr ''10.0.0.9'', inet_addr ''192.168.0.10'']
     = [inet_addr ''192.168.0.10'', inet_addr ''10.0.0.9'']"
  by code_simp

section \<open>A hosts file to look into\<close>

definition windows_env :: "string \<Rightarrow> hosts_env" where
  "windows_env text = \<lparr>net_files = [''c:/hosts'' \<mapsto> text], net_getenv = [''windir'' \<mapsto> ''c:'', ''HOSTNAME'' \<mapsto> ''pc.lan''], net_cfg = None,
     he_addrs = [], he_dos_name = None, he_malloc = (\<lambda>_. True), re_junk = [], re_randomid = 7, he_localname = []\<rparr>"

definition idle_hosts :: hosts_state where
  "idle_hosts = \<lparr>hs_path = [], hs_db = closed_db, hs_res = zero_res\<rparr>"

definition gw :: htent where "gw = \<lparr>ht_name = ''gw'', ht_aliases = [''router''], ht_addr = 0x0100000a\<rparr>"
definition gw2 :: htent where "gw2 = \<lparr>ht_name = ''gw'', ht_aliases = [''backup''], ht_addr = 0x0200000a\<rparr>"

lemma demo_hosts_ok: "host_ok gw" "host_ok gw2"
proof -
  have "inet_ntoa 0x0100000a = ''10.0.0.1''" "inet_ntoa 0x0200000a = ''10.0.0.2''" by code_simp+
  then show "host_ok gw" "host_ok gw2"
    by (simp_all add: host_ok_def gw_def gw2_def names_ok_def word_text_def host_line_def full_line_def MAXALIASES_def BUFSIZ_def
        blank_def newline_def NUL_def)
qed

lemma demo_hosts_ready: "hosts_ready (windows_env (file_text host_line [Inl ''lan'', Inr gw, Inr gw2])) ''c:/hosts'' [Inl ''lan'', Inr gw, Inr gw2] idle_hosts"
  using demo_hosts_ok
  by (simp add: hosts_ready_def hosts_path_def db_path_def windows_env_def net_env.truncate_def PATH_MAX_def idle_hosts_def zero_res_def
      full_line_def BUFSIZ_def newline_def NUL_def)

lemma demo_hostname:
  "\<exists>ns. gethostname (host_env.truncate (windows_env t)) True (int MAXHOSTNAMELEN) (res_names (hs_res idle_hosts)) = Some ((0, Some ''pc.lan''), ns)"
  by (simp add: gethostname_def windows_env_def host_env.truncate_def idle_hosts_def zero_res_def no_names_def hostname_source_def try_strdup_def
      keep_names_def MAXGETHOSTNAME_def up_to_dot_def tolower_def ctype_simps Let_def)

lemma demo_not_local: "filter (entry_names ''pc.lan'') [gw, gw2] = []"
  by code_simp

theorem hosts_file_lookup_witness:
  "\<exists>st. gethtbyname (windows_env (file_text host_line [Inl ''lan'', Inr gw, Inr gw2])) False ''BACKUP'' idle_hosts = Some (Some (host_of_entry gw2), st)"
proof -
  let ?env = "windows_env (file_text host_line [Inl ''lan'', Inr gw, Inr gw2])"
  obtain ns where ns: "gethostname (host_env.truncate ?env) True (int MAXHOSTNAMELEN) (res_names (hs_res idle_hosts)) = Some ((0, Some ''pc.lan''), ns)"
    using demo_hostname by blast
  have l: "length (filter (entry_names (local_name ?env (Some ''pc.lan''))) (entries [Inl ''lan'', Inr gw, Inr gw2])) \<le> MAXADDRS"
    by (simp add: local_name_def demo_not_local del: filter.simps)
  have "\<not> entry_names ''BACKUP'' gw" "entry_names ''BACKUP'' gw2" by code_simp+
  with hosts_file_lookup [OF demo_hosts_ready ns l, of "''BACKUP''" 0] show ?thesis by auto
qed

theorem all_addresses_of_a_host_witness:
  "\<exists>e st. gethtbyname (windows_env (file_text host_line [Inl ''lan'', Inr gw, Inr gw2])) True ''gw'' idle_hosts = Some (Some e, st) \<and>
     mset (h_addrs e) = {#[10, 0, 0, 1], [10, 0, 0, 2]#}"
proof -
  let ?env = "windows_env (file_text host_line [Inl ''lan'', Inr gw, Inr gw2])"
  obtain ns where ns: "gethostname (host_env.truncate ?env) True (int MAXHOSTNAMELEN) (res_names (hs_res idle_hosts)) = Some ((0, Some ''pc.lan''), ns)"
    using demo_hostname by blast
  have l: "length (filter (entry_names (local_name ?env (Some ''pc.lan''))) (entries [Inl ''lan'', Inr gw, Inr gw2])) \<le> MAXADDRS"
    by (simp add: local_name_def demo_not_local del: filter.simps)
  have e: "entry_names ''gw'' gw" "entry_names ''gw'' gw2" by code_simp+
  have f: "[gw, gw2] = filter (entry_names ''gw'') (entries [Inl ''lan'', Inr gw, Inr gw2])" using e by simp
  have "le32_bytes (ht_addr gw) = [10, 0, 0, 1]" "le32_bytes (ht_addr gw2) = [10, 0, 0, 2]" by code_simp+
  with all_addresses_of_a_host [OF demo_hosts_ready ns l f] show ?thesis by auto
qed

theorem indented_line_misread_witness:
  "parse_host ('' 10.0.0.1 gw router'' @ [newline]) = Some (Some \<lparr>ht_name = ''10.0.0.1'', ht_aliases = [''gw'', ''router''], ht_addr = 0\<rparr>)"
proof -
  have "inet_ntoa 0x0100000a = ''10.0.0.1''" by code_simp
  then show ?thesis
    using indented_line_misread [OF demo_hosts_ok(1)] by (simp add: gw_def host_line_def MAXALIASES_def)
qed

end
