(* ===== verification/Host_Db.thy ===== *)
theory Host_Db
  imports Hosts_File
begin

text \<open>
  The host database: \<open>init_services\<close>, \<open>gethostent\<close>, \<open>gethostbyname\<close> and \<open>gethostbyaddr\<close> of
  \<open>src/inet/ghstnmad.c\<close>, \<open>sethostent\<close> and \<open>endhostent\<close> of \<open>src/inet/shstent.c\<close>. The code is compiled with \<open>STRICT\<close>, without NIS;
  messages to the user are left out. \<open>reorder_addrs\<close> does nothing. An address is the list of the bytes in memory.
\<close>

abbreviation (input) SERVICE_NONE :: nat where "SERVICE_NONE \<equiv> 0"
abbreviation (input) SERVICE_BIND :: nat where "SERVICE_BIND \<equiv> 1"
abbreviation (input) SERVICE_HOSTS :: nat where "SERVICE_HOSTS \<equiv> 2"
abbreviation (input) SERVICE_NIS :: nat where "SERVICE_NIS \<equiv> 3"
abbreviation (input) SERVICE_MAX :: nat where "SERVICE_MAX \<equiv> 3"
abbreviation (input) MAXTRIMDOMAINS :: nat where "MAXTRIMDOMAINS \<equiv> 4"
abbreviation (input) TOKEN_SEPARATORS :: string where "TOKEN_SEPARATORS \<equiv> '' ,;:''"

text \<open>The static variables; \<open>nd_order\<close> is the array of services, \<open>nd_trim\<close> the domains \<open>trimdomain\<close> points to.\<close>

record netdb_state =
  nd_hosts :: hosts_state
  nd_order :: "nat list"
  nd_done :: bool
  nd_multi :: bool
  nd_spoof :: bool
  nd_alert :: bool
  nd_reorder :: bool
  nd_trim :: "string list"

text \<open>
  Parameters: \<open>res_send\<close>, the address and contents of \<open>hostbuf\<close>, the contents of the buffer for an answer, and what the
  static host entry holds of length and type; \<open>ne_public\<close> are the files whose mode \<open>fstat\<close> gives as readable by all.
\<close>

record netdb_env = hosts_env +
  ne_send :: send
  ne_al :: nat
  ne_hostbuf :: "u8 list"
  ne_answer :: "u8 list"
  ne_old :: "int \<times> int"
  ne_public :: "string \<Rightarrow> bool"

definition h_error :: "int \<Rightarrow> netdb_state \<Rightarrow> netdb_state" where
  "h_error e st = st\<lparr>nd_hosts := set_h_errno e (nd_hosts st)\<rparr>"

definition with_res :: "res_state \<Rightarrow> netdb_state \<Rightarrow> netdb_state" where
  "with_res r st = st\<lparr>nd_hosts := (nd_hosts st)\<lparr>hs_res := r\<rparr>\<rparr>"

section \<open>init_services\<close>

definition checkbuf :: "string \<Rightarrow> string \<Rightarrow> bool" where
  "checkbuf b cmd \<longleftrightarrow> strcasecmp_eq (take (length cmd) b) cmd \<and> (drop (length cmd) b = [] \<or> isspace (hd (drop (length cmd) b)))"

text \<open>Storing a service; the array has four entries.\<close>

definition put_service :: "nat \<Rightarrow> nat \<Rightarrow> netdb_state \<Rightarrow> netdb_state option" where
  "put_service cc s st = do { l \<leftarrow> wr (nd_order st) cc [s]; Some (st\<lparr>nd_order := l\<rparr>) }"

text \<open>A service by its name; \<open>bind\<close> starts the resolver. The first result is false for an unknown name.\<close>

definition service_token :: "netdb_env \<Rightarrow> string \<Rightarrow> nat \<Rightarrow> netdb_state \<Rightarrow> (bool \<times> nat \<times> netdb_state) option" where
  "service_token env cp cc st =
     (if checkbuf cp ''bind'' then do {
        st \<leftarrow> put_service cc SERVICE_BIND st;
        let r = hs_res (nd_hosts st);
        r \<leftarrow> (if res_options r AND RES_INIT = 0 then map_option snd (res_init env r) else Some r);
        Some (True, cc + 1, with_res r st)
      }
      else if checkbuf cp ''hosts'' then do { st \<leftarrow> put_service cc SERVICE_HOSTS st; Some (True, cc + 1, st) }
      else if checkbuf cp ''nis'' then do { st \<leftarrow> put_service cc SERVICE_NIS st; Some (True, cc + 1, st) }
      else Some (False, cc, st))"

text \<open>The names of an \<open>order\<close> line; the first result says whether there were errors.\<close>

function order_loop :: "netdb_env \<Rightarrow> string \<Rightarrow> bool \<Rightarrow> nat \<Rightarrow> netdb_state \<Rightarrow> (bool \<times> nat \<times> netdb_state) option" where
  "order_loop env s errs cc st = do {
     (ok, cc, st) \<leftarrow> service_token env (before (dropWhile blank s) TOKEN_SEPARATORS) cc st;
     (if strpbrk (dropWhile blank s) TOKEN_SEPARATORS = [] then Some (errs \<or> \<not> ok, cc, st)
      else order_loop env (tl (strpbrk (dropWhile blank s) TOKEN_SEPARATORS)) (errs \<or> \<not> ok) cc st)
   }"
  by pat_completeness auto
termination
proof (relation "measure (\<lambda>(env, s, errs, cc, st). length s)", goal_cases)
  case (2 env s errs cc st x p ok cc1 st1)
  have "length (strpbrk (dropWhile blank s) TOKEN_SEPARATORS) \<le> length s"
    unfolding strpbrk_def by (rule order_trans [OF length_dropWhile_le length_dropWhile_le])
  with 2 show ?case by (cases "strpbrk (dropWhile blank s) TOKEN_SEPARATORS") auto
qed auto

declare order_loop.simps [simp del]

text \<open>\<open>check_legal\<close>: the value behind a keyword, \<open>None\<close> for an error.\<close>

definition check_legal :: "string \<Rightarrow> bool option" where
  "check_legal buf = (let cp = dropWhile isspace (strpbrk buf blanks) in
     if length cp = 2 \<and> checkbuf cp ''on'' then Some True
     else if length cp = 3 \<and> checkbuf cp ''off'' then Some False else None)"

text \<open>A domain is added while there is room in the table and in the buffer, of which \<open>tdp\<close> bytes are used.\<close>

definition add_trim :: "string \<Rightarrow> nat \<Rightarrow> netdb_state \<Rightarrow> nat \<times> netdb_state" where
  "add_trim cp tdp st =
     (if length (nd_trim st) < MAXTRIMDOMAINS \<and> length cp + tdp < BUFSIZ - 2
      then (tdp + length cp + 1, st\<lparr>nd_trim := nd_trim st @ [cp]\<rparr>) else (tdp, st))"

text \<open>One line of \<open>host.conf\<close>, from its first character that is no space on.\<close>

definition conf_command :: "netdb_env \<Rightarrow> string \<Rightarrow> nat \<Rightarrow> nat \<Rightarrow> netdb_state \<Rightarrow> (bool \<times> nat \<times> nat \<times> netdb_state) option" where
  "conf_command env buf cc tdp st =
     (let flag = (\<lambda>set. case check_legal buf of Some v \<Rightarrow> Some (False, cc, tdp, set v) | None \<Rightarrow> Some (True, cc, tdp, st)) in
      if checkbuf buf ''order'' then
        (let cp = strpbrk buf blanks in
         if cp = [] \<or> tl cp = [] then Some (True, cc, tdp, st)
         else do { (errs, cc, st) \<leftarrow> order_loop env cp False cc st; Some (errs \<or> cc = 0, cc, tdp, st) })
      else if checkbuf buf ''multi'' then flag (\<lambda>v. st\<lparr>nd_multi := v\<rparr>)
      else if checkbuf buf ''nospoof'' then flag (\<lambda>v. st\<lparr>nd_spoof := v\<rparr>)
      else if checkbuf buf ''alert'' then flag (\<lambda>v. st\<lparr>nd_alert := v\<rparr>)
      else if checkbuf buf ''reorder'' then flag (\<lambda>v. st\<lparr>nd_reorder := v\<rparr>)
      else if checkbuf buf ''trim'' then
        (let cp = dropWhile blank (strpbrk buf blanks) in
         if length (nd_trim st) < MAXTRIMDOMAINS then
           if cp = [] then Some (True, cc, tdp, st) else (case add_trim cp tdp st of (tdp, st) \<Rightarrow> Some (False, cc, tdp, st))
         else Some (False, cc, tdp, st))
      else Some (True, cc, tdp, st))"

fun host_conf_lines :: "netdb_env \<Rightarrow> string list \<Rightarrow> nat \<Rightarrow> nat \<Rightarrow> netdb_state \<Rightarrow> (nat \<times> nat \<times> netdb_state) option" where
  "host_conf_lines env [] cc tdp st = Some (cc, tdp, st)"
| "host_conf_lines env (l # ls) cc tdp st =
     (let buf = before (cstr l) [newline]; cp = dropWhile isspace buf in
      if buf \<noteq> [] \<and> hd buf = CHR ''#'' then host_conf_lines env ls cc tdp st
      else if cp = [] then host_conf_lines env ls cc tdp st
      else do {
        (errs, cc, tdp, st) \<leftarrow> conf_command env cp cc tdp st;
        (if errs then Some (cc, tdp, st) else host_conf_lines env ls cc tdp st)
      })"

text \<open>The name of \<open>host.conf\<close>, and the services without that file.\<close>

definition host_conf_path :: "netdb_env \<Rightarrow> string option" where
  "host_conf_path env = do {
     path \<leftarrow> (case net_cfg env of
        None \<Rightarrow> Some []
      | Some x \<Rightarrow> do { (_, d) \<leftarrow> GetPrivateProfileString (net_files env) (Some ''main'') (Some ''host.conf'') None 1024 x; d });
     Some (case net_getenv env ''RESOLV_HOST_CONF'' of Some p \<Rightarrow> p | None \<Rightarrow> path)
   }"

definition default_services :: "netdb_env \<Rightarrow> netdb_state \<Rightarrow> netdb_state option" where
  "default_services env st = do {
     x \<leftarrow> getdnsaddr env;
     l \<leftarrow> wr (nd_order st) 0 (case x of None \<Rightarrow> [SERVICE_HOSTS, SERVICE_NONE] | Some _ \<Rightarrow> [SERVICE_HOSTS, SERVICE_BIND, SERVICE_NONE]);
     Some (st\<lparr>nd_order := l\<rparr>)
   }"

definition conf_services :: "netdb_env \<Rightarrow> string \<Rightarrow> netdb_state \<Rightarrow> (nat \<times> netdb_state) option" where
  "conf_services env text st = do {
     (cc, tdp, st) \<leftarrow> host_conf_lines env (file_lines (BUFSIZ - 1) text) 0 0 st;
     st \<leftarrow> put_service cc SERVICE_NONE st;
     Some (tdp, st)
   }"

text \<open>\<open>strtok\<close>: the words of a string.\<close>

function tokens :: "string \<Rightarrow> string list" where
  "tokens s = (let t = dropWhile (\<lambda>c. c \<in> set TOKEN_SEPARATORS) s in
     if t = [] then [] else before t TOKEN_SEPARATORS # tokens (tl (strpbrk t TOKEN_SEPARATORS)))"
  by pat_completeness auto
termination
proof (relation "measure length", goal_cases)
  case (2 s t)
  have "length (strpbrk t TOKEN_SEPARATORS) \<le> length t" by (simp add: strpbrk_def length_dropWhile_le)
  moreover have "length t \<le> length s" using 2(1) by (simp add: length_dropWhile_le)
  moreover have "0 < length s" using 2 by (cases s) auto
  ultimately have "length (tl (strpbrk t TOKEN_SEPARATORS)) < length s" unfolding length_tl by linarith
  then show ?case by simp
qed auto

declare tokens.simps [simp del]

fun env_order :: "netdb_env \<Rightarrow> string list \<Rightarrow> nat \<Rightarrow> netdb_state \<Rightarrow> (nat \<times> netdb_state) option" where
  "env_order env [] cc st = Some (cc, st)"
| "env_order env (t # ts) cc st = do { (_, cc, st) \<leftarrow> service_token env t cc st; env_order env ts cc st }"

definition env_services :: "netdb_env \<Rightarrow> netdb_state \<Rightarrow> netdb_state option" where
  "env_services env st =
     (case net_getenv env ''RESOLV_SERV_ORDER'' of
        None \<Rightarrow> Some st
      | Some v \<Rightarrow> if tokens v = [] then Some st
          else do { (cc, st) \<leftarrow> env_order env (tokens v) 0 st; put_service cc SERVICE_NONE st })"

definition env_flags :: "netdb_env \<Rightarrow> netdb_state \<Rightarrow> netdb_state" where
  "env_flags env st =
     (let st = (case net_getenv env ''RESOLV_SPOOF_CHECK'' of
                  None \<Rightarrow> st
                | Some cp \<Rightarrow>
                    if checkbuf cp ''warn'' then st\<lparr>nd_spoof := True, nd_alert := True\<rparr>
                    else if checkbuf cp ''off'' then st\<lparr>nd_spoof := False, nd_alert := False\<rparr>
                    else if checkbuf cp ''warn off'' then st\<lparr>nd_spoof := True, nd_alert := False\<rparr>
                    else st\<lparr>nd_spoof := True\<rparr>);
          st = (case net_getenv env ''RESOLV_MULTI'' of None \<Rightarrow> st | Some cp \<Rightarrow> st\<lparr>nd_multi := checkbuf cp ''on''\<rparr>)
      in case net_getenv env ''RESOLV_REORDER'' of None \<Rightarrow> st | Some cp \<Rightarrow> st\<lparr>nd_reorder := checkbuf cp ''on''\<rparr>)"

fun add_trims :: "string list \<Rightarrow> nat \<Rightarrow> netdb_state \<Rightarrow> nat \<times> netdb_state" where
  "add_trims [] tdp st = (tdp, st)"
| "add_trims (t # ts) tdp st = (case add_trim t tdp st of (tdp, st) \<Rightarrow> add_trims ts tdp st)"

definition env_trims :: "netdb_env \<Rightarrow> nat \<Rightarrow> netdb_state \<Rightarrow> netdb_state" where
  "env_trims env tdp st =
     (let (tdp, st) = (case net_getenv env ''RESOLV_ADD_TRIM_DOMAINS'' of None \<Rightarrow> (tdp, st) | Some v \<Rightarrow> add_trims (tokens v) tdp st)
      in case net_getenv env ''RESOLV_OVERRIDE_TRIM_DOMAINS'' of
           None \<Rightarrow> st
         | Some v \<Rightarrow> snd (add_trims (tokens v) 0 (st\<lparr>nd_trim := []\<rparr>)))"

definition init_services :: "netdb_env \<Rightarrow> netdb_state \<Rightarrow> netdb_state option" where
  "init_services env st = do {
     path \<leftarrow> host_conf_path env;
     (tdp, st) \<leftarrow> (case (if ne_public env path then net_files env path else None) of
        None \<Rightarrow> map_option (\<lambda>st. (0, st)) (default_services env st)
      | Some text \<Rightarrow> conf_services env text st);
     st \<leftarrow> env_services env st;
     Some ((env_trims env tdp (env_flags env st))\<lparr>nd_done := True\<rparr>)
   }"

text \<open>The services in use, once the array has been filled.\<close>

definition services :: "netdb_env \<Rightarrow> netdb_state \<Rightarrow> (nat list \<times> netdb_state) option" where
  "services env st = do {
     st \<leftarrow> (if nd_done st then Some st else init_services env st);
     if SERVICE_NONE \<notin> set (nd_order st) then None
     else Some (takeWhile (\<lambda>s. s \<noteq> SERVICE_NONE) (nd_order st), st)
   }"

section \<open>Domains that are cut off\<close>

definition dotrimdomain :: "string list \<Rightarrow> string \<Rightarrow> string" where
  "dotrimdomain ds c = foldl (\<lambda>c d.
     if length c > length d \<and> strcasecmp_eq (drop (length c - length d) c) d then take (length c - length d) c else c) c ds"

definition bytes_string :: "u8 list \<Rightarrow> string" where
  "bytes_string = List.map (\<lambda>b. char_of (unat b))"

definition trim_name :: "string list \<Rightarrow> u8 list \<Rightarrow> u8 list" where
  "trim_name ds c = take (length (dotrimdomain ds (bytes_string c))) c"

definition trim_domains :: "string list \<Rightarrow> hostent \<Rightarrow> hostent" where
  "trim_domains ds h = h\<lparr>h_name := trim_name ds (h_name h), h_aliases := List.map (trim_name ds) (h_aliases h)\<rparr>"

section \<open>gethostent\<close>

fun gethostent_loop :: "netdb_env \<Rightarrow> nat list \<Rightarrow> netdb_state \<Rightarrow> (hostent option \<times> netdb_state) option" where
  "gethostent_loop env [] st = Some (None, st)"
| "gethostent_loop env (s # ss) st =
     (if s = SERVICE_HOSTS then do {
        (hp, hs) \<leftarrow> gethtent env (nd_hosts st);
        let st = st\<lparr>nd_hosts := hs\<rparr>;
        (case hp of
           Some p \<Rightarrow> Some (Some (host_of_entry p), h_error NETDB_SUCCESS st)
         | None \<Rightarrow> gethostent_loop env ss (h_error HOST_NOT_FOUND st))
      } else gethostent_loop env ss st)"

definition gethostent :: "netdb_env \<Rightarrow> netdb_state \<Rightarrow> (hostent option \<times> netdb_state) option" where
  "gethostent env st = do { (ss, st) \<leftarrow> services env st; gethostent_loop env ss st }"

section \<open>gethostbyname\<close>

definition numeric_name :: "string \<Rightarrow> bool" where
  "numeric_name name \<longleftrightarrow> name \<noteq> [] \<and> isdigit (hd name) \<and> list_all (\<lambda>c. isdigit c \<or> c = CHR ''.'') name \<and> last name \<noteq> CHR ''.''"

text \<open>Asking the name servers: an answer as a host entry, \<open>None\<close> inside if there is none.\<close>

definition bind_answer :: "netdb_env \<Rightarrow> int \<Rightarrow> u8 list \<Rightarrow> string \<Rightarrow> u16 \<Rightarrow> netdb_state \<Rightarrow> (hostent option \<times> netdb_state) option" where
  "bind_answer env n buf name qtype st = do {
     (hp, e, _) \<leftarrow> getanswer (ne_al env) (hs_res (nd_hosts st)) (ne_old env) (ne_hostbuf env) buf (nat n) (string_bytes name) C_IN qtype;
     Some (hp, case e of None \<Rightarrow> st | Some e \<Rightarrow> h_error e st)
   }"

fun byname_loop :: "netdb_env \<Rightarrow> string \<Rightarrow> nat list \<Rightarrow> netdb_state \<Rightarrow> (hostent option \<times> netdb_state) option" where
  "byname_loop env name [] st = Some (None, st)"
| "byname_loop env name (s # ss) st =
     (if s = SERVICE_BIND then do {
        (n, buf, r) \<leftarrow> res_search env (ne_send env) name 1 1 (ne_answer env) (int MAXPACKET) (hs_res (nd_hosts st));
        let st = with_res r st;
        if n < 0 then byname_loop env name ss st
        else do {
          (hp, st) \<leftarrow> bind_answer env n buf name T_A st;
          (case hp of
             Some h \<Rightarrow> Some (Some (trim_domains (nd_trim st) h), h_error NETDB_SUCCESS st)
           | None \<Rightarrow> byname_loop env name ss st)
        }
      }
      else if s = SERVICE_HOSTS then do {
        (hp, hs) \<leftarrow> gethtbyname env (nd_multi st) (dotrimdomain (nd_trim st) name) (nd_hosts st);
        let st = st\<lparr>nd_hosts := hs\<rparr>;
        (case hp of
           Some h \<Rightarrow> Some (Some (trim_domains (nd_trim st) h), h_error NETDB_SUCCESS st)
         | None \<Rightarrow> byname_loop env name ss (h_error HOST_NOT_FOUND st))
      }
      else byname_loop env name ss st)"

text \<open>A name of digits and dots is an address, and needs no service.\<close>

definition gethostbyname :: "netdb_env \<Rightarrow> string \<Rightarrow> netdb_state \<Rightarrow> (hostent option \<times> netdb_state) option" where
  "gethostbyname env name st =
     (if numeric_name name then
        (if inet_addr name = -1 then Some (None, h_error HOST_NOT_FOUND st)
         else Some (Some \<lparr>h_name = string_bytes name, h_aliases = [], h_addrtype = AF_INET, h_length = 4, h_addrs = [le32_bytes (inet_addr name)]\<rparr>,
           h_error NETDB_SUCCESS st))
      else do { (ss, st) \<leftarrow> services env st; byname_loop env name ss st })"

section \<open>gethostbyaddr\<close>

definition reverse_name :: "u8 list \<Rightarrow> string option" where
  "reverse_name addr = (if length addr < 4 then None
     else Some (dec_string (unat (addr ! 3)) @ ''.'' @ dec_string (unat (addr ! 2)) @ ''.'' @ dec_string (unat (addr ! 1)) @ ''.'' @
       dec_string (unat (addr ! 0)) @ ''.in-addr.arpa''))"

text \<open>
  The check for a spoofed name: the name is looked up, without cutting off domains, and must have the address. The
  entry of that lookup is returned.
\<close>

fun address_listed :: "u8 list list \<Rightarrow> u8 list \<Rightarrow> int \<Rightarrow> bool option" where
  "address_listed [] addr len = Some False"
| "address_listed (a # as) addr len = do {
     eq \<leftarrow> bcmp_eq a addr len;
     if eq then Some True else address_listed as addr len
   }"

definition spoof_check :: "netdb_env \<Rightarrow> u8 list \<Rightarrow> int \<Rightarrow> hostent \<Rightarrow> netdb_state \<Rightarrow> (hostent option \<times> netdb_state) option" where
  "spoof_check env addr len h st =
     (if length (h_name h) \<ge> MAXDNAME then Some (None, st)
      else do {
        (hp, st1) \<leftarrow> gethostbyname env (bytes_string (h_name h) @ ''.'') (st\<lparr>nd_trim := []\<rparr>);
        let st1 = st1\<lparr>nd_trim := nd_trim st\<rparr>;
        (case hp of
           None \<Rightarrow> Some (None, h_error HOST_NOT_FOUND st1)
         | Some g \<Rightarrow>
             if h_name h \<noteq> h_name g then Some (None, h_error HOST_NOT_FOUND st1)
             else do {
               listed \<leftarrow> address_listed (h_addrs g) addr len;
               if listed then Some (Some (trim_domains (nd_trim st1) g), h_error NETDB_SUCCESS st1)
               else Some (None, h_error HOST_NOT_FOUND st1)
             })
      })"

fun byaddr_loop :: "netdb_env \<Rightarrow> u8 list \<Rightarrow> int \<Rightarrow> nat list \<Rightarrow> netdb_state \<Rightarrow> (hostent option \<times> netdb_state) option" where
  "byaddr_loop env addr len [] st = Some (None, st)"
| "byaddr_loop env addr len (s # ss) st =
     (if s = SERVICE_BIND then do {
        qbuf \<leftarrow> reverse_name addr;
        (n, buf, r) \<leftarrow> res_query env (ne_send env) qbuf 1 12 (ne_answer env) (int MAXPACKET) (hs_res (nd_hosts st));
        let st = with_res r st;
        if n < 0 then byaddr_loop env addr len ss st
        else do {
          (hp, st) \<leftarrow> bind_answer env n buf qbuf T_PTR st;
          (case hp of
             Some h \<Rightarrow>
               if nd_spoof st then spoof_check env addr len h st
               else Some (Some (trim_domains (nd_trim st) (h\<lparr>h_addrtype := AF_INET, h_length := len, h_addrs := [take 4 addr]\<rparr>)), h_error NETDB_SUCCESS st)
           | None \<Rightarrow> byaddr_loop env addr len ss (h_error HOST_NOT_FOUND st))
        }
      }
      else if s = SERVICE_HOSTS then do {
        (hp, hs) \<leftarrow> gethtbyaddr env addr len AF_INET (nd_hosts st);
        let st = st\<lparr>nd_hosts := hs\<rparr>;
        (case hp of
           Some p \<Rightarrow> Some (Some (host_of_entry p), h_error NETDB_SUCCESS st)
         | None \<Rightarrow> byaddr_loop env addr len ss (h_error HOST_NOT_FOUND st))
      }
      else byaddr_loop env addr len ss st)"

definition gethostbyaddr :: "netdb_env \<Rightarrow> u8 list \<Rightarrow> int \<Rightarrow> int \<Rightarrow> netdb_state \<Rightarrow> (hostent option \<times> netdb_state) option" where
  "gethostbyaddr env addr len type st =
     (if type \<noteq> AF_INET then Some (None, h_error NETDB_INTERNAL st)
      else do { (ss, st) \<leftarrow> services env st; byaddr_loop env addr len ss st })"

section \<open>sethostent and endhostent\<close>

text \<open>The connection to a name server, which \<open>_res_close\<close> ends, belongs to the parameter \<open>ne_send\<close>.\<close>

definition sethostent :: "int \<Rightarrow> netdb_state \<Rightarrow> netdb_state" where
  "sethostent stayopen st = (if stayopen \<noteq> 0
     then (let r = hs_res (nd_hosts st) in with_res (r\<lparr>res_options := res_options r OR (RES_STAYOPEN OR RES_USEVC)\<rparr>) st) else st)"

definition endhostent :: "netdb_state \<Rightarrow> netdb_state" where
  "endhostent st = (let r = hs_res (nd_hosts st);
     st = with_res (r\<lparr>res_options := res_options r AND NOT (RES_STAYOPEN OR RES_USEVC)\<rparr>) st
     in st\<lparr>nd_hosts := endhtent (nd_hosts st)\<rparr>)"

end
