(* ===== verification/Host_Db_Props.thy ===== *)
theory Host_Db_Props
  imports Host_Db Hosts_File_Props Host_Answer_Props Res_Query_Props
begin

text \<open>
  Properties of the host database: the services of \<open>host.conf\<close>, names that are addresses, the order of the sources, and
  what \<open>gethostbyaddr\<close> promises of its result.
\<close>

section \<open>Trimming\<close>

lemma trim_none [simp]: "trim_domains [] h = h"
proof -
  have "trim_name [] c = c" for c by (simp add: trim_name_def dotrimdomain_def bytes_string_def)
  then have "trim_name [] = (\<lambda>c. c)" by (simp add: fun_eq_iff)
  then show ?thesis by (simp add: trim_domains_def)
qed

lemma trim_addrs [simp]: "h_addrs (trim_domains ds h) = h_addrs h"
  by (simp add: trim_domains_def)

lemma dotrim_none [simp]: "dotrimdomain [] c = c"
  by (simp add: dotrimdomain_def)

section \<open>Addresses as names\<close>

lemma ntoa_chars: "c \<in> set (inet_ntoa a) \<Longrightarrow> isdigit c \<or> c = CHR ''.''"
  using dec_string_chars by (auto simp: inet_ntoa_def ntoa_byte_def)

lemma ntoa_ends: "isdigit (hd (inet_ntoa a))" "last (inet_ntoa a) \<noteq> CHR ''.''"
proof -
  have b: "ntoa_byte a i \<noteq> []" for i using dec_string_not_Nil by (simp add: ntoa_byte_def)
  have "hd (ntoa_byte a 0) \<in> set (ntoa_byte a 0)" "last (ntoa_byte a 3) \<in> set (ntoa_byte a 3)" using b by (simp_all add: hd_in_set)
  then have "isdigit (hd (ntoa_byte a 0))" "isdigit (last (ntoa_byte a 3))" unfolding ntoa_byte_def using dec_string_chars by blast+
  then show "isdigit (hd (inet_ntoa a))" "last (inet_ntoa a) \<noteq> CHR ''.''"
    using b isdigit_not_space by (auto simp: inet_ntoa_def ctype_simps)
qed

lemma numeric_ntoa: "numeric_name (inet_ntoa a)"
  using ntoa_ends [of a] ntoa_chars [of _ a] by (auto simp: numeric_name_def list_all_iff inet_ntoa_def)

text \<open>A name that is an address in dotted notation stands for this address, in every state and without any service, except for
  255.255.255.255, which is reported as an unknown host.\<close>
theorem address_as_name:
  "gethostbyname env (inet_ntoa a) st =
     (if a = -1 then Some (None, h_error HOST_NOT_FOUND st)
      else Some (Some \<lparr>h_name = string_bytes (inet_ntoa a), h_aliases = [], h_addrtype = AF_INET, h_length = 4, h_addrs = [le32_bytes a]\<rparr>,
        h_error NETDB_SUCCESS st))"
  by (simp add: gethostbyname_def numeric_ntoa inet_addr_def inet_aton_ntoa_fact)

section \<open>The order of the services\<close>

text \<open>The names of services and what they are stored as.\<close>

definition service_code :: "string \<Rightarrow> nat option" where
  "service_code = [''bind'' \<mapsto> SERVICE_BIND, ''hosts'' \<mapsto> SERVICE_HOSTS, ''nis'' \<mapsto> SERVICE_NIS]"

fun comma_list :: "string list \<Rightarrow> string" where
  "comma_list [] = []"
| "comma_list [w] = w"
| "comma_list (w # ws) = w @ '','' @ comma_list ws"

definition order_line :: "string list \<Rightarrow> string" where
  "order_line ws = ''order '' @ comma_list ws"

lemma service_code_cases: "service_code w \<noteq> None \<Longrightarrow> w = ''bind'' \<or> w = ''hosts'' \<or> w = ''nis''"
  by (auto simp: service_code_def split: if_splits)

lemma service_chars: "service_code w \<noteq> None \<Longrightarrow> \<forall>c\<in>set w. c \<notin> set TOKEN_SEPARATORS \<and> \<not> blank c \<and> c \<noteq> newline \<and> c \<noteq> NUL"
proof -
  assume "service_code w \<noteq> None"
  then consider "w = ''bind''" | "w = ''hosts''" | "w = ''nis''" using service_code_cases by blast
  then show ?thesis by cases (simp_all add: blank_def newline_def NUL_def)
qed

lemma with_res_same: "nd_hosts st = nd_hosts st' \<Longrightarrow> with_res (hs_res (nd_hosts st')) st = st"
  by (simp add: with_res_def flip: netdb_state.surjective)

lemma service_token_code:
  assumes "service_code w = Some k" "res_options (hs_res (nd_hosts st)) AND RES_INIT \<noteq> 0"
  shows "service_token env w cc st = map_option (\<lambda>st. (True, cc + 1, st)) (put_service cc k st)"
proof -
  have "put_service cc k st = Some st' \<Longrightarrow> nd_hosts st' = nd_hosts st" for st' by (auto simp: put_service_def bind_eq_Some_conv)
  moreover have "checkbuf ''bind'' ''bind''" "\<not> checkbuf ''hosts'' ''bind''" "checkbuf ''hosts'' ''hosts''"
    "\<not> checkbuf ''nis'' ''bind''" "\<not> checkbuf ''nis'' ''hosts''" "checkbuf ''nis'' ''nis''" by code_simp+
  moreover from assms(1) have "w = ''bind'' \<and> k = SERVICE_BIND \<or> w = ''hosts'' \<and> k = SERVICE_HOSTS \<or> w = ''nis'' \<and> k = SERVICE_NIS"
    by (auto simp: service_code_def split: if_splits)
  ultimately show ?thesis using assms(2)
    by (cases "put_service cc k st") (auto simp: service_token_def Let_def with_res_same)
qed

text \<open>The services as they are stored, from \<open>cc\<close> on.\<close>

fun put_services :: "nat list \<Rightarrow> nat \<Rightarrow> netdb_state \<Rightarrow> netdb_state option" where
  "put_services [] cc st = Some st"
| "put_services (k # ks) cc st = do { st \<leftarrow> put_service cc k st; put_services ks (cc + 1) st }"

lemma order_loop_list:
  assumes "list_all (\<lambda>w. service_code w \<noteq> None) ws" "ws \<noteq> []" "res_options (hs_res (nd_hosts st)) AND RES_INIT \<noteq> 0"
  shows "order_loop env (comma_list ws) errs cc st
    = map_option (\<lambda>st. (errs, cc + length ws, st)) (put_services (map (the \<circ> service_code) ws) cc st)"
  using assms
proof (induction ws arbitrary: errs cc st rule: comma_list.induct)
  case (2 w)
  then obtain k where k: "service_code w = Some k" by auto
  have c: "\<forall>c\<in>set w. c \<notin> set TOKEN_SEPARATORS" "dropWhile blank w = w" using service_chars [of w] k by (auto simp: dropWhile_eq_self_iff)
  then have "before w TOKEN_SEPARATORS = w" "strpbrk w TOKEN_SEPARATORS = []"
    using before_append [OF c(1), of "[]"] strpbrk_append [OF c(1), of "[]"] by simp_all
  with c(2) service_token_code [OF k 2(3)] k show ?case
    by (subst order_loop.simps) (cases "put_service cc k st"; simp)
next
  case (3 w v va)
  then obtain k where k: "service_code w = Some k" by auto
  let ?r = "'','' @ comma_list (v # va)"
  have c: "\<forall>c\<in>set w. c \<notin> set TOKEN_SEPARATORS" using service_chars [of w] k by auto
  have ne: "w \<noteq> []" using k service_code_cases [of w] by auto
  have d: "dropWhile blank (w @ ?r) = w @ ?r" using service_chars [of w] k ne by (cases w) (auto simp: dropWhile_eq_self_iff)
  have t: "before (w @ ?r) TOKEN_SEPARATORS = w" "strpbrk (w @ ?r) TOKEN_SEPARATORS = ?r"
    using before_append [OF c, of ?r] strpbrk_append [OF c, of ?r] by simp_all
  show ?case
  proof (cases "put_service cc k st")
    case None
    with service_token_code [OF k 3(4)] d t k show ?thesis by (subst order_loop.simps) simp
  next
    case (Some st1)
    then have i: "res_options (hs_res (nd_hosts st1)) AND RES_INIT \<noteq> 0" using 3(4) by (auto simp: put_service_def bind_eq_Some_conv)
    from 3(1) [OF _ _ i, of errs "cc + 1"] 3(2) Some service_token_code [OF k 3(4)] d t k
    show ?thesis by (subst order_loop.simps) (simp add: o_def)
  qed
qed simp

lemma put_services_result:
  assumes "length (nd_order st) = 4"
  shows "put_services ks cc st = (if ks = [] \<or> cc + length ks \<le> 4
     then Some (st\<lparr>nd_order := take cc (nd_order st) @ ks @ drop (cc + length ks) (nd_order st)\<rparr>) else None)"
  using assms
proof (induction ks arbitrary: cc st)
  case (Cons k ks)
  show ?case
  proof (cases "cc < 4")
    case True
    let ?l = "take cc (nd_order st) @ [k] @ drop (cc + 1) (nd_order st)"
    have p: "put_service cc k st = Some (st\<lparr>nd_order := ?l\<rparr>)" using True Cons.prems by (simp add: put_service_def wr_def)
    have l: "length ?l = 4" "take (cc + 1) ?l = take cc (nd_order st) @ [k]" "drop (cc + 1 + length ks) ?l = drop (cc + 1 + length ks) (nd_order st)"
      using True Cons.prems by (simp_all add: min_def add.commute)
    show ?thesis
    proof (cases "ks = []")
      case True
      with p \<open>cc < 4\<close> show ?thesis by simp
    next
      case False
      then have "put_services (k # ks) cc st = put_services ks (cc + 1) (st\<lparr>nd_order := ?l\<rparr>)" using p by simp
      also have "\<dots> = (if cc + 1 + length ks \<le> 4 then Some (st\<lparr>nd_order := take (cc + 1) ?l @ ks @ drop (cc + 1 + length ks) ?l\<rparr>) else None)"
        using Cons.IH [of "st\<lparr>nd_order := ?l\<rparr>" "cc + 1"] l(1) False by simp
      finally show ?thesis unfolding l(2,3) by (simp add: add.assoc)
    qed
  next
    case False
    then show ?thesis using Cons.prems by (simp add: put_service_def wr_def)
  qed
qed simp

lemma order_command:
  assumes "list_all (\<lambda>w. service_code w \<noteq> None) ws" "ws \<noteq> []" "res_options (hs_res (nd_hosts st)) AND RES_INIT \<noteq> 0"
  shows "conf_command env (order_line ws) 0 tdp st
    = map_option (\<lambda>st. (False, length ws, tdp, st)) (put_services (map (the \<circ> service_code) ws) 0 st)"
proof -
  have "checkbuf (order_line ws) ''order''"
    by (simp add: order_line_def checkbuf_def strcasecmp_eq_def isspace_def)
  moreover have "strpbrk (order_line ws) blanks = CHR '' '' # comma_list ws" by (simp add: order_line_def strpbrk_def)
  moreover have "comma_list ws \<noteq> []"
    using assms(1,2) service_code_cases by (cases ws rule: comma_list.cases) auto
  moreover have "order_loop env (CHR '' '' # comma_list ws) False 0 st = order_loop env (comma_list ws) False 0 st"
  proof -
    have d: "dropWhile blank (CHR '' '' # s) = dropWhile blank s" for s by (simp add: blank_def)
    show ?thesis by (subst (1 2) order_loop.simps) (simp only: d)
  qed
  ultimately show ?thesis
    using order_loop_list [OF assms, of env False 0] assms(2)
    by (cases "put_services (map (the \<circ> service_code) ws) 0 st") (simp_all add: conf_command_def Let_def)
qed

text \<open>C23: A \<open>host.conf\<close> readable by all with the line \<open>order\<close> and up to three services makes the library ask them in this order; four or more are
  stored behind the end of the array.\<close>
theorem order_line_obeyed:
  assumes "host_conf_path env = Some path" "net_files env path = Some (text_of [order_line ws])" "ne_public env path"
    and "\<And>k. k \<noteq> ''RESOLV_HOST_CONF'' \<Longrightarrow> net_getenv env k = None"
    and "list_all (\<lambda>w. service_code w \<noteq> None) ws" "ws \<noteq> []" "full_line (order_line ws)"
    and "length (nd_order st) = 4" "\<not> nd_done st" "res_options (hs_res (nd_hosts st)) AND RES_INIT \<noteq> 0"
  shows "if length ws \<le> 3 then \<exists>st'. services env st = Some (map (the \<circ> service_code) ws, st') \<and> nd_done st' else services env st = None"
proof -
  let ?ks = "map (the \<circ> service_code) ws"
  have "\<forall>k\<in>set ?ks. k \<noteq> SERVICE_NONE"
    using assms(5) by (auto simp: list_all_iff service_code_def split: if_splits)
  then have ks: "takeWhile (\<lambda>s. s \<noteq> SERVICE_NONE) (?ks @ SERVICE_NONE # l) = ?ks" for l
    by (simp add: takeWhile_append takeWhile_all)
  have fl: "file_lines (BUFSIZ - 1) (text_of [order_line ws]) = [order_line ws @ [newline]]"
    using assms(7) file_lines_newline [of "order_line ws" "BUFSIZ - 1" "[]"] by (simp add: full_line_def)
  have b: "before (cstr (order_line ws @ [newline])) [newline] = order_line ws"
    using cstr_full_line [OF assms(7)] before_append [of "order_line ws" "[newline]" "[newline]"] assms(7) by (auto simp: full_line_def)
  have d: "dropWhile isspace (order_line ws) = order_line ws" "hd (order_line ws) \<noteq> CHR ''#''" "order_line ws \<noteq> []"
    by (simp_all add: order_line_def isspace_def)
  have lines: "host_conf_lines env [order_line ws @ [newline]] 0 0 st = map_option (\<lambda>st. (length ws, 0, st)) (put_services ?ks 0 st)"
    using b d order_command [OF assms(5,6,10), of env 0] by (cases "put_services ?ks 0 st") (simp_all add: Let_def)
  have env: "env_services env x = Some x" "env_trims env t (env_flags env x) = x" for x t
    using assms(4) by (simp_all add: env_services_def env_flags_def env_trims_def)
  show ?thesis
  proof (cases "length ws \<le> 4")
    case True
    let ?st = "st\<lparr>nd_order := ?ks @ drop (length ws) (nd_order st)\<rparr>"
    have p: "put_services ?ks 0 st = Some ?st" using put_services_result [OF assms(8), of ?ks 0] True by simp
    show ?thesis
    proof (cases "length ws \<le> 3")
      case True
      then have "put_service (length ws) SERVICE_NONE ?st = Some (?st\<lparr>nd_order := ?ks @ SERVICE_NONE # drop (length ws + 1) (nd_order st)\<rparr>)"
        using assms(8) by (simp add: put_service_def wr_def)
      with True p lines fl env ks assms(1-3,9) show ?thesis
        by (simp add: services_def init_services_def conf_services_def)
    next
      case False
      then have "put_service (length ws) SERVICE_NONE ?st = None" using assms(8) by (simp add: put_service_def wr_def)
      with False p lines fl assms(1-3,9) show ?thesis by (simp add: services_def init_services_def conf_services_def)
    qed
  next
    case False
    then have "put_services ?ks 0 st = None" using put_services_result [OF assms(8), of ?ks 0] assms(6) by simp
    with False lines fl assms(1-3,9) show ?thesis by (simp add: services_def init_services_def conf_services_def)
  qed
qed

section \<open>Hosts file first, then the name servers\<close>

text \<open>
  What the name servers do, as far as it is used: to every query with the question for the address of the name \<open>ls\<close> they
  send the answer with these header and records. (What else \<open>send\<close> does to the state leaves the sort list empty.)
\<close>

definition servers_answer :: "netdb_env \<Rightarrow> u8 list list \<Rightarrow> u8 list \<Rightarrow> (u8 list \<times> u8 list) list \<Rightarrow> bool" where
  "servers_answer env ls hdr rs \<longleftrightarrow> (\<forall>msg ans s. drop 12 msg = wire_name ls @ [0, 1, 0, 1] \<longrightarrow>
     (\<exists>rest s'. ne_send env msg ans (int MAXPACKET) s = Some (int (length (answer_message hdr ls rs)), answer_message hdr ls rs @ rest, s') \<and>
        res_nsort s' = 0))"

text \<open>
  A name of valid labels with as many dots as \<open>ndots\<close> asks for, so that it is queried as it is first (without a dot at its
  end), and a good answer to it: one question, no error, 1 to 34 addresses.
\<close>

definition servers_know :: "netdb_env \<Rightarrow> res_state \<Rightarrow> string \<Rightarrow> u8 list list \<Rightarrow> u8 list \<Rightarrow> (u8 list \<times> u8 list) list \<Rightarrow> bool" where
  "servers_know env r name ls hdr rs \<longleftrightarrow>
     string_bytes (query_name name None) = text_name ls \<and> list_all valid_label ls \<and> length (wire_name ls) \<le> 1000 \<and>
     length (text_name ls) \<le> 1024 \<and> 0 < dots name \<and> res_ndots r \<le> dots name \<and> res_options r AND RES_INIT \<noteq> 0 \<and>
     list_all proper_record rs \<and> rs \<noteq> [] \<and> length rs \<le> 34 \<and> length hdr = 12 \<and> getshort hdr 4 = Some 1 \<and>
     getshort hdr 6 = Some (of_nat (length rs)) \<and> hdr ! 3 AND 0xf = 0 \<and> servers_answer env ls hdr rs"

lemma search_answered:
  assumes k: "servers_know env r name ls hdr rs" and "4 \<le> length ans"
  shows "\<exists>rest r'. res_search env (ne_send env) name 1 1 ans (int MAXPACKET) r
      = Some (int (length (answer_message hdr ls rs)), answer_message hdr ls rs @ rest, r') \<and> res_nsort r' = 0"
proof -
  let ?m = "answer_message hdr ls rs"
  have h: "length hdr = 12" "getshort hdr 6 = Some (of_nat (length rs))" "hdr ! 3 AND 0xf = 0" using k by (simp_all add: servers_know_def)
  have n0: "(of_nat (length rs) :: u16) \<noteq> 0"
  proof
    assume "(of_nat (length rs) :: u16) = 0"
    then have "unat (of_nat (length rs) :: u16) = 0" by simp
    moreover have "unat (of_nat (length rs) :: u16) = length rs" using k by (simp add: servers_know_def unat_of_nat)
    ultimately show False using k by (simp add: servers_know_def)
  qed
  define s where "s = r\<lparr>res_errno := ENOERR, res_h_errno := HOST_NOT_FOUND\<rparr>"
  have i: "res_options s AND RES_INIT \<noteq> 0" using k by (simp add: s_def servers_know_def)
  have b: "string_bytes (query_name name None) = text_name ls" "list_all valid_label ls" "length (wire_name ls) \<le> 1000"
    using k by (simp_all add: servers_know_def)
  obtain msg where msg: "drop 12 msg = wire_name ls @ [ucast (drop_bit 8 (of_int 1 :: u16)), ucast (of_int 1 :: u16),
            ucast (drop_bit 8 (of_int 1 :: u16)), ucast (of_int 1 :: u16)]"
    and q: "res_query env (ne_send env) (query_name name None) 1 1 ans (int MAXPACKET) s = do {
       (n, answer, st) \<leftarrow> ne_send env msg (ans[3 := ans ! 3 AND 0xf0]) (int MAXPACKET) (s\<lparr>res_id := res_id s + 1\<rparr>);
       if n < 0 then Some (n, answer, st\<lparr>res_h_errno := TRY_AGAIN\<rparr>)
       else do {
         rcode \<leftarrow> answer_rcode answer;
         ancount \<leftarrow> getshort answer 6;
         if rcode \<noteq> 0 \<or> ancount = 0 then Some (-1, answer, st\<lparr>res_h_errno := rcode_h_errno rcode\<rparr>)
         else Some (n, answer, st)
       }
     }" using res_query_valid [OF b i assms(2)] by blast
  have "drop 12 msg = wire_name ls @ [0, 1, 0, 1]" using msg by simp
  then obtain rest s' where a: "ne_send env msg (ans[3 := ans ! 3 AND 0xf0]) (int MAXPACKET) (s\<lparr>res_id := res_id s + 1\<rparr>)
      = Some (int (length ?m), ?m @ rest, s')" "res_nsort s' = 0"
    using k unfolding servers_know_def servers_answer_def by blast
  have rc: "answer_rcode (?m @ rest) = Some 0" using h(1,3) by (simp add: answer_rcode_def rd_def answer_message_def nth_append)
  have ac: "getshort (?m @ rest) 6 = Some (of_nat (length rs))"
    using h(1,2) by (simp add: getshort_def answer_message_def nth_append)
  have rq: "res_query env (ne_send env) (query_name name None) 1 1 ans (int MAXPACKET) s = Some (int (length ?m), ?m @ rest, s')"
    unfolding q a(1) using rc ac n0 by simp
  have pos: "0 < int (length ?m)" by (simp add: answer_message_def)
  have d: "count_list name (CHR ''.'') \<noteq> 0" "res_ndots r \<le> count_list name (CHR ''.'')" "res_options r AND RES_INIT \<noteq> 0"
    using k by (simp_all add: servers_know_def dots_def)
  have "res_querydomain env (ne_send env) name None 1 1 ans (int MAXPACKET) s = Some (int (length ?m), ?m @ rest, s')"
    using rq i by (simp add: res_querydomain_def)
  then have "search_as_is env (ne_send env) name 1 1 ans (int MAXPACKET) True s = Some (Some (int (length ?m)), ?m @ rest, s')"
    using pos by (simp add: search_as_is_def)
  then have "res_search env (ne_send env) name 1 1 ans (int MAXPACKET) r = Some (int (length ?m), ?m @ rest, s')"
    using d by (simp add: res_search_def s_def [symmetric] Let_def)
  with a(2) show ?thesis by blast
qed

text \<open>C4: With the services \<open>hosts\<close> and \<open>bind\<close> in this order, \<open>multi\<close> off and no domains to cut off, a name that is no
  address in digits is looked for in the hosts file first: when the file has it as a name or alias, \<open>gethostbyname\<close>
  returns the first such entry, whatever name servers there are. When the file does not have it, name servers that know the
  name are believed: the entry has the name of their answer, no aliases, and the addresses in order. \<open>h_errno\<close> says that
  the name has been found. (Fewer than 36 lines of the file name the local host, and the buffers have their sizes.)\<close>
theorem hosts_then_dns:
  assumes "nd_done st" "SERVICE_NONE \<in> set (nd_order st)" "takeWhile (\<lambda>s. s \<noteq> SERVICE_NONE) (nd_order st) = [SERVICE_HOSTS, SERVICE_BIND]"
    and "nd_trim st = []" "\<not> nd_multi st" "\<not> numeric_name name"
    and "hosts_ready env path xs (nd_hosts st)"
    and "gethostname (host_env.truncate env) True (int MAXHOSTNAMELEN) (res_names (hs_res (nd_hosts st))) = Some ((ret, h), ns)"
    and "length (filter (entry_names (local_name env h)) (entries xs)) \<le> MAXADDRS"
    and "4 \<le> length (ne_answer env)" "length (ne_hostbuf env) = hostbuf_size"
  shows "case List.find (entry_names name) (entries xs) of
      Some p \<Rightarrow> \<exists>st'. gethostbyname env name st = Some (Some (host_of_entry p), st') \<and> res_h_errno (hs_res (nd_hosts st')) = NETDB_SUCCESS
    | None \<Rightarrow> \<forall>ls hdr rs. servers_know env (hs_res (nd_hosts st)) name ls hdr rs \<longrightarrow>
        (\<exists>st'. gethostbyname env name st = Some (Some \<lparr>h_name = text_name ls, h_aliases = [], h_addrtype = AF_INET, h_length = 4,
             h_addrs = map snd rs\<rparr>, st') \<and> res_h_errno (hs_res (nd_hosts st')) = NETDB_SUCCESS)"
proof -
  obtain e where e: "gethtbyname env False name (nd_hosts st) = Some (map_option host_of_entry (List.find (entry_names name) (entries xs)),
       set_h_errno e ((nd_hosts st)\<lparr>hs_path := path, hs_db := closed_db, hs_res := (hs_res (nd_hosts st))\<lparr>res_names := ns\<rparr>\<rparr>))"
    using gethtbyname_ready [OF assms(7-9)] by blast
  have sv: "services env st = Some ([SERVICE_HOSTS, SERVICE_BIND], st)" using assms(1-3) by (simp add: services_def)
  show ?thesis
  proof (cases "List.find (entry_names name) (entries xs)")
    case (Some p)
    with e sv assms(4-6) show ?thesis
      by (simp add: gethostbyname_def h_error_def set_h_errno_def)
  next
    case None
    let ?r = "(hs_res (nd_hosts st))\<lparr>res_names := ns, res_h_errno := HOST_NOT_FOUND\<rparr>"
    have "\<exists>st'. gethostbyname env name st = Some (Some \<lparr>h_name = text_name ls, h_aliases = [], h_addrtype = AF_INET, h_length = 4,
             h_addrs = map snd rs\<rparr>, st') \<and> res_h_errno (hs_res (nd_hosts st')) = NETDB_SUCCESS"
      if k: "servers_know env (hs_res (nd_hosts st)) name ls hdr rs" for ls hdr rs
    proof -
      have "servers_know env ?r name ls hdr rs" using k by (simp add: servers_know_def)
      from search_answered [OF this assms(10)] obtain rest r where
        r: "res_search env (ne_send env) name 1 1 (ne_answer env) (int MAXPACKET) ?r
          = Some (int (length (answer_message hdr ls rs)), answer_message hdr ls rs @ rest, r)" "res_nsort r = 0" by blast
      obtain buf where "getanswer (ne_al env) r (ne_old env) (ne_hostbuf env) (answer_message hdr ls rs @ rest) (length (answer_message hdr ls rs)) (string_bytes name) 1 1
          = Some (Some \<lparr>h_name = text_name ls, h_aliases = [], h_addrtype = AF_INET, h_length = 4, h_addrs = map snd rs\<rparr>, None, buf)"
        using getanswer_address_records [OF _ _ _ _ _ _ _ _ assms(11) r(2)] k unfolding servers_know_def by blast
      with None e sv assms(4-6) r show ?thesis
        by (simp add: gethostbyname_def h_error_def set_h_errno_def with_res_def bind_answer_def)
    qed
    with None show ?thesis by simp
  qed
qed

section \<open>The entry of an address\<close>

lemma db_find_match:
  assumes "db_find get match st = Some (Some p, st')"
  shows "match p"
proof -
  have "fst (Some p, st') = Some p \<longrightarrow> match p"
  proof (rule db_find.raw_induct [where P = "\<lambda>get match' st r. fst r = Some p \<longrightarrow> match' p", OF _ assms])
    fix find and get :: "'b \<Rightarrow> ('a option \<times> 'b) option" and match' :: "'a \<Rightarrow> bool" and d y
    assume IH: "\<And>get match' d y. find get match' d = Some y \<Longrightarrow> fst y = Some p \<longrightarrow> match' p"
      and eq: "do { (e, d) \<leftarrow> get d; (case e of None \<Rightarrow> Some (None, d) | Some x \<Rightarrow> if match' x then Some (Some x, d) else find get match' d) } = Some y"
    from eq obtain e d1 where "get d = Some (e, d1)" by (auto simp: bind_eq_Some_conv)
    with eq IH [of get match' d1 y] show "fst y = Some p \<longrightarrow> match' p"
      by (cases e) (auto split: if_splits)
  qed
  then show ?thesis by simp
qed

lemma gethtbyaddr_match:
  assumes "gethtbyaddr env addr 4 type st = Some (Some p, st')" "length addr = 4"
  shows "le32_bytes (ht_addr p) = addr"
proof -
  from assms(1) obtain s1 s2 where "db_find (gethtent env) (\<lambda>p. AF_INET = type \<and> bcmp_eq (le32_bytes (ht_addr p)) addr 4 \<noteq> Some False) s1 = Some (Some p, s2)"
    by (auto simp: gethtbyaddr_def bind_eq_Some_conv split: option.splits if_splits)
  from db_find_match [OF this] assms(2) show ?thesis
    by (simp add: bcmp_eq_def le32_bytes_length split: if_splits)
qed

lemma address_listed_prefix:
  "address_listed as addr 4 = Some True \<Longrightarrow> length addr = 4 \<Longrightarrow> \<exists>a\<in>set as. take 4 a = addr"
  by (induction as) (auto simp: bcmp_eq_def bind_eq_Some_conv split: if_splits)

lemma bind_answer_state:
  "bind_answer env n buf name qtype st = Some (hp, st') \<Longrightarrow> st' = st \<or> (\<exists>e. st' = h_error e st)"
  by (auto simp: bind_answer_def bind_eq_Some_conv split: option.splits)

text \<open>
  The states of the resolver and of the hosts file a call for \<open>addr\<close> passes through before it has an answer: what
  the queries for the pointer, the searches of the hosts file that fail and \<open>h_errno\<close> make of the first one.
\<close>

inductive asked :: "netdb_env \<Rightarrow> u8 list \<Rightarrow> hosts_state \<Rightarrow> hosts_state \<Rightarrow> bool" for env addr hs0 where
  asked_start: "asked env addr hs0 hs0"
| asked_bind: "asked env addr hs0 hs \<Longrightarrow> reverse_name addr = Some qbuf \<Longrightarrow>
    res_query env (ne_send env) qbuf 1 12 (ne_answer env) (int MAXPACKET) (hs_res hs) = Some (n, buf, r) \<Longrightarrow>
    asked env addr hs0 (hs\<lparr>hs_res := r\<rparr>)"
| asked_file: "asked env addr hs0 hs \<Longrightarrow> gethtbyaddr env addr 4 AF_INET hs = Some (None, hs') \<Longrightarrow> asked env addr hs0 hs'"
| asked_error: "asked env addr hs0 hs \<Longrightarrow> asked env addr hs0 (set_h_errno e hs)"

text \<open>
  From the state \<open>st\<close> the name servers give a name for \<open>addr\<close>, \<open>gethostbyname\<close> in the state that leaves resolves that
  name, with a dot behind it and no domains cut off, to an entry \<open>g\<close> of the same name with the address, and the result
  \<open>h\<close> is \<open>g\<close> with the domains cut off.
\<close>

definition confirmed :: "netdb_env \<Rightarrow> u8 list \<Rightarrow> netdb_state \<Rightarrow> hostent \<Rightarrow> bool" where
  "confirmed env addr st h \<longleftrightarrow> (\<exists>qbuf n buf r claim s g s'. reverse_name addr = Some qbuf \<and>
     res_query env (ne_send env) qbuf 1 12 (ne_answer env) (int MAXPACKET) (hs_res (nd_hosts st)) = Some (n, buf, r) \<and>
     bind_answer env n buf qbuf T_PTR (with_res r st) = Some (Some claim, s) \<and>
     gethostbyname env (bytes_string (h_name claim) @ ''.'') (s\<lparr>nd_trim := []\<rparr>) = Some (Some g, s') \<and>
     h_name g = h_name claim \<and> (\<exists>a\<in>set (h_addrs g). take 4 a = addr) \<and> h = trim_domains (nd_trim st) g)"

lemma spoof_check_confirmed:
  assumes "spoof_check env addr 4 claim st = Some (Some h, st')" "length addr = 4"
  obtains g s' where "gethostbyname env (bytes_string (h_name claim) @ ''.'') (st\<lparr>nd_trim := []\<rparr>) = Some (Some g, s')"
    "h_name g = h_name claim" "\<exists>a\<in>set (h_addrs g). take 4 a = addr" "h = trim_domains (nd_trim st) g"
proof -
  have "length (h_name claim) < MAXDNAME" using assms(1) by (simp add: spoof_check_def split: if_splits)
  with assms(1) obtain hp s' where q: "gethostbyname env (bytes_string (h_name claim) @ ''.'') (st\<lparr>nd_trim := []\<rparr>) = Some (hp, s')"
    by (auto simp: spoof_check_def bind_eq_Some_conv)
  show thesis
  proof (cases hp)
    case None
    with assms(1) q \<open>length (h_name claim) < MAXDNAME\<close> show ?thesis by (simp add: spoof_check_def Let_def)
  next
    case (Some g)
    let ?s = "s'\<lparr>nd_trim := nd_trim st\<rparr>"
    have eq: "spoof_check env addr 4 claim st =
        (if h_name claim \<noteq> h_name g then Some (None, h_error HOST_NOT_FOUND ?s)
         else Option.bind (address_listed (h_addrs g) addr 4) (\<lambda>listed. if listed
           then Some (Some (trim_domains (nd_trim ?s) g), h_error NETDB_SUCCESS ?s) else Some (None, h_error HOST_NOT_FOUND ?s)))"
      using \<open>length (h_name claim) < MAXDNAME\<close> by (simp add: spoof_check_def q Some Let_def)
    have n: "h_name claim = h_name g" using assms(1) unfolding eq by (rule contrapos_pp) simp
    have "address_listed (h_addrs g) addr 4 = Some True \<and> h = trim_domains (nd_trim st) g"
      using assms(1) unfolding eq by (cases "address_listed (h_addrs g) addr 4") (simp_all add: n split: if_splits)
    then show ?thesis using that [of g s'] address_listed_prefix [OF _ assms(2)] q Some n [symmetric] by blast
  qed
qed

lemma asked_answer:
  assumes "asked env addr hs0 (nd_hosts st)" "reverse_name addr = Some qbuf"
    "res_query env (ne_send env) qbuf 1 12 (ne_answer env) (int MAXPACKET) (hs_res (nd_hosts st)) = Some (n, buf, r)"
    "bind_answer env m buf' qbuf qt (with_res r st) = Some (hp, st1)"
  shows "asked env addr hs0 (nd_hosts st1)"
  using asked_bind [OF assms(1-3)] bind_answer_state [OF assms(4)]
  by (auto simp: with_res_def h_error_def intro: asked_error)

text \<open>Where the result of the loop comes from; \<open>st0\<close> is the state the call started in.\<close>

definition byaddr_good :: "netdb_env \<Rightarrow> u8 list \<Rightarrow> netdb_state \<Rightarrow> hostent \<Rightarrow> bool" where
  "byaddr_good env addr st0 h \<longleftrightarrow> (\<exists>a\<in>set (h_addrs h). take 4 a = addr) \<and>
     (nd_spoof st0 \<longrightarrow> (\<exists>hs. asked env addr (nd_hosts st0) hs \<and>
        ((\<exists>p hs'. gethtbyaddr env addr 4 AF_INET hs = Some (Some p, hs') \<and> h = host_of_entry p) \<or>
         confirmed env addr (st0\<lparr>nd_hosts := hs\<rparr>) h)))"

lemma byaddr_bind:
  assumes "reverse_name addr = Some qbuf"
    "res_query env (ne_send env) qbuf 1 12 (ne_answer env) (int MAXPACKET) (hs_res (nd_hosts st)) = Some (n, buf, r)"
    "bind_answer env n buf qbuf T_PTR (with_res r st) = Some (Some claim, st1)"
    "(if nd_spoof st1 then spoof_check env addr 4 claim st1
      else Some (Some (trim_domains (nd_trim st1) (claim\<lparr>h_addrtype := AF_INET, h_length := 4, h_addrs := [take 4 addr]\<rparr>)), h_error NETDB_SUCCESS st1))
     = Some (Some h, st')"
    "asked env addr (nd_hosts st0) (nd_hosts st)" "st = st0\<lparr>nd_hosts := nd_hosts st\<rparr>" "length addr = 4"
  shows "byaddr_good env addr st0 h"
proof -
  have set: "nd_spoof st1 = nd_spoof st" "nd_trim st1 = nd_trim st"
    using bind_answer_state [OF assms(3)] by (auto simp: with_res_def h_error_def)
  have sp: "nd_spoof st = nd_spoof st0" using arg_cong [OF assms(6), of nd_spoof] by simp
  show ?thesis
  proof (cases "nd_spoof st")
    case True
    with assms(4) set have "spoof_check env addr 4 claim st1 = Some (Some h, st')" by simp
    from spoof_check_confirmed [OF this assms(7)] obtain g s' where
      g: "gethostbyname env (bytes_string (h_name claim) @ ''.'') (st1\<lparr>nd_trim := []\<rparr>) = Some (Some g, s')"
      "h_name g = h_name claim" "\<exists>a\<in>set (h_addrs g). take 4 a = addr" "h = trim_domains (nd_trim st1) g" .
    have h: "h = trim_domains (nd_trim st) g" using g(4) set(2) by simp
    have "confirmed env addr st h"
      unfolding confirmed_def
      by (intro exI conjI, rule assms(1), rule assms(2), rule assms(3), rule g(1), rule g(2), rule g(3), rule h)
    then have "confirmed env addr (st0\<lparr>nd_hosts := nd_hosts st\<rparr>) h" using assms(6) by simp
    with assms(5) g(3,4) show ?thesis unfolding byaddr_good_def by auto
  next
    case False
    with assms(4,7) set sp show ?thesis by (auto simp: byaddr_good_def)
  qed
qed

lemma byaddr_loop_result:
  assumes "length addr = 4"
  shows "byaddr_loop env addr 4 ss st = Some (Some h, st') \<Longrightarrow> asked env addr (nd_hosts st0) (nd_hosts st) \<Longrightarrow>
     st = st0\<lparr>nd_hosts := nd_hosts st\<rparr> \<Longrightarrow> byaddr_good env addr st0 h"
proof (induction ss arbitrary: st)
  case (Cons s ss)
  consider "s = SERVICE_BIND" | "s = SERVICE_HOSTS" | "s \<noteq> SERVICE_BIND" "s \<noteq> SERVICE_HOSTS" by blast
  then show ?case
  proof cases
    case 1
    with Cons.prems(1) obtain qbuf n buf r where q: "reverse_name addr = Some qbuf"
      "res_query env (ne_send env) qbuf 1 12 (ne_answer env) (int MAXPACKET) (hs_res (nd_hosts st)) = Some (n, buf, r)"
      by (auto simp: bind_eq_Some_conv)
    show ?thesis
    proof (cases "n < 0")
      case True
      with Cons.prems(1) 1 q have "byaddr_loop env addr 4 ss (with_res r st) = Some (Some h, st')" by simp
      moreover have "asked env addr (nd_hosts st0) (nd_hosts (with_res r st))"
        using asked_bind [OF Cons.prems(2) q] by (simp add: with_res_def)
      moreover have "with_res r st = st0\<lparr>nd_hosts := nd_hosts (with_res r st)\<rparr>"
        by (subst (1) Cons.prems(3)) (simp add: with_res_def)
      ultimately show ?thesis by (rule Cons.IH)
    next
      case False
      with Cons.prems(1) 1 q obtain hp st1 where b: "bind_answer env n buf qbuf T_PTR (with_res r st) = Some (hp, st1)"
        by (auto simp: bind_eq_Some_conv)
      show ?thesis
      proof (cases hp)
        case None
        with Cons.prems(1) 1 q b False have "byaddr_loop env addr 4 ss (h_error HOST_NOT_FOUND st1) = Some (Some h, st')" by simp
        moreover have "asked env addr (nd_hosts st0) (nd_hosts (h_error HOST_NOT_FOUND st1))"
          using asked_error [OF asked_answer [OF Cons.prems(2) q b]] by (simp add: h_error_def)
        moreover have "h_error HOST_NOT_FOUND st1 = st0\<lparr>nd_hosts := nd_hosts (h_error HOST_NOT_FOUND st1)\<rparr>"
          using bind_answer_state [OF b] by (subst (asm) (1 2) Cons.prems(3)) (auto simp: with_res_def h_error_def)
        ultimately show ?thesis by (rule Cons.IH)
      next
        case (Some claim)
        with Cons.prems(1) 1 q b False
        have "(if nd_spoof st1 then spoof_check env addr 4 claim st1
          else Some (Some (trim_domains (nd_trim st1) (claim\<lparr>h_addrtype := AF_INET, h_length := 4, h_addrs := [take 4 addr]\<rparr>)), h_error NETDB_SUCCESS st1))
            = Some (Some h, st')" by simp
        from byaddr_bind [OF q b [unfolded Some] this Cons.prems(2,3) assms] show ?thesis .
      qed
    qed
  next
    case 2
    with Cons.prems(1) obtain hp hs where g: "gethtbyaddr env addr 4 AF_INET (nd_hosts st) = Some (hp, hs)"
      by (auto simp: bind_eq_Some_conv)
    show ?thesis
    proof (cases hp)
      case None
      with Cons.prems(1) 2 g have "byaddr_loop env addr 4 ss (h_error HOST_NOT_FOUND (st\<lparr>nd_hosts := hs\<rparr>)) = Some (Some h, st')" by simp
      moreover have "asked env addr (nd_hosts st0) (nd_hosts (h_error HOST_NOT_FOUND (st\<lparr>nd_hosts := hs\<rparr>)))"
        using asked_error [OF asked_file [OF Cons.prems(2) g [unfolded None]]] by (simp add: h_error_def)
      moreover have "h_error HOST_NOT_FOUND (st\<lparr>nd_hosts := hs\<rparr>)
          = st0\<lparr>nd_hosts := nd_hosts (h_error HOST_NOT_FOUND (st\<lparr>nd_hosts := hs\<rparr>))\<rparr>"
        by (subst (1) Cons.prems(3)) (simp add: h_error_def)
      ultimately show ?thesis by (rule Cons.IH)
    next
      case (Some p)
      with g have "le32_bytes (ht_addr p) = addr" using gethtbyaddr_match assms by blast
      moreover have "h = host_of_entry p" using Cons.prems(1) 2 g Some by simp
      moreover have "\<exists>hs'. gethtbyaddr env addr 4 AF_INET (nd_hosts st) = Some (Some p, hs')" using g Some by simp
      ultimately show ?thesis using Cons.prems(2) assms by (auto simp: byaddr_good_def host_of_entry_def)
    qed
  next
    case 3
    then show ?thesis using Cons by simp
  qed
qed simp

text \<open>C9: For the four bytes of an address, whatever entry \<open>gethostbyaddr\<close> returns has an address with these bytes. With the
  services known and the check for spoofed names on, in whatever order they are asked, the entry is one that the
  hosts file has for the address, or it is confirmed: the name the name servers gave for the address resolves, by
  \<open>gethostbyname\<close> in the state this leaves, to the entry, which has that name and the address. So a name server that claims
  a name which does not resolve to the address is not believed.\<close>
theorem gethostbyaddr_has_address:
  assumes "gethostbyaddr env addr 4 type st = Some (Some h, st')" "length addr = 4"
  shows "type = AF_INET \<and> (\<exists>a\<in>set (h_addrs h). take 4 a = addr) \<and>
     (nd_done st \<and> nd_spoof st \<longrightarrow> (\<exists>hs. asked env addr (nd_hosts st) hs \<and>
        ((\<exists>p hs'. gethtbyaddr env addr 4 AF_INET hs = Some (Some p, hs') \<and> h = host_of_entry p) \<or>
         confirmed env addr (st\<lparr>nd_hosts := hs\<rparr>) h)))"
proof -
  have type: "type = AF_INET" using assms by (auto simp: gethostbyaddr_def split: if_splits)
  with assms obtain ss st1 where ss: "services env st = Some (ss, st1)" "byaddr_loop env addr 4 ss st1 = Some (Some h, st')"
    by (auto simp: gethostbyaddr_def bind_eq_Some_conv)
  have g: "byaddr_good env addr st1 h" by (rule byaddr_loop_result [OF assms(2) ss(2) asked_start]) simp
  moreover have "nd_done st \<Longrightarrow> st1 = st" using ss(1) by (auto simp: services_def split: if_splits)
  ultimately show ?thesis using type by (auto simp: byaddr_good_def)
qed

text \<open>The setting \<open>warn off\<close> of \<open>RESOLV_SPOOF_CHECK\<close> switches warnings on: the comparison with \<open>warn\<close> comes first and
  accepts everything up to a space.\<close>
theorem warn_off_warns:
  assumes "net_getenv env ''RESOLV_SPOOF_CHECK'' = Some ''warn off''"
  shows "nd_alert (env_flags env st)"
proof -
  have "checkbuf ''warn off'' ''warn''" by code_simp
  with assms show ?thesis by (simp add: env_flags_def Let_def split: option.split)
qed

section \<open>A host database to ask\<close>

definition demo_files :: "string \<Rightarrow> string option" where
  "demo_files = [''c:/hosts'' \<mapsto> file_text host_line [Inl ''lan'', Inr gw, Inr gw2], ''/hc'' \<mapsto> text_of [order_line [''hosts'', ''bind'']]]"

definition netdb_demo :: "(string \<Rightarrow> string option) \<Rightarrow> send \<Rightarrow> netdb_env" where
  "netdb_demo getenv send = \<lparr>net_files = demo_files, net_getenv = getenv, net_cfg = None,
     he_addrs = [], he_dos_name = None, he_malloc = (\<lambda>_. True), re_junk = [], re_randomid = 7, he_localname = [], ne_send = send, ne_al = 0,
     ne_hostbuf = replicate hostbuf_size 0, ne_answer = replicate MAXPACKET 0, ne_old = (0, 0), ne_public = (\<lambda>_. True)\<rparr>"

definition demo_getenv :: "string \<Rightarrow> string option" where
  "demo_getenv = [''windir'' \<mapsto> ''c:'', ''HOSTNAME'' \<mapsto> ''pc.lan'']"

definition demo_netdb :: "nat list \<Rightarrow> netdb_state" where
  "demo_netdb order = \<lparr>nd_hosts = idle_hosts\<lparr>hs_res := zero_res\<lparr>res_options := RES_INIT\<rparr>\<rparr>, nd_order = order, nd_done = True, nd_multi = False,
     nd_spoof = False, nd_alert = False, nd_reorder = False, nd_trim = []\<rparr>"

text \<open>A name server that gives two addresses to every name.\<close>

definition demo_header :: "u8 list" where "demo_header = [0, 1, 0x81, 0x80, 0, 1, 0, 2, 0, 0, 0, 0]"
definition demo_records :: "(u8 list \<times> u8 list) list" where
  "demo_records = [([0, 0, 0, 9], [10, 0, 0, 3]), ([0, 0, 0, 9], [10, 0, 0, 4])]"
definition demo_answer :: "u8 list" where "demo_answer = answer_message demo_header [[0x61], [0x62]] demo_records"

definition two_addresses :: send where
  "two_addresses msg ans anslen st = Some (int (length demo_answer), demo_answer @ [], st)"

theorem order_line_obeyed_witness:
  "\<exists>st'. services (netdb_demo [''RESOLV_HOST_CONF'' \<mapsto> ''/hc''] two_addresses) ((demo_netdb [0, 0, 0, 0])\<lparr>nd_done := False\<rparr>) = Some ([SERVICE_HOSTS, SERVICE_BIND], st')"
proof -
  let ?env = "netdb_demo [''RESOLV_HOST_CONF'' \<mapsto> ''/hc''] two_addresses" and ?st = "(demo_netdb [0, 0, 0, 0])\<lparr>nd_done := False\<rparr>"
  have "host_conf_path ?env = Some ''/hc''" by (simp add: host_conf_path_def netdb_demo_def)
  moreover have "net_files ?env ''/hc'' = Some (text_of [order_line [''hosts'', ''bind'']])" by (simp add: netdb_demo_def demo_files_def)
  moreover have "ne_public ?env ''/hc''" by (simp add: netdb_demo_def)
  moreover have "k \<noteq> ''RESOLV_HOST_CONF'' \<Longrightarrow> net_getenv ?env k = None" for k by (simp add: netdb_demo_def)
  moreover have "list_all (\<lambda>w. service_code w \<noteq> None) [''hosts'', ''bind'']" by (simp add: service_code_def)
  moreover have "full_line (order_line [''hosts'', ''bind''])" by (simp add: full_line_def order_line_def BUFSIZ_def newline_def NUL_def)
  moreover have "length (nd_order ?st) = 4" "\<not> nd_done ?st" "res_options (hs_res (nd_hosts ?st)) AND RES_INIT \<noteq> 0" by (simp_all add: demo_netdb_def)
  ultimately have "\<exists>st'. services ?env ?st = Some (map (the \<circ> service_code) [''hosts'', ''bind''], st')"
    using order_line_obeyed [of ?env "''/hc''" "[''hosts'', ''bind'']" ?st] by auto
  then show ?thesis by (simp add: service_code_def)
qed

lemma netdb_demo_ready:
  "hosts_ready (netdb_demo demo_getenv send) ''c:/hosts'' [Inl ''lan'', Inr gw, Inr gw2] (nd_hosts (demo_netdb order))"
  using demo_hosts_ok
  by (simp add: hosts_ready_def hosts_path_def db_path_def netdb_demo_def demo_files_def demo_getenv_def net_env.truncate_def PATH_MAX_def idle_hosts_def
      demo_netdb_def full_line_def BUFSIZ_def newline_def NUL_def)

text \<open>
  A name server that knows the name a.b with two addresses, and gives it for the pointer of every address.
\<close>

definition demo_question :: "u8 list list" where
  "demo_question = [[0x33], [0x30], [0x30], [0x31, 0x30], [0x69, 0x6e, 0x2d, 0x61, 0x64, 0x64, 0x72], [0x61, 0x72, 0x70, 0x61]]"

definition pointer_header :: "u8 list" where "pointer_header = [0, 1, 0x81, 0x80, 0, 1, 0, 1, 0, 0, 0, 0]"

definition demo_pointer :: "u8 list" where
  "demo_pointer = pointer_message pointer_header demo_question [0, 0, 0, 9] 5 [[0x61], [0x62]]"

definition pointing :: send where
  "pointing msg ans anslen st =
     (let m = (if drop 12 msg = wire_name [[0x61], [0x62]] @ [0, 1, 0, 1] then demo_answer else demo_pointer)
      in Some (int (length m), m @ [], st\<lparr>res_nsort := 0\<rparr>))"

lemma demo_labels: "list_all valid_label [[0x61], [0x62]]" "list_all valid_label demo_question"
  by (simp_all add: valid_label_def space_byte_def demo_question_def)

lemma demo_know:
  assumes "name = ''a.b'' \<or> name = ''a.b.''" "res_ndots r \<le> 1" "res_options r AND RES_INIT \<noteq> 0" "ne_send env = pointing"
  shows "servers_know env r name [[0x61], [0x62]] demo_header demo_records"
proof -
  have "query_name name None = ''a.b''" using assms(1) by (auto simp: query_name_def MAXDNAME_def)
  then have "string_bytes (query_name name None) = text_name [[0x61], [0x62]]" by (simp add: string_bytes_def)
  moreover have "0 < dots name" "res_ndots r \<le> dots name" using assms(1,2) by (auto simp: dots_def)
  moreover have "servers_answer env [[0x61], [0x62]] demo_header demo_records"
    unfolding servers_answer_def assms(4) pointing_def by (simp add: demo_answer_def Let_def)
  ultimately show ?thesis
    using assms(3) demo_labels(1)
    by (simp add: servers_know_def proper_record_def demo_records_def demo_header_def getshort_def wire_name_def)
qed

lemma demo_gethostname:
  "\<exists>ns. gethostname (host_env.truncate (netdb_demo demo_getenv send)) True (int MAXHOSTNAMELEN) (res_names (hs_res (nd_hosts (demo_netdb order))))
     = Some ((0, Some ''pc.lan''), ns)"
  by (simp add: gethostname_def netdb_demo_def demo_netdb_def demo_getenv_def host_env.truncate_def zero_res_def no_names_def hostname_source_def
        try_strdup_def keep_names_def MAXGETHOSTNAME_def up_to_dot_def tolower_def ctype_simps Let_def)

text \<open>The name a.b is found by the name server, the alias BACKUP in the hosts file, without any name server.\<close>

theorem hosts_then_dns_witness:
  "(\<exists>st'. gethostbyname (netdb_demo demo_getenv pointing) ''a.b'' (demo_netdb [2, 1, 0, 0]) = Some (Some
     \<lparr>h_name = [0x61, 0x2e, 0x62], h_aliases = [], h_addrtype = AF_INET, h_length = 4, h_addrs = [[10, 0, 0, 3], [10, 0, 0, 4]]\<rparr>, st')) \<and>
   (\<exists>st'. gethostbyname (netdb_demo demo_getenv (\<lambda>_ _ _ _. None)) ''BACKUP'' (demo_netdb [2, 1, 0, 0]) = Some (Some (host_of_entry gw2), st'))"
proof -
  let ?env = "netdb_demo demo_getenv" and ?st = "demo_netdb [2, 1, 0, 0]"
  let ?xs = "[Inl ''lan'', Inr gw, Inr gw2]"
  have l: "length (filter (entry_names (local_name (?env send) (Some ''pc.lan''))) (entries ?xs)) \<le> MAXADDRS" for send
    by (simp add: local_name_def demo_not_local del: filter.simps)
  have o: "nd_done ?st" "SERVICE_NONE \<in> set (nd_order ?st)" "takeWhile (\<lambda>s. s \<noteq> SERVICE_NONE) (nd_order ?st) = [SERVICE_HOSTS, SERVICE_BIND]"
    "nd_trim ?st = []" "\<not> nd_multi ?st"
    by (simp_all add: demo_netdb_def)
  have nn: "\<not> numeric_name ''a.b''" "\<not> numeric_name ''BACKUP''" by (simp_all add: numeric_name_def ctype_simps)
  have b: "4 \<le> length (ne_answer (?env send))" "length (ne_hostbuf (?env send)) = hostbuf_size" for send
    by (simp_all add: netdb_demo_def MAXPACKET_def)
  have f: "List.find (entry_names ''a.b'') (entries ?xs) = None" "List.find (entry_names ''BACKUP'') (entries ?xs) = Some gw2" by code_simp+
  obtain ns where ns: "gethostname (host_env.truncate (?env pointing)) True (int MAXHOSTNAMELEN) (res_names (hs_res (nd_hosts ?st))) = Some ((0, Some ''pc.lan''), ns)"
    using demo_gethostname by blast
  have "res_ndots (hs_res (nd_hosts ?st)) \<le> 1" "res_options (hs_res (nd_hosts ?st)) AND RES_INIT \<noteq> 0" "ne_send (?env pointing) = pointing"
    by (simp_all add: demo_netdb_def zero_res_def netdb_demo_def)
  then have k: "servers_know (?env pointing) (hs_res (nd_hosts ?st)) ''a.b'' [[0x61], [0x62]] demo_header demo_records"
    by (intro demo_know) simp_all
  have "\<exists>st'. gethostbyname (?env pointing) ''a.b'' ?st = Some (Some \<lparr>h_name = text_name [[0x61], [0x62]], h_aliases = [],
      h_addrtype = AF_INET, h_length = 4, h_addrs = map snd demo_records\<rparr>, st')"
    using hosts_then_dns [OF o nn(1) netdb_demo_ready ns l b] k unfolding f option.case by blast
  moreover obtain ns where ns: "gethostname (host_env.truncate (?env (\<lambda>_ _ _ _. None))) True (int MAXHOSTNAMELEN) (res_names (hs_res (nd_hosts ?st))) = Some ((0, Some ''pc.lan''), ns)"
    using demo_gethostname by blast
  have "\<exists>st'. gethostbyname (?env (\<lambda>_ _ _ _. None)) ''BACKUP'' ?st = Some (Some (host_of_entry gw2), st')"
    using hosts_then_dns [OF o nn(2) netdb_demo_ready ns l b] unfolding f option.case by blast
  ultimately show ?thesis by (simp add: demo_records_def)
qed

text \<open>The pointer of 10.0.0.3 leads to a.b, and the address of a.b is checked.\<close>

theorem gethostbyaddr_has_address_witness:
  "\<exists>h st'. gethostbyaddr (netdb_demo demo_getenv pointing) [10, 0, 0, 3] 4 AF_INET ((demo_netdb [1, 0, 0, 0])\<lparr>nd_spoof := True\<rparr>) = Some (Some h, st') \<and>
     h_name h = [0x61, 0x2e, 0x62] \<and>
     (\<exists>hs. confirmed (netdb_demo demo_getenv pointing) [10, 0, 0, 3] ((demo_netdb [1, 0, 0, 0])\<lparr>nd_spoof := True, nd_hosts := hs\<rparr>) h)"
proof -
  let ?env = "netdb_demo demo_getenv pointing" and ?st = "(demo_netdb [1, 0, 0, 0])\<lparr>nd_spoof := True\<rparr>"
  let ?addr = "[10, 0, 0, 3] :: u8 list" and ?q = "''3.0.0.10.in-addr.arpa''"
  let ?g = "\<lparr>h_name = text_name [[0x61], [0x62]], h_aliases = [], h_addrtype = AF_INET, h_length = 4, h_addrs = map snd demo_records\<rparr> :: hostent"
  let ?c = "\<lparr>h_name = text_name [[0x61], [0x62]], h_aliases = [], h_addrtype = 0, h_length = 0, h_addrs = []\<rparr> :: hostent"
  have q: "reverse_name ?addr = Some ?q" by code_simp
  let ?r = "hs_res (nd_hosts ?st)"
  have r: "res_options ?r AND RES_INIT \<noteq> 0" "res_ndots ?r \<le> 1" by (simp_all add: demo_netdb_def zero_res_def)
  have bytes: "string_bytes ?q = text_name demo_question" by (simp add: string_bytes_def demo_question_def)
  have wq: "length (wire_name demo_question) \<le> 1000" "length (text_name demo_question) \<le> 1024"
    by (simp_all add: wire_name_def demo_question_def)
  have ans: "4 \<le> length (ne_answer ?env)" by (simp add: netdb_demo_def MAXPACKET_def)
  obtain msg where msg: "drop 12 msg = wire_name demo_question @ [ucast (drop_bit 8 (of_int 12 :: u16)), ucast (of_int 12 :: u16),
            ucast (drop_bit 8 (of_int 1 :: u16)), ucast (of_int 1 :: u16)]"
    and rq: "res_query ?env pointing ?q 1 12 (ne_answer ?env) (int MAXPACKET) ?r = do {
       (n, answer, st) \<leftarrow> pointing msg ((ne_answer ?env)[3 := ne_answer ?env ! 3 AND 0xf0]) (int MAXPACKET) (?r\<lparr>res_id := res_id ?r + 1\<rparr>);
       if n < 0 then Some (n, answer, st\<lparr>res_h_errno := TRY_AGAIN\<rparr>)
       else do {
         rcode \<leftarrow> answer_rcode answer;
         ancount \<leftarrow> getshort answer 6;
         if rcode \<noteq> 0 \<or> ancount = 0 then Some (-1, answer, st\<lparr>res_h_errno := rcode_h_errno rcode\<rparr>)
         else Some (n, answer, st)
       }
     }" using res_query_valid [OF bytes demo_labels(2) wq(1) r(1) ans] by blast
  have ne: "drop 12 msg \<noteq> wire_name [[0x61], [0x62]] @ [0, 1, 0, 1]"
    unfolding msg by (simp add: wire_name_def demo_question_def)
  have ph: "length pointer_header = 12" "getshort pointer_header 4 = Some 1" "getshort pointer_header 6 = Some 1"
    by (simp_all add: pointer_header_def getshort_def)
  have rc: "answer_rcode demo_pointer = Some 0" "getshort demo_pointer 6 = Some 1"
    by (simp_all add: demo_pointer_def pointer_message_def pointer_header_def answer_rcode_def rd_def getshort_def)
  let ?r1 = "?r\<lparr>res_id := res_id ?r + 1, res_nsort := 0\<rparr>"
  have rq1: "res_query ?env (ne_send ?env) ?q 1 12 (ne_answer ?env) (int MAXPACKET) ?r = Some (int (length demo_pointer), demo_pointer @ [], ?r1)"
    using rq ne rc by (simp add: pointing_def Let_def netdb_demo_def)
  have hb: "length (ne_hostbuf ?env) = hostbuf_size" "ne_old ?env = (0, 0)" by (simp_all add: netdb_demo_def)
  have "\<exists>buf. getanswer (ne_al ?env) ?r1 (0, 0) (ne_hostbuf ?env) (demo_pointer @ []) (length demo_pointer) (string_bytes ?q) 1 12 = Some (Some ?c, None, buf)"
    unfolding demo_pointer_def
    using getanswer_pointer_record [OF demo_labels(2) wq(2) demo_labels(1) _ ph _ _ hb(1), of "[0, 0, 0, 9]" "ne_al ?env" ?r1 "(0, 0)" 5 "[]" "string_bytes ?q"]
    by simp
  then have ba: "bind_answer ?env (int (length demo_pointer)) (demo_pointer @ []) ?q T_PTR (with_res ?r1 ?st) = Some (Some ?c, with_res ?r1 ?st)"
    using hb(2) by (auto simp: bind_answer_def with_res_def)
  have nm: "bytes_string (h_name ?c) @ ''.'' = ''a.b.''" 
  proof -
    have "bytes_string [0x61, 0x2e, 0x62] = ''a.b''" by code_simp
    then show ?thesis by simp
  qed
  have "servers_know ?env ?r1 ''a.b.'' [[0x61], [0x62]] demo_header demo_records"
    by (rule demo_know) (use r in \<open>simp_all add: netdb_demo_def\<close>)
  from search_answered [OF this ans] obtain rest r2 where
    r2: "res_search ?env (ne_send ?env) ''a.b.'' 1 1 (ne_answer ?env) (int MAXPACKET) ?r1
      = Some (int (length demo_answer), demo_answer @ rest, r2)" "res_nsort r2 = 0"
    by (auto simp: demo_answer_def)
  have "\<exists>buf. getanswer (ne_al ?env) r2 (ne_old ?env) (ne_hostbuf ?env) (demo_answer @ rest) (length demo_answer) (string_bytes ''a.b.'') 1 1
      = Some (Some ?g, None, buf)"
    unfolding demo_answer_def
    by (rule getanswer_address_records)
      (use hb(1) r2(2) demo_labels in \<open>simp_all add: proper_record_def demo_records_def demo_header_def getshort_def\<close>)
  then have gb: "\<exists>s'. gethostbyname ?env ''a.b.'' ((with_res ?r1 ?st)\<lparr>nd_trim := []\<rparr>) = Some (Some ?g, s')"
    using r2(1) by (auto simp: gethostbyname_def numeric_name_def ctype_simps services_def demo_netdb_def with_res_def bind_answer_def)
  then obtain s' where s': "gethostbyname ?env (bytes_string (h_name ?c) @ ''.'') ((with_res ?r1 ?st)\<lparr>nd_trim := []\<rparr>) = Some (Some ?g, s')"
    unfolding nm by blast
  have al: "address_listed (h_addrs ?g) ?addr 4 = Some True" by (simp add: demo_records_def bcmp_eq_def)
  have "spoof_check ?env ?addr 4 ?c (with_res ?r1 ?st) = Some (Some ?g, h_error NETDB_SUCCESS (s'\<lparr>nd_trim := []\<rparr>))"
    unfolding spoof_check_def s' using al by (simp add: MAXDNAME_def with_res_def demo_netdb_def)
  then have "\<exists>st'. gethostbyaddr ?env ?addr 4 AF_INET ?st = Some (Some ?g, st')"
    using q rq1 ba by (simp add: gethostbyaddr_def services_def demo_netdb_def with_res_def)
  then obtain st' where st': "gethostbyaddr ?env ?addr 4 AF_INET ?st = Some (Some ?g, st')" by blast
  have "host_of_entry p \<noteq> ?g" for p
  proof
    assume "host_of_entry p = ?g"
    then have "h_addrs (host_of_entry p) = h_addrs ?g" by (rule arg_cong)
    then show False by (simp add: host_of_entry_def demo_records_def)
  qed
  moreover have "nd_done ?st \<and> nd_spoof ?st" by (simp add: demo_netdb_def)
  ultimately have "\<exists>hs. confirmed ?env ?addr (?st\<lparr>nd_hosts := hs\<rparr>) ?g"
    using gethostbyaddr_has_address [OF st'] by force
  with st' show ?thesis by (intro exI [of _ ?g] exI [of _ st']) simp
qed

theorem warn_off_warns_witness:
  "nd_alert (env_flags (netdb_demo [''RESOLV_SPOOF_CHECK'' \<mapsto> ''warn off''] two_addresses) (demo_netdb [2, 0, 0, 0]))"
  by (rule warn_off_warns) (simp add: netdb_demo_def)

end
