(* ===== verification/Spec2Isabelle.thy ===== *)
theory Spec2Isabelle
  imports Inet_Addr Res_Comp Ini_File Addr_Config Sock_Props Call_Props Unix_Props Driver_Files Csock_Props
    Net_Db Host_Name Res_Init_Props Res_Query_Props Host_Answer_Props Hosts_File_Props Host_Db_Props
begin

text \<open>
  A verification library for libsocket, the Berkeley socket library for DJGPP programs.

  \<^bold>\<open>The program.\<close> An application calls \<open>socket\<close>, \<open>bind\<close>, \<open>connect\<close> and their like (\<open>src/*.c\<close>). Each call finds
  the descriptor \<open>LSCK_SOCKET\<close> of a socket through the file system extension (FSEXT) of the C library, checks its
  state and hands over to the interface of the socket, a table of function pointers (\<open>LSCK_IF\<close>,
  \<open>include/lsck/if.h\<close>). The interface for the Unix domain (\<open>src/unix/u_*.c\<close>) sends messages with a header of its
  own through mailslots; a driver makes file descriptors of these (\<open>mail_fse.c\<close>, \<open>mailslot.c\<close>). The interface csock
  (\<open>src/csock\<close>) for the Internet domain calls the Windows driver \<open>sock.vxd\<close>, which has 31 descriptors. Beside
  the calls stand, under \<open>src/inet\<close>, routines for Internet addresses and names: the databases of services, protocols
  and networks, and the resolver, which reads its configuration, builds queries, expands the search list and makes host
  entries of the answers; the host database asks the hosts file and the resolver in the order of \<open>host.conf\<close>. The files \<open>src/ini.c\<close> and \<open>src/config.c\<close> read the configuration of the library.

  \<^bold>\<open>Conventions.\<close> Bytes are \<open>8 word\<close>, C's unsigned integers words of their width and its signed ones \<open>int\<close> where
  they cannot overflow. An object in memory is the list of its bytes, a pointer into it an offset; reading or
  writing outside is \<open>None\<close>. A stateful function takes a state record and returns \<open>Some (value, state)\<close>, or \<open>None\<close>
  where the C code is undefined or does not return. Pointers from \<open>malloc\<close> are numbers that are not used again, so
  that an access through a freed pointer is \<open>None\<close>. \<open>errno\<close> is a field of the state.

  \<^item> \<open>Lsck_Prelude\<close>: strings, character classes, memory operations, and the collections \<open>mem_simps\<close> and \<open>ctype_simps\<close>.
  \<^item> \<open>Inet_Addr\<close>: \<open>src/inet/i_*.c\<close>: reading and printing addresses, classes, network numbers, NSAP addresses. Round
    trips, the accepted texts, the arithmetic of networks and hosts.
  \<^item> \<open>Res_Comp\<close>: \<open>src/inet/r_comp.c\<close>: compressed domain names. Compression followed by expansion is the identity,
    nothing is stored outside the buffer (compression without lists of earlier names), on the failing paths of expansion
    too; expansion always returns (each pointer followed is counted, and the count is bounded by the length of the message),
    and may read a single byte behind the end of the message.
  \<^item> \<open>Ini_File\<close>: \<open>src/ini.c\<close>, \<open>src/config.c\<close>: configuration files and their lookup.
  \<^item> \<open>Lsck_State\<close>: the state of the socket layer (descriptors, table \<open>__lsck_socket\<close>, heap, file descriptors with
    their FSEXT data, interfaces as records of optional operations), and the start common to all calls (\<open>fsext.c\<close>).
  \<^item> \<open>Sock_Addr\<close>, \<open>Sock_Io\<close>, \<open>Sock_Opt\<close>, \<open>Sock_Life\<close>: the calls themselves, by group: names and connections;
    transfer; options and controls; creation, \<open>accept\<close>, closing, start and end of the library, interface names.
  \<^item> \<open>Lsck_Contract\<close>: the invariant \<open>consistent\<close> of the layer, what a call may change (\<open>frame\<close>), and the locale
    \<open>interface_contract\<close> of the laws an interface keeps. \<open>Sock_Rules\<close>, \<open>Sock_Safety\<close>, \<open>Sock_Table\<close> and
    \<open>Sock_Create\<close> prove in it, once for every interface, that each call keeps the invariant. With \<open>total\<close> the laws and
    the results also say that calls return.
  \<^item> \<open>Unix_State\<close>, \<open>Unix_If\<close>, \<open>Unix_Io\<close>: the Unix domain interface, over the C library as a parameter \<open>unix_os\<close>.
    \<open>Unix_Contract\<close> interprets \<open>interface_contract\<close> on it.
  \<^item> \<open>Mailslot\<close>, \<open>Mail_Fse\<close>: the mailslot driver and its file descriptors, over LAN Manager as a parameter; \<open>mail_os\<close>
    is the C library made of them.
    \<open>Driver_Props\<close> shows which calls of LAN Manager a write and a read make and what they make of the answers, and how
    a message of a stream travels; nothing is supposed of LAN Manager, whose mailslots may lose messages. \<open>Driver_Files\<close>
    shows that each operation keeps the table of slots and the file descriptors in step, and how a blocking write repeats.
  \<^item> \<open>Csock_State\<close>, \<open>Csock_If\<close>: the interface csock, over the calls of the driver as a parameter; \<open>Csock_Contract\<close>
    interprets \<open>interface_contract\<close> on it as well, and \<open>Csock_Props\<close> shows that no two sockets have the same descriptor
    of the driver, however they are made, accepted and closed (over a driver of version 0 whatever it answers, over one of a
    later version where it reports the descriptors it holds), and what the calls do to the mode of a socket and its names.
  \<^item> \<open>Contract_Rules\<close>, \<open>Preserves\<close>: rules both interpretations share.
  \<^item> \<open>Addr_Config\<close>: \<open>src/addr.c\<close>: addresses, routes and name servers from the configuration file, with a round trip.
  \<^item> \<open>Text_Db\<close>: databases of lines of text; the locale \<open>text_db\<close> gives the lookup of the first entry that fits.
    \<open>Net_Db\<close> interprets it for \<open>/etc/services\<close>, \<open>/etc/protocols\<close> and \<open>/etc/networks\<close> (\<open>src/inet/g*.c\<close>).
  \<^item> \<open>Host_Name\<close>: the name of the host and its domain (\<open>src/hstnm.c\<close>, \<open>src/uname.c\<close>, \<open>src/oldlibc/gethostn.c\<close>).
  \<^item> \<open>Res_Init\<close>, \<open>Res_Init_Props\<close>: \<open>src/inet/r_init.c\<close>, \<open>src/dnsaddr.c\<close>: the start of the resolver from
    \<open>resolv.conf\<close> and the environment; the state it leaves is well formed and says what the file says.
  \<^item> \<open>Res_Query\<close>, \<open>Res_Query_Props\<close>: \<open>src/inet/r_mkqry.c\<close>, \<open>src/inet/r_qry.c\<close>: queries are read back as they were
    asked, and \<open>res_search\<close> refines the search for the first known name of a list.
  \<^item> \<open>Host_Answer\<close>, \<open>Host_Answer_Props\<close>: \<open>getanswer\<close> and \<open>addrsort\<close> of \<open>src/inet/ghstnmad.c\<close>: the answer of a name server as
    a host entry, and the order of its addresses.
  \<^item> \<open>Hosts_File\<close>, \<open>Hosts_File_Props\<close>: the hosts file (\<open>_gethtent\<close>, \<open>_gethtbyname\<close>, \<open>_gethtbyaddr\<close> of the same file), a
    fourth interpretation of \<open>text_db\<close>: entries are found, all addresses of a host are returned, and lines it misreads.
  \<^item> \<open>Host_Db\<close>, \<open>Host_Db_Props\<close>: \<open>init_services\<close> with \<open>host.conf\<close>, \<open>gethostbyname\<close> and \<open>gethostbyaddr\<close> over both sources, with
    the check for spoofed names; \<open>src/inet/shstent.c\<close>. They compose the hosts file, the search and the answers.
  \<^item> \<open>Sock_Calls\<close>: an application as a sequence of calls: the step relation and the states it can reach.
  \<^item> \<open>Sock_Props\<close>, \<open>Call_Props\<close>, \<open>Unix_Props\<close>: the properties of the calls and of the Unix domain interface. The invariant
    holds in every state reached with sockets closed by \<open>close\<close>; \<open>closesocket\<close>, which leaves the file descriptor with a freed
    socket, is the one call after which it may not.

  \<^bold>\<open>Bounds and fuel.\<close> There is no fuel: loops over lists and counters are total functions, the loops that may run for ever
  (\<open>recv_stream_loop\<close>, \<open>recv_dgram_loop\<close>, \<open>csock_accept_call\<close>, \<open>csock_select_wait\<close>, and the blocking loops of the
  driver) are partial functions whose value is \<open>None\<close> when they do not end. Sizes are those of the code: 256 sockets, addresses
  of 110 bytes, messages of 4080, 31 descriptors of \<open>sock.vxd\<close>, \<open>BUFSIZ\<close> 16384, 35 addresses of a host.

  \<^bold>\<open>Parameters.\<close> \<open>malloc\<close>, the free file descriptor, \<open>getenv\<close>, the contents of files, the clock, random numbers,
  uninitialised memory, LAN Manager, \<open>sock.vxd\<close>, the identification of queries and the exchange with the name servers
  (\<open>send\<close>, for \<open>res_send\<close>), and whether a configuration file is readable by all (\<open>fstat\<close>) are arguments; the laws assumed
  of them are part of each theorem.

  \<^bold>\<open>Not modelled.\<close> The interface wsock (control blocks in memory shared with a Windows driver, inline assembly), the
  readers of the Windows registry, the exchange with name servers
  over sockets and the printer of their messages, the remote commands, net groups, the tables of error messages, the
  installation program, and the debugging output of all parts.
\<close>

end
